(* ===== verification/Prelude.thy ===== *)
theory Prelude
  imports Main "HOL-Library.Monad_Syntax" "HOL-Library.State_Monad"
begin

text \<open>
  Shared vocabulary of the development: the collections of facts that the component theories
  fill and use, and generic lemmas about association lists, first-match search and filtered
  updates that the models of Go maps, loops and table rows share.
\<close>

named_theorems pres_intro \<open>rules that show that a program preserves a property of the world\<close>
named_theorems run_simps \<open>equations that evaluate a program on a world\<close>
named_theorems agg_simps \<open>case tables of the status derivations\<close>

section \<open>Sums used as Go's (value, error) results\<close>

abbreviation ok :: "'a \<Rightarrow> 'e + 'a" where
  "ok \<equiv> Inr"

abbreviation err :: "'e \<Rightarrow> 'e + 'a" where
  "err \<equiv> Inl"

lemma isl_sum_case [simp]:
  "isl (case r of Inl e \<Rightarrow> Inl (f e) | Inr x \<Rightarrow> Inr (g x)) = isl r"
  by (cases r) auto

section \<open>Go maps as association lists\<close>

text \<open>A Go map whose iteration order matters is an association list; assigning a key that is
  present keeps its place, a new key is appended (Go promises no order at all, so every theorem
  quantifies over the list).\<close>

fun map_put :: "'k \<Rightarrow> 'v \<Rightarrow> ('k \<times> 'v) list \<Rightarrow> ('k \<times> 'v) list" where
  "map_put k v [] = [(k, v)]"
| "map_put k v (p # ps) = (if fst p = k then (k, v) # ps else p # map_put k v ps)"

lemma map_of_map_put: "map_of (map_put k v ps) = (map_of ps)(k \<mapsto> v)"
  by (induction ps) auto

lemma map_put_not_Nil [simp]: "map_put k v ps \<noteq> []"
  by (cases ps) auto

lemma keys_map_put: "fst ` set (map_put k v ps) = insert k (fst ` set ps)"
  by (induction ps) auto

lemma distinct_map_put:
  "distinct (map fst ps) \<Longrightarrow> distinct (map fst (map_put k v ps))"
proof (induction ps)
  case (Cons p ps)
  then show ?case
    using keys_map_put [of k v ps] by (auto simp: image_iff)
qed simp

section \<open>First match and filtered updates\<close>

lemma find_None_iff2: "List.find P xs = None \<longleftrightarrow> (\<forall>x\<in>set xs. \<not> P x)"
  by (induction xs) auto

lemma find_SomeD: "List.find P xs = Some x \<Longrightarrow> x \<in> set xs \<and> P x"
  by (induction xs) (auto split: if_splits)

lemma find_Some_ex: "\<lbrakk>x \<in> set xs; P x\<rbrakk> \<Longrightarrow> \<exists>y. List.find P xs = Some y"
  by (induction xs) auto

lemma find_cong_set: "(\<And>x. x \<in> set xs \<Longrightarrow> P x = Q x) \<Longrightarrow> List.find P xs = List.find Q xs"
  by (induction xs) auto

lemma find_distinct_key:
  assumes "distinct (map f xs)" and "x \<in> set xs"
  shows "List.find (\<lambda>y. f y = f x) xs = Some x"
  using assms by (induction xs) (auto simp: image_iff)

lemma find_map_upd:
  assumes "\<And>x. P (g x) = P x"
  shows "List.find P (map g xs) = map_option g (List.find P xs)"
  using assms by (induction xs) auto

definition upd_where :: "('a \<Rightarrow> bool) \<Rightarrow> ('a \<Rightarrow> 'a) \<Rightarrow> 'a list \<Rightarrow> 'a list" where
  "upd_where P f xs = map (\<lambda>x. if P x then f x else x) xs"

lemma upd_where_Nil [simp]: "upd_where P f [] = []"
  by (simp add: upd_where_def)

lemma upd_where_Cons [simp]:
  "upd_where P f (x # xs) = (if P x then f x else x) # upd_where P f xs"
  by (simp add: upd_where_def)

lemma set_upd_where: "set (upd_where P f xs) = (\<lambda>x. if P x then f x else x) ` set xs"
  by (simp add: upd_where_def)

lemma length_upd_where [simp]: "length (upd_where P f xs) = length xs"
  by (simp add: upd_where_def)

lemma upd_where_key:
  assumes "\<And>x. key (f x) = key x"
  shows "map key (upd_where P f xs) = map key xs"
  using assms by (induction xs) auto

lemma upd_where_keys:
  assumes "\<And>x. key (f x) = key x"
  shows "key ` set (upd_where P f xs) = key ` set xs"
  using arg_cong [OF upd_where_key [of key f P xs], of set] assms by simp

lemma upd_where_none: "(\<And>x. x \<in> set xs \<Longrightarrow> \<not> P x) \<Longrightarrow> upd_where P f xs = xs"
  by (induction xs) auto

lemma upd_where_ball:
  assumes "\<forall>x\<in>set xs. Q x" and "\<And>x. \<lbrakk>x \<in> set xs; P x; Q x\<rbrakk> \<Longrightarrow> Q (f x)"
  shows "\<forall>x\<in>set (upd_where P f xs). Q x"
  using assms by (auto simp: set_upd_where)

lemma all_list_all2: "\<lbrakk>list_all2 R xs ys; y \<in> set ys\<rbrakk> \<Longrightarrow> \<exists>x\<in>set xs. R x y"
  by (metis in_set_conv_nth list_all2_lengthD list_all2_nthD2 nth_mem)

end
