(* ===== verification/Lifecycle.thy ===== *)
theory Lifecycle
  imports GoStd "HOL-Library.Multiset"
begin

text \<open>
  pkg/lifecycle/consts.go and consts/consts.go: the state types of delivery requests, of the three
  phases of an artifact operation and of tenants and bootstrap jobs, with the two derivations
  DeriveImport and DeriveAggregateStatus. A Go string type with named constants is a datatype with
  one constructor per constant and one more for Go's zero value, the empty string.
\<close>

section \<open>States\<close>

datatype RequestState =
  RequestUnset | RequestPending | RequestStarting | RequestReady | RequestFailed
| RequestTrGenerating | RequestTrFailed

datatype ImportState =
  ImportUnset | ImportNotStarted | ImportQueued | ImportDisabled | ImportInProgress
| ImportFailed | ImportComplete

datatype DeployState =
  DeployUnset | DeployNotStarted | DeployQueued | DeployDisabled | DeployInProgress
| DeployFailed | DeployComplete

datatype AggregateStatus =
  AggUnset | AggUnknown | AggPending | AggWaitingApprove | AggInProgress | AggFailed
| AggAwaitingImport | AggImporting | AggImportFailed | AggWaitingDeploy | AggDeploying
| AggDeployFailed | AggDeployed | AggCanceled

datatype ConditionState = CondError | CondWarn | CondSuccess

datatype TenantLifecycleState =
  TenantUnset | TenantDraft | TenantConfigured | TenantNotReady | TenantReadying | TenantReady

datatype BootstrapJobType =
  JobTypeUnset | JobTypePreview | JobTypeApply | JobTypeRetry | JobTypeValidate

datatype BootstrapJobState =
  JobStateUnset | JobRunning | JobWaitingUserAction | JobPartiallyApplied | JobFailed | JobFinished

datatype BootstrapFailureType =
  FailureNone | FailureWaitingUserAction | FailurePermissionBlocked | FailureRemoteSystemError
| FailureConfigMismatch

datatype PrerequisiteStatus =
  PrereqUnset | PrereqMissing | PrereqReady | PrereqFailed | PrereqRegistering

text \<open>The string values, for the messages that contain them.\<close>

fun request_str :: "RequestState \<Rightarrow> string" where
  "request_str RequestUnset = ''''"
| "request_str RequestPending = ''NOT_REQUESTED''"
| "request_str RequestStarting = ''REQUESTING''"
| "request_str RequestReady = ''READY''"
| "request_str RequestFailed = ''FAILED''"
| "request_str RequestTrGenerating = ''TR_GENERATING''"
| "request_str RequestTrFailed = ''TR_FAILED''"

fun import_str :: "ImportState \<Rightarrow> string" where
  "import_str ImportUnset = ''''"
| "import_str ImportNotStarted = ''NOT_STARTED''"
| "import_str ImportQueued = ''QUEUED''"
| "import_str ImportDisabled = ''IMPORT_DISABLED''"
| "import_str ImportInProgress = ''IN_PROGRESS''"
| "import_str ImportFailed = ''FAILED''"
| "import_str ImportComplete = ''COMPLETE''"

fun deploy_str :: "DeployState \<Rightarrow> string" where
  "deploy_str DeployUnset = ''''"
| "deploy_str DeployNotStarted = ''NOT_STARTED''"
| "deploy_str DeployQueued = ''QUEUED''"
| "deploy_str DeployDisabled = ''DEPLOY_DISABLED''"
| "deploy_str DeployInProgress = ''IN_PROGRESS''"
| "deploy_str DeployFailed = ''FAILED''"
| "deploy_str DeployComplete = ''COMPLETE''"

fun agg_str :: "AggregateStatus \<Rightarrow> string" where
  "agg_str AggUnset = ''''"
| "agg_str AggUnknown = ''UNKNOWN''"
| "agg_str AggPending = ''PENDING''"
| "agg_str AggWaitingApprove = ''WAITING_APPROVAL''"
| "agg_str AggInProgress = ''IN_PROGRESS''"
| "agg_str AggFailed = ''FAILED''"
| "agg_str AggAwaitingImport = ''AWAITING_IMPORT''"
| "agg_str AggImporting = ''IMPORTING''"
| "agg_str AggImportFailed = ''IMPORT_FAILED''"
| "agg_str AggWaitingDeploy = ''AWAITING_DEPLOY''"
| "agg_str AggDeploying = ''DEPLOYING''"
| "agg_str AggDeployFailed = ''DEPLOY_FAILED''"
| "agg_str AggDeployed = ''DEPLOYED''"
| "agg_str AggCanceled = ''CANCELED''"

fun tenant_state_str :: "TenantLifecycleState \<Rightarrow> string" where
  "tenant_state_str TenantUnset = ''''"
| "tenant_state_str TenantDraft = ''draft''"
| "tenant_state_str TenantConfigured = ''configured''"
| "tenant_state_str TenantNotReady = ''not_ready''"
| "tenant_state_str TenantReadying = ''readying''"
| "tenant_state_str TenantReady = ''ready''"

section \<open>Artifact types\<close>

text \<open>An ArtifactType is the string itself: requests may carry any.\<close>

type_synonym ArtifactType = string

definition artifactTypeToNavProperty :: "(ArtifactType \<times> string) list" where
  "artifactTypeToNavProperty =
    [(''Integration Flow'', ''IntegrationDesigntimeArtifacts''),
     (''Script Collection'', ''ScriptCollectionDesigntimeArtifacts''),
     (''Value Mapping'', ''ValueMappingDesigntimeArtifacts''),
     (''Message Mapping'', ''MessageMappingDesigntimeArtifacts''),
     (''Data Type'', ''DataTypeDesigntimeArtifacts''),
     (''Message Type'', ''MessageTypeDesigntimeArtifacts''),
     (''Fault Message Type'', ''FaultMessageTypeDesigntimeArtifacts''),
     (''Service Interface'', ''ServiceInterfaceDesigntimeArtifacts'')]"

definition artifactTypeToDeployEndpoint :: "(ArtifactType \<times> string) list" where
  "artifactTypeToDeployEndpoint =
    [(''Integration Flow'', ''DeployIntegrationDesigntimeArtifact''),
     (''Script Collection'', ''DeployScriptCollectionDesigntimeArtifact''),
     (''Value Mapping'', ''DeployValueMappingDesigntimeArtifact''),
     (''Message Mapping'', ''DeployMessageMappingDesigntimeArtifact'')]"

definition NavProperty :: "ArtifactType \<Rightarrow> string option" where
  "NavProperty t = map_of artifactTypeToNavProperty t"

definition DeployEndpoint :: "ArtifactType \<Rightarrow> string option" where
  "DeployEndpoint t = map_of artifactTypeToDeployEndpoint t"

definition AllArtifactTypes :: "ArtifactType list" where
  "AllArtifactTypes =
    [''Integration Flow'', ''Script Collection'', ''Value Mapping'', ''Message Mapping'',
     ''Data Type'', ''Message Type'', ''Fault Message Type'', ''Service Interface'']"

definition IsDeployable :: "ArtifactType \<Rightarrow> bool" where
  "IsDeployable t = (DeployEndpoint t \<noteq> None)"

lemma IsDeployable_iff:
  "IsDeployable t \<longleftrightarrow>
     t \<in> {''Integration Flow'', ''Script Collection'', ''Value Mapping'', ''Message Mapping''}"
  by (auto simp: IsDeployable_def DeployEndpoint_def artifactTypeToDeployEndpoint_def)

lemma IsDeployable_supported: "IsDeployable t \<Longrightarrow> t \<in> set AllArtifactTypes"
  by (auto simp: IsDeployable_iff AllArtifactTypes_def)

section \<open>Derivations\<close>

definition DeriveImport :: "string \<Rightarrow> ImportState" where
  "DeriveImport state =
     (let u = ToUpper state in
      if u = ''INITIAL'' then ImportQueued
      else if u = ''RUNNING'' then ImportInProgress
      else if u = ''SUCCEEDED'' \<or> u = ''WARNING'' then ImportComplete
      else if u = ''REPEAT'' then ImportQueued
      else if u = ''FATAL'' \<or> u = ''FAILED'' \<or> u = ''ERROR'' then ImportFailed
      else ImportNotStarted)"

text \<open>The closures anyImport/anyDeploy and allImport/allDeploy of DeriveAggregateStatus are the
  same code at two types.\<close>

definition anyState :: "'s list \<Rightarrow> 's list \<Rightarrow> bool" where
  "anyState vals targets = list_ex (\<lambda>v. v \<in> set targets) vals"

definition allState :: "'s list \<Rightarrow> 's list \<Rightarrow> bool" where
  "allState vals allowed = (if vals = [] then False else list_all (\<lambda>v. v \<in> set allowed) vals)"

definition DeriveAggregateStatus ::
  "AggregateStatus \<Rightarrow> ImportState list \<Rightarrow> DeployState list \<Rightarrow> AggregateStatus" where
  "DeriveAggregateStatus aggStatus importStates deployStates =
     (if aggStatus = AggCanceled then AggCanceled
      else if importStates = [] \<and> deployStates = [] then
        (if aggStatus \<noteq> AggUnset then aggStatus else AggUnknown)
      else if anyState importStates [ImportFailed] then AggImportFailed
      else if anyState importStates [ImportInProgress] then AggImporting
      else if anyState importStates [ImportQueued] then AggAwaitingImport
      else
        (let importsComplete = allState importStates [ImportComplete, ImportDisabled] in
         if importsComplete then
           (if anyState deployStates [DeployFailed] then AggDeployFailed
            else if anyState deployStates [DeployInProgress] then AggDeploying
            else if allState deployStates [DeployComplete, DeployDisabled] then AggDeployed
            else AggWaitingDeploy)
         else if aggStatus \<in> {AggAwaitingImport, AggWaitingApprove, AggPending} then aggStatus
         else AggInProgress))"

lemma anyState_iff: "anyState vals targets \<longleftrightarrow> set vals \<inter> set targets \<noteq> {}"
  by (auto simp: anyState_def list_ex_iff)

lemma allState_iff: "allState vals allowed \<longleftrightarrow> vals \<noteq> [] \<and> set vals \<subseteq> set allowed"
  by (auto simp: allState_def list_all_iff)

lemmas derive_agg = DeriveAggregateStatus_def anyState_iff allState_iff Let_def

lemma DeriveAggregateStatus_canceled [simp]: "DeriveAggregateStatus AggCanceled is ds = AggCanceled"
  by (simp add: DeriveAggregateStatus_def)

text \<open>The status after a derivation is pre-approval only if it was so before.\<close>

lemma DeriveAggregateStatus_gate:
  "DeriveAggregateStatus a is ds \<in> {AggPending, AggWaitingApprove} \<Longrightarrow>
   DeriveAggregateStatus a is ds = a"
  by (auto simp: DeriveAggregateStatus_def Let_def split: if_splits)

lemma DeriveAggregateStatus_not_unset: "DeriveAggregateStatus a is ds \<noteq> AggUnset"
  by (auto simp: DeriveAggregateStatus_def Let_def)

lemma DeriveAggregateStatus_not_canceled:
  "a \<noteq> AggCanceled \<Longrightarrow> DeriveAggregateStatus a is ds \<noteq> AggCanceled"
  by (auto simp: DeriveAggregateStatus_def Let_def)

section \<open>The derivation as a priority of phases\<close>

text \<open>Abstract reading of a derived status: a rank per status, and the phase that the states of
  the operations have reached as the first of a list of conditions.\<close>

datatype phase =
  PhImportFailed | PhImporting | PhImportQueued | PhDeployFailed | PhDeploying | PhDone
| PhDeployPending | PhOpen

definition phase_of :: "ImportState set \<Rightarrow> DeployState set \<Rightarrow> phase" where
  "phase_of I D =
     (if ImportFailed \<in> I then PhImportFailed
      else if ImportInProgress \<in> I then PhImporting
      else if ImportQueued \<in> I then PhImportQueued
      else if I = {} \<or> \<not> I \<subseteq> {ImportComplete, ImportDisabled} then PhOpen
      else if DeployFailed \<in> D then PhDeployFailed
      else if DeployInProgress \<in> D then PhDeploying
      else if D \<noteq> {} \<and> D \<subseteq> {DeployComplete, DeployDisabled} then PhDone
      else PhDeployPending)"

fun phase_status :: "AggregateStatus \<Rightarrow> phase \<Rightarrow> AggregateStatus" where
  "phase_status a PhImportFailed = AggImportFailed"
| "phase_status a PhImporting = AggImporting"
| "phase_status a PhImportQueued = AggAwaitingImport"
| "phase_status a PhDeployFailed = AggDeployFailed"
| "phase_status a PhDeploying = AggDeploying"
| "phase_status a PhDone = AggDeployed"
| "phase_status a PhDeployPending = AggWaitingDeploy"
| "phase_status a PhOpen =
     (if a \<in> {AggAwaitingImport, AggWaitingApprove, AggPending} then a else AggInProgress)"

lemma DeriveAggregateStatus_phase:
  assumes "a \<noteq> AggCanceled" and "is \<noteq> [] \<or> ds \<noteq> []"
  shows "DeriveAggregateStatus a is ds = phase_status a (phase_of (set is) (set ds))"
  using assms by (auto simp: derive_agg phase_of_def)

lemma DeriveAggregateStatus_set_cong:
  assumes "set is = set js" and "set ds = set es"
  shows "DeriveAggregateStatus a is ds = DeriveAggregateStatus a js es"
proof -
  have "is = [] \<longleftrightarrow> js = []" "ds = [] \<longleftrightarrow> es = []" using assms by auto
  then show ?thesis using assms by (simp add: derive_agg)
qed

section \<open>Properties\<close>

text \<open>The rolled-up status of a delivery request is DEPLOYED exactly when it was not canceled
  and every operation is imported (or has import disabled) and deployed (or has deploy disabled),
  or when it has no operation and was DEPLOYED already.\<close>

theorem DeriveAggregateStatus_deployed_iff:
  "DeriveAggregateStatus a is ds = AggDeployed \<longleftrightarrow>
     (if is = [] \<and> ds = [] then a = AggDeployed
      else a \<noteq> AggCanceled \<and> is \<noteq> [] \<and> ds \<noteq> [] \<and>
        set is \<subseteq> {ImportComplete, ImportDisabled} \<and> set ds \<subseteq> {DeployComplete, DeployDisabled})"
  by (cases "is = [] \<and> ds = []") (auto simp: derive_agg)

text \<open>Deriving the status again from the same operations changes nothing, and the order of the
  operations never matters.\<close>

theorem DeriveAggregateStatus_stable:
  "DeriveAggregateStatus (DeriveAggregateStatus a is ds) is ds = DeriveAggregateStatus a is ds \<and>
   (mset js = mset is \<and> mset es = mset ds \<longrightarrow>
      DeriveAggregateStatus a js es = DeriveAggregateStatus a is ds)"
proof (intro conjI impI)
  show "DeriveAggregateStatus (DeriveAggregateStatus a is ds) is ds = DeriveAggregateStatus a is ds"
    by (auto simp: DeriveAggregateStatus_def Let_def)
next
  assume "mset js = mset is \<and> mset es = mset ds"
  then show "DeriveAggregateStatus a js es = DeriveAggregateStatus a is ds"
    by (intro DeriveAggregateStatus_set_cong) (auto dest: mset_eq_setD)
qed

theorem DeriveAggregateStatus_stable_witness:
  "DeriveAggregateStatus AggInProgress [ImportQueued, ImportComplete] [DeployDisabled] =
   DeriveAggregateStatus AggInProgress [ImportComplete, ImportQueued] [DeployDisabled]"
  using DeriveAggregateStatus_stable
    [of AggInProgress "[ImportComplete, ImportQueued]" "[DeployDisabled]"
        "[ImportQueued, ImportComplete]" "[DeployDisabled]"]
  by simp

end
