(* ===== verification/GoErr.thy ===== *)
theory GoErr
  imports GoStd
begin

text \<open>
  Go errors as values. fmt.Errorf is kept as its format literal and arguments, so two errors are
  equal exactly when they are built by the same statement from the same values; a wrapping format
  (percent-w) keeps the inner error, which errors.Is and errors.As follow. The error text, needed where
  the code searches it with strings.Contains, is rendered from the format; the tabs and newlines that
  lay out the lines of a collected error are left out.
\<close>

datatype gerr =
  Errf string "garg list"                \<comment> \<open>fmt.Errorf without a wrapped error, errors.New\<close>
| Errw string "garg list" gerr           \<comment> \<open>fmt.Errorf whose last verb wraps an error\<close>
| Errs string "gerr list"                \<comment> \<open>errors.New of a header and one line per entry\<close>
| HttpResponseError nat string           \<comment> \<open>env.HttpResponseError\<close>
| RecordNotFound                         \<comment> \<open>gorm.ErrRecordNotFound\<close>
| DbErr                                  \<comment> \<open>any other failure of a database statement\<close>
| ExtErr string                          \<comment> \<open>an error returned by a service outside the repository\<close>
| Panicked string                        \<comment> \<open>a run-time panic of the handler\<close>
and garg = Num nat | IntArg int | Str string | Verb gerr

text \<open>errors.Is(err, gorm.ErrRecordNotFound) and errors.As(err, HttpResponseError).\<close>

fun is_not_found :: "gerr \<Rightarrow> bool" where
  "is_not_found RecordNotFound = True"
| "is_not_found (Errw _ _ e) = is_not_found e"
| "is_not_found _ = False"

fun as_http_status :: "gerr \<Rightarrow> nat option" where
  "as_http_status (HttpResponseError code _) = Some code"
| "as_http_status (Errw _ _ e) = as_http_status e"
| "as_http_status _ = None"

fun is_panic :: "gerr \<Rightarrow> bool" where
  "is_panic (Panicked _) = True"
| "is_panic _ = False"

text \<open>fmt: each verb consumes the next argument.\<close>

fun fmt_render :: "string \<Rightarrow> string list \<Rightarrow> string" where
  "fmt_render [] args = []"
| "fmt_render (c # s) args =
     (if c = CHR ''%'' then
        (case (s, args) of
           (v # s', a # args') \<Rightarrow>
             (if v = CHR ''q'' then [CHR 0x22] @ a @ [CHR 0x22] else a) @ fmt_render s' args'
         | _ \<Rightarrow> s)
      else c # fmt_render s args)"

definition show_int :: "int \<Rightarrow> string" where
  "show_int n = (if n < 0 then CHR ''-'' # show_nat (nat (- n)) else show_nat (nat n))"

fun err_text :: "gerr \<Rightarrow> string" and garg_text :: "garg \<Rightarrow> string" where
  "err_text (Errf f args) = fmt_render f (map garg_text args)"
| "err_text (Errw f args e) = fmt_render f (map garg_text args @ [err_text e])"
| "err_text (Errs h lines) = h @ concat (map err_text lines)"
| "err_text (HttpResponseError code body) = fmt_render ''HTTP %d: %s'' [show_nat code, body]"
| "err_text RecordNotFound = ''record not found''"
| "err_text DbErr = ''database error''"
| "err_text (ExtErr s) = s"
| "err_text (Panicked s) = s"
| "garg_text (Num n) = show_nat n"
| "garg_text (IntArg n) = show_int n"
| "garg_text (Str s) = s"
| "garg_text (Verb e) = err_text e"

lemma is_not_found_wrap [simp]: "is_not_found (Errw f args e) = is_not_found e"
  by simp

text \<open>A verb percent-s drops the chain: the inner error can no longer be found.\<close>

lemma verb_drops_chain [simp]: "as_http_status (Errf f args) = None" "\<not> is_not_found (Errf f args)"
  by auto

lemma fmt_render_plain:
  "CHR ''%'' \<notin> set f \<Longrightarrow> fmt_render f args = f"
  by (induction f) auto

lemma fmt_render_append_plain:
  "CHR ''%'' \<notin> set f \<Longrightarrow> fmt_render (f @ g) args = f @ fmt_render g args"
  by (induction f) auto

end
