(* ===== verification/Entities.thy ===== *)
theory Entities
  imports Lifecycle GoErr
begin

text \<open>
  db/: the GORM models as records, one field per column. gorm.Model contributes the primary key;
  its time stamps are left out, nothing the services decide reads them. A pointer field is an
  option, a uint a nat (the bound of 64 bits is checked where the code parses one), a time the
  reading of the world's clock. Associations that the code preloads (an operation's tenant, a
  rule's tenants) are looked up in the store by the statement that preloads them.
\<close>

type_synonym time = nat

section \<open>Tenants, nodes and routes\<close>

record NodeTarget =
  nt_ID :: int
  nt_ContentType :: string
  nt_DestinationName :: string
  nt_Strategy :: string

record TransportNode =
  nd_ID :: nat
  nd_Description :: string
  nd_Name :: string
  nd_UploadAllowed :: bool
  nd_NotificationEnabled :: bool
  nd_ForwardMode :: string
  nd_ImportDisabled :: bool
  nd_ImportDisabledReason :: string
  nd_Targets :: "NodeTarget list"
  nd_Virtual :: bool

record TransportRoute =
  rt_ID :: nat
  rt_Description :: string
  rt_Name :: string
  rt_SourceNodeID :: nat
  rt_TargetNodeID :: nat

record CpiTenant =
  tn_ID :: nat
  tn_Name :: string
  tn_CreatedBy :: string
  tn_UpdatedBy :: string
  tn_Group :: string
  tn_CfApiEndpoint :: string
  tn_CfOrg :: string
  tn_CfSpace :: string
  tn_PirApiStatus :: PrerequisiteStatus
  tn_CasApplicationStatus :: PrerequisiteStatus
  tn_CasStandardStatus :: PrerequisiteStatus
  tn_CloudIntegrationDestStatus :: PrerequisiteStatus
  tn_ContentAssemblyDestStatus :: PrerequisiteStatus
  tn_TransportManagementDestStatus :: PrerequisiteStatus
  tn_LifecycleState :: TenantLifecycleState
  tn_BlockingReason :: string
  tn_SourceSystemID :: string
  tn_TmsSourceNodeName :: string
  tn_TmsSourceNodeID :: nat
  tn_TmsNodeRegistrationStatus :: PrerequisiteStatus
  tn_CentralTmsContextID :: "nat option"
  tn_CasEngineDestinationName :: string
  tn_PirApiDestinationName :: string
  tn_PirApiUrl :: string
  tn_LastCredentialRotationAt :: "time option"
  tn_LastBootstrapAt :: "time option"
  tn_LastValidationAt :: "time option"

section \<open>Delivery rules, requests, operations\<close>

record DeliveryRule =
  ru_ID :: nat
  ru_Name :: string
  ru_VersionPattern :: string
  ru_IncludedTenants :: "nat list"      \<comment> \<open>join table included_tenants\<close>
  ru_ExcludedTenants :: "nat list"
  ru_TargetNodes :: "TransportNode list"
  ru_TargetRoutes :: "TransportRoute list"
  ru_SourceTenantID :: nat
  ru_SkipApprove :: bool
  ru_RequireJira :: bool
  ru_Active :: bool
  ru_CreatedBy :: string
  ru_UpdatedBy :: string

record DeliveryRequest =
  dr_ID :: nat
  dr_Name :: string
  dr_Description :: string
  dr_JiraLink :: string
  dr_AggregateStatus :: AggregateStatus
  dr_ApprovedBy :: string
  dr_ApprovedAt :: "time option"
  dr_Approvers :: "string list"
  dr_SourceTenantID :: nat
  dr_DeliveryRuleID :: nat
  dr_VersionCompareSnapshotID :: "nat option"
  dr_CreatedBy :: string
  dr_UpdatedBy :: string

record ArtifactTenantOperation =
  op_ID :: nat
  op_DeliveryRequestID :: nat
  op_ArtifactTechID :: string
  op_ArtifactVersion :: string
  op_ArtifactName :: string
  op_ArtifactType :: ArtifactType
  op_PackageID :: string
  op_PackageName :: string
  op_PackageVersion :: string
  op_TenantID :: nat
  op_TransportRequestNumber :: string
  op_TrError :: string
  op_CasArtifactGUID :: string
  op_CasPackageResourceID :: string
  op_CasArtifactExportable :: bool
  op_RequestState :: RequestState
  op_ImportState :: ImportState
  op_DeployState :: DeployState
  op_SkipDeploy :: bool
  op_LastError :: string
  op_RetryCountImport :: int
  op_RetryCountDeploy :: int
  op_NextRetryAt :: "time option"
  op_CreatedBy :: string
  op_UpdatedBy :: string

text \<open>A condition message is the format and arguments of its Sprintf, like an error.\<close>

type_synonym message = gerr

record Condition =
  co_ID :: nat
  co_DeliveryRequestID :: nat
  co_ArtifactTenantOperationID :: nat
  co_State :: ConditionState
  co_Message :: message

section \<open>Git synchronisation\<close>

record GitRepoConfig =
  gc_ID :: nat
  gc_AuthMethod :: string
  gc_Provider :: string
  gc_Repo :: string
  gc_Enabled :: bool
  gc_DestinationName :: string
  gc_Owner :: string
  gc_GithubAppID :: int
  gc_GithubInstallationID :: int
  gc_GithubOwnerType :: string
  gc_GithubAppSlug :: string

text \<open>One version of an artifact on a tenant, pushed or being pushed. The first three columns after
  the key carry a unique index.\<close>

record GitArtifactSnapshot =
  gs_ID :: nat
  gs_ArtifactID :: string
  gs_Version :: string
  gs_CpiTenantID :: nat
  gs_PackageID :: string
  gs_ArtifactType :: ArtifactType
  gs_BranchName :: string
  gs_TreePath :: string
  gs_CommitSHA :: string
  gs_TagName :: string
  gs_TriggerSource :: string
  gs_DeliveryRequestID :: "nat option"
  gs_ArtifactOpID :: "nat option"
  gs_Status :: string
  gs_TriggeredAt :: time
  gs_CompletedAt :: "time option"
  gs_Error :: string

section \<open>Version comparison\<close>

text \<open>What one tenant holds of an artifact. The maps of a snapshot, keyed by tenant, are association
  lists: nothing depends on the order Go iterates them in.\<close>

record ArtifactVersionInfo =
  vi_DesignTimeVersion :: string
  vi_ModifiedBy :: string
  vi_ModifiedAt :: string
  vi_RuntimeVersion :: string
  vi_RuntimeStatus :: string
  vi_Error :: string

record ArtifactSnapshot =
  as_ID :: string
  as_Name :: string
  as_Type :: ArtifactType
  as_Versions :: "(nat \<times> ArtifactVersionInfo) list"

record PackageSnapshot =
  ps_PackageID :: string
  ps_Artifacts :: "ArtifactSnapshot list"

record SnapshotData =
  sd_SourceTenantID :: nat
  sd_ComparedTenants :: "nat list"
  sd_Packages :: "PackageSnapshot list"

datatype SnapshotStatus = SnapRunning | SnapCompleted | SnapFailed | SnapNone

record VersionCompareSnapshot =
  vs_ID :: nat
  vs_DeliveryRuleID :: nat
  vs_Status :: SnapshotStatus
  vs_TriggeredAt :: time
  vs_CompletedAt :: "time option"
  vs_TriggeredBy :: string
  vs_Data :: SnapshotData
  vs_Error :: message

record VersionCompareIncludedPackage =
  ip_ID :: nat
  ip_PackageID :: string
  ip_Description :: string
  ip_CreatedBy :: string

section \<open>Bootstrap jobs\<close>

text \<open>The JSON columns hold the values they are marshalled from; three of them are never written.\<close>

record TenantBootstrapJob =
  bj_ID :: nat
  bj_CpiTenantID :: nat
  bj_JobType :: BootstrapJobType
  bj_State :: BootstrapJobState
  bj_CurrentStep :: string
  bj_FailureType :: BootstrapFailureType
  bj_ErrorDetail :: message
  bj_MissingPrerequisites :: "string list"
  bj_CredentialActions :: "(string \<times> string) list"
  bj_StartedAt :: time
  bj_EndedAt :: "time option"

record CentralTmsContext =
  ct_ID :: nat
  ct_TmsApiDestinationName :: string
  ct_LastValidatedAt :: "time option"

text \<open>The outcome of the read-only inspection of a subaccount.\<close>

record InspectionResult =
  ir_OrgGUID :: string
  ir_SpaceAccessible :: bool
  ir_HasSpaceDeveloperRole :: bool
  ir_DestinationServiceInstanceGUID :: string
  ir_PirApiInstanceGUID :: string
  ir_CasApplicationInstanceGUID :: string
  ir_CasStandardInstanceGUID :: string
  ir_ServiceKeyGUIDs :: "(string \<times> string) list"
  ir_DestinationExists :: "(string \<times> bool) list"
  ir_MissingItems :: "string list"
  ir_PermissionIssues :: "string list"
  ir_WaitingUserAction :: "string list"

section \<open>Cloud Foundry\<close>

text \<open>A Cloud Foundry client is its API root and its token; the parameters of a service broker are lists of
  strings under a key.\<close>

type_synonym CFClient = "string \<times> string"
type_synonym broker_params = "(string \<times> string list) list"

text \<open>A destination of a Destination Service.\<close>

record Destination =
  de_Name :: string
  de_Description :: message
  de_Type :: string
  de_URL :: string
  de_Authentication :: string
  de_ProxyType :: string
  de_TokenServiceURL :: string
  de_TokenServiceURLType :: string
  de_ClientId :: string
  de_ClientSecret :: string
  de_User :: string
  de_Password :: string
  de_Port :: string
  de_SourceSystemId :: string

text \<open>The changes the service makes to a subaccount and to the provider's Destination Service.\<close>

datatype CfCall =
  CfCreateInstance CFClient string string string broker_params   \<comment> \<open>space, plan, name\<close>
| CfCreateKey CFClient string message string                     \<comment> \<open>instance, name, the key's GUID\<close>
| CfDeleteKey CFClient string bool      \<comment> \<open>whether the deletion succeeded\<close>
| SubscriberUpsert Destination
| ProviderUpsert Destination
| ProviderDelete string
| InstallationDelete int int                                        \<comment> \<open>app and installation\<close>

section \<open>Zero values\<close>

text \<open>Go's zero value of a struct, what a preload leaves when the row does not exist.\<close>

definition zero_tenant :: CpiTenant where
  "zero_tenant =
    \<lparr>tn_ID = 0, tn_Name = '''', tn_CreatedBy = '''', tn_UpdatedBy = '''', tn_Group = '''',
     tn_CfApiEndpoint = '''', tn_CfOrg = '''', tn_CfSpace = '''',
     tn_PirApiStatus = PrereqUnset, tn_CasApplicationStatus = PrereqUnset,
     tn_CasStandardStatus = PrereqUnset, tn_CloudIntegrationDestStatus = PrereqUnset,
     tn_ContentAssemblyDestStatus = PrereqUnset, tn_TransportManagementDestStatus = PrereqUnset,
     tn_LifecycleState = TenantUnset, tn_BlockingReason = '''', tn_SourceSystemID = '''',
     tn_TmsSourceNodeName = '''', tn_TmsSourceNodeID = 0, tn_TmsNodeRegistrationStatus = PrereqUnset,
     tn_CentralTmsContextID = None, tn_CasEngineDestinationName = '''',
     tn_PirApiDestinationName = '''', tn_PirApiUrl = '''', tn_LastCredentialRotationAt = None,
     tn_LastBootstrapAt = None, tn_LastValidationAt = None\<rparr>"

definition zero_node :: TransportNode where
  "zero_node =
    \<lparr>nd_ID = 0, nd_Description = '''', nd_Name = '''', nd_UploadAllowed = False,
     nd_NotificationEnabled = False, nd_ForwardMode = '''', nd_ImportDisabled = False,
     nd_ImportDisabledReason = '''', nd_Targets = [], nd_Virtual = False\<rparr>"

definition zero_rule :: DeliveryRule where
  "zero_rule =
    \<lparr>ru_ID = 0, ru_Name = '''', ru_VersionPattern = '''', ru_IncludedTenants = [],
     ru_ExcludedTenants = [], ru_TargetNodes = [], ru_TargetRoutes = [], ru_SourceTenantID = 0,
     ru_SkipApprove = False, ru_RequireJira = False, ru_Active = False, ru_CreatedBy = '''',
     ru_UpdatedBy = ''''\<rparr>"

definition zero_request :: DeliveryRequest where
  "zero_request =
    \<lparr>dr_ID = 0, dr_Name = '''', dr_Description = '''', dr_JiraLink = '''',
     dr_AggregateStatus = AggUnset, dr_ApprovedBy = '''', dr_ApprovedAt = None, dr_Approvers = [],
     dr_SourceTenantID = 0, dr_DeliveryRuleID = 0, dr_VersionCompareSnapshotID = None,
     dr_CreatedBy = '''', dr_UpdatedBy = ''''\<rparr>"

definition zero_op :: ArtifactTenantOperation where
  "zero_op =
    \<lparr>op_ID = 0, op_DeliveryRequestID = 0, op_ArtifactTechID = '''', op_ArtifactVersion = '''',
     op_ArtifactName = '''', op_ArtifactType = '''', op_PackageID = '''', op_PackageName = '''',
     op_PackageVersion = '''', op_TenantID = 0, op_TransportRequestNumber = '''', op_TrError = '''',
     op_CasArtifactGUID = '''', op_CasPackageResourceID = '''', op_CasArtifactExportable = False,
     op_RequestState = RequestUnset, op_ImportState = ImportUnset, op_DeployState = DeployUnset,
     op_SkipDeploy = False, op_LastError = '''', op_RetryCountImport = 0, op_RetryCountDeploy = 0,
     op_NextRetryAt = None, op_CreatedBy = '''', op_UpdatedBy = ''''\<rparr>"

lemma zero_op_sel [simp]:
  "op_RequestState zero_op = RequestUnset" "op_ImportState zero_op = ImportUnset"
  "op_DeployState zero_op = DeployUnset"
  by (simp_all add: zero_op_def)

text \<open>The empty message, Go's "".\<close>

definition no_message :: message where
  "no_message = Errf [] []"

definition zero_data :: SnapshotData where
  "zero_data = \<lparr>sd_SourceTenantID = 0, sd_ComparedTenants = [], sd_Packages = []\<rparr>"

definition zero_vinfo :: ArtifactVersionInfo where
  "zero_vinfo =
    \<lparr>vi_DesignTimeVersion = [], vi_ModifiedBy = [], vi_ModifiedAt = [], vi_RuntimeVersion = [],
     vi_RuntimeStatus = [], vi_Error = []\<rparr>"

text \<open>db.Condition literals of the services.\<close>

definition dr_condition :: "nat \<Rightarrow> ConditionState \<Rightarrow> message \<Rightarrow> Condition" where
  "dr_condition drID st msg =
    \<lparr>co_ID = 0, co_DeliveryRequestID = drID, co_ArtifactTenantOperationID = 0, co_State = st,
     co_Message = msg\<rparr>"

definition op_condition :: "nat \<Rightarrow> nat \<Rightarrow> ConditionState \<Rightarrow> message \<Rightarrow> Condition" where
  "op_condition drID opID st msg =
    \<lparr>co_ID = 0, co_DeliveryRequestID = drID, co_ArtifactTenantOperationID = opID, co_State = st,
     co_Message = msg\<rparr>"

lemma dr_condition_sel [simp]:
  "co_DeliveryRequestID (dr_condition d s m) = d" "co_State (dr_condition d s m) = s"
  "co_Message (dr_condition d s m) = m"
  by (simp_all add: dr_condition_def)

lemma op_condition_sel [simp]:
  "co_DeliveryRequestID (op_condition d i s m) = d" "co_State (op_condition d i s m) = s"
  "co_ArtifactTenantOperationID (op_condition d i s m) = i"
  by (simp_all add: op_condition_def)

end
