(* ===== verification/Versions.thy ===== *)
theory Versions
  imports GoErr "HOL-Library.Product_Lexorder"
begin

text \<open>
  service/checks.go, the part without effects: draft detection, glob patterns of delivery rules and
  the comparison of CPI artifact versions. The comparison is stated against a contract for
  three-way comparisons that intCmp, compareQualifier and compareCPIVersion all satisfy; only the
  first is transitive, and the numeric versions form the domain on which the whole comparison is.
\<close>

section \<open>Three-way comparisons\<close>

locale three_way =
  fixes cmp :: "'a \<Rightarrow> 'a \<Rightarrow> int"
  assumes cmp_range: "cmp a b \<in> {-1, 0, 1}"
    and cmp_flip: "cmp b a = - cmp a b"
begin

lemma cmp_refl: "cmp a a = 0"
  using cmp_flip [of a a] by simp

lemma cmp_less_iff: "cmp a b < 0 \<longleftrightarrow> 0 < cmp b a"
  using cmp_flip [of b a] by simp

lemma cmp_total: "cmp a b \<le> 0 \<or> cmp b a \<le> 0"
  using cmp_flip [of b a] by linarith

end

text \<open>A comparison whose "at most" is transitive is a total preorder.\<close>

locale three_way_order = three_way +
  assumes cmp_trans: "\<lbrakk>cmp a b \<le> 0; cmp b c \<le> 0\<rbrakk> \<Longrightarrow> cmp a c \<le> 0"
begin

lemma cmp_less_trans: "\<lbrakk>cmp a b < 0; cmp b c \<le> 0\<rbrakk> \<Longrightarrow> cmp a c < 0"
  using cmp_trans [of a b c] cmp_trans [of b c a] cmp_flip [of a b] cmp_flip [of a c]
  by linarith

lemma cmp_eq_trans: "\<lbrakk>cmp a b = 0; cmp b c = 0\<rbrakk> \<Longrightarrow> cmp a c = 0"
  using cmp_trans [of a b c] cmp_trans [of c b a] cmp_flip [of a b] cmp_flip [of b c]
    cmp_flip [of a c]
  by linarith

end

section \<open>Definitions\<close>

definition isDraftVersion :: "string \<Rightarrow> bool" where
  "isDraftVersion version = EqualFold version ''active''"

text \<open>The glob library: compiling a pattern yields its matcher or an error.\<close>

type_synonym glob = "string \<Rightarrow> gerr + (string \<Rightarrow> bool)"

definition CompileVersionPattern :: "glob \<Rightarrow> string \<Rightarrow> gerr + unit" where
  "CompileVersionPattern glob pattern =
     (case glob pattern of
        Inl e \<Rightarrow> err (Errw ''invalid VersionPattern %q: %w'' [Str pattern] e)
      | Inr g \<Rightarrow> ok ())"

text \<open>glob.MustCompile panics on an invalid pattern.\<close>

definition matchVersionPattern :: "glob \<Rightarrow> string \<Rightarrow> string \<Rightarrow> gerr + bool" where
  "matchVersionPattern glob version pattern =
     (if pattern = '''' then ok True
      else case glob pattern of
             Inl e \<Rightarrow> err (Panicked (err_text e))
           | Inr g \<Rightarrow> ok (g version))"

record cpiVersion =
  Major :: int
  Minor :: int
  Micro :: int
  Qualifier :: string

definition zero_version :: "string \<Rightarrow> cpiVersion" where
  "zero_version q = \<lparr>Major = 0, Minor = 0, Micro = 0, Qualifier = q\<rparr>"

definition parseCPIVersion :: "string \<Rightarrow> cpiVersion" where
  "parseCPIVersion v =
     (let parts = SplitN 4 (CHR ''.'') v; cv = zero_version '''' in
      case (if 1 \<le> length parts then map_option (\<lambda>n. cv\<lparr>Major := n\<rparr>) (Atoi (parts ! 0)) else Some cv) of
        None \<Rightarrow> zero_version v
      | Some cv \<Rightarrow>
          (case (if 2 \<le> length parts then map_option (\<lambda>n. cv\<lparr>Minor := n\<rparr>) (Atoi (parts ! 1))
                 else Some cv) of
             None \<Rightarrow> zero_version v
           | Some cv \<Rightarrow>
               (case (if 3 \<le> length parts then map_option (\<lambda>n. cv\<lparr>Micro := n\<rparr>) (Atoi (parts ! 2))
                      else Some cv) of
                  None \<Rightarrow> zero_version v
                | Some cv \<Rightarrow>
                    (if 4 \<le> length parts then cv\<lparr>Qualifier := parts ! 3\<rparr> else cv))))"

definition intCmp :: "int \<Rightarrow> int \<Rightarrow> int" where
  "intCmp a b = (if a < b then -1 else if b < a then 1 else 0)"

definition compareQualifier :: "string \<Rightarrow> string \<Rightarrow> int" where
  "compareQualifier a b =
     (if a = b then 0
      else case (Atoi a, Atoi b) of
             (Some na, Some nb) \<Rightarrow> intCmp na nb
           | _ \<Rightarrow> 0)"

definition compareCPIVersion :: "string \<Rightarrow> string \<Rightarrow> int" where
  "compareCPIVersion a b =
     (let va = parseCPIVersion a; vb = parseCPIVersion b in
      if Major va \<noteq> Major vb then intCmp (Major va) (Major vb)
      else if Minor va \<noteq> Minor vb then intCmp (Minor va) (Minor vb)
      else if Micro va \<noteq> Micro vb then intCmp (Micro va) (Micro vb)
      else compareQualifier (Qualifier va) (Qualifier vb))"

section \<open>The comparisons meet the contract\<close>

interpretation int_cmp: three_way_order intCmp
  by unfold_locales (auto simp: intCmp_def split: if_splits)

lemma compareQualifier_flip: "compareQualifier b a = - compareQualifier a b"
  by (auto simp: compareQualifier_def intCmp_def split: option.splits)

interpretation qualifier_cmp: three_way compareQualifier
proof
  show "compareQualifier a b \<in> {-1, 0, 1}" for a b
    using int_cmp.cmp_range by (auto simp: compareQualifier_def split: option.splits)
qed (rule compareQualifier_flip)

lemma compareCPIVersion_flip: "compareCPIVersion b a = - compareCPIVersion a b"
  using compareQualifier_flip [of "Qualifier (parseCPIVersion b)" "Qualifier (parseCPIVersion a)"]
  by (simp add: compareCPIVersion_def Let_def intCmp_def)

interpretation version_cmp: three_way compareCPIVersion
proof
  show "compareCPIVersion a b \<in> {-1, 0, 1}" for a b
    using int_cmp.cmp_range qualifier_cmp.cmp_range
    by (simp add: compareCPIVersion_def Let_def)
qed (rule compareCPIVersion_flip)

section \<open>Numeric versions\<close>

text \<open>major.minor.micro.qualifier with a numeric qualifier, the form CPI writes.\<close>

type_synonym numver = "nat \<times> nat \<times> nat \<times> nat"

definition show_version :: "numver \<Rightarrow> string" where
  "show_version = (\<lambda>(a, b, c, d).
     show_nat a @ CHR ''.'' # show_nat b @ CHR ''.'' # show_nat c @ CHR ''.'' # show_nat d)"

definition small_version :: "numver \<Rightarrow> bool" where
  "small_version = (\<lambda>(a, b, c, d). max (max a b) (max c d) < 2 ^ 63)"

lemma SplitN_show_version:
  "SplitN 4 (CHR ''.'') (show_version (a, b, c, d)) = [show_nat a, show_nat b, show_nat c, show_nat d]"
  using show_nat_no_sign by (simp add: numeral_eq_Suc show_version_def Cut_append)

lemma parseCPIVersion_show:
  assumes "small_version (a, b, c, d)"
  shows "parseCPIVersion (show_version (a, b, c, d)) =
         \<lparr>Major = int a, Minor = int b, Micro = int c, Qualifier = show_nat d\<rparr>"
  using assms
  by (simp add: parseCPIVersion_def SplitN_show_version small_version_def zero_version_def)

text \<open>The comparison of a linear order; on tuples, the lexicographic one.\<close>

definition lexCmp :: "'a::linorder \<Rightarrow> 'a \<Rightarrow> int" where
  "lexCmp x y = (if x < y then -1 else if y < x then 1 else 0)"

interpretation lex_cmp: three_way_order "lexCmp :: 'a::linorder \<Rightarrow> 'a \<Rightarrow> int"
  by unfold_locales (auto simp: lexCmp_def split: if_splits)

lemma compareCPIVersion_show:
  assumes "small_version x" and "small_version y"
  shows "compareCPIVersion (show_version x) (show_version y) = lexCmp x y"
proof -
  obtain a b c d where x: "x = (a, b, c, d)" by (cases x) auto
  obtain a' b' c' d' where y: "y = (a', b', c', d')" by (cases y) auto
  have "d < 2 ^ 63" "d' < 2 ^ 63" using assms by (auto simp: x y small_version_def)
  then have "compareQualifier (show_nat d) (show_nat d') = intCmp (int d) (int d')"
    by (simp add: compareQualifier_def intCmp_def)
  then show ?thesis
    using assms by (auto simp: x y compareCPIVersion_def parseCPIVersion_show lexCmp_def intCmp_def
        Let_def)
qed

text \<open>An unparsable version (one of its first three segments is not an int) is 0.0.0 with the
  whole text as its qualifier, and that qualifier is never numeric.\<close>

definition parse_failed :: "string \<Rightarrow> bool" where
  "parse_failed v = list_ex (\<lambda>p. Atoi p = None) (take 3 (SplitN 4 (CHR ''.'') v))"

lemma digits_acc_no_dot: "digits_acc acc s = Some n \<Longrightarrow> CHR ''.'' \<notin> set s"
  by (induction s arbitrary: acc) (auto simp: digit_val_def Let_def split: option.splits if_splits)

lemma digit_val_dot [simp]: "digit_val (CHR ''.'') = None"
  by code_simp

lemma Atoi_no_dot: "Atoi s = Some n \<Longrightarrow> CHR ''.'' \<notin> set s"
  by (cases s)
    (auto simp: Atoi_def parse_nat_def split: option.splits if_splits dest: digits_acc_no_dot)

lemma parse_failed_zero:
  assumes "parse_failed v"
  shows "parseCPIVersion v = zero_version v" and "Atoi v = None"
proof -
  obtain p ps where ps: "SplitN 4 (CHR ''.'') v = p # ps"
    using SplitN_not_Nil [of 3 "CHR ''.''" v] by (cases "SplitN 4 (CHR ''.'') v") auto
  have f: "list_ex (\<lambda>p. Atoi p = None) (take 3 (p # ps))"
    using assms by (simp only: parse_failed_def ps)
  show "parseCPIVersion v = zero_version v"
  proof (cases "Atoi p")
    case None
    then show ?thesis by (simp add: parseCPIVersion_def ps)
  next
    case 1: (Some n)
    with f obtain q qs where q: "ps = q # qs" by (cases ps) auto
    show ?thesis
    proof (cases "Atoi q")
      case None
      with 1 show ?thesis by (simp add: parseCPIVersion_def ps q)
    next
      case 2: (Some m)
      with 1 f obtain r rs where "qs = r # rs" "Atoi r = None" by (cases qs) (auto simp: q)
      with 1 2 show ?thesis by (simp add: parseCPIVersion_def ps q)
    qed
  qed
  show "Atoi v = None"
  proof (cases "CHR ''.'' \<in> set v")
    case True
    then show ?thesis using Atoi_no_dot by fastforce
  next
    case False
    then have "SplitN 4 (CHR ''.'') v = [v]"
      by (simp add: numeral_eq_Suc flip: Cut_None_iff)
    then show ?thesis using assms by (simp add: parse_failed_def numeral_eq_Suc)
  qed
qed

text \<open>A version of one to four numbers: a missing second or third number reads as 0, a missing
  fourth one as the empty qualifier, which is not a number.\<close>

fun dotted :: "nat list \<Rightarrow> string" where
  "dotted [] = ''''"
| "dotted [n] = show_nat n"
| "dotted (n # ns) = show_nat n @ CHR ''.'' # dotted ns"

definition segment :: "nat list \<Rightarrow> nat \<Rightarrow> nat" where
  "segment ns i = (if i < length ns then ns ! i else 0)"

definition numeric_version :: "nat list \<Rightarrow> bool" where
  "numeric_version ns = (ns \<noteq> [] \<and> length ns \<le> 4 \<and> (\<forall>n\<in>set ns. n < 2 ^ 63))"

lemma numeric_version_cases:
  assumes "numeric_version ns"
  obtains a where "ns = [a]" | a b where "ns = [a, b]" | a b c where "ns = [a, b, c]"
  | a b c d where "ns = [a, b, c, d]"
  using assms by (cases ns rule: dotted.cases; cases "tl (tl ns)"; cases "tl (tl (tl ns))")
    (auto simp: numeric_version_def)

lemma SplitN_dotted:
  assumes "ns \<noteq> []" and "length ns \<le> Suc k"
  shows "SplitN (Suc k) (CHR ''.'') (dotted ns) = map show_nat ns"
  using assms
proof (induction ns arbitrary: k rule: dotted.induct)
  case (2 n)
  then show ?case using show_nat_no_sign [of n] Cut_None_iff [of "CHR ''.''" "show_nat n"]
    by (cases k) auto
next
  case (3 n m ns)
  then obtain j where "k = Suc j" by (cases k) auto
  with 3 show ?case using show_nat_no_sign [of n] by (simp add: Cut_append)
qed simp

lemma parseCPIVersion_dotted:
  assumes "numeric_version ns"
  shows "parseCPIVersion (dotted ns) =
         \<lparr>Major = int (segment ns 0), Minor = int (segment ns 1), Micro = int (segment ns 2),
          Qualifier = (if length ns = 4 then show_nat (ns ! 3) else '''')\<rparr>"
proof -
  have *: "SplitN 4 (CHR ''.'') (dotted ns) = map show_nat ns"
    using assms SplitN_dotted [of ns 3] by (simp add: numeric_version_def)
  show ?thesis
    using assms
    by (rule numeric_version_cases)
      (use assms * in \<open>simp_all add: parseCPIVersion_def zero_version_def segment_def numeric_version_def\<close>)
qed

lemma compareQualifier_dotted:
  assumes "numeric_version xs" and "numeric_version ys"
  shows "compareQualifier (if length xs = 4 then show_nat (xs ! 3) else '''')
           (if length ys = 4 then show_nat (ys ! 3) else '''') =
         (if length xs = 4 \<and> length ys = 4 then intCmp (int (xs ! 3)) (int (ys ! 3)) else 0)"
proof -
  have "Atoi '''' = None" by code_simp
  then show ?thesis
    using assms by (auto simp: compareQualifier_def numeric_version_def intCmp_def split: option.splits)
qed

lemma nth_four_eq:
  assumes "length xs = 4" and "length ys = 4"
  shows "xs = ys \<longleftrightarrow> xs ! 0 = ys ! 0 \<and> xs ! 1 = ys ! 1 \<and> xs ! 2 = ys ! 2 \<and> xs ! 3 = ys ! 3"
  using assms by (auto simp: list_eq_iff_nth_eq less_Suc_eq numeral_eq_Suc)

lemma compareCPIVersion_dotted:
  assumes "numeric_version xs" and "numeric_version ys"
  shows "compareCPIVersion (dotted xs) (dotted ys) =
         (if segment xs 0 \<noteq> segment ys 0 then intCmp (int (segment xs 0)) (int (segment ys 0))
          else if segment xs 1 \<noteq> segment ys 1 then intCmp (int (segment xs 1)) (int (segment ys 1))
          else if segment xs 2 \<noteq> segment ys 2 then intCmp (int (segment xs 2)) (int (segment ys 2))
          else if length xs = 4 \<and> length ys = 4 then intCmp (int (xs ! 3)) (int (ys ! 3)) else 0)"
  unfolding compareCPIVersion_def parseCPIVersion_dotted [OF assms(1)]
    parseCPIVersion_dotted [OF assms(2)] Let_def cpiVersion.simps compareQualifier_dotted [OF assms]
  by simp

lemma intCmp_signs:
  "intCmp a b < 0 \<longleftrightarrow> a < b" "intCmp a b = 0 \<longleftrightarrow> a = b"
  by (simp_all add: intCmp_def)

lemma segment_four: "length ns = 4 \<Longrightarrow> i < 4 \<Longrightarrow> segment ns i = ns ! i"
  by (simp add: segment_def)

section \<open>Properties\<close>

text \<open>C2: on versions written as one to four numbers below 2 to the 63 the comparison is
  lexicographic on major, minor and micro (a missing one counts as 0); when these agree, the
  fourth numbers decide if both versions have one, and otherwise the versions are equal. So it is
  the lexicographic order on the versions of four numbers and on those of three, while "1.0.0" is
  equal to "1.0.0.5" and to "1.0.0.6".\<close>

theorem compareCPIVersion_lexicographic:
  assumes "numeric_version xs" and "numeric_version ys"
  shows "(compareCPIVersion (dotted xs) (dotted ys) < 0 \<longleftrightarrow>
            segment xs 0 < segment ys 0 \<or>
            segment xs 0 = segment ys 0 \<and>
              (segment xs 1 < segment ys 1 \<or>
               segment xs 1 = segment ys 1 \<and>
                 (segment xs 2 < segment ys 2 \<or>
                  segment xs 2 = segment ys 2 \<and>
                    length xs = 4 \<and> length ys = 4 \<and> xs ! 3 < ys ! 3))) \<and>
         (compareCPIVersion (dotted xs) (dotted ys) = 0 \<longleftrightarrow>
            segment xs 0 = segment ys 0 \<and> segment xs 1 = segment ys 1 \<and> segment xs 2 = segment ys 2 \<and>
            (length xs = 4 \<and> length ys = 4 \<longrightarrow> xs ! 3 = ys ! 3)) \<and>
         (length xs = 4 \<and> length ys = 4 \<longrightarrow>
            (compareCPIVersion (dotted xs) (dotted ys) = 0 \<longleftrightarrow> xs = ys)) \<and>
         compareCPIVersion (dotted ys) (dotted xs) = - compareCPIVersion (dotted xs) (dotted ys)"
proof (intro conjI)
  show "length xs = 4 \<and> length ys = 4 \<longrightarrow>
          (compareCPIVersion (dotted xs) (dotted ys) = 0 \<longleftrightarrow> xs = ys)"
    by (auto simp: compareCPIVersion_dotted assms nth_four_eq segment_four intCmp_signs)
qed (auto simp: compareCPIVersion_dotted assms intCmp_signs compareCPIVersion_flip [of "dotted ys" "dotted xs"])

theorem compareCPIVersion_lexicographic_witness:
  "compareCPIVersion (dotted [1, 0, 9, 2]) (dotted [1, 0, 10, 1]) < 0 \<and>
   compareCPIVersion (dotted [1, 0, 9, 2]) (dotted [1, 0, 9, 3]) < 0 \<and>
   compareCPIVersion (dotted [6, 2, 8]) (dotted [6, 2, 9]) < 0 \<and>
   compareCPIVersion (dotted [1, 0, 0]) (dotted [1, 0, 0, 5]) = 0"
  using compareCPIVersion_lexicographic [of "[1, 0, 9, 2]" "[1, 0, 10, 1]"]
    compareCPIVersion_lexicographic [of "[1, 0, 9, 2]" "[1, 0, 9, 3]"]
    compareCPIVersion_lexicographic [of "[6, 2, 8]" "[6, 2, 9]"]
    compareCPIVersion_lexicographic [of "[1, 0, 0]" "[1, 0, 0, 5]"]
  by (simp add: numeric_version_def segment_def)

text \<open>On all strings the comparison is a consistent three-way result (swapping the arguments
  negates it, a version equals itself), but "equal" is not transitive: a non-numeric qualifier
  is equal to every qualifier of the same major.minor.micro.\<close>

theorem compareCPIVersion_three_way:
  "compareCPIVersion a b \<in> {-1, 0, 1} \<and> compareCPIVersion b a = - compareCPIVersion a b \<and>
   compareCPIVersion a a = 0 \<and>
   (\<exists>x y z. compareCPIVersion x y = 0 \<and> compareCPIVersion y z = 0 \<and> compareCPIVersion x z < 0)"
proof -
  have "compareCPIVersion ''1.0.0.1'' ''1.0.0.x'' = 0 \<and> compareCPIVersion ''1.0.0.x'' ''1.0.0.2'' = 0 \<and>
        compareCPIVersion ''1.0.0.1'' ''1.0.0.2'' < 0"
    by code_simp
  then show ?thesis
    using version_cmp.cmp_range [of a b] version_cmp.cmp_flip [of b a] version_cmp.cmp_refl [of a]
    by blast
qed

text \<open>An unparsable version compares equal to every other unparsable version (no string
  comparison takes place) and below every numeric version whose major number is positive.\<close>

theorem compareCPIVersion_unparsable:
  assumes "parse_failed v"
  shows "(parse_failed w \<longrightarrow> compareCPIVersion v w = 0) \<and>
         (small_version (a, b, c, d) \<and> 0 < a \<longrightarrow> compareCPIVersion v (show_version (a, b, c, d)) < 0)"
  using parse_failed_zero [OF assms] parse_failed_zero [of w]
  by (auto simp: compareCPIVersion_def zero_version_def compareQualifier_def parseCPIVersion_show
      intCmp_def)

theorem compareCPIVersion_unparsable_witness:
  "compareCPIVersion ''abc'' ''1.x.2'' = 0 \<and> compareCPIVersion ''abc'' (show_version (1, 0, 0, 1)) < 0"
proof -
  have "parse_failed ''abc''" "parse_failed ''1.x.2''" by code_simp+
  then show ?thesis
    using compareCPIVersion_unparsable [of "''abc''" "''1.x.2''" 1 0 0 1]
    by (simp add: small_version_def)
qed

end
