(* ===== verification/Hub.thy ===== *)
theory Hub
  imports Prelude
begin

text \<open>
  service/ws_hub.go: routing of delivery-request events to WebSocket connections. A connection is
  a number; its send channel is a buffer of at most 64 events, its watching map is None once
  Disconnect set it to nil. The hub keeps, for a delivery request, the set of connections that
  watch it. The mutexes make every operation one step.
\<close>

datatype event = DrUpdated nat

record WSConn =
  c_send :: "event list"
  c_closed :: bool
  c_watching :: "nat set option"

record WSHub =
  h_watchers :: "nat \<rightharpoonup> nat set"
  h_conns :: "nat \<rightharpoonup> WSConn"

definition NewWSHub :: WSHub where
  "NewWSHub = \<lparr>h_watchers = Map.empty, h_conns = Map.empty\<rparr>"

definition NewConn :: "nat \<Rightarrow> WSHub \<Rightarrow> WSHub" where
  "NewConn c h = h\<lparr>h_conns := (h_conns h)(c \<mapsto> \<lparr>c_send = [], c_closed = False, c_watching = Some {}\<rparr>)\<rparr>"

text \<open>delete(watchers, c), and the entry itself when it was the last.\<close>

definition drop_watcher :: "nat \<Rightarrow> nat set option \<Rightarrow> nat set option" where
  "drop_watcher c ws =
     (case ws of None \<Rightarrow> None | Some s \<Rightarrow> if s - {c} = {} then None else Some (s - {c}))"

text \<open>closeOnce: only the first call has an effect.\<close>

definition Disconnect :: "nat \<Rightarrow> WSHub \<Rightarrow> WSHub" where
  "Disconnect c h =
     (case h_conns h c of
        None \<Rightarrow> h
      | Some conn \<Rightarrow>
          if c_closed conn then h
          else
            h\<lparr>h_watchers :=
                (\<lambda>d. if d \<in> (case c_watching conn of None \<Rightarrow> {} | Some ds \<Rightarrow> ds)
                     then drop_watcher c (h_watchers h d) else h_watchers h d),
              h_conns := (h_conns h)(c \<mapsto> conn\<lparr>c_watching := None, c_closed := True\<rparr>)\<rparr>)"

text \<open>Subscribe: the flag is the panic of writing to the nil watching map of a disconnected
  connection, after the connection was added to the watchers.\<close>

definition Subscribe :: "nat \<Rightarrow> nat \<Rightarrow> WSHub \<Rightarrow> bool \<times> WSHub" where
  "Subscribe c d h =
     (case h_conns h c of
        None \<Rightarrow> (False, h)
      | Some conn \<Rightarrow>
          (let ws = (case h_watchers h d of None \<Rightarrow> {} | Some s \<Rightarrow> s);
               h1 = h\<lparr>h_watchers := (h_watchers h)(d \<mapsto> insert c ws)\<rparr> in
           case c_watching conn of
             None \<Rightarrow> (True, h1)
           | Some ds \<Rightarrow>
               (False, h1\<lparr>h_conns := (h_conns h1)(c \<mapsto> conn\<lparr>c_watching := Some (insert d ds)\<rparr>)\<rparr>)))"

definition Unsubscribe :: "nat \<Rightarrow> nat \<Rightarrow> WSHub \<Rightarrow> WSHub" where
  "Unsubscribe c d h =
     (case h_conns h c of
        None \<Rightarrow> h
      | Some conn \<Rightarrow>
          h\<lparr>h_watchers := (h_watchers h)(d := drop_watcher c (h_watchers h d)),
            h_conns := (h_conns h)(c \<mapsto>
              conn\<lparr>c_watching := map_option (\<lambda>ds. ds - {d}) (c_watching conn)\<rparr>)\<rparr>)"

definition sendCap :: nat where
  "sendCap = 64"

text \<open>The select with a default branch: the event is dropped when the buffer is full.\<close>

definition offer :: "event \<Rightarrow> WSConn \<Rightarrow> WSConn" where
  "offer e conn = (if length (c_send conn) < sendCap then conn\<lparr>c_send := c_send conn @ [e]\<rparr> else conn)"

text \<open>Sending on a closed channel panics; the flag says whether that happens.\<close>

definition PublishDrEvent :: "nat \<Rightarrow> event \<Rightarrow> WSHub \<Rightarrow> bool \<times> WSHub" where
  "PublishDrEvent d e h =
     (case h_watchers h d of
        None \<Rightarrow> (False, h)
      | Some ws \<Rightarrow>
          (\<exists>c\<in>ws. case h_conns h c of Some conn \<Rightarrow> c_closed conn | None \<Rightarrow> False,
           h\<lparr>h_conns := (\<lambda>c. if c \<in> ws then map_option (offer e) (h_conns h c) else h_conns h c)\<rparr>))"

section \<open>Consistency\<close>

text \<open>The two directions of a subscription agree, no entry is empty, a closed connection watches
  nothing, and no buffer exceeds its capacity.\<close>

definition hub_inv :: "WSHub \<Rightarrow> bool" where
  "hub_inv h \<longleftrightarrow>
     (\<forall>d ws. h_watchers h d = Some ws \<longrightarrow> ws \<noteq> {}) \<and>
     (\<forall>d c. (\<exists>ws. h_watchers h d = Some ws \<and> c \<in> ws) \<longleftrightarrow>
        (\<exists>conn ds. h_conns h c = Some conn \<and> c_watching conn = Some ds \<and> d \<in> ds)) \<and>
     (\<forall>c conn. h_conns h c = Some conn \<longrightarrow>
        c_closed conn = (c_watching conn = None) \<and> length (c_send conn) \<le> sendCap)"

lemma hub_inv_New: "hub_inv NewWSHub"
  by (simp add: hub_inv_def NewWSHub_def)

lemma hub_inv_NewConn:
  assumes "hub_inv h" and "h_conns h c = None"
  shows "hub_inv (NewConn c h)"
  using assms unfolding hub_inv_def NewConn_def by (simp add: sendCap_def)

lemma drop_watcher_SomeD: "drop_watcher c w = Some s \<Longrightarrow> \<exists>s0. w = Some s0 \<and> s = s0 - {c} \<and> s \<noteq> {}"
  by (auto simp: drop_watcher_def split: option.splits if_splits)

lemma drop_watcher_mem:
  "(\<exists>s. drop_watcher c w = Some s \<and> x \<in> s) \<longleftrightarrow> x \<noteq> c \<and> (\<exists>s. w = Some s \<and> x \<in> s)"
  by (auto simp: drop_watcher_def split: option.splits)

text \<open>Membership in the two directions, as relations.\<close>

definition watched :: "WSHub \<Rightarrow> nat \<Rightarrow> nat \<Rightarrow> bool" where
  "watched h d c = (\<exists>ws. h_watchers h d = Some ws \<and> c \<in> ws)"

definition watching :: "WSHub \<Rightarrow> nat \<Rightarrow> nat \<Rightarrow> bool" where
  "watching h d c = (\<exists>conn ds. h_conns h c = Some conn \<and> c_watching conn = Some ds \<and> d \<in> ds)"

lemma hub_invI:
  assumes "\<And>d ws. h_watchers h d = Some ws \<Longrightarrow> ws \<noteq> {}"
    and "\<And>d c. watched h d c \<longleftrightarrow> watching h d c"
    and "\<And>c conn. h_conns h c = Some conn \<Longrightarrow>
           c_closed conn = (c_watching conn = None) \<and> length (c_send conn) \<le> sendCap"
  shows "hub_inv h"
  using assms unfolding hub_inv_def watched_def watching_def by blast

lemma hub_invD:
  assumes "hub_inv h"
  shows "h_watchers h d = Some ws \<Longrightarrow> ws \<noteq> {}" and "watched h d c \<longleftrightarrow> watching h d c"
    and "h_conns h c = Some conn \<Longrightarrow>
           c_closed conn = (c_watching conn = None) \<and> length (c_send conn) \<le> sendCap"
  using assms unfolding hub_inv_def watched_def watching_def by blast+

lemma hub_inv_Disconnect:
  assumes inv: "hub_inv h"
  shows "hub_inv (Disconnect c h)"
proof (cases "h_conns h c")
  case (Some conn)
  show ?thesis
  proof (cases "c_closed conn")
    case False
    then obtain ds where ds: "c_watching conn = Some ds"
      using hub_invD(3) [OF inv Some] by auto
    have w: "watched (Disconnect c h) d x \<longleftrightarrow> x \<noteq> c \<and> watched h d x" for d x
      using hub_invD(2) [OF inv, of d c] Some False ds
      by (auto simp: watched_def watching_def Disconnect_def drop_watcher_mem)
    have v: "watching (Disconnect c h) d x \<longleftrightarrow> x \<noteq> c \<and> watching h d x" for d x
      using Some False by (simp add: watching_def Disconnect_def)
    show ?thesis
    proof (rule hub_invI)
      show "ws \<noteq> {}" if "h_watchers (Disconnect c h) d = Some ws" for d ws
        using that Some False hub_invD(1) [OF inv, of d ws]
        by (auto simp: Disconnect_def split: if_splits dest: drop_watcher_SomeD)
      show "watched (Disconnect c h) d x \<longleftrightarrow> watching (Disconnect c h) d x" for d x
        using hub_invD(2) [OF inv] by (simp add: w v)
      show "c_closed k = (c_watching k = None) \<and> length (c_send k) \<le> sendCap"
        if "h_conns (Disconnect c h) x = Some k" for x k
        using that Some False hub_invD(3) [OF inv, of x] hub_invD(3) [OF inv, of c conn]
        by (auto simp: Disconnect_def split: if_splits)
    qed
  qed (simp add: Disconnect_def Some inv)
qed (simp add: Disconnect_def inv)

lemma hub_inv_Subscribe:
  assumes inv: "hub_inv h" and nopanic: "\<not> fst (Subscribe c d h)"
  shows "hub_inv (snd (Subscribe c d h))"
proof (cases "h_conns h c")
  case (Some conn)
  with nopanic obtain ds where ds: "c_watching conn = Some ds"
    by (cases "c_watching conn") (auto simp: Subscribe_def Let_def)
  let ?h = "snd (Subscribe c d h)"
  show ?thesis
  proof (rule hub_invI)
    show "ws \<noteq> {}" if "h_watchers ?h e = Some ws" for e ws
      using that Some ds hub_invD(1) [OF inv, of e ws]
      by (auto simp: Subscribe_def Let_def split: if_splits)
    have "watched ?h e x \<longleftrightarrow> (x = c \<and> e = d) \<or> watched h e x" for e x
      using Some ds by (auto simp: watched_def Subscribe_def Let_def split: option.splits)
    moreover have "watching ?h e x \<longleftrightarrow> (x = c \<and> e = d) \<or> watching h e x" for e x
      using Some ds by (auto simp: watching_def Subscribe_def Let_def)
    ultimately show "watched ?h e x \<longleftrightarrow> watching ?h e x" for e x
      using hub_invD(2) [OF inv] by simp
    show "c_closed k = (c_watching k = None) \<and> length (c_send k) \<le> sendCap"
      if "h_conns ?h x = Some k" for x k
      using that Some ds hub_invD(3) [OF inv, of x] hub_invD(3) [OF inv, of c conn]
      by (auto simp: Subscribe_def Let_def split: if_splits)
  qed
qed (simp add: Subscribe_def inv)

lemma hub_inv_Unsubscribe:
  assumes inv: "hub_inv h"
  shows "hub_inv (Unsubscribe c d h)"
proof (cases "h_conns h c")
  case (Some conn)
  let ?h = "Unsubscribe c d h"
  show ?thesis
  proof (rule hub_invI)
    show "ws \<noteq> {}" if "h_watchers ?h e = Some ws" for e ws
      using that Some hub_invD(1) [OF inv, of e ws]
      by (auto simp: Unsubscribe_def split: if_splits dest: drop_watcher_SomeD)
    have "watched ?h e x \<longleftrightarrow> \<not> (x = c \<and> e = d) \<and> watched h e x" for e x
      using Some by (auto simp: watched_def Unsubscribe_def drop_watcher_mem)
    moreover have "watching ?h e x \<longleftrightarrow> \<not> (x = c \<and> e = d) \<and> watching h e x" for e x
      using Some by (auto simp: watching_def Unsubscribe_def)
    ultimately show "watched ?h e x \<longleftrightarrow> watching ?h e x" for e x
      using hub_invD(2) [OF inv] by simp
    show "c_closed k = (c_watching k = None) \<and> length (c_send k) \<le> sendCap"
      if "h_conns ?h x = Some k" for x k
      using that Some hub_invD(3) [OF inv, of x] hub_invD(3) [OF inv, of c conn]
      by (auto simp: Unsubscribe_def split: if_splits)
  qed
qed (simp add: Unsubscribe_def inv)

lemma offer_sel [simp]:
  "c_closed (offer e k) = c_closed k" "c_watching (offer e k) = c_watching k"
  "length (c_send k) \<le> sendCap \<Longrightarrow> length (c_send (offer e k)) \<le> sendCap"
  by (auto simp: offer_def)

lemma publish_watchers [simp]: "h_watchers (snd (PublishDrEvent d e h)) = h_watchers h"
  by (simp add: PublishDrEvent_def split: option.splits)

lemma publish_watching [simp]: "watching (snd (PublishDrEvent d e h)) x y = watching h x y"
  by (auto simp: watching_def PublishDrEvent_def split: option.splits)

lemma hub_inv_Publish:
  assumes inv: "hub_inv h"
  shows "hub_inv (snd (PublishDrEvent d e h))"
proof (rule hub_invI)
  show "ws \<noteq> {}" if "h_watchers (snd (PublishDrEvent d e h)) x = Some ws" for x ws
    using that hub_invD(1) [OF inv] by simp
  show "watched (snd (PublishDrEvent d e h)) x c \<longleftrightarrow> watching (snd (PublishDrEvent d e h)) x c" for x c
    using hub_invD(2) [OF inv] by (simp add: watched_def)
  show "c_closed k = (c_watching k = None) \<and> length (c_send k) \<le> sendCap"
    if "h_conns (snd (PublishDrEvent d e h)) c = Some k" for c k
    using that hub_invD(3) [OF inv, of c]
    by (auto simp: PublishDrEvent_def split: option.splits if_splits)
qed

lemma publish_safe:
  assumes "hub_inv h"
  shows "\<not> fst (PublishDrEvent d e h)"
  using hub_invD(2) [OF assms] hub_invD(3) [OF assms]
  by (fastforce simp: PublishDrEvent_def watched_def watching_def split: option.splits)

section \<open>Runs of the connection loops\<close>

text \<open>What the read loops of the connections and the services do to the hub, in any interleaving.
  ReadPump subscribes and unsubscribes its own connection until it ends, and then disconnects it,
  so a connection that is closed subscribes no more.\<close>

inductive hub_step :: "WSHub \<Rightarrow> WSHub \<Rightarrow> bool" where
  connect: "h_conns h c = None \<Longrightarrow> hub_step h (NewConn c h)"
| subscribe: "\<lbrakk>h_conns h c = Some conn; \<not> c_closed conn\<rbrakk> \<Longrightarrow> hub_step h (snd (Subscribe c d h))"
| unsubscribe: "\<lbrakk>h_conns h c = Some conn; \<not> c_closed conn\<rbrakk> \<Longrightarrow> hub_step h (Unsubscribe c d h)"
| disconnect: "hub_step h (Disconnect c h)"
| publish: "hub_step h (snd (PublishDrEvent d e h))"
| deliver: "h_conns h c = Some conn \<Longrightarrow>
    hub_step h (h\<lparr>h_conns := (h_conns h)(c \<mapsto> conn\<lparr>c_send := tl (c_send conn)\<rparr>)\<rparr>)"

inductive_cases hub_stepE: "hub_step h h'"

lemma subscribe_safe:
  assumes "hub_inv h" and "h_conns h c = Some conn" and "\<not> c_closed conn"
  shows "\<not> fst (Subscribe c d h)"
  using hub_invD(3) [OF assms(1,2)] assms(2,3) by (auto simp: Subscribe_def Let_def)

lemma hub_inv_deliver:
  assumes inv: "hub_inv h" and c: "h_conns h c = Some conn"
  shows "hub_inv (h\<lparr>h_conns := (h_conns h)(c \<mapsto> conn\<lparr>c_send := tl (c_send conn)\<rparr>)\<rparr>)"
    (is "hub_inv ?h")
proof (rule hub_invI)
  show "ws \<noteq> {}" if "h_watchers ?h d = Some ws" for d ws
    using that hub_invD(1) [OF inv] by simp
  have "watching ?h d x = watching h d x" for d x using c by (simp add: watching_def)
  then show "watched ?h d x \<longleftrightarrow> watching ?h d x" for d x
    using hub_invD(2) [OF inv] by (simp add: watched_def)
  show "c_closed k = (c_watching k = None) \<and> length (c_send k) \<le> sendCap"
    if "h_conns ?h x = Some k" for x k
    using that c hub_invD(3) [OF inv, of x] hub_invD(3) [OF inv, of c conn]
    by (auto split: if_splits)
qed

lemma hub_step_inv: "\<lbrakk>hub_step h h'; hub_inv h\<rbrakk> \<Longrightarrow> hub_inv h'"
  by (erule hub_stepE)
    (auto intro: hub_inv_NewConn hub_inv_Unsubscribe hub_inv_Disconnect hub_inv_Publish
      hub_inv_deliver intro!: hub_inv_Subscribe simp: subscribe_safe)

lemma hub_reachable_inv: "hub_step\<^sup>*\<^sup>* NewWSHub h \<Longrightarrow> hub_inv h"
  by (induction rule: rtranclp_induct) (auto intro: hub_inv_New hub_step_inv)

section \<open>Properties\<close>

text \<open>C5: after any interleaving of connects, subscriptions, disconnects and publications, no
  publication sends on a closed channel, a connection is registered as a watcher of a delivery
  request exactly when its own watching set says so, and no buffer holds more than 64 events.\<close>

theorem hub_consistent:
  assumes "hub_step\<^sup>*\<^sup>* NewWSHub h"
  shows "\<not> fst (PublishDrEvent d e h) \<and>
    ((\<exists>ws. h_watchers h d = Some ws \<and> c \<in> ws) \<longleftrightarrow>
       (\<exists>conn ds. h_conns h c = Some conn \<and> \<not> c_closed conn \<and> c_watching conn = Some ds \<and> d \<in> ds)) \<and>
    (\<forall>conn. h_conns h c = Some conn \<longrightarrow> length (c_send conn) \<le> 64)"
proof -
  have inv: "hub_inv h" by (rule hub_reachable_inv [OF assms])
  show ?thesis
    using publish_safe [OF inv] hub_invD(2) [OF inv, of d c] hub_invD(3) [OF inv, of c]
    by (auto simp: watched_def watching_def sendCap_def)
qed

theorem hub_consistent_witness:
  "\<not> fst (PublishDrEvent 5 (DrUpdated 5) (snd (Subscribe 1 5 (NewConn 1 NewWSHub))))"
proof -
  have "hub_step NewWSHub (NewConn 1 NewWSHub)"
    by (rule hub_step.connect) (simp add: NewWSHub_def)
  moreover have "hub_step (NewConn 1 NewWSHub) (snd (Subscribe 1 5 (NewConn 1 NewWSHub)))"
    by (rule hub_step.subscribe [where conn = "\<lparr>c_send = [], c_closed = False, c_watching = Some {}\<rparr>"])
      (simp_all add: NewConn_def)
  ultimately have "hub_step\<^sup>*\<^sup>* NewWSHub (snd (Subscribe 1 5 (NewConn 1 NewWSHub)))"
    by (meson rtranclp.rtrancl_refl rtranclp.rtrancl_into_rtrancl)
  then show ?thesis using hub_consistent by blast
qed

text \<open>A publication reaches exactly the watchers with room in their buffer: each gets the event
  at the end of its queue, and every other connection, full or not watching, is unchanged.\<close>

theorem PublishDrEvent_exact:
  assumes "h_conns h c = Some conn"
  shows "h_conns (snd (PublishDrEvent d e h)) c = Some (
    if (\<exists>ws. h_watchers h d = Some ws \<and> c \<in> ws) \<and> length (c_send conn) < 64
    then conn\<lparr>c_send := c_send conn @ [e]\<rparr> else conn)"
  using assms by (auto simp: PublishDrEvent_def offer_def sendCap_def split: option.splits)

theorem PublishDrEvent_exact_witness:
  "h_conns (snd (PublishDrEvent 5 (DrUpdated 5) (snd (Subscribe 1 5 (NewConn 1 NewWSHub))))) 1 =
     Some \<lparr>c_send = [DrUpdated 5], c_closed = False, c_watching = Some {5}\<rparr>"
  using PublishDrEvent_exact [of "snd (Subscribe 1 5 (NewConn 1 NewWSHub))" 1
      "\<lparr>c_send = [], c_closed = False, c_watching = Some {5}\<rparr>" 5 "DrUpdated 5"]
  by (simp add: Subscribe_def NewConn_def NewWSHub_def)

end
