(* ===== verification/Tracker.thy ===== *)
theory Tracker
  imports Prelude
begin

text \<open>
  The two try-locks of the service: the tracker of running sync goroutines
  (service/sync_tracker.go, a map from delivery request to cancel function under a mutex) and
  drSyncLocks (a sync.Map used as a set, service/service.go). Both meet the same contract.
\<close>

section \<open>Contract\<close>

text \<open>acquire answers whether the key was free and holds it afterwards; release frees one key and
  no other.\<close>

locale try_lock =
  fixes held :: "'s \<Rightarrow> 'k \<Rightarrow> bool"
    and acquire :: "'k \<Rightarrow> 's \<Rightarrow> bool \<times> 's"
    and release :: "'k \<Rightarrow> 's \<Rightarrow> 's"
  assumes acquire_answer: "fst (acquire k s) = (\<not> held s k)"
    and acquire_held: "held (snd (acquire k s)) j = (j = k \<or> held s j)"
    and release_held: "held (release k s) j = (j \<noteq> k \<and> held s j)"
begin

lemma acquire_excludes: "\<not> fst (acquire k (snd (acquire k s)))"
  by (simp add: acquire_answer acquire_held)

lemma acquire_after_release: "fst (acquire k (release k s))"
  by (simp add: acquire_answer release_held)

lemma failed_acquire_keeps: "\<not> fst (acquire k s) \<Longrightarrow> held (snd (acquire k s)) j = held s j"
  by (auto simp: acquire_answer acquire_held)

lemma acquire_release_held: "held (release k (snd (acquire k s))) j = (j \<noteq> k \<and> held s j)"
  by (auto simp: release_held acquire_held)

end

section \<open>SyncTracker\<close>

text \<open>The running map; its values, the cancel functions, are the contexts handed out, so a
  finished or stopped request is one whose context is canceled.\<close>

type_synonym SyncTracker = "nat set"

definition NewSyncTracker :: SyncTracker where
  "NewSyncTracker = {}"

definition TryStart :: "nat \<Rightarrow> SyncTracker \<Rightarrow> bool \<times> SyncTracker" where
  "TryStart drID t = (if drID \<in> t then (False, t) else (True, insert drID t))"

definition Finish :: "nat \<Rightarrow> SyncTracker \<Rightarrow> SyncTracker" where
  "Finish drID t = (if drID \<in> t then t - {drID} else t)"

definition StopAll :: "SyncTracker \<Rightarrow> SyncTracker" where
  "StopAll t = {}"

definition ActiveCount :: "SyncTracker \<Rightarrow> nat" where
  "ActiveCount t = card t"

section \<open>drSyncLocks\<close>

text \<open>sync.Map.LoadOrStore returns loaded; the caller proceeds when it is false.\<close>

definition LoadOrStore :: "nat \<Rightarrow> nat set \<Rightarrow> bool \<times> nat set" where
  "LoadOrStore k m = (k \<in> m, insert k m)"

definition sync_acquire :: "nat \<Rightarrow> nat set \<Rightarrow> bool \<times> nat set" where
  "sync_acquire k m = (case LoadOrStore k m of (loaded, m') \<Rightarrow> (\<not> loaded, m'))"

definition sync_release :: "nat \<Rightarrow> nat set \<Rightarrow> nat set" where
  "sync_release k m = m - {k}"

interpretation sync_tracker: try_lock "\<lambda>t k. k \<in> t" TryStart Finish
  by unfold_locales (auto simp: TryStart_def Finish_def)

interpretation dr_locks: try_lock "\<lambda>m k. k \<in> m" sync_acquire sync_release
  by unfold_locales (auto simp: sync_acquire_def sync_release_def LoadOrStore_def)

lemma ActiveCount_TryStart:
  "finite t \<Longrightarrow> ActiveCount (snd (TryStart d t)) = ActiveCount t + (if fst (TryStart d t) then 1 else 0)"
  by (auto simp: ActiveCount_def TryStart_def)

end
