(* ===== verification/World.thy ===== *)
theory World
  imports Entities Versions Hub Tracker
begin

text \<open>
  The state a handler acts on, and the programs the handlers are. A world holds the database (one
  list of live rows per table, in creation order; a soft-deleted row is gone), the service's memory
  (sync locks, sync tracker, WebSocket hub) and the goroutines spawned and not yet run. A program
  is a state monad over the world whose result is Go's (value, error). A GORM call is one
  statement: the world's fault schedule decides whether it fails, so every theorem about all worlds
  is about every pattern of database failures. GORM itself is not part of the repository; the
  statements below state what it documents: First fails with ErrRecordNotFound, Find does not,
  Updates with a struct writes its non-zero fields only, Updates with a map writes all, Save writes
  every column.
\<close>

section \<open>Goroutines and the world\<close>

datatype task =
  TaskNotifyApproval nat string string       \<comment> \<open>RequestApproval: notify approvers\<close>
| TaskNotifyApproved nat message             \<comment> \<open>Approve: notify, record a failure\<close>
| TaskNotifyCanceled nat message             \<comment> \<open>CancelDeliveryRequest: notify\<close>
| TaskSync nat string                        \<comment> \<open>Approve: one-shot sync\<close>
| TaskImport nat nat string "nat list" "ArtifactTenantOperation list" string
| TaskDeploy nat CpiTenant "(ArtifactTenantOperation \<times> CpiTenant) list" string
| TaskRunSync nat                            \<comment> \<open>runDRSync, up to its first test\<close>
| TaskSyncTick nat                           \<comment> \<open>runDRSync, waiting in its select\<close>
| TaskSyncExit nat                           \<comment> \<open>runDRSync, returning: its deferred Finish\<close>
| TaskGenTR nat nat "nat list"               \<comment> \<open>InsertTenantOps: GenerateTransportRequest\<close>
| TaskGitSync string string ArtifactType nat nat         \<comment> \<open>InsertTenantOps\<close>
| TaskGitSyncOp string string ArtifactType nat nat nat   \<comment> \<open>syncImportState: records the outcome\<close>
| TaskJira string nat message string
| TaskCollect DeliveryRule CpiTenant "CpiTenant list"     \<comment> \<open>TriggerVersionCompare\<close>
| TaskBootstrap CpiTenant nat string InspectionResult     \<comment> \<open>ApplyBootstrap: the job, the token\<close>

datatype tbl = Tenants | Rules | Drs | Ops | Conds | GitCfgs | Snaps | VcSnaps | Included | Jobs | TmsCtxs

record world =
  faults :: "bool list"                  \<comment> \<open>outcome of the next statements; True fails\<close>
  clock :: time
  next_id :: nat
  db_tenants :: "CpiTenant list"
  db_rules :: "DeliveryRule list"
  db_drs :: "DeliveryRequest list"
  db_ops :: "ArtifactTenantOperation list"
  db_conds :: "Condition list"
  db_gitcfg :: "GitRepoConfig list"
  db_snaps :: "GitArtifactSnapshot list"
  db_vcsnaps :: "VersionCompareSnapshot list"
  db_included :: "VersionCompareIncludedPackage list"
  db_jobs :: "TenantBootstrapJob list"
  db_tmsctx :: "CentralTmsContext list"
  dead :: "(tbl \<times> nat) list"           \<comment> \<open>keys of soft-deleted rows\<close>
  adhocLastRun :: "time option"          \<comment> \<open>None: Go's zero time\<close>
  syncLocks :: "nat set"
  tracker :: "SyncTracker option"
  hub :: "WSHub option"
  cf_calls :: "CfCall list"              \<comment> \<open>the changes made outside, in order\<close>
  spawned :: "task list"

definition empty_world :: world where
  "empty_world =
    \<lparr>faults = [], clock = 0, next_id = 1, db_tenants = [], db_rules = [], db_drs = [], db_ops = [], db_conds = [],
     db_gitcfg = [], db_snaps = [], db_vcsnaps = [], db_included = [], db_jobs = [], db_tmsctx = [],
     dead = [], adhocLastRun = None,
     syncLocks = {}, tracker = Some NewSyncTracker, hub = None, cf_calls = [], spawned = []\<rparr>"

type_synonym 'a prog = "(world, 'a) state"

section \<open>Programs\<close>

definition gets :: "(world \<Rightarrow> 'a) \<Rightarrow> 'a prog" where
  "gets f = State (\<lambda>w. (f w, w))"

definition modify :: "(world \<Rightarrow> world) \<Rightarrow> unit prog" where
  "modify f = State (\<lambda>w. ((), f w))"

text \<open>if err != nil return wrap(err)\<close>

definition onerr ::
  "('e + 'a) prog \<Rightarrow> ('e \<Rightarrow> 'f) \<Rightarrow> ('a \<Rightarrow> ('f + 'b) prog) \<Rightarrow> ('f + 'b) prog" where
  "onerr m wrap k =
     do { r \<leftarrow> m; case r of Inl e \<Rightarrow> State_Monad.return (Inl (wrap e)) | Inr x \<Rightarrow> k x }"

abbreviation failwith :: "'e \<Rightarrow> ('e + 'a) prog" where
  "failwith e \<equiv> State_Monad.return (Inl e)"

abbreviation done_with :: "'a \<Rightarrow> ('e + 'a) prog" where
  "done_with x \<equiv> State_Monad.return (Inr x)"

fun loop :: "('a \<Rightarrow> 's \<Rightarrow> 's prog) \<Rightarrow> 'a list \<Rightarrow> 's \<Rightarrow> 's prog" where
  "loop f [] s = State_Monad.return s"
| "loop f (x # xs) s = do { s' \<leftarrow> f x s; loop f xs s' }"

text \<open>A loop whose body may return from the function.\<close>

fun loopE :: "('a \<Rightarrow> 's \<Rightarrow> ('e + 's) prog) \<Rightarrow> 'a list \<Rightarrow> 's \<Rightarrow> ('e + 's) prog" where
  "loopE f [] s = State_Monad.return (Inr s)"
| "loopE f (x # xs) s =
     do { r \<leftarrow> f x s; case r of Inl e \<Rightarrow> State_Monad.return (Inl e) | Inr s' \<Rightarrow> loopE f xs s' }"

section \<open>Statements\<close>

definition stmt :: "(world \<Rightarrow> (gerr + 'a) \<times> world) \<Rightarrow> (gerr + 'a) prog" where
  "stmt f = State (\<lambda>w.
     case faults w of
       [] \<Rightarrow> f w
     | b # bs \<Rightarrow> if b then (Inl DbErr, w\<lparr>faults := bs\<rparr>) else f (w\<lparr>faults := bs\<rparr>))"

type_synonym 'r sel = "world \<Rightarrow> 'r list"
type_synonym 'r upd = "('r list \<Rightarrow> 'r list) \<Rightarrow> world \<Rightarrow> world"

text \<open>A reading statement, with or without an error of its own.\<close>

definition db_load :: "(world \<Rightarrow> gerr + 'a) \<Rightarrow> (gerr + 'a) prog" where
  "db_load q = stmt (\<lambda>w. (q w, w))"

definition db_query :: "(world \<Rightarrow> 'a) \<Rightarrow> (gerr + 'a) prog" where
  "db_query q = stmt (\<lambda>w. (Inr (q w), w))"

definition db_find :: "'r sel \<Rightarrow> ('r \<Rightarrow> bool) \<Rightarrow> (gerr + 'r list) prog" where
  "db_find sel P = db_query (\<lambda>w. filter P (sel w))"

definition db_first :: "'r sel \<Rightarrow> ('r \<Rightarrow> bool) \<Rightarrow> (gerr + 'r) prog" where
  "db_first sel P =
     stmt (\<lambda>w. (case List.find P (sel w) of Some r \<Rightarrow> Inr r | None \<Rightarrow> Inl RecordNotFound, w))"

definition db_update :: "'r upd \<Rightarrow> ('r \<Rightarrow> bool) \<Rightarrow> ('r \<Rightarrow> 'r) \<Rightarrow> (gerr + unit) prog" where
  "db_update upd P f = stmt (\<lambda>w. (Inr (), upd (upd_where P f) w))"

definition db_delete ::
  "tbl \<Rightarrow> 'r sel \<Rightarrow> 'r upd \<Rightarrow> ('r \<Rightarrow> nat) \<Rightarrow> ('r \<Rightarrow> bool) \<Rightarrow> (gerr + unit) prog" where
  "db_delete t sel upd key P = stmt (\<lambda>w.
     (Inr (), upd (filter (\<lambda>r. \<not> P r))
                (w\<lparr>dead := dead w @ map (\<lambda>r. (t, key r)) (filter P (sel w))\<rparr>)))"

text \<open>Insertion: a row without a primary key gets the next of the sequence, a key that exists
  violates the constraint and nothing is inserted.\<close>

fun assign_ids :: "('r \<Rightarrow> nat) \<Rightarrow> (nat \<Rightarrow> 'r \<Rightarrow> 'r) \<Rightarrow> nat \<Rightarrow> 'r list \<Rightarrow> nat \<times> 'r list" where
  "assign_ids key setkey n [] = (n, [])"
| "assign_ids key setkey n (r # rs) =
     (if key r = 0 then
        (case assign_ids key setkey (Suc n) rs of (n', rs') \<Rightarrow> (n', setkey n r # rs'))
      else (case assign_ids key setkey n rs of (n', rs') \<Rightarrow> (n', r # rs')))"

definition db_create ::
  "tbl \<Rightarrow> 'r sel \<Rightarrow> 'r upd \<Rightarrow> ('r \<Rightarrow> nat) \<Rightarrow> (nat \<Rightarrow> 'r \<Rightarrow> 'r) \<Rightarrow> 'r list \<Rightarrow> (gerr + 'r list) prog" where
  "db_create t sel upd key setkey rows = stmt (\<lambda>w.
     case assign_ids key setkey (next_id w) rows of
       (n, rows') \<Rightarrow>
         (let w1 = w\<lparr>next_id := n\<rparr> in
          if distinct (map key rows') \<and> set (map key rows') \<inter> set (map key (sel w)) = {} \<and>
             list_all (\<lambda>r. (t, key r) \<notin> set (dead w)) rows'
          then (Inr rows', upd (\<lambda>rs. rs @ rows') w1)
          else (Inl DbErr, w1)))"

text \<open>Save of a row with a primary key: all columns, inserted when the row is missing.\<close>

definition db_save ::
  "tbl \<Rightarrow> 'r sel \<Rightarrow> 'r upd \<Rightarrow> ('r \<Rightarrow> nat) \<Rightarrow> (nat \<Rightarrow> 'r \<Rightarrow> 'r) \<Rightarrow> 'r \<Rightarrow> (gerr + 'r) prog" where
  "db_save t sel upd key setkey row =
     (if key row = 0 then
        onerr (db_create t sel upd key setkey [row]) id (\<lambda>rs. done_with (hd rs))
      else stmt (\<lambda>w.
        (Inr row,
         if \<exists>r\<in>set (sel w). key r = key row then upd (upd_where (\<lambda>r. key r = key row) (\<lambda>_. row)) w
         else upd (\<lambda>rs. rs @ [row]) w)))"

text \<open>Insertion of one row under a unique index.\<close>

definition db_create_unique ::
  "'r sel \<Rightarrow> 'r upd \<Rightarrow> ('r \<Rightarrow> 'k) \<Rightarrow> (nat \<Rightarrow> 'r \<Rightarrow> 'r) \<Rightarrow> 'r \<Rightarrow> (gerr + 'r) prog" where
  "db_create_unique sel upd key setkey row = stmt (\<lambda>w.
     (let row' = setkey (next_id w) row; w1 = w\<lparr>next_id := Suc (next_id w)\<rparr> in
      if \<exists>r\<in>set (sel w). key r = key row then (Inl DbErr, w1)
      else (Inr row', upd (\<lambda>rs. rs @ [row']) w1)))"

text \<open>db.Transaction: an error inside, or of the commit, undoes the changes of the tables. What a
  transaction here may change are tables only.\<close>

definition transaction :: "(gerr + 'a) prog \<Rightarrow> (gerr + 'a) prog" where
  "transaction m = State (\<lambda>w.
     case run_state (do { _ \<leftarrow> db_query (\<lambda>_. ()); m }) w of
       (Inl e, w1) \<Rightarrow> (Inl e, w\<lparr>faults := faults w1, next_id := next_id w1\<rparr>)
     | (Inr x, w1) \<Rightarrow>
         (case run_state (db_query (\<lambda>_. ())) w1 of
            (Inl e, w2) \<Rightarrow> (Inl e, w\<lparr>faults := faults w2, next_id := next_id w2\<rparr>)
          | (Inr _, w2) \<Rightarrow> (Inr x, w2)))"

text \<open>Updates(struct): a zero field of the new struct leaves the column.\<close>

definition nz :: "'a \<Rightarrow> 'a \<Rightarrow> 'a \<Rightarrow> 'a" where
  "nz z new old = (if new = z then old else new)"

section \<open>Weakest preconditions\<close>

definition wp :: "'a prog \<Rightarrow> ('a \<Rightarrow> world \<Rightarrow> bool) \<Rightarrow> world \<Rightarrow> bool" where
  "wp m Q w = (case run_state m w of (r, w') \<Rightarrow> Q r w')"

named_theorems wp_simps \<open>weakest preconditions of the control structure\<close>
named_theorems wp_intro \<open>weakest preconditions of the statements\<close>

lemma wp_return [wp_simps]: "wp (State_Monad.return x) Q w = Q x w"
  by (simp add: wp_def)

lemma wp_bind [wp_simps]: "wp (State_Monad.bind m k) Q w = wp m (\<lambda>x. wp (k x) Q) w"
  by (simp add: wp_def State_Monad.bind_def split: prod.splits)

lemma wp_gets [wp_simps]: "wp (gets f) Q w = Q (f w) w"
  by (simp add: wp_def gets_def)

lemma wp_modify [wp_simps]: "wp (modify f) Q w = Q () (f w)"
  by (simp add: wp_def modify_def)

lemma wp_onerr [wp_simps]:
  "wp (onerr m f k) Q w =
   wp m (\<lambda>r w'. case r of Inl e \<Rightarrow> Q (Inl (f e)) w' | Inr x \<Rightarrow> wp (k x) Q w') w"
  unfolding onerr_def wp_bind
  by (rule arg_cong [where f = "\<lambda>Q. wp m Q w"]) (auto simp: fun_eq_iff wp_return split: sum.splits)

lemma wp_if [wp_simps]: "wp (if b then m else n) Q w = (if b then wp m Q w else wp n Q w)"
  by simp

lemma wp_sum [wp_simps]:
  "wp (case r of Inl e \<Rightarrow> f e | Inr x \<Rightarrow> g x) Q w =
   (case r of Inl e \<Rightarrow> wp (f e) Q w | Inr x \<Rightarrow> wp (g x) Q w)"
  by (cases r) auto

lemma wp_option [wp_simps]:
  "wp (case r of None \<Rightarrow> f | Some x \<Rightarrow> g x) Q w =
   (case r of None \<Rightarrow> wp f Q w | Some x \<Rightarrow> wp (g x) Q w)"
  by (cases r) auto

lemma wp_prod [wp_simps]:
  "wp (case p of (a, b) \<Rightarrow> f a b) Q w = (case p of (a, b) \<Rightarrow> wp (f a b) Q w)"
  by (cases p) auto

lemma wp_mono: "\<lbrakk>wp m Q w; \<And>r w'. Q r w' \<Longrightarrow> Q' r w'\<rbrakk> \<Longrightarrow> wp m Q' w"
  by (auto simp: wp_def split: prod.splits)

lemma wp_run: "wp m Q w \<Longrightarrow> run_state m w = (r, w') \<Longrightarrow> Q r w'"
  by (simp add: wp_def)

lemma run_wp: "run_state m w = (r, w') \<longleftrightarrow> wp m (\<lambda>r1 w1. r1 = r \<and> w1 = w') w"
  by (auto simp: wp_def split: prod.splits)

lemma wp_run_state: "wp m Q w = Q (fst (run_state m w)) (snd (run_state m w))"
  by (simp add: wp_def split: prod.split)

lemma io_of_wp: "(\<And>w. wp m (\<lambda>r w'. R w w') w) \<Longrightarrow> state_io_rel R m"
  by (simp add: state_io_rel_def wp_run_state)

lemma wp_of_io: "state_io_rel R m \<Longrightarrow> wp m (\<lambda>r w'. R w w') w"
  by (simp add: state_io_rel_def wp_run_state)

text \<open>A run named by its two components, for concrete runs.\<close>

lemma run_split: "run_state m w = (fst (run_state m w), snd (run_state m w))"
  by simp

lemma run_ok:
  "\<not> isl (fst (run_state m w)) \<Longrightarrow>
   run_state m w = (Inr (projr (fst (run_state m w))), snd (run_state m w))"
  by (metis prod.collapse sum.collapse(2))

lemma run_err:
  "isl (fst (run_state m w)) \<Longrightarrow>
   run_state m w = (Inl (projl (fst (run_state m w))), snd (run_state m w))"
  by (metis prod.collapse sum.collapse(1))

text \<open>A statement: it fails, or acts on a world that differs in the schedule only.\<close>

lemma wp_stmt:
  assumes "\<And>fs. Q (Inl DbErr) (w\<lparr>faults := fs\<rparr>)"
    and "\<And>fs. (case f (w\<lparr>faults := fs\<rparr>) of (r, w') \<Rightarrow> Q r w')"
  shows "wp (stmt f) Q w"
proof (cases "faults w")
  case Nil
  then have "w\<lparr>faults := []\<rparr> = w" by simp
  with assms(2) [of "[]"] Nil show ?thesis by (simp add: wp_def stmt_def)
next
  case (Cons b bs)
  then show ?thesis using assms by (simp add: wp_def stmt_def)
qed

lemma wp_load:
  assumes "\<And>fs. q (w\<lparr>faults := fs\<rparr>) = q w"
    and "\<And>fs. Q (Inl DbErr) (w\<lparr>faults := fs\<rparr>)"
    and "\<And>fs. Q (q w) (w\<lparr>faults := fs\<rparr>)"
  shows "wp (db_load q) Q w"
  unfolding db_load_def by (rule wp_stmt) (use assms in simp_all)

lemma wp_query:
  assumes "\<And>fs. q (w\<lparr>faults := fs\<rparr>) = q w"
    and "\<And>fs. Q (Inl DbErr) (w\<lparr>faults := fs\<rparr>)"
    and "\<And>fs. Q (Inr (q w)) (w\<lparr>faults := fs\<rparr>)"
  shows "wp (db_query q) Q w"
  unfolding db_query_def by (rule wp_stmt) (use assms in simp_all)

text \<open>A transaction: its error leaves the tables, its success is that of its body.\<close>

lemma wp_transaction:
  assumes "\<And>e fs n. Q (Inl e) (w\<lparr>faults := fs, next_id := n\<rparr>)"
    and "\<And>fs. wp m (\<lambda>r w1. case r of Inl _ \<Rightarrow> True | Inr x \<Rightarrow> (\<forall>fs. Q (Inr x) (w1\<lparr>faults := fs\<rparr>)))
           (w\<lparr>faults := fs\<rparr>)"
  shows "wp (transaction m) Q w"
proof -
  have body: "wp (do { _ \<leftarrow> db_query (\<lambda>_. ()); m })
      (\<lambda>r w1. case r of Inl _ \<Rightarrow> True | Inr x \<Rightarrow> (\<forall>fs. Q (Inr x) (w1\<lparr>faults := fs\<rparr>))) w"
    unfolding wp_bind db_query_def by (rule wp_stmt) (use assms(2) in simp_all)
  obtain r w1 where r: "run_state (do { _ \<leftarrow> db_query (\<lambda>_. ()); m }) w = (r, w1)" by fastforce
  show ?thesis
  proof (cases r)
    case (Inl e)
    then show ?thesis using r assms(1) by (simp add: wp_def transaction_def)
  next
    case (Inr x)
    have "wp (db_query (\<lambda>_. ())) (\<lambda>r2 w2. case r2 of
        Inl e \<Rightarrow> Q (Inl e) (w\<lparr>faults := faults w2, next_id := next_id w2\<rparr>) | Inr _ \<Rightarrow> Q (Inr x) w2) w1"
      unfolding db_query_def
      by (rule wp_stmt) (use assms(1) wp_run [OF body r] Inr in simp_all)
    then show ?thesis
      using r Inr by (auto simp: wp_def transaction_def split: prod.splits sum.splits)
  qed
qed

lemma transaction_ok:
  "\<lbrakk>faults w = []; run_state m w = (r, w1); faults w1 = []\<rbrakk> \<Longrightarrow>
   run_state (transaction m) w = (r, case r of Inl _ \<Rightarrow> w\<lparr>next_id := next_id w1\<rparr> | Inr _ \<Rightarrow> w1)"
  by (cases r) (simp_all add: transaction_def db_query_def stmt_def State_Monad.bind_def)

text \<open>Without faults the statement acts on the world itself.\<close>

lemma run_stmt: "faults w = [] \<Longrightarrow> run_state (stmt f) w = f w"
  by (simp add: stmt_def)

lemma wp_stmt_ok: "faults w = [] \<Longrightarrow> wp (stmt f) Q w = (case f w of (r, w') \<Rightarrow> Q r w')"
  by (simp add: wp_def stmt_def)

lemma wp_loop:
  assumes "I [] s w"
    and "\<And>x seen s w. I seen s w \<Longrightarrow> x \<in> set xs \<Longrightarrow> wp (f x s) (\<lambda>s' w'. I (seen @ [x]) s' w') w"
    and "\<And>s w. I xs s w \<Longrightarrow> Q s w"
  shows "wp (loop f xs s) Q w"
proof -
  have "wp (loop f ys s) (\<lambda>s' w'. I (seen @ ys) s' w') w"
    if "I seen s w" "set ys \<subseteq> set xs" for ys seen s w
    using that
  proof (induction ys arbitrary: seen s w)
    case (Cons y ys)
    show ?case
      unfolding loop.simps wp_bind
      by (rule wp_mono [OF assms(2) [OF Cons.prems(1)]])
        (use Cons.IH [of "seen @ [y]"] Cons.prems in auto)
  qed (simp add: wp_return)
  from this [OF assms(1), of xs] show ?thesis
    using assms(3) by (auto intro: wp_mono)
qed

lemma wp_loopE:
  assumes "I [] s w"
    and "\<And>x seen s w. I seen s w \<Longrightarrow> x \<in> set xs \<Longrightarrow>
           wp (f x s) (\<lambda>r w'. case r of Inl e \<Rightarrow> Q (Inl e) w' | Inr s' \<Rightarrow> I (seen @ [x]) s' w') w"
    and "\<And>s w. I xs s w \<Longrightarrow> Q (Inr s) w"
  shows "wp (loopE f xs s) Q w"
proof -
  have "wp (loopE f ys s) (\<lambda>r w'. case r of Inl e \<Rightarrow> Q (Inl e) w' | Inr s' \<Rightarrow> I (seen @ ys) s' w') w"
    if "I seen s w" "set ys \<subseteq> set xs" for ys seen s w
    using that
  proof (induction ys arbitrary: seen s w)
    case (Cons y ys)
    show ?case
      unfolding loopE.simps wp_bind
    proof (rule wp_mono [OF assms(2) [OF Cons.prems(1)]])
      show "y \<in> set xs" using Cons.prems by simp
      show "wp (case r of Inl e \<Rightarrow> State_Monad.return (Inl e) | Inr s' \<Rightarrow> loopE f ys s')
              (\<lambda>r w'. case r of Inl e \<Rightarrow> Q (Inl e) w' | Inr s' \<Rightarrow> I (seen @ y # ys) s' w') w'"
        if "case r of Inl e \<Rightarrow> Q (Inl e) w' | Inr s' \<Rightarrow> I (seen @ [y]) s' w'" for r w'
        using that Cons.IH [of "seen @ [y]", unfolded append_assoc append_Cons append_Nil] Cons.prems(2)
        by (cases r) (auto simp: wp_return)
    qed
  qed (simp add: wp_return)
  from this [OF assms(1), of xs] show ?thesis
    by (rule wp_mono) (use assms(3) in \<open>auto split: sum.splits\<close>)
qed

section \<open>Tables\<close>

text \<open>The contract of a table: what its accessor and update promise of each other, of the fault
  schedule and of the id sequence. Every table of the world meets it; the derived rules are the
  ones the services are proved with.\<close>

locale table =
  fixes sel :: "'r sel" and upd :: "'r upd"
  assumes sel_upd: "sel (upd f w) = f (sel w)"
    and sel_faults: "sel (w\<lparr>faults := fs\<rparr>) = sel w"
    and sel_dead: "sel (w\<lparr>dead := ds\<rparr>) = sel w"
    and sel_next: "sel (w\<lparr>next_id := n\<rparr>) = sel w"
    and upd_faults: "upd f (w\<lparr>faults := fs\<rparr>) = (upd f w)\<lparr>faults := fs\<rparr>"
    and faults_upd: "faults (upd f w) = faults w"
begin

lemma first_ok:
  "\<lbrakk>faults w = []; List.find P (sel w) = Some r\<rbrakk> \<Longrightarrow> run_state (db_first sel P) w = (Inr r, w)"
  by (simp add: db_first_def run_stmt)

lemma first_none:
  "\<lbrakk>faults w = []; List.find P (sel w) = None\<rbrakk> \<Longrightarrow>
   run_state (db_first sel P) w = (Inl RecordNotFound, w)"
  by (simp add: db_first_def run_stmt)

lemma find_ok: "faults w = [] \<Longrightarrow> run_state (db_find sel P) w = (Inr (filter P (sel w)), w)"
  by (simp add: db_find_def db_query_def run_stmt)

lemma update_ok:
  "faults w = [] \<Longrightarrow> run_state (db_update upd P f) w = (Inr (), upd (upd_where P f) w)"
  by (simp add: db_update_def run_stmt)

text \<open>Reading back: a row updated by a function that keeps the search key is found updated.\<close>

lemma first_after_update:
  assumes "faults w = []" and "List.find P (sel w) = Some r" and "\<And>r. P (f r) = P r"
  shows "run_state (do { _ \<leftarrow> db_update upd P f; db_first sel P }) w =
         (Inr (f r), upd (upd_where P f) w)"
proof -
  have "List.find P (upd_where P f (sel w)) = Some (f r)"
    using assms(2) find_SomeD [OF assms(2)] assms(3)
    by (auto simp: upd_where_def find_map_upd [where P = P])
  then show ?thesis
    using assms(1)
    by (simp add: State_Monad.bind_def update_ok first_ok faults_upd sel_upd)
qed

lemma first_after_delete:
  assumes "faults w = []"
  shows "fst (run_state (do { _ \<leftarrow> db_delete t sel upd key P; db_first sel P }) w) = Inl RecordNotFound"
proof -
  have "List.find P (filter (\<lambda>r. \<not> P r) (sel w)) = None" by (simp add: find_None_iff2)
  then show ?thesis
    using assms by (simp add: State_Monad.bind_def db_delete_def run_stmt db_first_def faults_upd sel_upd
        sel_dead)
qed

lemma wp_first [wp_intro]:
  assumes "\<And>fs. Q (Inl DbErr) (w\<lparr>faults := fs\<rparr>)"
    and "\<And>fs. List.find P (sel w) = None \<Longrightarrow> Q (Inl RecordNotFound) (w\<lparr>faults := fs\<rparr>)"
    and "\<And>fs r. \<lbrakk>List.find P (sel w) = Some r; r \<in> set (sel w); P r\<rbrakk> \<Longrightarrow>
           Q (Inr r) (w\<lparr>faults := fs\<rparr>)"
  shows "wp (db_first sel P) Q w"
  unfolding db_first_def
  by (rule wp_stmt, rule assms(1), cases "List.find P (sel w)")
    (use assms find_SomeD [of P "sel w"] in \<open>auto simp: sel_faults\<close>)

lemma wp_find [wp_intro]:
  assumes "\<And>fs. Q (Inl DbErr) (w\<lparr>faults := fs\<rparr>)"
    and "\<And>fs. Q (Inr (filter P (sel w))) (w\<lparr>faults := fs\<rparr>)"
  shows "wp (db_find sel P) Q w"
  unfolding db_find_def db_query_def
  by (rule wp_stmt) (use assms in \<open>auto simp: sel_faults\<close>)

lemma wp_delete [wp_intro]:
  assumes "\<And>fs. Q (Inl DbErr) (w\<lparr>faults := fs\<rparr>)"
    and "\<And>fs. Q (Inr ()) (upd (filter (\<lambda>r. \<not> P r))
           (w\<lparr>faults := fs, dead := dead w @ map (\<lambda>r. (t, key r)) (filter P (sel w))\<rparr>))"
  shows "wp (db_delete t sel upd key P) Q w"
  unfolding db_delete_def
  by (rule wp_stmt) (use assms in \<open>auto simp: sel_faults\<close>)

lemma wp_create:
  assumes "\<And>fs n. Q (Inl DbErr) (w\<lparr>faults := fs, next_id := n\<rparr>)"
    and "\<And>fs n rows'. \<lbrakk>assign_ids key setkey (next_id w) rows = (n, rows');
           distinct (map key rows'); set (map key rows') \<inter> set (map key (sel w)) = {};
           \<forall>r\<in>set rows'. (t, key r) \<notin> set (dead w)\<rbrakk> \<Longrightarrow>
           Q (Inr rows') (upd (\<lambda>rs. rs @ rows') (w\<lparr>faults := fs, next_id := n\<rparr>))"
  shows "wp (db_create t sel upd key setkey rows) Q w"
  unfolding db_create_def
proof (rule wp_stmt)
  show "Q (Inl DbErr) (w\<lparr>faults := fs\<rparr>)" for fs
    using assms(1) [where fs = fs and n = "next_id w"] by simp
qed (use assms in \<open>auto simp: Let_def sel_faults list_all_iff split: prod.splits\<close>)

lemma wp_create_unique:
  assumes "\<And>fs n. Q (Inl DbErr) (w\<lparr>faults := fs, next_id := n\<rparr>)"
    and "\<And>fs n. (\<forall>r\<in>set (sel w). key r \<noteq> key row) \<Longrightarrow> Q (Inr (setkey (next_id w) row))
           (upd (\<lambda>rs. rs @ [setkey (next_id w) row]) (w\<lparr>faults := fs, next_id := n\<rparr>))"
  shows "wp (db_create_unique sel upd key setkey row) Q w"
  unfolding db_create_unique_def
proof (rule wp_stmt)
  show "Q (Inl DbErr) (w\<lparr>faults := fs\<rparr>)" for fs
    using assms(1) [where fs = fs and n = "next_id w"] by simp
qed (use assms in \<open>auto simp: Let_def sel_faults\<close>)

lemma wp_update [wp_intro]:
  assumes "\<And>fs. Q (Inl DbErr) (w\<lparr>faults := fs\<rparr>)"
    and "\<And>fs. Q (Inr ()) ((upd (upd_where P f) w)\<lparr>faults := fs\<rparr>)"
  shows "wp (db_update upd P f) Q w"
  unfolding db_update_def
  by (rule wp_stmt) (use assms in \<open>auto simp: upd_faults\<close>)

end

interpretation tenants_table: table db_tenants db_tenants_update
  by unfold_locales auto
interpretation rules_table: table db_rules db_rules_update
  by unfold_locales auto
interpretation drs_table: table db_drs db_drs_update
  by unfold_locales auto
interpretation ops_table: table db_ops db_ops_update
  by unfold_locales auto
interpretation conds_table: table db_conds db_conds_update
  by unfold_locales auto
interpretation gitcfg_table: table db_gitcfg db_gitcfg_update
  by unfold_locales auto
interpretation snaps_table: table db_snaps db_snaps_update
  by unfold_locales auto
interpretation vcsnaps_table: table db_vcsnaps db_vcsnaps_update
  by unfold_locales auto
interpretation included_table: table db_included db_included_update
  by unfold_locales auto
interpretation jobs_table: table db_jobs db_jobs_update
  by unfold_locales auto
interpretation tmsctx_table: table db_tmsctx db_tmsctx_update
  by unfold_locales auto

section \<open>Relations that programs keep\<close>

text \<open>A relation between the world before and after that holds of doing nothing and composes; the
  library's state-io relation lifts it to programs. Reading and failing statements keep it when it
  ignores the fault schedule.\<close>

locale kept_relation =
  fixes R :: "world \<Rightarrow> world \<Rightarrow> bool"
  assumes R_refl: "R w w"
    and R_trans: "\<lbrakk>R u v; R v w\<rbrakk> \<Longrightarrow> R u w"
    and R_faults: "R w (w\<lparr>faults := fs\<rparr>)"
begin

lemma keep_return [pres_intro]: "state_io_rel R (State_Monad.return x)"
  by (auto simp: state_io_rel_def R_refl)

lemma keep_bind [pres_intro]:
  assumes "state_io_rel R m" and "\<And>x. state_io_rel R (k x)"
  shows "state_io_rel R (State_Monad.bind m k)"
  unfolding state_io_rel_def
proof
  fix w
  obtain x w1 where m: "run_state m w = (x, w1)" by fastforce
  have "R w w1" using assms(1) m unfolding state_io_rel_def by (metis snd_conv)
  moreover have "R w1 (snd (run_state (k x) w1))" using assms(2) by (simp add: state_io_rel_def)
  ultimately show "R w (snd (run_state (State_Monad.bind m k) w))"
    using R_trans by (simp add: State_Monad.bind_def m)
qed

lemma keep_gets [pres_intro]: "state_io_rel R (gets f)"
  by (auto simp: state_io_rel_def gets_def R_refl)

lemma keep_modify [pres_intro]: "(\<And>w. R w (f w)) \<Longrightarrow> state_io_rel R (modify f)"
  by (auto simp: state_io_rel_def modify_def)

lemma keep_onerr [pres_intro]:
  assumes "state_io_rel R m" and "\<And>x. state_io_rel R (k x)"
  shows "state_io_rel R (onerr m f k)"
  unfolding onerr_def
  by (rule keep_bind [OF assms(1)]) (auto intro: assms(2) keep_return split: sum.splits)

lemma keep_loop [pres_intro]:
  assumes "\<And>x s. state_io_rel R (f x s)"
  shows "state_io_rel R (loop f xs s)"
  by (induction xs arbitrary: s) (auto intro!: keep_return keep_bind assms)

lemma keep_loopE [pres_intro]:
  assumes "\<And>x s. state_io_rel R (f x s)"
  shows "state_io_rel R (loopE f xs s)"
  by (induction xs arbitrary: s)
    (auto intro!: keep_return keep_bind assms split: sum.splits)

lemma keep_stmt:
  assumes "\<And>w. R w (snd (f w))"
  shows "state_io_rel R (stmt f)"
  unfolding state_io_rel_def
proof
  fix w
  show "R w (snd (run_state (stmt f) w))"
    using assms [of "w\<lparr>faults := tl (faults w)\<rparr>"] assms [of w] R_faults [of w "tl (faults w)"]
    by (cases "faults w") (auto simp: stmt_def intro: R_trans)
qed

lemma keep_load [pres_intro]: "state_io_rel R (db_load q)"
  unfolding db_load_def by (rule keep_stmt) (simp add: R_refl)

lemma keep_query [pres_intro]: "state_io_rel R (db_query q)"
  unfolding db_query_def by (rule keep_stmt) (simp add: R_refl)

lemma keep_first [pres_intro]: "state_io_rel R (db_first sel P)"
  unfolding db_first_def by (rule keep_stmt) (simp add: R_refl)

lemma keep_find [pres_intro]: "state_io_rel R (db_find sel P)"
  unfolding db_find_def by (rule keep_query)

lemma keep_update [pres_intro]:
  "(\<And>w. R w (upd (upd_where P f) w)) \<Longrightarrow> state_io_rel R (db_update upd P f)"
  unfolding db_update_def by (rule keep_stmt) simp

lemma keep_delete [pres_intro]:
  "(\<And>w ds. \<forall>p\<in>set ds. fst p = t \<Longrightarrow>
      R w (upd (filter (\<lambda>r. \<not> P r)) (w\<lparr>dead := dead w @ ds\<rparr>))) \<Longrightarrow>
   state_io_rel R (db_delete t sel upd key P)"
  unfolding db_delete_def by (rule keep_stmt) simp

lemma keep_create [pres_intro]:
  assumes "\<And>w rows n. R w (upd (\<lambda>rs. rs @ rows) (w\<lparr>next_id := n\<rparr>))"
    and "\<And>w n. R w (w\<lparr>next_id := n\<rparr>)"
  shows "state_io_rel R (db_create t sel upd key setkey rows)"
  unfolding db_create_def by (rule keep_stmt) (simp add: assms Let_def split: prod.splits)

lemma keep_create_unique:
  assumes "\<And>w rows n. R w (upd (\<lambda>rs. rs @ rows) (w\<lparr>next_id := n\<rparr>))"
    and "\<And>w n. R w (w\<lparr>next_id := n\<rparr>)"
  shows "state_io_rel R (db_create_unique sel upd key setkey row)"
  unfolding db_create_unique_def by (rule keep_stmt) (simp add: assms Let_def)

lemma keep_transaction:
  assumes "\<And>w n. R w (w\<lparr>next_id := n\<rparr>)" and "state_io_rel R m"
  shows "state_io_rel R (transaction m)"
proof (rule io_of_wp)
  fix w
  have "R w (w\<lparr>faults := fs, next_id := n\<rparr>)" for fs n
    using R_trans [OF R_faults assms(1) [of "w\<lparr>faults := fs\<rparr>"]] by simp
  moreover have "wp m (\<lambda>r w1. case r of Inl _ \<Rightarrow> True | Inr _ \<Rightarrow> \<forall>fs. R w (w1\<lparr>faults := fs\<rparr>)) (w\<lparr>faults := fs\<rparr>)" for fs
    by (rule wp_mono [OF wp_of_io [OF assms(2)]]) (auto split: sum.split intro: R_trans [OF R_trans [OF R_faults] R_faults])
  ultimately show "wp (transaction m) (\<lambda>r w'. R w w') w"
    by (rule wp_transaction)
qed

lemma keep_save [pres_intro]:
  assumes "\<And>w rows n. R w (upd (\<lambda>rs. rs @ rows) (w\<lparr>next_id := n\<rparr>))"
    and "\<And>w n. R w (w\<lparr>next_id := n\<rparr>)"
    and "\<And>w. R w (upd (upd_where (\<lambda>r. key r = key row) (\<lambda>_. row)) w)"
  shows "state_io_rel R (db_save t sel upd key setkey row)"
proof (cases "key row = 0")
  case True
  then show ?thesis
    unfolding db_save_def by (simp, intro keep_onerr keep_create keep_return assms(1,2))
next
  case False
  have "R w (upd (\<lambda>rs. rs @ [row]) w)" for w
    using assms(1) [of w "[row]" "next_id w"] by simp
  then show ?thesis
    unfolding db_save_def using False assms(3) by (simp, intro keep_stmt) simp
qed

end

lemma keep_if [pres_intro]:
  "\<lbrakk>b \<Longrightarrow> state_io_rel R m; \<not> b \<Longrightarrow> state_io_rel R n\<rbrakk> \<Longrightarrow> state_io_rel R (if b then m else n)"
  by simp

lemma keep_sum [pres_intro]:
  "\<lbrakk>\<And>e. r = Inl e \<Longrightarrow> state_io_rel R (f e); \<And>x. r = Inr x \<Longrightarrow> state_io_rel R (g x)\<rbrakk> \<Longrightarrow>
   state_io_rel R (case r of Inl e \<Rightarrow> f e | Inr x \<Rightarrow> g x)"
  by (cases r) auto

lemma keep_option [pres_intro]:
  "\<lbrakk>r = None \<Longrightarrow> state_io_rel R f; \<And>x. r = Some x \<Longrightarrow> state_io_rel R (g x)\<rbrakk> \<Longrightarrow>
   state_io_rel R (case r of None \<Rightarrow> f | Some x \<Rightarrow> g x)"
  by (cases r) auto

lemma keep_prod [pres_intro]:
  "(\<And>a b. p = (a, b) \<Longrightarrow> state_io_rel R (f a b)) \<Longrightarrow>
   state_io_rel R (case p of (a, b) \<Rightarrow> f a b)"
  by (cases p) auto

section \<open>Associations and common steps\<close>

definition tenant_of :: "world \<Rightarrow> nat \<Rightarrow> CpiTenant" where
  "tenant_of w i = (case List.find (\<lambda>t. tn_ID t = i) (db_tenants w) of Some t \<Rightarrow> t | None \<Rightarrow> zero_tenant)"

definition rule_of :: "world \<Rightarrow> nat \<Rightarrow> DeliveryRule" where
  "rule_of w i = (case List.find (\<lambda>r. ru_ID r = i) (db_rules w) of Some r \<Rightarrow> r | None \<Rightarrow> zero_rule)"

definition tenants_in :: "world \<Rightarrow> nat list \<Rightarrow> CpiTenant list" where
  "tenants_in w is = filter (\<lambda>t. tn_ID t \<in> set is) (db_tenants w)"

definition ops_of :: "world \<Rightarrow> nat \<Rightarrow> ArtifactTenantOperation list" where
  "ops_of w drID = filter (\<lambda>op. op_DeliveryRequestID op = drID) (db_ops w)"

text \<open>go f(): the goroutine is recorded and runs later.\<close>

definition spawn :: "task \<Rightarrow> unit prog" where
  "spawn t = modify (\<lambda>w. w\<lparr>spawned := spawned w @ [t]\<rparr>)"

text \<open>service/ws_hub.go, NotifyDrUpdated; no-op without a hub.\<close>

definition published :: "nat \<Rightarrow> world \<Rightarrow> world" where
  "published drID w =
     (case hub w of
        None \<Rightarrow> w
      | Some h \<Rightarrow> w\<lparr>hub := Some (snd (PublishDrEvent drID (DrUpdated drID) h))\<rparr>)"

definition NotifyDrUpdated :: "nat \<Rightarrow> unit prog" where
  "NotifyDrUpdated drID = modify (published drID)"

lemma published_sel [simp]:
  "faults (published d w) = faults w" "clock (published d w) = clock w"
  "db_tenants (published d w) = db_tenants w" "db_rules (published d w) = db_rules w"
  "db_drs (published d w) = db_drs w" "db_ops (published d w) = db_ops w"
  "db_conds (published d w) = db_conds w" "db_gitcfg (published d w) = db_gitcfg w"
  "db_snaps (published d w) = db_snaps w" "db_vcsnaps (published d w) = db_vcsnaps w"
  "db_included (published d w) = db_included w" "db_jobs (published d w) = db_jobs w"
  "db_tmsctx (published d w) = db_tmsctx w" "adhocLastRun (published d w) = adhocLastRun w"
  "dead (published d w) = dead w" "next_id (published d w) = next_id w" "syncLocks (published d w) = syncLocks w"
  "tracker (published d w) = tracker w" "spawned (published d w) = spawned w"
  by (simp_all add: published_def split: option.split)

lemma wp_notify [wp_simps]: "wp (NotifyDrUpdated d) Q w = Q () (published d w)"
  by (simp add: NotifyDrUpdated_def wp_modify)

lemma wp_spawn [wp_simps]: "wp (spawn t) Q w = Q () (w\<lparr>spawned := spawned w @ [t]\<rparr>)"
  by (simp add: spawn_def wp_modify)

lemma wp_spawn_all [wp_simps]:
  "wp (loop (\<lambda>t _. spawn t) ts ()) Q w = Q () (w\<lparr>spawned := spawned w @ ts\<rparr>)"
proof (induction ts arbitrary: w)
  case (Cons t ts)
  then show ?case by (simp add: wp_bind wp_spawn)
qed (simp add: wp_return)

definition create_conditions :: "Condition list \<Rightarrow> (gerr + Condition list) prog" where
  "create_conditions cs = db_create Conds db_conds db_conds_update co_ID (\<lambda>n c. c\<lparr>co_ID := n\<rparr>) cs"

definition BatchInsertConditions :: "Condition list \<Rightarrow> (gerr + unit) prog" where
  "BatchInsertConditions conditions =
     (if conditions = [] then done_with ()
      else onerr (create_conditions conditions) (Errw ''error when inserting conditions: %w'' [])
             (\<lambda>_. done_with ()))"

lemma tenant_of_faults [simp]: "tenant_of (w\<lparr>faults := fs\<rparr>) i = tenant_of w i"
  by (simp add: tenant_of_def)

lemma rule_of_faults [simp]: "rule_of (w\<lparr>faults := fs\<rparr>) i = rule_of w i"
  by (simp add: rule_of_def)

lemma tenants_in_faults [simp]: "tenants_in (w\<lparr>faults := fs\<rparr>) is = tenants_in w is"
  by (simp add: tenants_in_def)

lemma ops_of_faults [simp]: "ops_of (w\<lparr>faults := fs\<rparr>) i = ops_of w i"
  by (simp add: ops_of_def)

end
