(* ===== verification/Env.thy ===== *)
theory Env
  imports Entities Versions
begin

text \<open>
  The services outside the repository, as the interfaces of service/service.go see them: one
  record of functions per handler run. TMS and CPI answers are arbitrary; a client for an unknown
  destination is an error. The parts of pkg/tms that compute on the answers (the node statuses of a
  transport request, the error and warning lines of its log) are translated here.
\<close>

section \<open>Answers\<close>

record Metadata =
  md_Name :: string
  md_Type :: ArtifactType
  md_Version :: string

record NodeState =
  ns_ID :: nat
  ns_Time :: time
  ns_Status :: string

record LandscapeNode =
  ln_ID :: nat
  ln_Name :: string
  ln_State :: "NodeState option"

record TransportRequestV1 =
  trv_ID :: int
  trv_State :: string
  trv_Origin :: string
  trv_Content :: "Metadata list list"     \<comment> \<open>the Metadata of each Content\<close>
  trv_Nodes :: "LandscapeNode list"

record TrNodeStatus =
  tns_TransportRequestNumber :: string
  tns_StateID :: nat
  tns_TransportNodeID :: nat
  tns_TransportNodeName :: string
  tns_Status :: string
  tns_UpdatedAt :: time

record LogMessage =
  lm_Severity :: string
  lm_Message :: string

record RuntimeArtifact =
  ra_Version :: string
  ra_Status :: string
  ra_DeployedBy :: string
  ra_DeployedOn :: string

record CatalogComponent =
  cc_ID :: string
  cc_Name :: string
  cc_Exportable :: bool

record CatalogContentResource =
  cr_ID :: string
  cr_ResourceID :: string
  cr_Name :: string
  cr_SubType :: string
  cr_Version :: string
  cr_Components :: "CatalogComponent list"

text \<open>The variable part of cas.ExportRequest: the fields that are not literals in exportOneTR.\<close>

record ExportRequest =
  ex_ID :: string
  ex_Description :: message
  ex_SourceNode :: string
  ex_PackageID :: string
  ex_PackageResourceID :: string
  ex_PackageName :: string
  ex_PackageVersion :: string
  ex_ComponentID :: string
  ex_ComponentName :: string
  ex_ComponentType :: ArtifactType
  ex_ComponentVersion :: string
  ex_ComponentExportable :: bool

text \<open>An entry of a zip archive: its content, or the error of opening it, or of reading it.\<close>

record ZipFile =
  zf_Name :: string
  zf_IsDir :: bool
  zf_Open :: "gerr + gerr + string"

record cpiSyncYaml =
  cy_ArtifactID :: string
  cy_PackageID :: string
  cy_Type :: ArtifactType
  cy_Version :: string
  cy_Tenant :: string
  cy_SyncedAt :: string
  cy_TriggerSource :: string
  cy_DeliveryRequestID :: "nat option"

text \<open>An item of a package, as CPI lists it; the runtime artifacts are listed with their ids.\<close>

record ArtifactCommonItem =
  ci_ID :: string
  ci_Version :: string
  ci_PackageID :: string
  ci_Name :: string
  ci_Description :: string
  ci_CreatedBy :: string
  ci_CreatedAt :: string
  ci_ModifiedBy :: string
  ci_ModifiedAt :: string

text \<open>The credentials of a service key: decoded JSON. A value is only ever tested for being a string, an
  object or an array.\<close>

datatype jval = JStr string | JObj "(string \<times> jval) list" | JArr "jval list" | JOther

type_synonym creds = "(string \<times> jval) list"

type_synonym FileMap = "(string \<times> string) list"

section \<open>Interfaces\<close>

record env =
  Glob :: glob
  TmsSvc :: "gerr + unit"
  GetRoutes :: "gerr + TransportRoute list"
  GetNodes :: "gerr + TransportNode list"
  GetTransportRequest :: "string \<Rightarrow> gerr + TransportRequestV1"
  ImportTransportRequest :: "nat \<Rightarrow> nat list \<Rightarrow> gerr + nat"
  GetTransportLogs :: "string \<Rightarrow> nat \<Rightarrow> gerr + LogMessage list list list"
  CPI :: "string \<Rightarrow> gerr + unit"
  GetDesignTimeArtifact :: "string \<Rightarrow> string \<Rightarrow> string \<Rightarrow> ArtifactType \<Rightarrow> gerr + string"
  GetRuntimeArtifact :: "string \<Rightarrow> string \<Rightarrow> gerr + RuntimeArtifact"
  DeployArtifact :: "string \<Rightarrow> string \<Rightarrow> string \<Rightarrow> ArtifactType \<Rightarrow> gerr + string"
  GetUserEmail :: "string \<Rightarrow> gerr + string"
  CAS :: "nat \<Rightarrow> gerr + unit"
  ListCloudIntegrationResources :: "nat \<Rightarrow> string list \<Rightarrow> gerr + CatalogContentResource list"
  TriggerExport :: "ExportRequest \<Rightarrow> gerr + string"
  PollTime :: "string \<Rightarrow> nat \<Rightarrow> nat"       \<comment> \<open>seconds since the export when poll n starts\<close>
  PollOperation :: "string \<Rightarrow> nat \<Rightarrow> gerr + string"
  GetOperationConfig :: "string \<Rightarrow> gerr + (string \<times> string)"
  OnApprovalRequested :: "nat \<Rightarrow> string \<Rightarrow> string \<Rightarrow> gerr + unit"
  OnStatusChanged :: "nat \<Rightarrow> string \<Rightarrow> message \<Rightarrow> gerr + unit"
  DownloadArtifactZip :: "string \<Rightarrow> string \<Rightarrow> ArtifactType \<Rightarrow> gerr + string"
  ZipReader :: "string \<Rightarrow> gerr + ZipFile list"
  YamlMarshal :: "cpiSyncYaml \<Rightarrow> gerr + string"
  FormatRFC3339 :: "time \<Rightarrow> string"
  newGoGitHubClient :: "GitRepoConfig \<Rightarrow> gerr + unit"
  TagExists :: "string \<Rightarrow> gerr + string option"
  GitCommit :: "string \<Rightarrow> string \<Rightarrow> FileMap \<Rightarrow> string \<Rightarrow> gerr + string"
  CreateTag :: "string \<Rightarrow> string \<Rightarrow> gerr + unit"
  ReadTree :: "string \<Rightarrow> string \<Rightarrow> gerr + FileMap"
  HTTPStatusOf :: "gerr \<Rightarrow> nat option"
  GetPackages :: "string \<Rightarrow> gerr + string list"       \<comment> \<open>the ids, all the code reads\<close>
  GetPackageArtifactsByType :: "string \<Rightarrow> string \<Rightarrow> ArtifactType \<Rightarrow> gerr + ArtifactCommonItem list"
  GetRuntimeArtifacts :: "string \<Rightarrow> gerr + (string \<times> RuntimeArtifact) list"
  FormatTime :: "string \<Rightarrow> time \<Rightarrow> string"              \<comment> \<open>a layout and a time\<close>
  ExtractUserID :: "string \<Rightarrow> gerr + string"
  NewCFClient :: "CFClient \<Rightarrow> gerr + unit"
  GetSpace :: "CFClient \<Rightarrow> string \<Rightarrow> gerr + string option"   \<comment> \<open>the organisation of the space\<close>
  HTTPStatusCode :: "gerr \<Rightarrow> nat"
  HasSpaceDeveloperRole :: "CFClient \<Rightarrow> string \<Rightarrow> string \<Rightarrow> gerr + bool"
  IsServicePlanVisible :: "CFClient \<Rightarrow> string \<Rightarrow> string \<Rightarrow> string \<Rightarrow> gerr + bool"
  GetServicePlanGUID :: "CFClient \<Rightarrow> string \<Rightarrow> string \<Rightarrow> string \<Rightarrow> gerr + string"
  GetServiceInstanceByName :: "CFClient \<Rightarrow> string \<Rightarrow> string \<Rightarrow> gerr + string option"
  CreateManagedServiceInstance :: "CFClient \<Rightarrow> string \<Rightarrow> string \<Rightarrow> string \<Rightarrow> broker_params \<Rightarrow> gerr + string"
  GetServiceKey :: "CFClient \<Rightarrow> string \<Rightarrow> gerr + string option"
  CreateServiceKey :: "CFClient \<Rightarrow> string \<Rightarrow> message \<Rightarrow> gerr + string"
  DeleteServiceKey :: "CFClient \<Rightarrow> string \<Rightarrow> gerr + unit"
  GetServiceKeyCredentials :: "CFClient \<Rightarrow> string \<Rightarrow> gerr + creds"
  NewDestinationServiceClient :: "creds \<Rightarrow> gerr + unit"
  ListDestinations :: "creds \<Rightarrow> gerr + string list"       \<comment> \<open>the names\<close>
  GetDestination :: "creds \<Rightarrow> string \<Rightarrow> gerr + Destination option"
  UpsertDestination :: "creds \<Rightarrow> Destination \<Rightarrow> gerr + unit"
  ProviderDest :: bool                                   \<comment> \<open>injected at startup\<close>
  ProviderGetDestination :: "string \<Rightarrow> gerr + Destination option"
  ProviderUpsertDestination :: "Destination \<Rightarrow> gerr + unit"
  NewTmsClient :: "string \<Rightarrow> string \<Rightarrow> string \<Rightarrow> string \<Rightarrow> gerr + unit"   \<comment> \<open>URL, token URL, id, secret\<close>

text \<open>Services that do not answer, the start of concrete environments.\<close>

definition quiet_env :: env where
  "quiet_env =
    \<lparr>Glob = (\<lambda>p. Inr (\<lambda>s. True)), TmsSvc = Inr (), GetRoutes = Inr [], GetNodes = Inr [],
     GetTransportRequest = (\<lambda>_. Inl (ExtErr ''no transport request'')),
     ImportTransportRequest = (\<lambda>_ _. Inl (ExtErr ''no import'')),
     GetTransportLogs = (\<lambda>_ _. Inr []), CPI = (\<lambda>_. Inr ()),
     GetDesignTimeArtifact = (\<lambda>_ _ _ _. Inl (HttpResponseError 404 [])),
     GetRuntimeArtifact = (\<lambda>_ _. Inl (HttpResponseError 404 [])),
     DeployArtifact = (\<lambda>_ _ _ _. Inr []), GetUserEmail = (\<lambda>u. Inr u), CAS = (\<lambda>_. Inr ()),
     ListCloudIntegrationResources = (\<lambda>_ _. Inr []), TriggerExport = (\<lambda>_. Inr ''P1''),
     PollTime = (\<lambda>_ n. 3 * n), PollOperation = (\<lambda>_ _. Inr ''FINISHED''),
     GetOperationConfig = (\<lambda>_. Inr (''TR1'', [])), OnApprovalRequested = (\<lambda>_ _ _. Inr ()),
     OnStatusChanged = (\<lambda>_ _ _. Inr ()),
     DownloadArtifactZip = (\<lambda>_ _ _. Inl (HttpResponseError 404 [])), ZipReader = (\<lambda>_. Inr []),
     YamlMarshal = (\<lambda>_. Inr []), FormatRFC3339 = show_nat, newGoGitHubClient = (\<lambda>_. Inr ()),
     TagExists = (\<lambda>_. Inr None), GitCommit = (\<lambda>_ _ _ _. Inr ''c0''), CreateTag = (\<lambda>_ _. Inr ()),
     ReadTree = (\<lambda>_ _. Inr []), HTTPStatusOf = (\<lambda>_. None),
     GetPackages = (\<lambda>_. Inr []), GetPackageArtifactsByType = (\<lambda>_ _ _. Inl (HttpResponseError 404 [])),
     GetRuntimeArtifacts = (\<lambda>_. Inr []), FormatTime = (\<lambda>_ t. show_nat t), ExtractUserID = (\<lambda>t. Inr t), NewCFClient = (\<lambda>_. Inr ()),
     GetSpace = (\<lambda>_ _. Inr None), HTTPStatusCode = (\<lambda>_. 0), HasSpaceDeveloperRole = (\<lambda>_ _ _. Inr True),
     IsServicePlanVisible = (\<lambda>_ _ _ _. Inr True), GetServicePlanGUID = (\<lambda>_ _ _ _. Inr ''plan''),
     GetServiceInstanceByName = (\<lambda>_ _ _. Inr None),
     CreateManagedServiceInstance = (\<lambda>_ _ _ n _. Inr n), GetServiceKey = (\<lambda>_ _. Inr None),
     CreateServiceKey = (\<lambda>_ i _. Inr i), DeleteServiceKey = (\<lambda>_ _. Inr ()),
     GetServiceKeyCredentials = (\<lambda>_ _. Inr []),
     NewDestinationServiceClient = (\<lambda>_. Inr ()), ListDestinations = (\<lambda>_. Inr []),
     GetDestination = (\<lambda>_ _. Inr None), UpsertDestination = (\<lambda>_ _. Inr ()), ProviderDest = True,
     ProviderGetDestination = (\<lambda>_. Inr None), ProviderUpsertDestination = (\<lambda>_. Inr ()),
     NewTmsClient = (\<lambda>_ _ _ _. Inr ())\<rparr>"

section \<open>pkg/tms\<close>

text \<open>The node statuses of a transport request, a map keyed by node id.\<close>

definition node_status :: "string \<Rightarrow> LandscapeNode \<Rightarrow> NodeState \<Rightarrow> TrNodeStatus" where
  "node_status trNumber node st =
    \<lparr>tns_TransportRequestNumber = trNumber, tns_StateID = ns_ID st,
     tns_TransportNodeID = ln_ID node, tns_TransportNodeName = ln_Name node,
     tns_Status = ns_Status st, tns_UpdatedAt = ns_Time st\<rparr>"

definition node_statuses :: "string \<Rightarrow> LandscapeNode list \<Rightarrow> (nat \<times> TrNodeStatus) list" where
  "node_statuses trNumber nodes =
     fold (\<lambda>node m. case ln_State node of
                      None \<Rightarrow> m
                    | Some st \<Rightarrow> map_put (ln_ID node) (node_status trNumber node st) m) nodes []"

definition TrNodeStatuses :: "env \<Rightarrow> string \<Rightarrow> gerr + (nat \<times> TrNodeStatus) list" where
  "TrNodeStatuses env trNumber =
     (case GetTransportRequest env trNumber of
        Inl e \<Rightarrow> err (Errf ''failed to get transport request %s: %s'' [Str trNumber, Verb e])
      | Inr tr \<Rightarrow>
          (let nodeStatus = node_statuses trNumber (trv_Nodes tr) in
           if nodeStatus = [] then
             err (Errf ''no node status found for transport request %s'' [Str trNumber])
           else ok nodeStatus))"

lemma node_statuses_keys:
  "distinct (map fst (node_statuses trNumber nodes))"
proof -
  have "distinct (map fst (fold (\<lambda>node m. case ln_State node of
            None \<Rightarrow> m
          | Some st \<Rightarrow> map_put (ln_ID node) (node_status trNumber node st) m) nodes m0))"
    if "distinct (map fst m0)" for m0
    using that by (induction nodes arbitrary: m0) (auto split: option.splits intro: distinct_map_put)
  then show ?thesis by (simp add: node_statuses_def)
qed

lemma TrNodeStatuses_distinct: "TrNodeStatuses env tr = Inr m \<Longrightarrow> distinct (map fst m)"
  by (auto simp: TrNodeStatuses_def Let_def node_statuses_keys split: sum.splits if_splits)

definition log_lines ::
  "string list \<Rightarrow> (string \<Rightarrow> message) \<Rightarrow> LogMessage list list list \<Rightarrow> message list" where
  "log_lines severities line logs =
     map (\<lambda>m. line (lm_Message m))
       (filter (\<lambda>m. lm_Severity m \<in> set severities) (concat (concat logs)))"

definition ErrLogsInTransportLog :: "env \<Rightarrow> string \<Rightarrow> nat \<Rightarrow> gerr + message list" where
  "ErrLogsInTransportLog env trNumber nodeID =
     (case GetTransportLogs env trNumber nodeID of
        Inl e \<Rightarrow> err e
      | Inr logs \<Rightarrow>
          ok (log_lines [''F'', ''E'']
            (\<lambda>m. Errf ''Transport Request %s failed in Node %d: %s'' [Str trNumber, Num nodeID, Str m])
            logs))"

definition WarnLogsInTransportLog :: "env \<Rightarrow> string \<Rightarrow> nat \<Rightarrow> gerr + message list" where
  "WarnLogsInTransportLog env trNumber nodeID =
     (case GetTransportLogs env trNumber nodeID of
        Inl e \<Rightarrow> err e
      | Inr logs \<Rightarrow>
          ok (log_lines [''W'']
            (\<lambda>m. Errf ''Transport Request %s in Node %d (warning): %s'' [Str trNumber, Num nodeID, Str m])
            logs))"

end
