(* ===== verification/Checks.thy ===== *)
theory Checks
  imports Env
begin

text \<open>
  service/checks.go, the checks that ask TMS and CPI: a transport request exists, is released, comes
  from the source tenant's node and contains the artifact; a delivery does not lower the version in
  a target tenant; and the rule check of an operation. None of them changes the world. A panic (the
  first content entry of a request without content, an invalid glob) is an error that the
  collecting loops do not absorb.
\<close>

section \<open>Transport requests\<close>

definition md_matches :: "ArtifactTenantOperation \<Rightarrow> Metadata \<Rightarrow> bool" where
  "md_matches op md =
     ((md_Name md = op_ArtifactName op \<or> md_Name md = op_ArtifactTechID op) \<and>
      md_Type md = op_ArtifactType op \<and> md_Version md = op_ArtifactVersion op)"

definition TrExist :: "env \<Rightarrow> ArtifactTenantOperation \<Rightarrow> CpiTenant \<Rightarrow> gerr + bool" where
  "TrExist env op sourceTenant =
     (let trNumber = op_TransportRequestNumber op in
      if trNumber = '''' then
        err (Errf ''artifact %s has empty transport request number'' [Str (op_ArtifactTechID op)])
      else case TmsSvc env of
        Inl e \<Rightarrow> err (Errw ''error resolving TMS client: %w'' [] e)
      | Inr _ \<Rightarrow>
          (case GetTransportRequest env trNumber of
             Inl e \<Rightarrow> err (Errf ''error when getting transport request %s, the tr number may not exist, error message: %s'' [Str trNumber, Verb e])
           | Inr tr \<Rightarrow>
               if trv_ID tr = 0 \<or> trv_State tr \<noteq> ''RELEASED'' then
                 err (Errf ''artifact %s has invalid transport request number %s'' [Str (op_ArtifactTechID op), Str trNumber])
               else if trv_Origin tr \<noteq> tn_TmsSourceNodeName sourceTenant then
                 err (Errf ''artifact %s has transport request number %s not from source tenant node %s''
                   [Str (op_ArtifactTechID op), Str trNumber, Str (tn_TmsSourceNodeName sourceTenant)])
               else
                 (case trv_Content tr of
                    [] \<Rightarrow> err (Panicked ''index out of range'')
                  | metadata # _ \<Rightarrow>
                      if \<not> list_ex (md_matches op) metadata then
                        err (Errf ''artifact %s, trNumber %s: not match. May use a wrong trNumber for this artifact''
                          [Str (op_ArtifactTechID op), Str trNumber])
                      else ok True)))"

text \<open>The errors of the operations, keyed by operation id; a panic ends the loop.\<close>

fun collect_tr_errors ::
  "env \<Rightarrow> CpiTenant \<Rightarrow> ArtifactTenantOperation list \<Rightarrow> (nat \<times> gerr) list \<Rightarrow>
   gerr + (nat \<times> gerr) list" where
  "collect_tr_errors env t [] errOps = ok errOps"
| "collect_tr_errors env t (op # ops) errOps =
     (case TrExist env op t of
        Inr _ \<Rightarrow> collect_tr_errors env t ops errOps
      | Inl e \<Rightarrow>
          if is_panic e then err e
          else collect_tr_errors env t ops (map_put (op_ID op) e errOps))"

definition op_error_lines :: "string \<Rightarrow> (nat \<times> gerr) list \<Rightarrow> gerr list" where
  "op_error_lines f errOps = map (\<lambda>(id, e). Errf f [Num id, Verb e]) errOps"

definition BatchTrExist ::
  "env \<Rightarrow> ArtifactTenantOperation list \<Rightarrow> CpiTenant \<Rightarrow> gerr + bool" where
  "BatchTrExist env ops sourceTenant =
     (case collect_tr_errors env sourceTenant ops [] of
        Inl e \<Rightarrow> err e
      | Inr errOps \<Rightarrow>
          if errOps \<noteq> [] then
            err (Errs ''transport request existence check failed for some artifact tenant operations:''
              (op_error_lines ''  operation %d: %s'' errOps))
          else ok True)"

text \<open>What an accepted transport request is.\<close>

definition tr_valid :: "env \<Rightarrow> ArtifactTenantOperation \<Rightarrow> CpiTenant \<Rightarrow> bool" where
  "tr_valid env op t \<longleftrightarrow>
     op_TransportRequestNumber op \<noteq> '''' \<and> isl (TmsSvc env) = False \<and>
     (\<exists>tr metadata rest. GetTransportRequest env (op_TransportRequestNumber op) = Inr tr \<and>
        trv_ID tr \<noteq> 0 \<and> trv_State tr = ''RELEASED'' \<and> trv_Origin tr = tn_TmsSourceNodeName t \<and>
        trv_Content tr = metadata # rest \<and> (\<exists>md\<in>set metadata. md_matches op md))"

lemma TrExist_ok_iff: "TrExist env op t = Inr b \<longleftrightarrow> b \<and> tr_valid env op t"
  by (auto simp: TrExist_def tr_valid_def Let_def list_ex_iff split: sum.splits list.splits)

lemma TrExist_valid: "(\<exists>b. TrExist env op t = Inr b) \<longleftrightarrow> tr_valid env op t"
  by (simp add: TrExist_ok_iff ex_bool_eq)

lemma TrExist_error_iff: "(\<exists>e. TrExist env op t = Inl e) \<longleftrightarrow> \<not> tr_valid env op t"
  using TrExist_valid [of env op t] by (cases "TrExist env op t") auto

lemma collect_tr_errors_Nil:
  "collect_tr_errors env t ops errs = Inr [] \<longleftrightarrow> errs = [] \<and> (\<forall>op\<in>set ops. tr_valid env op t)"
proof (induction ops arbitrary: errs)
  case (Cons op ops)
  show ?case
  proof (cases "TrExist env op t")
    case (Inl e)
    then have "\<not> tr_valid env op t" using TrExist_error_iff by blast
    then show ?thesis using Inl Cons.IH by simp
  next
    case (Inr b)
    then have "tr_valid env op t" using TrExist_valid by blast
    then show ?thesis using Inr Cons.IH by simp
  qed
qed simp

lemma BatchTrExist_ok_iff:
  "BatchTrExist env ops t = Inr b \<longleftrightarrow> b \<and> (\<forall>op\<in>set ops. tr_valid env op t)"
  using collect_tr_errors_Nil [of env t ops "[]"]
  by (auto simp: BatchTrExist_def split: sum.splits)

section \<open>Version checks\<close>

definition checkDraftVersion :: "ArtifactTenantOperation \<Rightarrow> gerr + unit" where
  "checkDraftVersion op =
     (if isDraftVersion (op_ArtifactVersion op) then
        err (Errf ''artifact %s has draft version (Active), only formally versioned artifacts can be delivered'' [Str (op_ArtifactTechID op)])
      else ok ())"

definition checkVersionPattern :: "env \<Rightarrow> ArtifactTenantOperation \<Rightarrow> DeliveryRule \<Rightarrow> gerr + unit" where
  "checkVersionPattern env op rule =
     (case matchVersionPattern (Glob env) (op_ArtifactVersion op) (ru_VersionPattern rule) of
        Inl e \<Rightarrow> err e
      | Inr m \<Rightarrow>
          if \<not> m then
            err (Errf ''artifact %s has version %s not match pattern %s(delivery rule: %s)''
              [Str (op_ArtifactTechID op), Str (op_ArtifactVersion op), Str (ru_VersionPattern rule), Str (ru_Name rule)])
          else ok ())"

definition checkVersionDowngradeInTenant ::
  "env \<Rightarrow> ArtifactTenantOperation \<Rightarrow> CpiTenant \<Rightarrow> gerr + unit" where
  "checkVersionDowngradeInTenant env op targetTenant =
     (case CPI env (tn_PirApiDestinationName targetTenant) of
        Inl e \<Rightarrow> err e
      | Inr _ \<Rightarrow>
          (case GetDesignTimeArtifact env (tn_PirApiDestinationName targetTenant)
                  (op_ArtifactTechID op) ''active'' (op_ArtifactType op) of
             Inl e \<Rightarrow> if as_http_status e = Some 404 then ok () else err e
           | Inr targetVersion \<Rightarrow>
               if compareCPIVersion (op_ArtifactVersion op) targetVersion < 0 then
                 err (Errf ''artifact %s: delivering version %s to tenant %s would downgrade existing version %s, please confirm''
                   [Str (op_ArtifactTechID op), Str (op_ArtifactVersion op), Str (tn_Name targetTenant), Str targetVersion])
               else ok ()))"

fun check_downgrades :: "env \<Rightarrow> ArtifactTenantOperation \<Rightarrow> CpiTenant list \<Rightarrow> gerr + unit" where
  "check_downgrades env op [] = ok ()"
| "check_downgrades env op (t # ts) =
     (if op_TenantID op = tn_ID t then check_downgrades env op ts
      else case checkVersionDowngradeInTenant env op t of
             Inl e \<Rightarrow> err e
           | Inr _ \<Rightarrow> check_downgrades env op ts)"

definition DeliveryRuleCheck ::
  "env \<Rightarrow> ArtifactTenantOperation \<Rightarrow> DeliveryRule \<Rightarrow> CpiTenant list \<Rightarrow> gerr + unit" where
  "DeliveryRuleCheck env op rule includedTenants =
     (case checkDraftVersion op of
        Inl e \<Rightarrow> err e
      | Inr _ \<Rightarrow>
          (case checkVersionPattern env op rule of
             Inl e \<Rightarrow> err e
           | Inr _ \<Rightarrow> check_downgrades env op includedTenants))"

text \<open>A tenant tolerates a delivery when the artifact does not exist there or has no higher
  version.\<close>

definition no_downgrade :: "env \<Rightarrow> ArtifactTenantOperation \<Rightarrow> CpiTenant \<Rightarrow> bool" where
  "no_downgrade env op t \<longleftrightarrow>
     CPI env (tn_PirApiDestinationName t) = Inr () \<and>
     (case GetDesignTimeArtifact env (tn_PirApiDestinationName t) (op_ArtifactTechID op) ''active''
             (op_ArtifactType op) of
        Inl e \<Rightarrow> as_http_status e = Some 404
      | Inr v \<Rightarrow> 0 \<le> compareCPIVersion (op_ArtifactVersion op) v)"

lemma checkVersionDowngradeInTenant_ok_iff:
  "checkVersionDowngradeInTenant env op t = Inr () \<longleftrightarrow> no_downgrade env op t"
  by (auto simp: checkVersionDowngradeInTenant_def no_downgrade_def split: sum.splits)

lemma check_downgrades_ok_iff:
  "check_downgrades env op ts = Inr () \<longleftrightarrow>
     (\<forall>t\<in>set ts. tn_ID t \<noteq> op_TenantID op \<longrightarrow> no_downgrade env op t)"
proof (induction ts)
  case (Cons t ts)
  have "(\<exists>e. checkVersionDowngradeInTenant env op t = Inl e) \<longleftrightarrow> \<not> no_downgrade env op t"
    using checkVersionDowngradeInTenant_ok_iff [of env op t]
    by (cases "checkVersionDowngradeInTenant env op t") auto
  then show ?case
    using Cons checkVersionDowngradeInTenant_ok_iff [of env op t]
    by (cases "checkVersionDowngradeInTenant env op t") auto
qed simp

section \<open>Properties\<close>

text \<open>The rule check accepts an operation exactly when its version is no draft, matches the
  rule's pattern, and in every other tenant of the rule the artifact is absent or has no higher
  version.\<close>

theorem DeliveryRuleCheck_ok_iff:
  "DeliveryRuleCheck env op rule ts = Inr () \<longleftrightarrow>
     \<not> isDraftVersion (op_ArtifactVersion op) \<and>
     matchVersionPattern (Glob env) (op_ArtifactVersion op) (ru_VersionPattern rule) = Inr True \<and>
     (\<forall>t\<in>set ts. tn_ID t \<noteq> op_TenantID op \<longrightarrow> no_downgrade env op t)"
  by (auto simp: DeliveryRuleCheck_def checkDraftVersion_def checkVersionPattern_def
      check_downgrades_ok_iff split: sum.splits)

theorem DeliveryRuleCheck_ok_iff_witness:
  "DeliveryRuleCheck quiet_env (zero_op\<lparr>op_ArtifactVersion := ''1.0.0''\<rparr>) zero_rule [zero_tenant] = Inr ()"
  unfolding DeliveryRuleCheck_ok_iff
  by (simp add: quiet_env_def zero_op_def zero_rule_def zero_tenant_def matchVersionPattern_def
      isDraftVersion_def EqualFold_def ToUpper_def upper_char_def no_downgrade_def)

text \<open>A batch of operations passes the transport-request check exactly when each of them names a
  released transport request of the source tenant's node whose first content lists the artifact
  under its name, type and version.\<close>

theorem BatchTrExist_accepts_iff:
  "BatchTrExist env ops t = Inr True \<longleftrightarrow>
     (\<forall>op\<in>set ops. op_TransportRequestNumber op \<noteq> '''' \<and> TmsSvc env = Inr () \<and>
        (\<exists>tr metadata rest. GetTransportRequest env (op_TransportRequestNumber op) = Inr tr \<and>
           trv_ID tr \<noteq> 0 \<and> trv_State tr = ''RELEASED'' \<and>
           trv_Origin tr = tn_TmsSourceNodeName t \<and> trv_Content tr = metadata # rest \<and>
           (\<exists>md\<in>set metadata. md_Name md \<in> {op_ArtifactName op, op_ArtifactTechID op} \<and>
              md_Type md = op_ArtifactType op \<and> md_Version md = op_ArtifactVersion op)))"
proof -
  have "isl (TmsSvc env) = False \<longleftrightarrow> TmsSvc env = Inr ()" by (cases "TmsSvc env") auto
  then show ?thesis
    by (simp add: BatchTrExist_ok_iff tr_valid_def md_matches_def)
qed

theorem BatchTrExist_accepts_iff_witness:
  "BatchTrExist
     (quiet_env\<lparr>GetTransportRequest := (\<lambda>_. Inr
        \<lparr>trv_ID = 7, trv_State = ''RELEASED'', trv_Origin = ''DEV'',
         trv_Content = [[\<lparr>md_Name = ''Flow'', md_Type = ''Integration Flow'', md_Version = ''1.0.0''\<rparr>]],
         trv_Nodes = []\<rparr>)\<rparr>)
     [zero_op\<lparr>op_ArtifactName := ''Flow'', op_ArtifactType := ''Integration Flow'',
              op_ArtifactVersion := ''1.0.0'', op_TransportRequestNumber := ''7''\<rparr>]
     (zero_tenant\<lparr>tn_TmsSourceNodeName := ''DEV''\<rparr>) = Inr True"
  unfolding BatchTrExist_accepts_iff by (simp add: quiet_env_def)

end
