(* ===== verification/Routes.thy ===== *)
theory Routes
  imports Entities
begin

text \<open>
  The transport landscape (service/dr.go): the two breadth-first searches over transport routes.
  SourceAndRoute picks the source among the tenants of a rule and checks that they form one
  chain; downstreamfromSource lists what lies downstream of a node. Each worklist loop is a
  terminating function (unseen nodes plus queue length decrease); both searches are proved to
  compute exactly the nodes reachable over the routes.
\<close>

section \<open>Reachability\<close>

definition route_rel :: "TransportRoute list \<Rightarrow> (nat \<times> nat) set" where
  "route_rel rs = (\<lambda>r. (rt_SourceNodeID r, rt_TargetNodeID r)) ` set rs"

lemma route_relI: "r \<in> set rs \<Longrightarrow> (rt_SourceNodeID r, rt_TargetNodeID r) \<in> route_rel rs"
  by (auto simp: route_rel_def)

text \<open>A set that contains the start, only reachable nodes, and is closed is the reachable set.\<close>

lemma closed_is_reachable:
  assumes "s \<in> V" and "V \<subseteq> R\<^sup>* `` {s}" and "\<And>x y. \<lbrakk>x \<in> V; (x, y) \<in> R\<rbrakk> \<Longrightarrow> y \<in> V"
  shows "V = R\<^sup>* `` {s}"
proof (rule antisym)
  have "y \<in> V" if "(s, y) \<in> R\<^sup>*" for y
    using that assms(1,3) by (induction rule: rtrancl_induct) auto
  then show "R\<^sup>* `` {s} \<subseteq> V" by auto
qed (rule assms(2))

lemma reach_step: "\<lbrakk>x \<in> R\<^sup>* `` {s}; (x, y) \<in> R\<rbrakk> \<Longrightarrow> y \<in> R\<^sup>* `` {s}"
  by (auto intro: rtrancl_into_rtrancl)

section \<open>The connectivity search of SourceAndRoute\<close>

text \<open>adj[curr]: the targets of the included routes that start at a node, in route order.\<close>

definition adj_targets :: "TransportRoute list \<Rightarrow> nat \<Rightarrow> nat list" where
  "adj_targets rs n = map rt_TargetNodeID (filter (\<lambda>r. rt_SourceNodeID r = n) rs)"

fun push_unseen :: "nat list \<Rightarrow> nat set \<Rightarrow> nat list \<Rightarrow> nat set \<times> nat list" where
  "push_unseen [] seen q = (seen, q)"
| "push_unseen (n # ns) seen q =
     (if n \<in> seen then push_unseen ns seen q else push_unseen ns (insert n seen) (q @ [n]))"

lemma push_unseen_seen: "fst (push_unseen ns seen q) = seen \<union> set ns"
  by (induction ns seen q rule: push_unseen.induct) auto

lemma push_unseen_queue:
  "set (snd (push_unseen ns seen q)) = set q \<union> (set ns - seen)"
  by (induction ns seen q rule: push_unseen.induct) auto

lemma push_unseen_card:
  assumes "finite U" and "set ns \<subseteq> U"
  shows "card (U - fst (push_unseen ns seen q)) + length (snd (push_unseen ns seen q)) =
         card (U - seen) + length q"
  using assms
proof (induction ns seen q rule: push_unseen.induct)
  case (2 n ns seen q)
  show ?case
  proof (cases "n \<in> seen")
    case False
    then have "n \<in> U - seen" "finite (U - seen)" using 2 by auto
    moreover have "U - insert n seen = (U - seen) - {n}" by auto
    ultimately have "card (U - insert n seen) + 1 = card (U - seen)"
      by (metis Suc_eq_plus1 card_Suc_Diff1)
    then show ?thesis using 2 False by simp
  qed (use 2 in simp)
qed simp

lemma adj_targets_subset: "set (adj_targets rs n) \<subseteq> rt_TargetNodeID ` set rs"
  by (auto simp: adj_targets_def)

lemma push_targets_measure:
  assumes "(seen', queue') = push_unseen (adj_targets rs cur) seen queue"
  shows "card (rt_TargetNodeID ` set rs - seen') + length queue' =
         card (rt_TargetNodeID ` set rs - seen) + length queue"
  using push_unseen_card [OF _ adj_targets_subset [of rs cur], where seen = seen and q = queue]
  by (simp flip: assms)

function reach_loop :: "TransportRoute list \<Rightarrow> nat list \<Rightarrow> nat set \<Rightarrow> nat set" where
  "reach_loop rs [] seen = seen"
| "reach_loop rs (cur # queue) seen =
     (case push_unseen (adj_targets rs cur) seen queue of
        (seen', queue') \<Rightarrow> reach_loop rs queue' seen')"
  by pat_completeness auto
termination
  by (relation "measure (\<lambda>(rs, q, seen). card (rt_TargetNodeID ` set rs - seen) + length q)")
    (auto dest: push_targets_measure)

lemma adj_targets_iff: "y \<in> set (adj_targets rs x) \<longleftrightarrow> (x, y) \<in> route_rel rs"
  by (auto simp: adj_targets_def route_rel_def image_iff)

lemma reach_loop_correct:
  assumes "set q \<subseteq> seen" and "s \<in> seen" and "seen \<subseteq> (route_rel rs)\<^sup>* `` {s}"
    and "\<And>x y. \<lbrakk>x \<in> seen; x \<notin> set q; (x, y) \<in> route_rel rs\<rbrakk> \<Longrightarrow> y \<in> seen"
  shows "reach_loop rs q seen = (route_rel rs)\<^sup>* `` {s}"
  using assms
proof (induction rs q seen rule: reach_loop.induct)
  case (1 rs seen)
  then show ?case using closed_is_reachable [of s seen "route_rel rs"] by simp
next
  case (2 rs cur queue seen)
  obtain seen' queue' where p: "push_unseen (adj_targets rs cur) seen queue = (seen', queue')"
    by fastforce
  have seen': "seen' = seen \<union> set (adj_targets rs cur)"
    using push_unseen_seen [of "adj_targets rs cur" seen queue] by (simp add: p)
  have queue': "set queue' = set queue \<union> (set (adj_targets rs cur) - seen)"
    using push_unseen_queue [of "adj_targets rs cur" seen queue] by (simp add: p)
  have "reach_loop rs queue' seen' = (route_rel rs)\<^sup>* `` {s}"
  proof (rule "2.IH" [OF p [symmetric]])
    show "set queue' \<subseteq> seen'" using "2.prems" by (auto simp: seen' queue')
    show "s \<in> seen'" using "2.prems" by (auto simp: seen')
    have "cur \<in> (route_rel rs)\<^sup>* `` {s}" using "2.prems" by auto
    then have "set (adj_targets rs cur) \<subseteq> (route_rel rs)\<^sup>* `` {s}"
      by (auto simp: adj_targets_iff intro: rtrancl_into_rtrancl)
    then show "seen' \<subseteq> (route_rel rs)\<^sup>* `` {s}"
      using "2.prems"(3) unfolding seen' by (rule Un_least [rotated])
    show "y \<in> seen'" if "x \<in> seen'" "x \<notin> set queue'" "(x, y) \<in> route_rel rs" for x y
    proof (cases "x = cur")
      case True
      then show ?thesis using that by (simp add: seen' adj_targets_iff)
    next
      case False
      with that have "x \<in> seen" "x \<notin> set (cur # queue)" by (auto simp: seen' queue')
      then show ?thesis using "2.prems"(4) that(3) by (auto simp: seen')
    qed
  qed
  then show ?case by (simp add: p)
qed

lemma reach_loop_start:
  "reach_loop rs [s] {s} = (route_rel rs)\<^sup>* `` {s}"
  by (rule reach_loop_correct) auto

declare reach_loop.simps [simp del]

section \<open>SourceAndRoute\<close>

text \<open>nodeAll: a later node overwrites an earlier one of the same id; a missing key reads as the
  zero node.\<close>

definition node_map :: "TransportNode list \<Rightarrow> nat \<Rightarrow> TransportNode option" where
  "node_map ns = map_of (rev (map (\<lambda>n. (nd_ID n, n)) ns))"

definition node_at :: "TransportNode list \<Rightarrow> nat \<Rightarrow> TransportNode" where
  "node_at ns i = (case node_map ns i of Some n \<Rightarrow> n | None \<Rightarrow> zero_node)"

text \<open>The function after its two TMS calls, which return the routes and nodes of the
  landscape.\<close>

definition SourceAndRoute ::
  "gerr + TransportRoute list \<Rightarrow> gerr + TransportNode list \<Rightarrow> CpiTenant list \<Rightarrow>
   gerr + (CpiTenant \<times> TransportRoute list \<times> TransportNode list)" where
  "SourceAndRoute GetRoutes GetNodes includedTenants =
     (case GetRoutes of Inl e \<Rightarrow> err e | Inr transportRoutes \<Rightarrow>
     (case GetNodes of Inl e \<Rightarrow> err e | Inr transportNodes \<Rightarrow>
       (let nodeIDs = set (map tn_TmsSourceNodeID includedTenants);
            includedNodes = map (\<lambda>t. node_at transportNodes (tn_TmsSourceNodeID t)) includedTenants;
            includedRoutes =
              filter (\<lambda>r. rt_SourceNodeID r \<in> nodeIDs \<and> rt_TargetNodeID r \<in> nodeIDs) transportRoutes;
            targetNodeIDs = set (map rt_TargetNodeID includedRoutes) in
        case List.find (\<lambda>t. tn_TmsSourceNodeID t \<notin> targetNodeIDs) includedTenants of
          None \<Rightarrow> err (Errf ''could not find a starting (source) tenant among the selected tenants. Please make sure the selection begins with a source tenant and follows the transport routes'' [])
        | Some sourceTenant \<Rightarrow>
            (let reachable = reach_loop includedRoutes [tn_TmsSourceNodeID sourceTenant]
                               {tn_TmsSourceNodeID sourceTenant} in
             case List.find (\<lambda>t. tn_TmsSourceNodeID t \<notin> reachable) includedTenants of
               Some t \<Rightarrow> err (Errf ''tenant %q is not on the same delivery chain as the source tenant %q. Please select only tenants that are connected to the source through transport routes''
                                [Str (tn_Name t), Str (tn_Name sourceTenant)])
             | None \<Rightarrow> ok (sourceTenant, includedRoutes, includedNodes)))))"

section \<open>downstreamfromSource\<close>

record bfs =
  b_nodes :: "nat set"                  \<comment> \<open>visitedNodes\<close>
  b_routes :: "nat set"                 \<comment> \<open>visitedRoutes\<close>
  b_targetRoutes :: "TransportRoute list"
  b_targetNodes :: "TransportNode list"
  b_queue :: "nat list"

text \<open>The body of the inner loop.\<close>

definition visit_route :: "TransportNode list \<Rightarrow> TransportRoute \<Rightarrow> bfs \<Rightarrow> bfs" where
  "visit_route ns r b =
     (if rt_ID r \<in> b_routes b then b
      else
        (let b1 = b\<lparr>b_routes := insert (rt_ID r) (b_routes b),
                    b_targetRoutes := b_targetRoutes b @ [r]\<rparr> in
         if rt_TargetNodeID r \<in> b_nodes b1 then b1
         else case node_map ns (rt_TargetNodeID r) of
                None \<Rightarrow> b1
              | Some trNode \<Rightarrow>
                  b1\<lparr>b_targetNodes := b_targetNodes b1 @ [trNode],
                     b_nodes := insert (rt_TargetNodeID r) (b_nodes b1),
                     b_queue := b_queue b1 @ [rt_TargetNodeID r]\<rparr>))"

definition visit_routes :: "TransportNode list \<Rightarrow> TransportRoute list \<Rightarrow> bfs \<Rightarrow> bfs" where
  "visit_routes ns rs b = fold (visit_route ns) rs b"

definition adj_routes :: "TransportRoute list \<Rightarrow> nat \<Rightarrow> TransportRoute list" where
  "adj_routes rs n = filter (\<lambda>r. rt_SourceNodeID r = n) rs"

definition bfs_left :: "TransportNode list \<Rightarrow> bfs \<Rightarrow> nat" where
  "bfs_left ns b = card (nd_ID ` set ns - b_nodes b) + length (b_queue b)"

lemma node_map_SomeD: "node_map ns i = Some n \<Longrightarrow> n \<in> set ns \<and> nd_ID n = i"
  by (auto simp: node_map_def dest!: map_of_SomeD)

lemma node_map_dom: "node_map ns i = None \<longleftrightarrow> i \<notin> nd_ID ` set ns"
  by (auto simp: node_map_def map_of_eq_None_iff image_image)

lemma visit_route_left: "bfs_left ns (visit_route ns r b) = bfs_left ns b"
proof -
  have "Suc (card (nd_ID ` set ns - insert i V)) = card (nd_ID ` set ns - V)"
    if "i \<in> nd_ID ` set ns" "i \<notin> V" for i and V :: "nat set"
  proof -
    have "nd_ID ` set ns - insert i V = (nd_ID ` set ns - V) - {i}" by auto
    then show ?thesis using that by (metis DiffI List.finite_set card_Suc_Diff1 finite_Diff
          finite_imageI)
  qed
  note card1 = this
  have "rt_TargetNodeID r \<in> nd_ID ` set ns" if "node_map ns (rt_TargetNodeID r) = Some n" for n
    using node_map_SomeD [OF that] by force
  with card1 [of "rt_TargetNodeID r" "b_nodes b"] show ?thesis
    by (auto simp: visit_route_def Let_def bfs_left_def simp del: card_Diff_insert
        split: option.splits)
qed

lemma visit_routes_left: "bfs_left ns (visit_routes ns rs b) = bfs_left ns b"
  unfolding visit_routes_def by (induction rs arbitrary: b) (auto simp: visit_route_left)

function bfs_loop :: "TransportNode list \<Rightarrow> TransportRoute list \<Rightarrow> bfs \<Rightarrow> bfs" where
  "bfs_loop ns rs b =
     (case b_queue b of
        [] \<Rightarrow> b
      | cur # queue \<Rightarrow> bfs_loop ns rs (visit_routes ns (adj_routes rs cur) (b\<lparr>b_queue := queue\<rparr>)))"
  by pat_completeness auto
termination
  by (relation "measure (\<lambda>(ns, rs, b). bfs_left ns b)")
    (auto simp: visit_routes_left, auto simp: bfs_left_def)

declare bfs_loop.simps [simp del]

definition downstreamfromSource ::
  "nat \<Rightarrow> TransportNode list \<Rightarrow> TransportRoute list \<Rightarrow> TransportRoute list \<times> TransportNode list" where
  "downstreamfromSource sourceNodeID transportNodes transportRoutes =
     (if sourceNodeID = 0 \<or> transportRoutes = [] then ([], [])
      else if node_map transportNodes sourceNodeID = None then ([], [])
      else
        (let b = bfs_loop transportNodes transportRoutes
                   \<lparr>b_nodes = {sourceNodeID}, b_routes = {}, b_targetRoutes = [],
                    b_targetNodes = [], b_queue = [sourceNodeID]\<rparr> in
         (b_targetRoutes b, b_targetNodes b)))"

section \<open>Correctness of the downstream search\<close>

text \<open>The edges the search can follow: routes whose target is a known node.\<close>

definition known_rel :: "TransportNode list \<Rightarrow> TransportRoute list \<Rightarrow> (nat \<times> nat) set" where
  "known_rel ns rs = route_rel (filter (\<lambda>r. node_map ns (rt_TargetNodeID r) \<noteq> None) rs)"

definition downstream :: "TransportNode list \<Rightarrow> TransportRoute list \<Rightarrow> nat \<Rightarrow> nat set" where
  "downstream ns rs s = (known_rel ns rs)\<^sup>* `` {s}"

lemma downstream_start: "s \<in> downstream ns rs s"
  by (simp add: downstream_def)

lemma known_relI:
  "\<lbrakk>r \<in> set rs; node_map ns (rt_TargetNodeID r) \<noteq> None\<rbrakk> \<Longrightarrow>
   (rt_SourceNodeID r, rt_TargetNodeID r) \<in> known_rel ns rs"
  by (auto simp: known_rel_def intro!: route_relI)

lemma downstream_step:
  "\<lbrakk>r \<in> set rs; rt_SourceNodeID r \<in> downstream ns rs s; node_map ns (rt_TargetNodeID r) \<noteq> None\<rbrakk> \<Longrightarrow>
   rt_TargetNodeID r \<in> downstream ns rs s"
  unfolding downstream_def by (rule reach_step [OF _ known_relI])

text \<open>What holds of the search state at any time: everything recorded is downstream, nothing is
  recorded twice, and the target of a recorded route is visited when it is a known node.\<close>

definition bfs_inv :: "TransportNode list \<Rightarrow> TransportRoute list \<Rightarrow> nat \<Rightarrow> bfs \<Rightarrow> bool" where
  "bfs_inv ns rs s b \<longleftrightarrow>
     s \<in> b_nodes b \<and> set (b_queue b) \<subseteq> b_nodes b \<and> b_nodes b \<subseteq> downstream ns rs s \<and>
     b_nodes b = insert s (nd_ID ` set (b_targetNodes b)) \<and>
     distinct (s # map nd_ID (b_targetNodes b)) \<and> set (b_targetNodes b) \<subseteq> set ns \<and>
     b_routes b = rt_ID ` set (b_targetRoutes b) \<and> distinct (map rt_ID (b_targetRoutes b)) \<and>
     set (b_targetRoutes b) \<subseteq> {r \<in> set rs. rt_SourceNodeID r \<in> downstream ns rs s} \<and>
     (\<forall>r\<in>set (b_targetRoutes b). node_map ns (rt_TargetNodeID r) \<noteq> None \<longrightarrow>
        rt_TargetNodeID r \<in> b_nodes b)"

lemma visit_route_inv:
  assumes inv: "bfs_inv ns rs s b" and r: "r \<in> set rs" "rt_SourceNodeID r \<in> downstream ns rs s"
  shows "bfs_inv ns rs s (visit_route ns r b)"
proof (cases "rt_ID r \<in> b_routes b")
  case True
  then show ?thesis using inv by (simp add: visit_route_def)
next
  case new: False
  show ?thesis
  proof (cases "rt_TargetNodeID r \<in> b_nodes b \<or> node_map ns (rt_TargetNodeID r) = None")
    case True
    have v: "visit_route ns r b = b\<lparr>b_targetRoutes := b_targetRoutes b @ [r], b_routes := insert (rt_ID r) (b_routes b)\<rparr>"
      using new True by (auto simp: visit_route_def Let_def split: option.splits)
    have t: "node_map ns (rt_TargetNodeID r) \<noteq> None \<longrightarrow> rt_TargetNodeID r \<in> b_nodes b"
      using True by auto
    have new': "rt_ID r \<notin> rt_ID ` set (b_targetRoutes b)" using inv new by (simp add: bfs_inv_def)
    show ?thesis
      unfolding v bfs_inv_def using inv [unfolded bfs_inv_def] r t new' by (elim conjE) simp
  next
    case False
    then obtain n where n: "node_map ns (rt_TargetNodeID r) = Some n" "rt_TargetNodeID r \<notin> b_nodes b"
      by auto
    note nd = node_map_SomeD [OF n(1)]
    have "rt_TargetNodeID r \<in> downstream ns rs s"
      using downstream_step [OF r] n(1) by simp
    with new inv r n nd show ?thesis
      by (simp add: visit_route_def bfs_inv_def Let_def) (auto simp: image_iff)
  qed
qed

text \<open>A route is settled when it is recorded.\<close>

lemma visit_route_grows:
  "set (b_targetRoutes b) \<subseteq> set (b_targetRoutes (visit_route ns r b)) \<and>
   b_nodes b \<subseteq> b_nodes (visit_route ns r b) \<and>
   b_nodes (visit_route ns r b) - set (b_queue (visit_route ns r b)) \<subseteq>
     b_nodes b - set (b_queue b)"
  by (auto simp: visit_route_def Let_def split: option.splits)

lemma visit_route_records:
  assumes "bfs_inv ns rs s b" and "r \<in> set rs" and "distinct (map rt_ID rs)"
  shows "r \<in> set (b_targetRoutes (visit_route ns r b))"
proof (cases "rt_ID r \<in> b_routes b")
  case True
  then obtain r' where r': "r' \<in> set (b_targetRoutes b)" "rt_ID r' = rt_ID r" "r' \<in> set rs"
    using assms(1) by (auto simp: bfs_inv_def)
  then have "r' = r" using assms(2,3) by (auto simp: distinct_map inj_on_def)
  with r'(1) True show ?thesis by (simp add: visit_route_def)
qed (auto simp: visit_route_def Let_def split: option.splits)

lemma visit_routes_inv:
  assumes "bfs_inv ns rs s b" and "\<And>r. r \<in> set as \<Longrightarrow> r \<in> set rs \<and> rt_SourceNodeID r \<in> downstream ns rs s"
  shows "bfs_inv ns rs s (visit_routes ns as b)"
  using assms unfolding visit_routes_def
  by (induction as arbitrary: b) (auto simp: visit_route_inv)

lemma visit_routes_grows:
  "set (b_targetRoutes b) \<subseteq> set (b_targetRoutes (visit_routes ns as b)) \<and>
   b_nodes b \<subseteq> b_nodes (visit_routes ns as b) \<and>
   b_nodes (visit_routes ns as b) - set (b_queue (visit_routes ns as b)) \<subseteq>
     b_nodes b - set (b_queue b)"
  unfolding visit_routes_def
proof (induction as arbitrary: b)
  case (Cons a as)
  show ?case
    using Cons [of "visit_route ns a b"] visit_route_grows [of b ns a] by simp blast
qed simp

lemma visit_routes_records:
  assumes "bfs_inv ns rs s b" and "distinct (map rt_ID rs)"
    and "\<And>r. r \<in> set as \<Longrightarrow> r \<in> set rs \<and> rt_SourceNodeID r \<in> downstream ns rs s"
  shows "set as \<subseteq> set (b_targetRoutes (visit_routes ns as b))"
  using assms
proof (induction as arbitrary: b)
  case (Cons a as)
  have "a \<in> set (b_targetRoutes (visit_route ns a b))"
    using Cons.prems by (intro visit_route_records) auto
  moreover have "bfs_inv ns rs s (visit_route ns a b)"
    using Cons.prems by (intro visit_route_inv) auto
  ultimately show ?case
    using Cons.IH [of "visit_route ns a b"] Cons.prems visit_routes_grows [of "visit_route ns a b" ns as]
    by (auto simp: visit_routes_def)
qed simp

lemma bfs_loop_inv:
  assumes "bfs_inv ns rs s b"
  shows "bfs_inv ns rs s (bfs_loop ns rs b) \<and> b_queue (bfs_loop ns rs b) = []"
  using assms
proof (induction ns rs b rule: bfs_loop.induct)
  case (1 ns rs b)
  show ?case
  proof (cases "b_queue b")
    case Nil
    then show ?thesis using 1 by (simp add: bfs_loop.simps [of ns rs b])
  next
    case (Cons cur queue)
    then have "cur \<in> downstream ns rs s" "bfs_inv ns rs s (b\<lparr>b_queue := queue\<rparr>)"
      using "1.prems" by (auto simp: bfs_inv_def)
    then have "bfs_inv ns rs s (visit_routes ns (adj_routes rs cur) (b\<lparr>b_queue := queue\<rparr>))"
      by (intro visit_routes_inv) (auto simp: adj_routes_def)
    then show ?thesis
      using "1.IH" [OF Cons] Cons by (simp add: bfs_loop.simps [of ns rs b])
  qed
qed

definition bfs_closed :: "TransportRoute list \<Rightarrow> bfs \<Rightarrow> bool" where
  "bfs_closed rs b \<longleftrightarrow>
     (\<forall>r\<in>set rs. rt_SourceNodeID r \<in> b_nodes b - set (b_queue b) \<longrightarrow> r \<in> set (b_targetRoutes b))"

lemma bfs_loop_closed:
  assumes "bfs_inv ns rs s b" and "bfs_closed rs b" and "distinct (map rt_ID rs)"
  shows "bfs_closed rs (bfs_loop ns rs b)"
  using assms
proof (induction ns rs b rule: bfs_loop.induct)
  case (1 ns rs b)
  show ?case
  proof (cases "b_queue b")
    case Nil
    then show ?thesis using 1 by (simp add: bfs_loop.simps [of ns rs b])
  next
    case (Cons cur queue)
    define b' where "b' = visit_routes ns (adj_routes rs cur) (b\<lparr>b_queue := queue\<rparr>)"
    have cur: "cur \<in> downstream ns rs s" "bfs_inv ns rs s (b\<lparr>b_queue := queue\<rparr>)"
      using "1.prems" Cons by (auto simp: bfs_inv_def)
    then have inv: "bfs_inv ns rs s b'"
      unfolding b'_def by (intro visit_routes_inv) (auto simp: adj_routes_def)
    have rec: "set (adj_routes rs cur) \<subseteq> set (b_targetRoutes b')"
      unfolding b'_def using cur "1.prems"
      by (intro visit_routes_records) (auto simp: adj_routes_def)
    have "bfs_closed rs b'"
      unfolding bfs_closed_def
    proof (intro ballI impI)
      fix r assume r: "r \<in> set rs" "rt_SourceNodeID r \<in> b_nodes b' - set (b_queue b')"
      show "r \<in> set (b_targetRoutes b')"
      proof (cases "rt_SourceNodeID r = cur")
        case True
        then show ?thesis using rec r(1) by (auto simp: adj_routes_def)
      next
        case False
        then show ?thesis
          using r visit_routes_grows [of "b\<lparr>b_queue := queue\<rparr>" ns "adj_routes rs cur"]
            "1.prems"(2) Cons
          by (auto simp: bfs_closed_def b'_def)
      qed
    qed
    then show ?thesis
      using "1.IH" [OF Cons] inv "1.prems"(3) Cons
      by (simp add: bfs_loop.simps [of ns rs b] b'_def)
  qed
qed

lemma bfs_result:
  assumes "distinct (map rt_ID rs)"
    and "b = bfs_loop ns rs \<lparr>b_nodes = {s}, b_routes = {}, b_targetRoutes = [],
               b_targetNodes = [], b_queue = [s]\<rparr>"
  shows "bfs_inv ns rs s b" and "b_nodes b = downstream ns rs s"
    and "set (b_targetRoutes b) = {r \<in> set rs. rt_SourceNodeID r \<in> downstream ns rs s}"
proof -
  let ?b0 = "\<lparr>b_nodes = {s}, b_routes = {}, b_targetRoutes = [], b_targetNodes = [], b_queue = [s]\<rparr>"
  have "bfs_inv ns rs s ?b0" "bfs_closed rs ?b0"
    by (auto simp: bfs_inv_def bfs_closed_def downstream_start)
  then have inv: "bfs_inv ns rs s b"
    and closed0: "bfs_closed rs b" and empty: "b_queue b = []"
    using bfs_loop_inv [of ns rs s ?b0] bfs_loop_closed [of ns rs s ?b0] assms by auto
  show "bfs_inv ns rs s b" by (rule inv)
  have closed: "r \<in> set (b_targetRoutes b)" if "r \<in> set rs" "rt_SourceNodeID r \<in> b_nodes b" for r
    using closed0 that by (simp add: bfs_closed_def empty)
  have sub: "s \<in> b_nodes b" "b_nodes b \<subseteq> downstream ns rs s" using inv by (auto simp: bfs_inv_def)
  show nodes: "b_nodes b = downstream ns rs s"
    unfolding downstream_def
  proof (rule closed_is_reachable [OF sub(1)])
    show "b_nodes b \<subseteq> (known_rel ns rs)\<^sup>* `` {s}" using sub(2) by (simp add: downstream_def)
    show "y \<in> b_nodes b" if "x \<in> b_nodes b" "(x, y) \<in> known_rel ns rs" for x y
      using that closed inv by (fastforce simp: known_rel_def route_rel_def bfs_inv_def)
  qed
  show "set (b_targetRoutes b) = {r \<in> set rs. rt_SourceNodeID r \<in> downstream ns rs s}"
    using inv closed by (auto simp: bfs_inv_def simp flip: nodes)
qed

section \<open>Properties\<close>

text \<open>The routes among the selected tenants.\<close>

definition inner_routes :: "CpiTenant list \<Rightarrow> TransportRoute list \<Rightarrow> TransportRoute list" where
  "inner_routes ts rs =
     filter (\<lambda>r. rt_SourceNodeID r \<in> tn_TmsSourceNodeID ` set ts \<and>
                 rt_TargetNodeID r \<in> tn_TmsSourceNodeID ` set ts) rs"

text \<open>C3: SourceAndRoute accepts a selection exactly when some selected tenant is the target of no
  route among the selection and every selected tenant can be reached from the first such tenant
  over those routes; it returns that tenant, exactly those routes and the nodes of the
  tenants.\<close>

theorem SourceAndRoute_ok_iff:
  "SourceAndRoute (Inr rs) (Inr ns) ts = Inr (t, rs', ns') \<longleftrightarrow>
     rs' = inner_routes ts rs \<and> ns' = map (\<lambda>t. node_at ns (tn_TmsSourceNodeID t)) ts \<and>
     List.find (\<lambda>t. tn_TmsSourceNodeID t \<notin> rt_TargetNodeID ` set rs') ts = Some t \<and>
     (\<forall>u\<in>set ts. (tn_TmsSourceNodeID t, tn_TmsSourceNodeID u) \<in> (route_rel rs')\<^sup>*)"
  by (auto simp: SourceAndRoute_def Let_def reach_loop_start inner_routes_def find_None_iff2
      split: option.splits) (blast dest: find_SomeD)+

theorem SourceAndRoute_ok_iff_witness:
  "SourceAndRoute (Inr [\<lparr>rt_ID = 7, rt_Description = [], rt_Name = [], rt_SourceNodeID = 1,
                         rt_TargetNodeID = 2\<rparr>])
     (Inr []) [zero_tenant\<lparr>tn_TmsSourceNodeID := 2\<rparr>, zero_tenant\<lparr>tn_TmsSourceNodeID := 1\<rparr>] =
   Inr (zero_tenant\<lparr>tn_TmsSourceNodeID := 1\<rparr>,
        [\<lparr>rt_ID = 7, rt_Description = [], rt_Name = [], rt_SourceNodeID = 1, rt_TargetNodeID = 2\<rparr>],
        [zero_node, zero_node])"
  unfolding SourceAndRoute_ok_iff
  by (simp add: inner_routes_def node_at_def node_map_def route_rel_def r_into_rtrancl)

text \<open>C4: when route ids are unique, the search from a known source node returns each route that
  starts downstream of the source exactly once and each node downstream of it exactly once, the
  source excluded.\<close>

theorem downstreamfromSource_correct:
  assumes "s \<noteq> 0" and "s \<in> nd_ID ` set ns" and "distinct (map rt_ID rs)"
  shows "case downstreamfromSource s ns rs of (trs, tns) \<Rightarrow>
           set trs = {r \<in> set rs. rt_SourceNodeID r \<in> downstream ns rs s} \<and> distinct trs \<and>
           set (map nd_ID tns) = downstream ns rs s - {s} \<and> distinct (map nd_ID tns)"
proof (cases "rs = []")
  case True
  then show ?thesis by (simp add: downstreamfromSource_def downstream_def known_rel_def route_rel_def)
next
  case False
  define b where "b = bfs_loop ns rs \<lparr>b_nodes = {s}, b_routes = {}, b_targetRoutes = [],
               b_targetNodes = [], b_queue = [s]\<rparr>"
  have "downstreamfromSource s ns rs = (b_targetRoutes b, b_targetNodes b)"
    using assms False by (simp add: downstreamfromSource_def node_map_dom b_def Let_def)
  moreover have "distinct (b_targetRoutes b)"
    using bfs_result(1) [OF assms(3) b_def] by (simp add: bfs_inv_def distinct_map)
  ultimately show ?thesis
    using bfs_result [OF assms(3) b_def] by (auto simp: bfs_inv_def)
qed

theorem downstreamfromSource_correct_witness:
  "case downstreamfromSource 1 [zero_node\<lparr>nd_ID := 1\<rparr>, zero_node\<lparr>nd_ID := 2\<rparr>]
     [\<lparr>rt_ID = 7, rt_Description = [], rt_Name = [], rt_SourceNodeID = 1, rt_TargetNodeID = 2\<rparr>] of
     (trs, tns) \<Rightarrow> distinct trs \<and> distinct (map nd_ID tns)"
  using downstreamfromSource_correct [of 1 "[zero_node\<lparr>nd_ID := 1\<rparr>, zero_node\<lparr>nd_ID := 2\<rparr>]"
    "[\<lparr>rt_ID = 7, rt_Description = [], rt_Name = [], rt_SourceNodeID = 1, rt_TargetNodeID = 2\<rparr>]"]
  by (auto split: prod.splits)

end
