(* ===== verification/Requests.thy ===== *)
theory Requests
  imports World Checks Routes
begin

text \<open>
  service/dr.go and the request handlers of handler/delivery_request.go: creating, updating and
  deleting delivery requests, inserting, updating and deleting their artifact operations. Errors of
  single operations are collected by key and returned together, as the code does.
\<close>

section \<open>Queries\<close>

record DrAcc =
  da_dr :: DeliveryRequest
  da_SourceTenant :: CpiTenant
  da_Rule :: DeliveryRule
  da_IncludedTenants :: "CpiTenant list"
  da_Ops :: "ArtifactTenantOperation list"
  da_Conditions :: "Condition list"

definition dr_acc :: "world \<Rightarrow> DeliveryRequest \<Rightarrow> DrAcc" where
  "dr_acc w dr =
     (let rule = rule_of w (dr_DeliveryRuleID dr) in
      \<lparr>da_dr = dr, da_SourceTenant = tenant_of w (dr_SourceTenantID dr), da_Rule = rule,
       da_IncludedTenants = tenants_in w (ru_IncludedTenants rule),
       da_Ops = ops_of w (dr_ID dr),
       da_Conditions = filter (\<lambda>c. co_DeliveryRequestID c = dr_ID dr) (db_conds w)\<rparr>)"

definition dr_lookup :: "world \<Rightarrow> nat \<Rightarrow> DeliveryRequest option" where
  "dr_lookup w drID = List.find (\<lambda>d. dr_ID d = drID) (db_drs w)"

definition QueryDrWithAssociations :: "nat \<Rightarrow> (gerr + DrAcc) prog" where
  "QueryDrWithAssociations drID =
     onerr (db_load (\<lambda>w. case dr_lookup w drID of None \<Rightarrow> Inl RecordNotFound | Some dr \<Rightarrow> Inr (dr_acc w dr)))
       (Errw ''failed to query delivery request %d: %w'' [Num drID]) done_with"

definition GetDeliveryRuleWithAcc ::
  "nat \<Rightarrow> (gerr + (DeliveryRule \<times> CpiTenant list \<times> CpiTenant list)) prog" where
  "GetDeliveryRuleWithAcc drRuleID =
     onerr (db_load (\<lambda>w. case List.find (\<lambda>r. ru_ID r = drRuleID) (db_rules w) of
                None \<Rightarrow> Inl RecordNotFound
              | Some r \<Rightarrow> Inr (r, tenants_in w (ru_IncludedTenants r), tenants_in w (ru_ExcludedTenants r))))
       (\<lambda>e. if is_not_found e then Errf ''delivery rule %d not found'' [Num drRuleID]
             else Errf ''failed to get delivery rule %d: %s'' [Num drRuleID, Verb e])
       done_with"

definition queryTenantByNodeID :: "nat \<Rightarrow> (gerr + CpiTenant) prog" where
  "queryTenantByNodeID nodeID =
     onerr (db_first db_tenants (\<lambda>t. nodeID = 0 \<or> tn_TmsSourceNodeID t = nodeID))
       (\<lambda>e. if is_not_found e then Errf ''no cpi tenant found for tms node %d'' [Num nodeID]
             else Errf ''failed to query tenant by node ID %d: %s'' [Num nodeID, Verb e])
       done_with"

definition queryOpsInDrWithAcc :: "nat \<Rightarrow> (gerr + (ArtifactTenantOperation \<times> CpiTenant) list) prog" where
  "queryOpsInDrWithAcc drID =
     onerr (db_query (\<lambda>w. map (\<lambda>op. (op, tenant_of w (op_TenantID op)))
              (filter (\<lambda>op. drID = 0 \<or> op_DeliveryRequestID op = drID) (db_ops w))))
       (Errw ''db query failed: %w'' [])
       (\<lambda>l. if l = [] then
               failwith (Errf ''no artifact tenant operation found for delivery request %d'' [Num drID])
             else done_with l)"

definition CreateDeliveryRequest :: "DeliveryRequest \<Rightarrow> (gerr + DeliveryRequest) prog" where
  "CreateDeliveryRequest dr =
     onerr (db_create Drs db_drs db_drs_update dr_ID (\<lambda>n d. d\<lparr>dr_ID := n\<rparr>) [dr])
       (\<lambda>e. Errf ''failed to create delivery request: %s'' [Verb e])
       (\<lambda>rows. done_with (hd rows))"

definition DeleteDeliveryRequest :: "nat \<Rightarrow> (gerr + unit) prog" where
  "DeleteDeliveryRequest i =
     onerr (db_delete Drs db_drs db_drs_update dr_ID (\<lambda>d. dr_ID d = i))
       (\<lambda>e. Errf ''failed to delete delivery request %d: %s'' [Num i, Verb e]) done_with"

section \<open>GenRouteForRule\<close>

definition save_rule :: "DeliveryRule \<Rightarrow> (gerr + DeliveryRule) prog" where
  "save_rule r = db_save Rules db_rules db_rules_update ru_ID (\<lambda>n r. r\<lparr>ru_ID := n\<rparr>) r"

definition GenRouteForRule :: "env \<Rightarrow> nat \<Rightarrow> (gerr + unit) prog" where
  "GenRouteForRule env ruleID =
     onerr (GetDeliveryRuleWithAcc ruleID) id (\<lambda>(rule, included, _).
       (case (case TmsSvc env of Inl e \<Rightarrow> Inl e
              | Inr _ \<Rightarrow> SourceAndRoute (GetRoutes env) (GetNodes env) included) of
          Inl e \<Rightarrow> failwith e
        | Inr (sourceTenant, targetRoutes, targetNodes) \<Rightarrow>
            onerr (save_rule (rule\<lparr>ru_TargetNodes := targetNodes, ru_TargetRoutes := targetRoutes,
                                    ru_SourceTenantID := tn_ID sourceTenant\<rparr>)) id
              (\<lambda>_. done_with ())))"

section \<open>DeleteTenantOps\<close>

definition delete_op_step :: "nat \<Rightarrow> (nat \<times> gerr) list \<Rightarrow> (gerr + (nat \<times> gerr) list) prog" where
  "delete_op_step i errOps =
     (if i = 0 then failwith (Errf ''invalid operation id: 0'' [])
      else do {
        r \<leftarrow> db_first db_ops (\<lambda>x. op_ID x = i);
        let (op, errOps1) = (case r of
            Inl e \<Rightarrow> (zero_op, map_put i (Errf ''failed to find artifact tenant operation %d. Op may not exists: %s'' [Num i, Verb e]) errOps)
          | Inr op \<Rightarrow> (op, errOps));
        if op_RequestState op \<noteq> RequestPending \<and> op_RequestState op \<noteq> RequestTrFailed then
          done_with (map_put i (Errf ''cannot delete artifact tenant operation %d in state %s. Can disable delivery'' [Num i, Str (request_str (op_RequestState op))]) errOps1)
        else do {
          d \<leftarrow> db_delete Ops db_ops db_ops_update op_ID (\<lambda>x. op_ID x = i);
          case d of
            Inl e \<Rightarrow> done_with (map_put i (Errf ''failed to delete artifact operation %d: %s'' [Num i, Verb e]) errOps1)
          | Inr _ \<Rightarrow> done_with errOps1
        }
      })"

definition DeleteTenantOps :: "nat \<Rightarrow> nat list \<Rightarrow> (gerr + unit) prog" where
  "DeleteTenantOps drID opIDs =
     (if opIDs = [] then done_with ()
      else onerr (loopE delete_op_step opIDs []) id (\<lambda>errOps.
        if errOps \<noteq> [] then
          failwith (Errs ''errors occurred during delete artifact tenant operations:''
            (op_error_lines ''operation %d: %s'' errOps))
        else do {
          _ \<leftarrow> (if drID \<noteq> 0 then NotifyDrUpdated drID else State_Monad.return ());
          done_with ()
        }))"

section \<open>InsertTenantOps\<close>

definition init_op :: "nat \<Rightarrow> string \<Rightarrow> ArtifactTenantOperation \<Rightarrow> ArtifactTenantOperation" where
  "init_op drID user op =
     (let skip = (\<not> IsDeployable (op_ArtifactType op) \<or> op_SkipDeploy op) in
      op\<lparr>op_CreatedBy := user, op_DeliveryRequestID := drID, op_ImportState := ImportNotStarted,
         op_RequestState := RequestPending, op_SkipDeploy := skip,
         op_DeployState := (if skip then DeployDisabled else DeployNotStarted)\<rparr>)"

definition check_new_op ::
  "env \<Rightarrow> DeliveryRule \<Rightarrow> CpiTenant list \<Rightarrow> CpiTenant \<Rightarrow> ArtifactTenantOperation \<Rightarrow> gerr + unit" where
  "check_new_op env rule included sourceTenant op =
     (case DeliveryRuleCheck env op rule included of
        Inl e \<Rightarrow> err e
      | Inr _ \<Rightarrow>
          if op_TransportRequestNumber op \<noteq> '''' then
            (case TrExist env op sourceTenant of
               Inl e \<Rightarrow> if is_panic e then err e
                        else err (Errf ''transport request check failed for artifact %s: %s'' [Str (op_ArtifactTechID op), Verb e])
             | Inr _ \<Rightarrow> ok ())
          else ok ())"

text \<open>The loop over the operations: errors by index, and the operations as the loop leaves
  them (a rejected one unchanged). A panic leaves the loop.\<close>

fun prepare_ops ::
  "env \<Rightarrow> DeliveryRule \<Rightarrow> CpiTenant list \<Rightarrow> CpiTenant \<Rightarrow> nat \<Rightarrow> string \<Rightarrow> nat \<Rightarrow>
   ArtifactTenantOperation list \<Rightarrow> gerr + ((nat \<times> gerr) list \<times> ArtifactTenantOperation list)" where
  "prepare_ops env rule inc src drID user i [] = ok ([], [])"
| "prepare_ops env rule inc src drID user i (op # ops) =
     (let r = check_new_op env rule inc src op in
      case r of
        Inl e \<Rightarrow>
          if is_panic e then err e
          else (case prepare_ops env rule inc src drID user (Suc i) ops of
                  Inl p \<Rightarrow> err p
                | Inr (errs, ops') \<Rightarrow> ok ((i, e) # errs, op # ops'))
      | Inr _ \<Rightarrow>
          (case prepare_ops env rule inc src drID user (Suc i) ops of
             Inl p \<Rightarrow> err p
           | Inr (errs, ops') \<Rightarrow> ok (errs, init_op drID user op # ops')))"

definition insert_error :: "ArtifactTenantOperation list \<Rightarrow> (nat \<times> gerr) list \<Rightarrow> gerr" where
  "insert_error ops errOps =
     Errs ''errors occurred during insert artifact tenant operations:''
       (map (\<lambda>(i, e). Errf ''op[%d] %s@%s: %s''
          [Num i, Str (op_ArtifactName (ops ! i)), Str (op_ArtifactVersion (ops ! i)), Verb e]) errOps)"

definition git_sync_tasks ::
  "nat \<Rightarrow> CpiTenant \<Rightarrow> CpiTenant list \<Rightarrow> ArtifactTenantOperation list \<Rightarrow> task list" where
  "git_sync_tasks drID sourceTenant included ops =
     concat (map (\<lambda>op. if op_TenantID op \<noteq> tn_ID sourceTenant then []
                        else map (\<lambda>t. TaskGitSync (op_ArtifactTechID op) (op_PackageID op)
                                         (op_ArtifactType op) (tn_ID t) drID) included) ops)"

definition InsertTenantOps ::
  "env \<Rightarrow> nat \<Rightarrow> ArtifactTenantOperation list \<Rightarrow> string \<Rightarrow>
   (gerr + ArtifactTenantOperation list) prog" where
  "InsertTenantOps env drID newOps user =
     (if newOps = [] then done_with []
      else onerr (QueryDrWithAssociations drID)
        (\<lambda>e. Errf ''failed to query delivery request %d: %s'' [Num drID, Verb e]) (\<lambda>dr.
      onerr (GetDeliveryRuleWithAcc (dr_DeliveryRuleID (da_dr dr)))
        (\<lambda>e. Errf ''failed to get delivery rule %d: %s'' [Num (dr_DeliveryRuleID (da_dr dr)), Verb e])
        (\<lambda>(rule, included, _).
      let sourceTenant = da_SourceTenant dr in
      case prepare_ops env rule included sourceTenant drID user 0 newOps of
        Inl p \<Rightarrow> failwith p
      | Inr (errOps, ops1) \<Rightarrow>
          if errOps \<noteq> [] then failwith (insert_error ops1 errOps)
          else onerr (db_create Ops db_ops db_ops_update op_ID (\<lambda>n x. x\<lparr>op_ID := n\<rparr>) ops1)
            (\<lambda>e. Errf ''failed to insert artifact tenant operations: %s'' [Verb e]) (\<lambda>rows. do {
              let newOpIDs = map op_ID (filter (\<lambda>x. op_TenantID x = tn_ID sourceTenant \<and>
                                 op_TransportRequestNumber x = '''') rows);
              _ \<leftarrow> (if newOpIDs \<noteq> [] then spawn (TaskGenTR (tn_ID sourceTenant) drID newOpIDs)
                   else State_Monad.return ());
              _ \<leftarrow> loop (\<lambda>t _. spawn t) (git_sync_tasks drID sourceTenant included rows) ();
              _ \<leftarrow> NotifyDrUpdated drID;
              done_with rows
            }))))"

section \<open>UpdateTenantOps\<close>

record OpUpdateItem =
  oi_ID :: nat
  oi_TransportRequestNumber :: string
  oi_SkipDeploy :: bool

definition save_op :: "ArtifactTenantOperation \<Rightarrow> (gerr + ArtifactTenantOperation) prog" where
  "save_op op = db_save Ops db_ops db_ops_update op_ID (\<lambda>n x. x\<lparr>op_ID := n\<rparr>) op"

definition update_op_step ::
  "env \<Rightarrow> CpiTenant \<Rightarrow> string \<Rightarrow> OpUpdateItem \<Rightarrow> (nat \<times> gerr) list \<times> ArtifactTenantOperation list \<Rightarrow>
   (gerr + (nat \<times> gerr) list \<times> ArtifactTenantOperation list) prog" where
  "update_op_step env sourceTenant user item = (\<lambda>(errOps, result). do {
     r \<leftarrow> db_first db_ops (\<lambda>x. op_ID x = oi_ID item);
     case r of
       Inl e \<Rightarrow> done_with (map_put (oi_ID item) (Errf ''failed to find artifact tenant operation %d: %s'' [Num (oi_ID item), Verb e]) errOps, result)
     | Inr existingOp \<Rightarrow>
         if op_RequestState existingOp \<noteq> RequestPending then
           done_with (map_put (oi_ID item) (Errf ''cannot update artifact tenant operation %d in state %s. Can only update pending operations'' [Num (oi_ID item), Str (request_str (op_RequestState existingOp))]) errOps, result)
         else
           (case (if op_TransportRequestNumber existingOp \<noteq> oi_TransportRequestNumber item \<and>
                     oi_TransportRequestNumber item \<noteq> '''' then
                    TrExist env (existingOp\<lparr>op_TransportRequestNumber := oi_TransportRequestNumber item\<rparr>) sourceTenant
                  else Inr True) of
              Inl e \<Rightarrow>
                if is_panic e then failwith e
                else done_with (map_put (oi_ID item) (Errf ''transport request check failed for artifact %s, new %s, old: %s: %s''
                  [Str (op_ArtifactTechID existingOp), Str (oi_TransportRequestNumber item), Str (op_TransportRequestNumber existingOp), Verb e]) errOps, result)
            | Inr _ \<Rightarrow> do {
                let op1 = existingOp\<lparr>op_UpdatedBy := user,
                            op_TransportRequestNumber := oi_TransportRequestNumber item,
                            op_SkipDeploy := oi_SkipDeploy item,
                            op_DeployState := (if oi_SkipDeploy item then DeployDisabled else DeployNotStarted)\<rparr>;
                s \<leftarrow> save_op op1;
                case s of
                  Inl e \<Rightarrow> done_with (map_put (oi_ID item) (Errf ''failed to update artifact tenant operation %d: %s'' [Num (oi_ID item), Verb e]) errOps, result)
                | Inr _ \<Rightarrow> done_with (errOps, result @ [op1])
              })
   })"

definition UpdateTenantOps ::
  "env \<Rightarrow> nat \<Rightarrow> OpUpdateItem list \<Rightarrow> string \<Rightarrow> (gerr + ArtifactTenantOperation list) prog" where
  "UpdateTenantOps env drID updateItems user =
     (if updateItems = [] then done_with []
      else onerr (QueryDrWithAssociations drID)
        (\<lambda>e. Errf ''failed to query delivery request %d: %s'' [Num drID, Verb e]) (\<lambda>dr.
      onerr (loopE (update_op_step env (da_SourceTenant dr) user) updateItems ([], [])) id
        (\<lambda>(errOps, result).
          if errOps \<noteq> [] then
            failwith (Errs ''errors occurred during update artifact tenant operations:''
              (op_error_lines ''operation %d: %s'' errOps))
          else do { _ \<leftarrow> NotifyDrUpdated drID; done_with result })))"

section \<open>Request handlers\<close>

text \<open>A handler answers a value or an HTTP status with an error text.\<close>

type_synonym http = "nat \<times> gerr"

definition is_upper :: "char \<Rightarrow> bool" where
  "is_upper c = (65 \<le> (of_char c :: nat) \<and> (of_char c :: nat) \<le> 90)"

definition is_digit :: "char \<Rightarrow> bool" where
  "is_digit c = (digit_val c \<noteq> None)"

text \<open>The pattern of upper-case letters, hyphen, digits up to the end of the text.\<close>

definition issue_key :: "string \<Rightarrow> bool" where
  "issue_key s =
     (let p = takeWhile is_upper s; r = dropWhile is_upper s in
      p \<noteq> [] \<and> r \<noteq> [] \<and> hd r = CHR ''-'' \<and> tl r \<noteq> [] \<and> list_all is_digit (tl r))"

definition jira_pattern :: "string \<Rightarrow> bool" where
  "jira_pattern jira =
     (HasPrefix jira ''http'' \<and>
      (let s1 = TrimPrefix (drop 4 jira) ''s'' in
       HasPrefix s1 ''://'' \<and>
       (let s2 = drop 3 s1; host = takeWhile (\<lambda>c. c \<noteq> CHR ''/'') s2;
            rest = dropWhile (\<lambda>c. c \<noteq> CHR ''/'') s2 in
        host \<noteq> [] \<and> HasPrefix rest ''/browse/'' \<and> issue_key (drop 8 rest))))"

definition checkJIRA :: "string \<Rightarrow> DeliveryRule \<Rightarrow> gerr + unit" where
  "checkJIRA jira rule =
     (if jira = '''' \<and> ru_RequireJira rule then
        err (Errf ''jira link is required when delivery rule requires JIRA. Example: https://jira.tools.sap/browse/<ISSUE-KEY>'' [])
      else if jira \<noteq> '''' then
        (if \<not> HasPrefix jira ''http://'' \<and> \<not> HasPrefix jira ''https://'' then
           err (Errf ''jira link must start with http:// or https://. Example: https://jira.tools.sap/browse/<ISSUE-KEY>'' [])
         else if \<not> jira_pattern jira then
           err (Errf ''invalid jira link format. Expected format: https://jira.tools.sap/browse/<ISSUE-KEY>)'' [])
         else ok ())
      else ok ())"

text \<open>CreateDr: the body is a delivery request with its delivery rule embedded.\<close>

definition CreateDr ::
  "DeliveryRequest \<Rightarrow> DeliveryRule \<Rightarrow> string \<Rightarrow> (http + DeliveryRequest) prog" where
  "CreateDr body bodyRule user =
     (if ru_ID bodyRule = 0 then failwith (400, Errf ''missing delivery rule'' [])
      else if dr_Name body = '''' then failwith (400, Errf ''missing name'' [])
      else case checkJIRA (dr_JiraLink body) bodyRule of
        Inl e \<Rightarrow> failwith (400, e)
      | Inr _ \<Rightarrow>
          onerr (GetDeliveryRuleWithAcc (ru_ID bodyRule))
            (\<lambda>e. (500, Errf ''failed to generate target routes and nodes: %s'' [Verb e]))
            (\<lambda>(rule, _, _).
              onerr (CreateDeliveryRequest (body\<lparr>dr_SourceTenantID := ru_SourceTenantID rule,
                       dr_DeliveryRuleID := ru_ID rule, dr_AggregateStatus := AggPending,
                       dr_CreatedBy := user, dr_UpdatedBy := user\<rparr>))
                (\<lambda>e. (500, e)) done_with))"

text \<open>Updates with a struct: only its non-zero fields.\<close>

definition dr_merge :: "DeliveryRequest \<Rightarrow> DeliveryRequest \<Rightarrow> DeliveryRequest" where
  "dr_merge new old =
     old\<lparr>dr_Name := nz [] (dr_Name new) (dr_Name old),
         dr_Description := nz [] (dr_Description new) (dr_Description old),
         dr_JiraLink := nz [] (dr_JiraLink new) (dr_JiraLink old),
         dr_AggregateStatus := nz AggUnset (dr_AggregateStatus new) (dr_AggregateStatus old),
         dr_ApprovedBy := nz [] (dr_ApprovedBy new) (dr_ApprovedBy old),
         dr_ApprovedAt := nz None (dr_ApprovedAt new) (dr_ApprovedAt old),
         dr_Approvers := nz [] (dr_Approvers new) (dr_Approvers old),
         dr_SourceTenantID := nz 0 (dr_SourceTenantID new) (dr_SourceTenantID old),
         dr_DeliveryRuleID := nz 0 (dr_DeliveryRuleID new) (dr_DeliveryRuleID old),
         dr_VersionCompareSnapshotID :=
           nz None (dr_VersionCompareSnapshotID new) (dr_VersionCompareSnapshotID old),
         dr_CreatedBy := nz [] (dr_CreatedBy new) (dr_CreatedBy old),
         dr_UpdatedBy := nz [] (dr_UpdatedBy new) (dr_UpdatedBy old)\<rparr>"

definition dr_updates :: "nat \<Rightarrow> DeliveryRequest \<Rightarrow> (gerr + unit) prog" where
  "dr_updates drID new = db_update db_drs_update (\<lambda>d. dr_ID d = drID) (dr_merge new)"

definition UpdateDr ::
  "DeliveryRequest \<Rightarrow> DeliveryRule \<Rightarrow> string \<Rightarrow> (http + DeliveryRequest) prog" where
  "UpdateDr body bodyRule user =
     onerr (db_first db_drs (\<lambda>d. dr_ID d = dr_ID body))
       (\<lambda>e. (404, Errf ''delivery request id %d not found'' [Num (dr_ID body)])) (\<lambda>existing.
     if dr_AggregateStatus existing \<noteq> AggPending \<and> dr_AggregateStatus existing \<noteq> AggWaitingApprove then
       failwith (400, Errf ''only pending or waiting approval delivery request can be updated'' [])
     else onerr (GetDeliveryRuleWithAcc (ru_ID bodyRule)) (\<lambda>e. (500, e)) (\<lambda>(rule, _, _).
       case (if dr_JiraLink existing \<noteq> dr_JiraLink body then checkJIRA (dr_JiraLink body) rule else Inr ()) of
         Inl e \<Rightarrow> failwith (400, e)
       | Inr _ \<Rightarrow> do {
           let existing1 = (if dr_JiraLink existing \<noteq> dr_JiraLink body
                            then existing\<lparr>dr_JiraLink := dr_JiraLink body, dr_UpdatedBy := user\<rparr> else existing);
           let (existing2, body1) = (if dr_DeliveryRuleID existing1 \<noteq> ru_ID bodyRule
                            then (existing1\<lparr>dr_DeliveryRuleID := ru_ID bodyRule\<rparr>, body\<lparr>dr_UpdatedBy := user\<rparr>)
                            else (existing1, body));
           let existing3 = existing2\<lparr>dr_Name := dr_Name body\<rparr>;
           onerr (dr_updates (dr_ID existing3) existing3) (\<lambda>e. (500, e)) (\<lambda>_. do {
             _ \<leftarrow> NotifyDrUpdated (dr_ID existing3);
             done_with body1
           })
         }))"

definition DeleteDr :: "string \<Rightarrow> (http + nat) prog" where
  "DeleteDr raw =
     (case Atoi raw of
        None \<Rightarrow> failwith (400, Errf ''invalid id'' [])
      | Some i \<Rightarrow>
          if i \<le> 0 then failwith (400, Errf ''invalid id'' [])
          else onerr (DeleteDeliveryRequest (nat i)) (\<lambda>e. (500, e)) (\<lambda>_. done_with (nat i)))"

definition GetDeliveryRequest :: "string \<Rightarrow> (http + DrAcc) prog" where
  "GetDeliveryRequest raw =
     (case Atoi raw of
        None \<Rightarrow> failwith (400, Errf ''invalid id'' [])
      | Some i \<Rightarrow>
          if i \<le> 0 then failwith (400, Errf ''invalid id'' [])
          else onerr (QueryDrWithAssociations (nat i)) (\<lambda>e. (500, e)) done_with)"

definition HandleDeleteOps :: "nat list \<Rightarrow> nat \<Rightarrow> (http + nat list) prog" where
  "HandleDeleteOps opIds drID =
     onerr (DeleteTenantOps drID opIds) (\<lambda>e. (500, e)) (\<lambda>_. done_with opIds)"

definition HandleInsertOps ::
  "env \<Rightarrow> ArtifactTenantOperation list \<Rightarrow> nat \<Rightarrow> string \<Rightarrow> (http + ArtifactTenantOperation list) prog" where
  "HandleInsertOps env newOps drID user =
     (if drID = 0 then failwith (400, Errf ''missing deliveryRequestID'' [])
      else onerr (InsertTenantOps env drID newOps user) (\<lambda>e. (500, e)) done_with)"

definition HandleUpdateOps ::
  "env \<Rightarrow> OpUpdateItem list \<Rightarrow> nat \<Rightarrow> string \<Rightarrow> (http + ArtifactTenantOperation list) prog" where
  "HandleUpdateOps env items drID user =
     onerr (UpdateTenantOps env drID items user) (\<lambda>e. (500, e)) done_with"

section \<open>Rules for the queries\<close>

lemma dr_lookup_faults [simp]: "dr_lookup (w\<lparr>faults := fs\<rparr>) i = dr_lookup w i"
  by (simp add: dr_lookup_def)

lemma dr_acc_faults [simp]: "dr_acc (w\<lparr>faults := fs\<rparr>) dr = dr_acc w dr"
  by (simp add: dr_acc_def)

lemma dr_lookup_SomeD: "dr_lookup w i = Some dr \<Longrightarrow> dr \<in> set (db_drs w) \<and> dr_ID dr = i"
  by (auto simp: dr_lookup_def dest: find_SomeD)

lemma wp_QueryDr [wp_intro]:
  assumes "\<And>fs e. Q (Inl (Errw ''failed to query delivery request %d: %w'' [Num drID] e)) (w\<lparr>faults := fs\<rparr>)"
    and "\<And>fs dr. \<lbrakk>dr_lookup w drID = Some dr; dr_ID dr = drID\<rbrakk> \<Longrightarrow> Q (Inr (dr_acc w dr)) (w\<lparr>faults := fs\<rparr>)"
  shows "wp (QueryDrWithAssociations drID) Q w"
  unfolding QueryDrWithAssociations_def wp_onerr
  apply (rule wp_load)
  subgoal by (simp split: option.split)
  subgoal using assms(1) by (simp add: wp_return)
  subgoal using assms dr_lookup_SomeD [of w drID] by (cases "dr_lookup w drID") (auto simp: wp_return)
  done

lemma wp_GetRule [wp_intro]:
  assumes "\<And>fs e. Q (Inl e) (w\<lparr>faults := fs\<rparr>)"
    and "\<And>fs r. List.find (\<lambda>r. ru_ID r = i) (db_rules w) = Some r \<Longrightarrow>
           Q (Inr (r, tenants_in w (ru_IncludedTenants r), tenants_in w (ru_ExcludedTenants r)))
             (w\<lparr>faults := fs\<rparr>)"
  shows "wp (GetDeliveryRuleWithAcc i) Q w"
  unfolding GetDeliveryRuleWithAcc_def wp_onerr
  by (rule wp_load) (use assms in \<open>auto simp: wp_return split: option.splits\<close>)

text \<open>Rows keep their identity when ids are assigned.\<close>

lemma assign_ids_rows:
  assumes "\<And>r. setkey (key r) r = r" and "assign_ids key setkey n rows = (n', rows')"
  shows "list_all2 (\<lambda>r r'. \<exists>i. r' = setkey i r) rows rows'"
  using assms(2)
proof (induction rows arbitrary: n n' rows')
  case (Cons r rows)
  show ?case
  proof (cases "key r = 0")
    case True
    with Cons show ?thesis by (auto split: prod.splits)
  next
    case False
    have "\<exists>i. r = setkey i r" using assms(1) [of r] by metis
    with Cons False show ?thesis by (auto split: prod.splits)
  qed
qed simp

section \<open>Deleting operations\<close>

definition op_ids_ok :: "world \<Rightarrow> bool" where
  "op_ids_ok w \<longleftrightarrow> distinct (map op_ID (db_ops w)) \<and> 0 \<notin> op_ID ` set (db_ops w)"

definition deletable :: "ArtifactTenantOperation \<Rightarrow> bool" where
  "deletable op = (op_RequestState op \<in> {RequestPending, RequestTrFailed})"

lemma distinct_filter_key: "distinct (map f xs) \<Longrightarrow> distinct (map f (filter P xs))"
  by (induction xs) auto

lemma key_unique: "\<lbrakk>distinct (map f xs); x \<in> set xs; y \<in> set xs; f x = f y\<rbrakk> \<Longrightarrow> x = y"
  by (auto simp: distinct_map inj_on_def)

definition delete_inv ::
  "ArtifactTenantOperation list \<Rightarrow> nat list \<Rightarrow> (nat \<times> gerr) list \<Rightarrow> ArtifactTenantOperation list \<Rightarrow> bool" where
  "delete_inv os0 seen errOps os \<longleftrightarrow>
     distinct (map op_ID os) \<and> set os \<subseteq> set os0 \<and>
     (\<forall>op\<in>set os0. \<not> deletable op \<or> op_ID op \<notin> set seen \<longrightarrow> op \<in> set os) \<and>
     (errOps = [] \<longrightarrow> (\<forall>op\<in>set os. op_ID op \<notin> set seen))"

lemma delete_inv_error:
  "delete_inv os0 seen errOps os \<Longrightarrow> delete_inv os0 (seen @ [i]) (map_put k e errOps') os"
  by (auto simp: delete_inv_def)

lemma delete_op_step_inv:
  assumes inv: "delete_inv os0 seen errOps (db_ops w)"
  shows "wp (delete_op_step i errOps) (\<lambda>r w'. case r of
           Inl e \<Rightarrow> set (db_ops w') \<subseteq> set os0 \<and>
                    (\<forall>op\<in>set os0. \<not> deletable op \<longrightarrow> op \<in> set (db_ops w'))
         | Inr errOps' \<Rightarrow> delete_inv os0 (seen @ [i]) errOps' (db_ops w')) w"
proof (cases "i = 0")
  case True
  then show ?thesis using inv by (simp add: delete_op_step_def wp_simps delete_inv_def)
next
  case False
  have del: "delete_inv os0 (seen @ [i]) errOps (filter (\<lambda>x. op_ID x \<noteq> i) (db_ops w))"
    if op: "op \<in> set (db_ops w)" "op_ID op = i" "deletable op" for op
  proof -
    have "x = op" if "x \<in> set (db_ops w)" "op_ID x = i" for x
      using key_unique [of op_ID "db_ops w" x op] that op inv by (simp add: delete_inv_def)
    then have keep: "x \<in> set (filter (\<lambda>x. op_ID x \<noteq> i) (db_ops w))"
      if "x \<in> set os0" "\<not> deletable x \<or> op_ID x \<notin> set (seen @ [i])" for x
      using that op(3) inv by (auto simp: delete_inv_def)
    have "\<forall>x\<in>set (db_ops w). op_ID x \<notin> set seen" if "errOps = []"
      using inv that by (simp add: delete_inv_def)
    then show ?thesis
      using inv keep unfolding delete_inv_def by (auto simp: distinct_filter_key)
  qed
  show ?thesis
    unfolding delete_op_step_def wp_if if_not_P [OF False] wp_bind
    apply (rule ops_table.wp_first)
    subgoal by (simp add: wp_simps delete_inv_error [OF inv])
    subgoal by (simp add: wp_simps delete_inv_error [OF inv])
    subgoal premises op for fs op
    proof (cases "deletable op")
      case True
      then show ?thesis
        using delete_inv_error [OF inv] del [OF op(2,3) True]
        by (simp add: wp_simps deletable_def ops_table.wp_delete)
    next
      case False
      then show ?thesis using delete_inv_error [OF inv] by (simp add: wp_simps deletable_def)
    qed
    done
qed

section \<open>Inserting operations\<close>

text \<open>When no operation is rejected, each is checked and initialised in place.\<close>

lemma prepare_ops_ok:
  "prepare_ops env rule inc src drID user i ops = Inr ([], ops') \<Longrightarrow>
   (\<forall>op\<in>set ops. check_new_op env rule inc src op = Inr ()) \<and> ops' = map (init_op drID user) ops"
  by (induction ops arbitrary: i ops')
    (auto simp: Let_def split: sum.splits if_splits prod.splits)

lemma prepare_ops_all_ok:
  "\<forall>op\<in>set ops. check_new_op env rule inc src op = Inr () \<Longrightarrow>
   prepare_ops env rule inc src drID user i ops = Inr ([], map (init_op drID user) ops)"
  by (induction ops arbitrary: i) auto

lemma init_op_sel [simp]:
  "op_DeliveryRequestID (init_op d u op) = d" "op_ImportState (init_op d u op) = ImportNotStarted"
  "op_RequestState (init_op d u op) = RequestPending"
  "op_TenantID (init_op d u op) = op_TenantID op"
  "op_TransportRequestNumber (init_op d u op) = op_TransportRequestNumber op"
  "op_SkipDeploy (init_op d u op) = (\<not> IsDeployable (op_ArtifactType op) \<or> op_SkipDeploy op)"
  "op_DeployState (init_op d u op) =
     (if \<not> IsDeployable (op_ArtifactType op) \<or> op_SkipDeploy op then DeployDisabled else DeployNotStarted)"
  by (simp_all add: init_op_def Let_def)

text \<open>The outcome of an insertion that returned rows.\<close>

definition gen_tr_tasks ::
  "nat \<Rightarrow> CpiTenant \<Rightarrow> ArtifactTenantOperation list \<Rightarrow> task list" where
  "gen_tr_tasks drID src rows =
     (let is = map op_ID (filter (\<lambda>x. op_TenantID x = tn_ID src \<and> op_TransportRequestNumber x = []) rows) in
      if is \<noteq> [] then [TaskGenTR (tn_ID src) drID is] else [])"

definition inserted ::
  "env \<Rightarrow> world \<Rightarrow> nat \<Rightarrow> string \<Rightarrow> ArtifactTenantOperation list \<Rightarrow> ArtifactTenantOperation list \<Rightarrow>
   world \<Rightarrow> bool" where
  "inserted env w drID user new rows w' \<longleftrightarrow>
     (\<exists>dr rule. dr_lookup w drID = Some dr \<and>
        List.find (\<lambda>r. ru_ID r = dr_DeliveryRuleID dr) (db_rules w) = Some rule \<and>
        db_ops w' = db_ops w @ rows \<and>
        (let src = tenant_of w (dr_SourceTenantID dr); inc = tenants_in w (ru_IncludedTenants rule) in
         list_all2 (\<lambda>n r. check_new_op env rule inc src n = Inr () \<and>
                         (\<exists>i. r = (init_op drID user n)\<lparr>op_ID := i\<rparr>)) new rows \<and>
         spawned w' = spawned w @ gen_tr_tasks drID src rows @ git_sync_tasks drID src inc rows))"

lemma dr_acc_sel [simp]:
  "da_dr (dr_acc w dr) = dr" "da_SourceTenant (dr_acc w dr) = tenant_of w (dr_SourceTenantID dr)"
  "da_Ops (dr_acc w dr) = ops_of w (dr_ID dr)" "da_Rule (dr_acc w dr) = rule_of w (dr_DeliveryRuleID dr)"
  by (simp_all add: dr_acc_def Let_def)

lemma created_rows:
  assumes "assign_ids op_ID (\<lambda>n x. x\<lparr>op_ID := n\<rparr>) k (map (init_op drID user) new) = (n, rows)"
    and "\<forall>op\<in>set new. C op"
  shows "list_all2 (\<lambda>n r. C n \<and> (\<exists>i. r = (init_op drID user n)\<lparr>op_ID := i\<rparr>)) new rows"
proof -
  have "list_all2 (\<lambda>r r'. \<exists>i. r' = r\<lparr>op_ID := i\<rparr>) (map (init_op drID user) new) rows"
    using assign_ids_rows [OF _ assms(1)] by simp
  then show ?thesis
    using assms(2) by (auto simp: list_all2_map1 list_all2_conv_all_nth)
qed

lemma InsertTenantOps_wp:
  assumes "new \<noteq> []"
  shows "wp (InsertTenantOps env drID new user) (\<lambda>r w'. case r of
           Inl e \<Rightarrow> db_ops w' = db_ops w \<and> spawned w' = spawned w
         | Inr rows \<Rightarrow> inserted env w drID user new rows w') w"
  unfolding InsertTenantOps_def if_not_P [OF assms] wp_onerr
  apply (rule wp_QueryDr)
  subgoal by simp
  subgoal premises dr for fs dr
    apply (simp add: wp_onerr Let_def)
    apply (rule wp_GetRule)
    subgoal by simp
    subgoal premises rule for fs' rule
    proof -
      let ?p = "prepare_ops env rule (tenants_in w (ru_IncludedTenants rule))
                  (tenant_of w (dr_SourceTenantID dr)) drID user 0 new"
      show ?thesis
      proof (cases "\<exists>ops'. ?p = Inr ([], ops')")
        case False
        then show ?thesis by (cases ?p) (auto simp: wp_return)
      next
        case True
        then obtain ops' where p: "?p = Inr ([], ops')" by blast
        note ok = prepare_ops_ok [OF p]
        from dr rule ok show ?thesis
          apply (simp add: p wp_onerr Let_def)
          apply (rule ops_table.wp_create)
          subgoal by simp
          subgoal
            by (auto simp: wp_simps inserted_def Let_def gen_tr_tasks_def intro: created_rows)
          done
      qed
    qed
    done
  done

lemma check_new_op_ok_iff:
  "check_new_op env rule inc src op = Inr () \<longleftrightarrow>
     DeliveryRuleCheck env op rule inc = Inr () \<and>
     (op_TransportRequestNumber op \<noteq> [] \<longrightarrow> tr_valid env op src)"
  using TrExist_valid [of env op src]
  by (auto simp: check_new_op_def split: sum.splits)

section \<open>Updating operations\<close>

text \<open>What an update may do to a row: nothing, or, to a pending row, new audit, transport request
  and deploy settings. The artifact's identity and the phase states stay.\<close>

definition op_edit :: "ArtifactTenantOperation \<Rightarrow> ArtifactTenantOperation \<Rightarrow> bool" where
  "op_edit x y \<longleftrightarrow>
     x = y \<or>
     op_RequestState x = RequestPending \<and>
     y = x\<lparr>op_UpdatedBy := op_UpdatedBy y, op_TransportRequestNumber := op_TransportRequestNumber y,
           op_SkipDeploy := op_SkipDeploy y, op_DeployState := op_DeployState y\<rparr> \<and>
     op_DeployState y = (if op_SkipDeploy y then DeployDisabled else DeployNotStarted)"

lemma op_edit_refl [simp]: "op_edit x x"
  by (simp add: op_edit_def)

lemma op_edit_ID: "op_edit x y \<Longrightarrow> op_ID y = op_ID x \<and> op_RequestState y = op_RequestState x"
  by (cases x; cases y) (auto simp: op_edit_def)

lemma op_edit_trans: "\<lbrakk>op_edit x y; op_edit y z\<rbrakk> \<Longrightarrow> op_edit x z"
  by (cases x; cases y; cases z) (auto simp: op_edit_def)

text \<open>Every row is edited in place, no row comes or goes.\<close>

definition ops_edited :: "world \<Rightarrow> world \<Rightarrow> bool" where
  "ops_edited w w' = list_all2 op_edit (db_ops w) (db_ops w')"

lemma ops_edited_refl [simp]: "ops_edited w w"
  by (simp add: ops_edited_def list_all2_refl)

lemma ops_edited_trans: "\<lbrakk>ops_edited u v; ops_edited v w\<rbrakk> \<Longrightarrow> ops_edited u w"
  unfolding ops_edited_def by (rule list_all2_trans [of op_edit op_edit op_edit]) (rule op_edit_trans)

lemma ops_edited_ids: "ops_edited w w' \<Longrightarrow> map op_ID (db_ops w') = map op_ID (db_ops w)"
  unfolding ops_edited_def
  by (auto simp: list_all2_conv_all_nth list_eq_iff_nth_eq dest: op_edit_ID)

lemma ops_edited_ids_ok: "\<lbrakk>ops_edited w w'; op_ids_ok w\<rbrakk> \<Longrightarrow> op_ids_ok w'"
  by (metis image_set op_ids_ok_def ops_edited_ids)

interpretation ops_edited: kept_relation ops_edited
  by unfold_locales (simp, erule (1) ops_edited_trans, simp add: ops_edited_def list_all2_refl)

lemma wp_save_op:
  assumes "op_ID op \<noteq> 0" and "\<exists>x\<in>set (db_ops w). op_ID x = op_ID op"
    and "\<And>fs. Q (Inl DbErr) (w\<lparr>faults := fs\<rparr>)"
    and "\<And>fs. Q (Inr op) (db_ops_update (upd_where (\<lambda>x. op_ID x = op_ID op) (\<lambda>_. op)) (w\<lparr>faults := fs\<rparr>))"
  shows "wp (save_op op) Q w"
  unfolding save_op_def db_save_def if_not_P [OF assms(1)]
  by (rule wp_stmt) (use assms in auto)

lemma upd_where_edit:
  assumes "distinct (map op_ID xs)" and "x \<in> set xs" and "op_edit x y" and "op_ID y = op_ID x"
  shows "list_all2 op_edit xs (upd_where (\<lambda>z. op_ID z = op_ID y) (\<lambda>_. y) xs)"
proof -
  have "op_edit z (if op_ID z = op_ID y then y else z)" if "z \<in> set xs" for z
    using key_unique [OF assms(1) that assms(2)] assms(3,4) by auto
  then show ?thesis
    by (simp add: upd_where_def list_all2_map2 list_all2_same)
qed

lemma update_op_step_edits:
  assumes "op_ids_ok w"
  shows "wp (update_op_step env src user item s) (\<lambda>r w'. ops_edited w w') w"
proof -
  obtain errOps result where s: "s = (errOps, result)" by fastforce
  show ?thesis
    unfolding update_op_step_def s prod.case wp_bind
    apply (rule ops_table.wp_first)
    subgoal by (simp add: wp_simps ops_edited.R_faults)
    subgoal by (simp add: wp_simps ops_edited.R_faults)
    subgoal premises op for fs op
    proof (cases "op_RequestState op \<noteq> RequestPending")
      case True
      then show ?thesis by (simp add: wp_simps ops_edited.R_faults)
    next
      case False
      define y where "y = op\<lparr>op_UpdatedBy := user,
          op_TransportRequestNumber := oi_TransportRequestNumber item,
          op_SkipDeploy := oi_SkipDeploy item,
          op_DeployState := (if oi_SkipDeploy item then DeployDisabled else DeployNotStarted)\<rparr>"
      have y: "op_edit op y" "op_ID y = op_ID op" "op_ID y \<noteq> 0"
        using False op(2) assms by (auto simp: y_def op_edit_def op_ids_ok_def image_iff)
      have saved: "wp (save_op y) (\<lambda>x. wp (case x of
             Inl e \<Rightarrow> done_with (f e) | Inr z \<Rightarrow> done_with (g z)) (\<lambda>r w'. ops_edited w w'))
           (w\<lparr>faults := fs\<rparr>)" for f :: "gerr \<Rightarrow> (nat \<times> gerr) list \<times> ArtifactTenantOperation list" and g
        apply (rule wp_save_op)
        subgoal by (rule y)
        subgoal using op y by auto
        subgoal by (simp add: wp_simps ops_edited.R_faults)
        subgoal
          using upd_where_edit [OF _ op(2) y(1,2)] assms
          by (simp add: wp_simps ops_edited_def op_ids_ok_def)
        done
      let ?chk = "if op_TransportRequestNumber op \<noteq> oi_TransportRequestNumber item \<and>
                     oi_TransportRequestNumber item \<noteq> [] then
            TrExist env (op\<lparr>op_TransportRequestNumber := oi_TransportRequestNumber item\<rparr>) src
          else Inr True"
      show ?thesis
      proof (cases ?chk)
        case (Inl e)
        show ?thesis
          unfolding sum.case if_not_P [OF False] Inl by (simp add: wp_simps ops_edited.R_faults)
      next
        case (Inr b)
        show ?thesis
          unfolding sum.case if_not_P [OF False] Inr Let_def wp_bind y_def [symmetric]
          by (rule saved)
      qed
    qed
    done
qed

lemma UpdateTenantOps_edits:
  assumes "op_ids_ok w"
  shows "wp (UpdateTenantOps env drID items user) (\<lambda>r w'. ops_edited w w') w"
proof (cases "items = []")
  case False
  show ?thesis
    unfolding UpdateTenantOps_def if_not_P [OF False] wp_onerr
    apply (rule wp_QueryDr)
    subgoal by (simp add: ops_edited.R_faults)
    subgoal premises dr for fs dr
      apply (simp add: wp_onerr)
      apply (rule wp_loopE [where I = "\<lambda>_ _ w'. ops_edited w w'"])
      subgoal by (simp add: ops_edited.R_faults)
      subgoal premises p for x seen s w1
      proof -
        have k: "ops_edited w w1" using p by simp
        from update_op_step_edits [OF ops_edited_ids_ok [OF k assms]] show ?thesis
          by (rule wp_mono) (simp add: ops_edited_trans [OF k] split: sum.split)
      qed
      subgoal for s w1
        by (cases s) (simp add: wp_simps ops_edited_def)
      done
    done
qed (simp add: UpdateTenantOps_def wp_return)

section \<open>A small landscape\<close>

text \<open>Two tenants on one route, a rule over both that requires a Jira link, a pending request; the
  concrete world of the examples.\<close>

definition demo_dev :: CpiTenant where
  "demo_dev = zero_tenant\<lparr>tn_ID := 1, tn_Name := ''DEV'', tn_TmsSourceNodeName := ''DEV'',
     tn_TmsSourceNodeID := 11, tn_PirApiDestinationName := ''PIR1'',
     tn_LifecycleState := TenantReady, tn_TmsNodeRegistrationStatus := PrereqReady\<rparr>"

definition demo_qa :: CpiTenant where
  "demo_qa = zero_tenant\<lparr>tn_ID := 2, tn_Name := ''QA'', tn_TmsSourceNodeName := ''QA'',
     tn_TmsSourceNodeID := 12, tn_PirApiDestinationName := ''PIR2''\<rparr>"

definition demo_rule :: DeliveryRule where
  "demo_rule = zero_rule\<lparr>ru_ID := 3, ru_Name := ''to QA'', ru_IncludedTenants := [1, 2],
     ru_SourceTenantID := 1, ru_RequireJira := True,
     ru_TargetNodes := [zero_node\<lparr>nd_ID := 11\<rparr>, zero_node\<lparr>nd_ID := 12\<rparr>]\<rparr>"

definition demo_dr :: DeliveryRequest where
  "demo_dr = zero_request\<lparr>dr_ID := 5, dr_Name := ''release'', dr_AggregateStatus := AggPending,
     dr_SourceTenantID := 1, dr_DeliveryRuleID := 3, dr_CreatedBy := ''ann''\<rparr>"

definition demo_op :: ArtifactTenantOperation where
  "demo_op = zero_op\<lparr>op_ID := 7, op_DeliveryRequestID := 5, op_ArtifactTechID := ''flow'',
     op_ArtifactVersion := ''1.0.2'', op_ArtifactName := ''Flow'', op_ArtifactType := ''Integration Flow'',
     op_PackageID := ''pkg'', op_TenantID := 1, op_TransportRequestNumber := ''42'',
     op_RequestState := RequestPending, op_ImportState := ImportNotStarted,
     op_DeployState := DeployNotStarted\<rparr>"

definition demo_world :: world where
  "demo_world = empty_world\<lparr>next_id := 100, db_tenants := [demo_dev, demo_qa],
     db_rules := [demo_rule], db_drs := [demo_dr], db_ops := [demo_op]\<rparr>"

text \<open>Services of that landscape: transport request 42 is released in DEV and contains the flow.\<close>

definition demo_tr :: "string \<Rightarrow> TransportRequestV1" where
  "demo_tr status =
    \<lparr>trv_ID = 42, trv_State = ''RELEASED'', trv_Origin = ''DEV'',
     trv_Content = [[\<lparr>md_Name = ''Flow'', md_Type = ''Integration Flow'', md_Version = ''1.0.2''\<rparr>]],
     trv_Nodes = [\<lparr>ln_ID = 12, ln_Name = ''QA'',
                   ln_State = Some \<lparr>ns_ID = 1, ns_Time = 0, ns_Status = status\<rparr>\<rparr>]\<rparr>"

definition demo_env :: env where
  "demo_env = quiet_env\<lparr>GetTransportRequest := (\<lambda>_. Inr (demo_tr ''INITIAL''))\<rparr>"

definition demo_new_op :: ArtifactTenantOperation where
  "demo_new_op = zero_op\<lparr>op_ArtifactTechID := ''types'', op_ArtifactVersion := ''2.0.0'',
     op_ArtifactName := ''Types'', op_ArtifactType := ''Data Type'', op_PackageID := ''pkg'', op_TenantID := 1\<rparr>"

section \<open>Properties\<close>

text \<open>C1: when operations are inserted, the request and its rule exist, every given operation
  passed the rule check and, if it names a transport request, the check of that request; the new
  rows are appended in order, pending, not imported, and not to be deployed exactly when the caller
  asked so or the artifact type cannot be deployed.\<close>

theorem InsertTenantOps_rows:
  assumes "new \<noteq> []" and "run_state (InsertTenantOps env drID new user) w = (Inr rows, w')"
  shows "\<exists>dr rule. dr_lookup w drID = Some dr \<and>
     List.find (\<lambda>r. ru_ID r = dr_DeliveryRuleID dr) (db_rules w) = Some rule \<and>
     db_ops w' = db_ops w @ rows \<and>
     list_all2 (\<lambda>n r.
       DeliveryRuleCheck env n rule (tenants_in w (ru_IncludedTenants rule)) = Inr () \<and>
       (op_TransportRequestNumber n \<noteq> [] \<longrightarrow> tr_valid env n (tenant_of w (dr_SourceTenantID dr))) \<and>
       op_DeliveryRequestID r = drID \<and> op_RequestState r = RequestPending \<and>
       op_ImportState r = ImportNotStarted \<and> op_ArtifactTechID r = op_ArtifactTechID n \<and>
       op_SkipDeploy r = (op_SkipDeploy n \<or> \<not> IsDeployable (op_ArtifactType n)) \<and>
       op_DeployState r = (if op_SkipDeploy r then DeployDisabled else DeployNotStarted)) new rows"
proof -
  have "inserted env w drID user new rows w'"
    using wp_run [OF InsertTenantOps_wp [OF assms(1)] assms(2)] by simp
  then obtain dr rule where *: "dr_lookup w drID = Some dr"
      "List.find (\<lambda>r. ru_ID r = dr_DeliveryRuleID dr) (db_rules w) = Some rule"
      "db_ops w' = db_ops w @ rows"
      "list_all2 (\<lambda>n r. check_new_op env rule (tenants_in w (ru_IncludedTenants rule))
            (tenant_of w (dr_SourceTenantID dr)) n = Inr () \<and>
          (\<exists>i. r = (init_op drID user n)\<lparr>op_ID := i\<rparr>)) new rows"
    unfolding inserted_def Let_def by blast
  have "list_all2 (\<lambda>n r.
       DeliveryRuleCheck env n rule (tenants_in w (ru_IncludedTenants rule)) = Inr () \<and>
       (op_TransportRequestNumber n \<noteq> [] \<longrightarrow> tr_valid env n (tenant_of w (dr_SourceTenantID dr))) \<and>
       op_DeliveryRequestID r = drID \<and> op_RequestState r = RequestPending \<and>
       op_ImportState r = ImportNotStarted \<and> op_ArtifactTechID r = op_ArtifactTechID n \<and>
       op_SkipDeploy r = (op_SkipDeploy n \<or> \<not> IsDeployable (op_ArtifactType n)) \<and>
       op_DeployState r = (if op_SkipDeploy r then DeployDisabled else DeployNotStarted)) new rows"
    by (rule list_all2_mono [OF *(4)]) (auto simp: check_new_op_ok_iff init_op_def Let_def)
  with *(1-3) show ?thesis by blast
qed

theorem InsertTenantOps_rows_witness:
  "\<exists>rows. db_ops (snd (run_state (InsertTenantOps demo_env 5 [demo_new_op] ''ann'') demo_world)) =
     db_ops demo_world @ rows"
proof -
  have "\<not> isl (fst (run_state (InsertTenantOps demo_env 5 [demo_new_op] ''ann'') demo_world))"
    by code_simp
  from InsertTenantOps_rows [OF _ run_ok [OF this]] show ?thesis by blast
qed

text \<open>An insertion that is rejected, whether by a check of one operation or by the database,
  leaves the operations as they were and starts no goroutine.\<close>

theorem InsertTenantOps_atomic:
  assumes "run_state (InsertTenantOps env drID new user) w = (Inl e, w')"
  shows "db_ops w' = db_ops w \<and> spawned w' = spawned w"
proof (cases "new = []")
  case True
  then show ?thesis using assms by (simp add: InsertTenantOps_def)
next
  case False
  then show ?thesis using wp_run [OF InsertTenantOps_wp [OF False] assms] by simp
qed

theorem InsertTenantOps_atomic_witness:
  "db_ops (snd (run_state (InsertTenantOps demo_env 5 [demo_new_op, demo_new_op\<lparr>op_ArtifactVersion := ''Active''\<rparr>]
     ''ann'') demo_world)) = db_ops demo_world"
proof -
  have "isl (fst (run_state (InsertTenantOps demo_env 5
      [demo_new_op, demo_new_op\<lparr>op_ArtifactVersion := ''Active''\<rparr>] ''ann'') demo_world))"
    by code_simp
  from InsertTenantOps_atomic [OF run_err [OF this]] show ?thesis by blast
qed

text \<open>Deleting operations never removes one whose transport request exists or is being
  generated, adds none, and on success removes every operation that was named.\<close>

theorem DeleteTenantOps_safe:
  assumes "op_ids_ok w" and "run_state (DeleteTenantOps drID is) w = (r, w')"
  shows "set (db_ops w') \<subseteq> set (db_ops w) \<and>
    (\<forall>op\<in>set (db_ops w). op_RequestState op \<notin> {RequestPending, RequestTrFailed} \<longrightarrow> op \<in> set (db_ops w')) \<and>
    (r = Inr () \<longrightarrow> (\<forall>op\<in>set (db_ops w'). op_ID op \<notin> set is))"
proof (cases "is = []")
  case True
  then show ?thesis using assms by (simp add: DeleteTenantOps_def)
next
  case False
  have "wp (DeleteTenantOps drID is) (\<lambda>r w'. set (db_ops w') \<subseteq> set (db_ops w) \<and>
      (\<forall>op\<in>set (db_ops w). \<not> deletable op \<longrightarrow> op \<in> set (db_ops w')) \<and>
      (r = Inr () \<longrightarrow> (\<forall>op\<in>set (db_ops w'). op_ID op \<notin> set is))) w"
    unfolding DeleteTenantOps_def if_not_P [OF False] wp_onerr
    apply (rule wp_loopE [where I = "\<lambda>seen errOps w'. delete_inv (db_ops w) seen errOps (db_ops w')"])
    subgoal using assms(1) by (simp add: delete_inv_def op_ids_ok_def)
    subgoal by (rule wp_mono [OF delete_op_step_inv]) (auto split: sum.splits)
    subgoal for errOps w1 by (cases "errOps = []") (auto simp: wp_simps delete_inv_def)
    done
  from wp_run [OF this assms(2)] show ?thesis by (simp add: deletable_def)
qed

theorem DeleteTenantOps_safe_witness:
  "set (db_ops (snd (run_state (DeleteTenantOps 5 [7]) demo_world))) \<subseteq> set (db_ops demo_world)"
proof -
  have "op_ids_ok demo_world" by code_simp
  from DeleteTenantOps_safe [OF this run_split] show ?thesis by blast
qed

text \<open>Updating operations edits rows in place: none is added or removed, a row whose request
  state is not pending is untouched, and a pending row changes at most its auditing user, its
  transport request number and its deploy settings, which stay consistent with each other.\<close>

theorem UpdateTenantOps_in_place:
  assumes "op_ids_ok w" and "run_state (UpdateTenantOps env drID items user) w = (r, w')"
  shows "list_all2 (\<lambda>x y. x = y \<or>
      op_RequestState x = RequestPending \<and>
      y = x\<lparr>op_UpdatedBy := op_UpdatedBy y, op_TransportRequestNumber := op_TransportRequestNumber y,
            op_SkipDeploy := op_SkipDeploy y, op_DeployState := op_DeployState y\<rparr> \<and>
      op_DeployState y = (if op_SkipDeploy y then DeployDisabled else DeployNotStarted))
    (db_ops w) (db_ops w')"
  using wp_run [OF UpdateTenantOps_edits [OF assms(1)] assms(2)]
  by (simp add: ops_edited_def op_edit_def [abs_def])

theorem UpdateTenantOps_in_place_witness:
  "length (db_ops (snd (run_state (UpdateTenantOps demo_env 5
     [\<lparr>oi_ID = 7, oi_TransportRequestNumber = ''42'', oi_SkipDeploy = True\<rparr>] ''ann'') demo_world))) = 1"
proof -
  have "op_ids_ok demo_world" by code_simp
  from list_all2_lengthD [OF UpdateTenantOps_in_place [OF this run_split]]
  show ?thesis by (simp add: demo_world_def)
qed

text \<open>CreateDr checks the Jira requirement of the delivery rule that the client sent, not of the
  stored rule: naming a stored rule that requires a Jira link, with the flag left out of the body,
  creates a request without a link; and an approver sent in the body is stored with the new
  pending request.\<close>

theorem CreateDr_trusts_body:
  assumes "faults w = []" and "List.find (\<lambda>r. ru_ID r = i) (db_rules w) = Some rule" and "i \<noteq> 0"
    and "dr_Name body \<noteq> []" and "dr_JiraLink body = []" and "dr_ID body = 0"
    and "next_id w \<notin> dr_ID ` set (db_drs w)" and "(Drs, next_id w) \<notin> set (dead w)"
  shows "fst (run_state (CreateDr body (zero_rule\<lparr>ru_ID := i\<rparr>) user) w) =
    Inr (body\<lparr>dr_ID := next_id w, dr_SourceTenantID := ru_SourceTenantID rule,
      dr_DeliveryRuleID := ru_ID rule, dr_AggregateStatus := AggPending, dr_CreatedBy := user,
      dr_UpdatedBy := user\<rparr>)"
  using assms
  by (simp add: CreateDr_def checkJIRA_def zero_rule_def GetDeliveryRuleWithAcc_def onerr_def
      State_Monad.bind_def db_load_def run_stmt CreateDeliveryRequest_def db_create_def)

theorem CreateDr_trusts_body_witness:
  "\<exists>dr. fst (run_state (CreateDr (zero_request\<lparr>dr_Name := ''x'', dr_ApprovedBy := ''eve''\<rparr>)
     (zero_rule\<lparr>ru_ID := 3\<rparr>) ''eve'') demo_world) = Inr dr \<and> dr_ApprovedBy dr = ''eve''"
  using CreateDr_trusts_body [of demo_world 3 demo_rule "zero_request\<lparr>dr_Name := ''x'', dr_ApprovedBy := ''eve''\<rparr>" "''eve''"]
  by (simp add: demo_world_def empty_world_def demo_rule_def zero_request_def demo_dr_def)

end
