(* ===== verification/Status.thy ===== *)
theory Status
  imports Requests
begin

text \<open>
  What the delivery services share (service/sync_status.go, service/sync_tracker.go): the snapshot
  used to detect changes, the recomputation of a request's rolled-up status, Jira comments, and the
  start of a request's sync goroutine.
\<close>

section \<open>Snapshots\<close>

text \<open>The serialized key is the list of id, import and deploy state of the operations in id order.\<close>

record drSnapshot =
  sn_Exists :: bool
  sn_Status :: AggregateStatus
  sn_OpsKey :: "(nat \<times> ImportState \<times> DeployState) list"

definition captureDrSnapshot :: "nat \<Rightarrow> drSnapshot prog" where
  "captureDrSnapshot drID = do {
     r \<leftarrow> db_first db_drs (\<lambda>d. dr_ID d = drID);
     case r of
       Inl _ \<Rightarrow> State_Monad.return \<lparr>sn_Exists = False, sn_Status = AggUnset, sn_OpsKey = []\<rparr>
     | Inr dr \<Rightarrow> do {
         o1 \<leftarrow> db_query (\<lambda>w. sort_key op_ID (ops_of w drID));
         let os = (case o1 of Inl _ \<Rightarrow> [] | Inr os \<Rightarrow> os);
         State_Monad.return \<lparr>sn_Exists = True, sn_Status = dr_AggregateStatus dr,
           sn_OpsKey = map (\<lambda>op. (op_ID op, op_ImportState op, op_DeployState op)) os\<rparr>
       }
   }"

section \<open>The rolled-up status of a request\<close>

definition target_ops :: "nat \<Rightarrow> ArtifactTenantOperation list \<Rightarrow> ArtifactTenantOperation list" where
  "target_ops sourceTenantID os = filter (\<lambda>op. op_TenantID op \<noteq> sourceTenantID) os"

definition derived_status :: "DeliveryRequest \<Rightarrow> ArtifactTenantOperation list \<Rightarrow> AggregateStatus" where
  "derived_status dr os =
     (let ts = target_ops (dr_SourceTenantID dr) os in
      DeriveAggregateStatus (dr_AggregateStatus dr) (map op_ImportState ts) (map op_DeployState ts))"

definition set_status :: "nat \<Rightarrow> AggregateStatus \<Rightarrow> (gerr + unit) prog" where
  "set_status drID st = db_update db_drs_update (\<lambda>d. dr_ID d = drID) (\<lambda>d. d\<lparr>dr_AggregateStatus := st\<rparr>)"

definition DetermineOverallStatus :: "nat \<Rightarrow> (gerr + unit) prog" where
  "DetermineOverallStatus drID =
     onerr (QueryDrWithAssociations drID)
       (\<lambda>e. Errf ''failed to query delivery request %d: %s'' [Num drID, Verb e]) (\<lambda>dr.
     let newAggStatus = derived_status (da_dr dr) (da_Ops dr) in
     if newAggStatus \<noteq> dr_AggregateStatus (da_dr dr) then
       onerr (set_status (dr_ID (da_dr dr)) newAggStatus)
         (\<lambda>e. Errf ''failed to update delivery request %d aggregate status: %s'' [Num drID, Verb e])
         done_with
     else done_with ())"

section \<open>Jira comments\<close>

text \<open>The first match of /browse/ followed by upper-case letters, a hyphen and digits, as the leftmost
  longest search finds it; the group is the key.\<close>

definition key_prefix :: "string \<Rightarrow> string option" where
  "key_prefix s =
     (let p = takeWhile is_upper s; r = dropWhile is_upper s in
      if p \<noteq> [] \<and> r \<noteq> [] \<and> hd r = CHR ''-'' \<and> takeWhile is_digit (tl r) \<noteq> []
      then Some (p @ [CHR ''-''] @ takeWhile is_digit (tl r)) else None)"

fun extractJiraIssueKey :: "string \<Rightarrow> string" where
  "extractJiraIssueKey [] = []"
| "extractJiraIssueKey (c # s) =
     (case (if HasPrefix (c # s) ''/browse/'' then key_prefix (drop 8 (c # s)) else None) of
        Some k \<Rightarrow> k
      | None \<Rightarrow> extractJiraIssueKey s)"

definition PostJiraComment :: "string \<Rightarrow> nat \<Rightarrow> message \<Rightarrow> string \<Rightarrow> unit prog" where
  "PostJiraComment jiraLink drID msg status =
     (if jiraLink = '''' then State_Monad.return ()
      else (let issueKey = extractJiraIssueKey jiraLink in
            if issueKey = '''' then State_Monad.return ()
            else spawn (TaskJira issueKey drID msg status)))"

section \<open>Starting the sync of a request\<close>

definition StartDRSync :: "nat \<Rightarrow> unit prog" where
  "StartDRSync drID = do {
     t \<leftarrow> gets tracker;
     case t of
       None \<Rightarrow> State_Monad.return ()
     | Some running \<Rightarrow>
         (case TryStart drID running of
            (started, running') \<Rightarrow>
              if \<not> started then State_Monad.return ()
              else do {
                _ \<leftarrow> modify (\<lambda>w. w\<lparr>tracker := Some running'\<rparr>);
                spawn (TaskRunSync drID)
              })
   }"

text \<open>The request a sync goroutine is for.\<close>

fun sync_task :: "task \<Rightarrow> nat option" where
  "sync_task (TaskRunSync drID) = Some drID"
| "sync_task (TaskSyncTick drID) = Some drID"
| "sync_task (TaskSyncExit drID) = Some drID"
| "sync_task _ = None"

text \<open>The other goroutines, less those that collect a version comparison or bootstrap a tenant.\<close>

fun plain_task :: "task \<Rightarrow> bool" where
  "plain_task (TaskCollect rule source included) = False"
| "plain_task (TaskBootstrap tenant jobID cfToken result) = False"
| "plain_task t = (sync_task t = None)"

lemma plain_sync [simp]: "plain_task t \<Longrightarrow> sync_task t = None"
  by (cases t) auto

definition active_op :: "ArtifactTenantOperation \<Rightarrow> bool" where
  "active_op op = (op_ImportState op = ImportInProgress \<or> op_DeployState op = DeployInProgress)"

definition hasActiveOps :: "nat \<Rightarrow> bool prog" where
  "hasActiveOps drID = do {
     r \<leftarrow> db_query (\<lambda>w. length (filter active_op (ops_of w drID)));
     State_Monad.return (case r of Inl _ \<Rightarrow> True | Inr n \<Rightarrow> n > 0)
   }"

definition tracked_ids :: "world \<Rightarrow> nat list" where
  "tracked_ids w =
     remdups (map op_DeliveryRequestID (filter (\<lambda>op. active_op op \<and>
       op_DeliveryRequestID op \<in> dr_ID ` set (db_drs w)) (db_ops w)))"

definition RecoverActiveSyncs :: "unit prog" where
  "RecoverActiveSyncs = do {
     r \<leftarrow> db_query tracked_ids;
     case r of
       Inl _ \<Rightarrow> State_Monad.return ()
     | Inr drIDs \<Rightarrow> loop (\<lambda>drID _. StartDRSync drID) drIDs ()
   }"

section \<open>Preservation of the requests\<close>

text \<open>Two relations used throughout: the request table is untouched, and a request that is
  canceled or deleted stays so: no live row of its id appears.\<close>

definition same_drs :: "world \<Rightarrow> world \<Rightarrow> bool" where
  "same_drs w w' = (db_drs w' = db_drs w \<and> (\<forall>i. (Drs, i) \<in> set (dead w') \<longleftrightarrow> (Drs, i) \<in> set (dead w)))"

definition live_in :: "world \<Rightarrow> nat \<Rightarrow> bool" where
  "live_in w i = (\<exists>d\<in>set (db_drs w). dr_ID d = i \<and> dr_AggregateStatus d \<noteq> AggCanceled)"

definition closed_in :: "world \<Rightarrow> nat \<Rightarrow> bool" where
  "closed_in w i = (\<not> live_in w i \<and> (i \<in> dr_ID ` set (db_drs w) \<or> (Drs, i) \<in> set (dead w)))"

definition closed_kept :: "world \<Rightarrow> world \<Rightarrow> bool" where
  "closed_kept w w' = (\<forall>i. closed_in w i \<longrightarrow> closed_in w' i)"

interpretation same_drs: kept_relation same_drs
  by unfold_locales (simp_all add: same_drs_def)

lemma closed_in_faults [simp]: "closed_in (w\<lparr>faults := fs\<rparr>) i = closed_in w i"
  by (simp add: closed_in_def live_in_def)

interpretation closed: kept_relation closed_kept
  by unfold_locales (simp_all add: closed_kept_def)

lemma same_drs_closed_kept: "same_drs w w' \<Longrightarrow> closed_kept w w'"
  by (auto simp: same_drs_def closed_kept_def closed_in_def live_in_def)

lemma same_drs_io: "state_io_rel same_drs m \<Longrightarrow> state_io_rel closed_kept m"
  by (auto simp: state_io_rel_def same_drs_closed_kept)

lemma same_notify [pres_intro]: "state_io_rel same_drs (NotifyDrUpdated d)"
  unfolding NotifyDrUpdated_def by (intro pres_intro) (simp add: same_drs_def)

lemma same_spawn [pres_intro]: "state_io_rel same_drs (spawn t)"
  unfolding spawn_def by (intro pres_intro) (simp add: same_drs_def)

lemma same_conditions [pres_intro]: "state_io_rel same_drs (BatchInsertConditions cs)"
  unfolding BatchInsertConditions_def create_conditions_def
  by (intro pres_intro) (simp_all add: same_drs_def)

lemma same_query [pres_intro]:
  "state_io_rel same_drs (QueryDrWithAssociations d)" "state_io_rel same_drs (GetDeliveryRuleWithAcc i)"
  "state_io_rel same_drs (queryTenantByNodeID n)" "state_io_rel same_drs (queryOpsInDrWithAcc d)"
  unfolding QueryDrWithAssociations_def GetDeliveryRuleWithAcc_def queryTenantByNodeID_def
    queryOpsInDrWithAcc_def
  by (intro pres_intro; simp)+

lemma same_snapshot [pres_intro]: "state_io_rel same_drs (captureDrSnapshot d)"
  unfolding captureDrSnapshot_def Let_def by (intro pres_intro)

lemma same_jira [pres_intro]: "state_io_rel same_drs (PostJiraComment l d m st)"
  unfolding PostJiraComment_def Let_def by (intro pres_intro)

lemma same_start [pres_intro]: "state_io_rel same_drs (StartDRSync d)"
  unfolding StartDRSync_def by (intro pres_intro) (simp add: same_drs_def)

lemma same_active [pres_intro]: "state_io_rel same_drs (hasActiveOps d)"
  unfolding hasActiveOps_def by (intro pres_intro)

lemma same_recover [pres_intro]: "state_io_rel same_drs RecoverActiveSyncs"
  unfolding RecoverActiveSyncs_def by (intro pres_intro)

lemma same_save_op [pres_intro]: "state_io_rel same_drs (save_op x)"
  unfolding save_op_def by (intro pres_intro) (simp_all add: same_drs_def)

lemma same_insert [pres_intro]: "state_io_rel same_drs (InsertTenantOps env d new u)"
  unfolding InsertTenantOps_def Let_def by (intro pres_intro) (simp_all add: same_drs_def)

lemma same_update [pres_intro]: "state_io_rel same_drs (UpdateTenantOps env d is u)"
  unfolding UpdateTenantOps_def update_op_step_def Let_def by (intro pres_intro)

lemma same_delete [pres_intro]: "state_io_rel same_drs (DeleteTenantOps d is)"
  unfolding DeleteTenantOps_def delete_op_step_def Let_def
  by (intro pres_intro) (auto simp: same_drs_def)

section \<open>Closed requests and the rolled-up status\<close>

lemma closed_kept_ids:
  assumes "dr_ID ` set (db_drs w') = dr_ID ` set (db_drs w)" and "dead w' = dead w"
    and "\<And>i. live_in w' i \<Longrightarrow> live_in w i"
  shows "closed_kept w w'"
  using assms by (auto simp: closed_kept_def closed_in_def)

lemma closed_kept_update:
  assumes "live_in w i" and "\<And>d. dr_ID (f d) = dr_ID d"
  shows "closed_kept w (db_drs_update (upd_where (\<lambda>d. dr_ID d = i) f) w)"
proof (rule closed_kept_ids)
  show "live_in w j" if "live_in (db_drs_update (upd_where (\<lambda>d. dr_ID d = i) f) w) j" for j
  proof (cases "j = i")
    case False
    then show ?thesis using that assms(2) by (auto simp: live_in_def set_upd_where split: if_splits)
  qed (simp add: assms(1))
qed (simp_all add: upd_where_keys assms(2))

lemma closed_kept_cancel:
  assumes "\<And>d. dr_ID (f d) = dr_ID d" and "\<And>d. dr_AggregateStatus (f d) = AggCanceled"
  shows "closed_kept w (db_drs_update (upd_where P f) w)"
proof (rule closed_kept_ids)
  show "live_in w j" if "live_in (db_drs_update (upd_where P f) w) j" for j
    using that assms(2) by (auto simp: live_in_def set_upd_where split: if_splits)
qed (simp_all add: upd_where_keys assms(1))

lemma live_inI: "\<lbrakk>dr_lookup w i = Some dr; dr_AggregateStatus dr \<noteq> AggCanceled\<rbrakk> \<Longrightarrow> live_in w i"
  using dr_lookup_SomeD by (fastforce simp: live_in_def)

lemma derived_status_canceled [simp]:
  "dr_AggregateStatus dr = AggCanceled \<Longrightarrow> derived_status dr os = AggCanceled"
  by (simp add: derived_status_def Let_def)

text \<open>The recomputation writes at most the status of that request, and the value it writes is the
  one derived from the request's operations.\<close>

lemma DetermineOverallStatus_wp:
  assumes "\<And>fs r. Q r (w\<lparr>faults := fs\<rparr>)"
    and "\<And>fs r dr. \<lbrakk>dr_lookup w drID = Some dr; dr_AggregateStatus dr \<noteq> AggCanceled\<rbrakk> \<Longrightarrow>
           Q r (db_drs_update (upd_where (\<lambda>d. dr_ID d = drID)
                  (\<lambda>d. d\<lparr>dr_AggregateStatus := derived_status dr (ops_of w drID)\<rparr>)) w\<lparr>faults := fs\<rparr>)"
  shows "wp (DetermineOverallStatus drID) Q w"
  unfolding DetermineOverallStatus_def wp_onerr
  apply (rule wp_QueryDr)
  subgoal using assms(1) by simp
  subgoal premises dr for fs dr
  proof (cases "derived_status dr (ops_of w drID) = dr_AggregateStatus dr")
    case True
    then show ?thesis using assms(1) dr by (simp add: Let_def wp_return)
  next
    case False
    then have "dr_AggregateStatus dr \<noteq> AggCanceled" by auto
    then show ?thesis
      using False dr assms
      by (simp add: Let_def wp_onerr set_status_def)
        (rule drs_table.wp_update; simp add: wp_return)
  qed
  done

lemma closed_determine [pres_intro]: "state_io_rel closed_kept (DetermineOverallStatus d)"
proof -
  have "wp (DetermineOverallStatus d) (\<lambda>r w'. closed_kept w w') w" for w
  proof (rule DetermineOverallStatus_wp)
    show "closed_kept w (w\<lparr>faults := fs\<rparr>)" for fs by (rule closed.R_faults)
    show "closed_kept w (db_drs_update (upd_where (\<lambda>d'. dr_ID d' = d)
           (\<lambda>d'. d'\<lparr>dr_AggregateStatus := derived_status dr (ops_of w d)\<rparr>)) w\<lparr>faults := fs\<rparr>)"
      if "dr_lookup w d = Some dr" "dr_AggregateStatus dr \<noteq> AggCanceled" for fs dr
      by (rule closed.R_trans [OF closed_kept_update [OF live_inI [OF that]] closed.R_faults]) simp
  qed
  then show ?thesis by (rule io_of_wp)
qed

end
