(* ===== verification/Delivery.thy ===== *)
theory Delivery
  imports Status
begin

text \<open>
  service/deliver.go with the import and deploy handlers of handler/delivery_request.go: the
  pre-checks that select the operations to deliver, the state update that claims them, and the
  goroutines that call TMS and CPI and record the outcome. The trace spans and metrics of the
  goroutines are left out.
\<close>

section \<open>Queries and updates\<close>

definition queryTenant :: "nat \<Rightarrow> (gerr + CpiTenant) prog" where
  "queryTenant tenantID =
     onerr (db_first db_tenants (\<lambda>t. tn_ID t = tenantID))
       (\<lambda>e. if is_not_found e then Errf ''tenant %d not found'' [Num tenantID]
             else Errf ''failed to query tenant %d: %s'' [Num tenantID, Verb e])
       done_with"

definition queryOpsWithAcco :: "nat list \<Rightarrow> (gerr + (ArtifactTenantOperation \<times> CpiTenant) list) prog" where
  "queryOpsWithAcco opIDs =
     (if opIDs = [] then failwith (Errf ''no operation ids provided'' [])
      else onerr (db_query (\<lambda>w. map (\<lambda>op. (op, tenant_of w (op_TenantID op)))
                 (filter (\<lambda>op. op_ID op \<in> set opIDs) (db_ops w))))
        (\<lambda>e. Errf ''failed to query artifact operations of %v: %s'' (map Num opIDs @ [Verb e])) (\<lambda>os.
      if os = [] then failwith (Errf ''no artifact operations found for ids %v'' (map Num opIDs))
      else
        (let missing = filter (\<lambda>i. i \<notin> set (map (op_ID \<circ> fst) os)) opIDs in
         if missing \<noteq> [] then
           failwith (Errf ''artifact operations not found for ids: %v'' (map Num missing))
         else done_with os)))"

text \<open>Updates with an operation as the struct: its non-zero fields.\<close>

definition op_merge :: "ArtifactTenantOperation \<Rightarrow> ArtifactTenantOperation \<Rightarrow> ArtifactTenantOperation" where
  "op_merge new old =
     old\<lparr>op_DeliveryRequestID := nz 0 (op_DeliveryRequestID new) (op_DeliveryRequestID old),
         op_ArtifactTechID := nz [] (op_ArtifactTechID new) (op_ArtifactTechID old),
         op_ArtifactVersion := nz [] (op_ArtifactVersion new) (op_ArtifactVersion old),
         op_ArtifactName := nz [] (op_ArtifactName new) (op_ArtifactName old),
         op_ArtifactType := nz [] (op_ArtifactType new) (op_ArtifactType old),
         op_PackageID := nz [] (op_PackageID new) (op_PackageID old),
         op_PackageName := nz [] (op_PackageName new) (op_PackageName old),
         op_PackageVersion := nz [] (op_PackageVersion new) (op_PackageVersion old),
         op_TenantID := nz 0 (op_TenantID new) (op_TenantID old),
         op_TransportRequestNumber := nz [] (op_TransportRequestNumber new) (op_TransportRequestNumber old),
         op_TrError := nz [] (op_TrError new) (op_TrError old),
         op_CasArtifactGUID := nz [] (op_CasArtifactGUID new) (op_CasArtifactGUID old),
         op_CasPackageResourceID := nz [] (op_CasPackageResourceID new) (op_CasPackageResourceID old),
         op_CasArtifactExportable := nz False (op_CasArtifactExportable new) (op_CasArtifactExportable old),
         op_RequestState := nz RequestUnset (op_RequestState new) (op_RequestState old),
         op_ImportState := nz ImportUnset (op_ImportState new) (op_ImportState old),
         op_DeployState := nz DeployUnset (op_DeployState new) (op_DeployState old),
         op_SkipDeploy := nz False (op_SkipDeploy new) (op_SkipDeploy old),
         op_LastError := nz [] (op_LastError new) (op_LastError old),
         op_RetryCountImport := nz 0 (op_RetryCountImport new) (op_RetryCountImport old),
         op_RetryCountDeploy := nz 0 (op_RetryCountDeploy new) (op_RetryCountDeploy old),
         op_NextRetryAt := nz None (op_NextRetryAt new) (op_NextRetryAt old),
         op_CreatedBy := nz [] (op_CreatedBy new) (op_CreatedBy old),
         op_UpdatedBy := nz [] (op_UpdatedBy new) (op_UpdatedBy old)\<rparr>"

definition op_updates :: "ArtifactTenantOperation \<Rightarrow> (gerr + unit) prog" where
  "op_updates op = db_update db_ops_update (\<lambda>x. op_ID x = op_ID op) (op_merge op)"

definition batchUpdateOps :: "ArtifactTenantOperation list \<Rightarrow> (gerr + unit) prog" where
  "batchUpdateOps os = do {
     errOps \<leftarrow> loop (\<lambda>op errOps. do {
         r \<leftarrow> op_updates op;
         State_Monad.return (case r of
             Inl e \<Rightarrow> map_put (op_ID op) (Errf ''failed to update artifact operation %d: %s'' [Num (op_ID op), Verb e]) errOps
           | Inr _ \<Rightarrow> errOps)
       }) os [];
     if errOps \<noteq> [] then
       failwith (Errs ''errors occurred during batch update operations:''
         (op_error_lines ''operation %d: %s'' errOps))
     else done_with ()
   }"

section \<open>Import\<close>

text \<open>service/utils.go, ToUint.\<close>

definition ToUint :: "string \<Rightarrow> gerr + nat" where
  "ToUint s = (case ParseUint s of None \<Rightarrow> err (ExtErr ''strconv.ParseUint: parsing failed'') | Some n \<Rightarrow> ok n)"

datatype 'a verdict = Skip | Reject gerr | Accept 'a

definition import_check :: "env \<Rightarrow> CpiTenant \<Rightarrow> ArtifactTenantOperation \<Rightarrow> CpiTenant \<Rightarrow> nat verdict" where
  "import_check env target op t =
     (let targetNodeID = tn_TmsSourceNodeID target in
      if op_ImportState op = ImportComplete then Skip
      else if (op_ImportState op \<noteq> ImportQueued \<and> op_ImportState op \<noteq> ImportFailed) \<or>
              tn_TmsSourceNodeID t \<noteq> targetNodeID then
        Reject (Errf ''cannot import artifact operation #%d(at TMS node %d) for target TMS node %d. Import State: %s''
          [Num (op_ID op), Num (tn_TmsSourceNodeID t), Num targetNodeID, Str (import_str (op_ImportState op))])
      else case ToUint (op_TransportRequestNumber op) of
        Inl e \<Rightarrow> Reject (Errf ''invalid transport request number %s for artifact operation %d: %s''
                  [Str (op_TransportRequestNumber op), Num (op_ID op), Verb e])
      | Inr trNumber \<Rightarrow>
          (case checkVersionDowngradeInTenant env op target of
             Inl e \<Rightarrow> Reject e
           | Inr _ \<Rightarrow> Accept trNumber))"

definition import_step ::
  "env \<Rightarrow> CpiTenant \<Rightarrow> string \<Rightarrow> ArtifactTenantOperation \<times> CpiTenant \<Rightarrow>
   (nat \<times> gerr) list \<times> nat list \<times> ArtifactTenantOperation list \<Rightarrow>
   (nat \<times> gerr) list \<times> nat list \<times> ArtifactTenantOperation list" where
  "import_step env target userID = (\<lambda>(op, t) (errOps, trs, validOps).
     case import_check env target op t of
       Skip \<Rightarrow> (errOps, trs, validOps)
     | Reject e \<Rightarrow> (map_put (op_ID op) e errOps, trs, validOps)
     | Accept trNumber \<Rightarrow>
         (errOps, trs @ [trNumber],
          validOps @ [op\<lparr>op_ImportState := ImportInProgress, op_UpdatedBy := userID\<rparr>]))"

text \<open>The answer of a batch: accepted with the errors of skipped operations, or refused.\<close>

definition skip_errors :: "string \<Rightarrow> (nat \<times> gerr) list \<Rightarrow> gerr option" where
  "skip_errors header errOps =
     (if errOps = [] then None else Some (Errs header (op_error_lines ''operation #%d: %s'' errOps)))"

definition record_skipped :: "nat \<Rightarrow> gerr option \<Rightarrow> unit prog" where
  "record_skipped drID skipErr =
     (case skipErr of
        None \<Rightarrow> State_Monad.return ()
      | Some e \<Rightarrow> do {
          _ \<leftarrow> BatchInsertConditions [dr_condition drID CondWarn e];
          State_Monad.return ()
        })"

definition BatchImportTenantOps ::
  "env \<Rightarrow> nat \<Rightarrow> nat list \<Rightarrow> nat \<Rightarrow> string \<Rightarrow> (gerr + gerr option) prog" where
  "BatchImportTenantOps env drID opIDs targetTenantID userID =
     onerr (queryOpsWithAcco opIDs) id (\<lambda>os.
     onerr (queryTenant targetTenantID) id (\<lambda>target.
     case fold (import_step env target userID) os ([], [], []) of
       (errOps, trs, validOps) \<Rightarrow> do {
         let skipErr = skip_errors ''skipped operations during import pre-check:'' errOps;
         _ \<leftarrow> record_skipped drID skipErr;
         if validOps = [] then
           failwith (Errf ''all operations failed pre-check, none can be imported'' [])
         else onerr (batchUpdateOps validOps) id (\<lambda>_. do {
           _ \<leftarrow> DetermineOverallStatus drID;
           _ \<leftarrow> NotifyDrUpdated drID;
           _ \<leftarrow> spawn (TaskImport drID (tn_TmsSourceNodeID target) (tn_Name target) trs validOps userID);
           done_with skipErr
         })
       }))"

text \<open>The asynchronous part; status and notification are deferred to its end.\<close>

definition artifact_lines :: "ArtifactTenantOperation list \<Rightarrow> gerr" where
  "artifact_lines os =
     Errs [] (map (\<lambda>op. Errf ''  - %s (version %s)'' [Str (op_ArtifactTechID op), Str (op_ArtifactVersion op)]) os)"

definition email_or_empty :: "env \<Rightarrow> string \<Rightarrow> string" where
  "email_or_empty env user = (case GetUserEmail env user of Inl _ \<Rightarrow> '''' | Inr e \<Rightarrow> e)"

definition import_async ::
  "env \<Rightarrow> nat \<Rightarrow> nat \<Rightarrow> string \<Rightarrow> nat list \<Rightarrow> ArtifactTenantOperation list \<Rightarrow> string \<Rightarrow> unit prog" where
  "import_async env drID targetNodeID targetTenantName trs os user = do {
     _ \<leftarrow> (case (case TmsSvc env of Inl e \<Rightarrow> Inl e | Inr _ \<Rightarrow> ImportTransportRequest env targetNodeID trs) of
            Inl e \<Rightarrow> do {
              _ \<leftarrow> batchUpdateOps (map (\<lambda>op. op\<lparr>op_ImportState := ImportFailed\<rparr>) os);
              _ \<leftarrow> BatchInsertConditions [dr_condition drID CondError
                     (Errf ''batch import failed in tenant %s (node %d). Error: %s'' [Str targetTenantName, Num targetNodeID, Verb e])];
              State_Monad.return ()
            }
          | Inr actionID \<Rightarrow> do {
              _ \<leftarrow> BatchInsertConditions [dr_condition drID CondSuccess
                     (Errf ''batch import triggered in tenant %s (node %d) by %s. Action ID: %d. Artifacts: %s''
                       [Str targetTenantName, Num targetNodeID, Str (email_or_empty env user), Num actionID, Verb (artifact_lines os)])];
              StartDRSync drID
            });
     _ \<leftarrow> DetermineOverallStatus drID;
     NotifyDrUpdated drID
   }"

section \<open>Deploy\<close>

definition deploy_check :: "nat \<Rightarrow> CpiTenant \<Rightarrow> ArtifactTenantOperation \<Rightarrow> CpiTenant \<Rightarrow> unit verdict" where
  "deploy_check targetTenantID tenant op t =
     (if op_DeployState op = DeployDisabled then Skip
      else if op_DeployState op \<noteq> DeployQueued \<and> op_DeployState op \<noteq> DeployFailed then
        Reject (Errf ''artifact operation %d is not in QUEUED/FAILED state for deploy, current state: %s''
          [Num (op_ID op), Str (deploy_str (op_DeployState op))])
      else if tn_ID t \<noteq> targetTenantID then
        Reject (Errf ''artifact operation %d not match target tenant %s#%d'' [Num (op_ID op), Str (tn_Name tenant), Num (tn_ID tenant)])
      else Accept ())"

definition deploy_step ::
  "nat \<Rightarrow> CpiTenant \<Rightarrow> string \<Rightarrow> ArtifactTenantOperation \<times> CpiTenant \<Rightarrow>
   (nat \<times> gerr) list \<times> (ArtifactTenantOperation \<times> CpiTenant) list \<Rightarrow>
   (nat \<times> gerr) list \<times> (ArtifactTenantOperation \<times> CpiTenant) list" where
  "deploy_step targetTenantID tenant userID = (\<lambda>(op, t) (errOps, validOps).
     case deploy_check targetTenantID tenant op t of
       Skip \<Rightarrow> (errOps, validOps)
     | Reject e \<Rightarrow> (map_put (op_ID op) e errOps, validOps)
     | Accept _ \<Rightarrow>
         (errOps, validOps @ [(op\<lparr>op_DeployState := DeployInProgress, op_UpdatedBy := userID\<rparr>, t)]))"

definition BatchDeployTenantOps ::
  "nat \<Rightarrow> nat list \<Rightarrow> nat \<Rightarrow> string \<Rightarrow> (gerr + gerr option) prog" where
  "BatchDeployTenantOps drID opIDs targetTenantID userID =
     onerr (queryOpsWithAcco opIDs) id (\<lambda>os.
     onerr (queryTenant targetTenantID) id (\<lambda>tenant.
     case fold (deploy_step targetTenantID tenant userID) os ([], []) of
       (errOps, validOps) \<Rightarrow> do {
         let skipErr = skip_errors ''skipped operations during deploy pre-check:'' errOps;
         _ \<leftarrow> record_skipped drID skipErr;
         if validOps = [] then
           failwith (Errf ''all operations failed pre-check, none can be deployed'' [])
         else onerr (batchUpdateOps (map fst validOps)) id (\<lambda>_. do {
           _ \<leftarrow> DetermineOverallStatus drID;
           _ \<leftarrow> NotifyDrUpdated drID;
           _ \<leftarrow> spawn (TaskDeploy drID tenant validOps userID);
           done_with skipErr
         })
       }))"

text \<open>One deployment: the error of the client or of the deploy call.\<close>

definition deploy_one :: "env \<Rightarrow> ArtifactTenantOperation \<times> CpiTenant \<Rightarrow> gerr option" where
  "deploy_one env = (\<lambda>(op, t).
     case CPI env (tn_PirApiDestinationName t) of
       Inl e \<Rightarrow> Some (Errf ''failed to create cpi client for tenant %s: %s'' [Str (tn_Name t), Verb e])
     | Inr _ \<Rightarrow>
         (case DeployArtifact env (tn_PirApiDestinationName t) (op_ArtifactTechID op) (op_ArtifactVersion op) (op_ArtifactType op) of
            Inl e \<Rightarrow> Some (Errf ''failed to deploy artifact %s:%s to tenant %s: %s''
                      [Str (op_ArtifactTechID op), Str (op_ArtifactVersion op), Str (tn_Name t), Verb e])
          | Inr _ \<Rightarrow> None))"

definition deploy_results ::
  "env \<Rightarrow> (ArtifactTenantOperation \<times> CpiTenant) list \<Rightarrow>
   (nat \<times> gerr) list \<times> ArtifactTenantOperation list \<times> ArtifactTenantOperation list" where
  "deploy_results env os =
     fold (\<lambda>(op, t) (errOps, failedOps, successOps).
       case deploy_one env (op, t) of
         Some e \<Rightarrow> (map_put (op_ID op) e errOps, failedOps @ [op\<lparr>op_DeployState := DeployFailed\<rparr>], successOps)
       | None \<Rightarrow> (errOps, failedOps, successOps @ [op])) os ([], [], [])"

definition deploy_async ::
  "env \<Rightarrow> nat \<Rightarrow> CpiTenant \<Rightarrow> (ArtifactTenantOperation \<times> CpiTenant) list \<Rightarrow> string \<Rightarrow> unit prog" where
  "deploy_async env drID tenant os user = do {
     let (errOps, failedOps, successOps) = deploy_results env os;
     _ \<leftarrow> (if failedOps \<noteq> [] then do { _ \<leftarrow> batchUpdateOps failedOps; State_Monad.return () }
          else State_Monad.return ());
     _ \<leftarrow> (if errOps \<noteq> [] then do {
              _ \<leftarrow> BatchInsertConditions [dr_condition drID CondError
                     (Errf ''batch deploy failed in tenant %s. Error: %s'' [Str (tn_Name tenant),
                        Verb (Errs ''errors occurred during async deploy operations:''
                                (op_error_lines ''operation %d: %s'' errOps))])];
              State_Monad.return ()
            } else State_Monad.return ());
     _ \<leftarrow> (if successOps \<noteq> [] then do {
              _ \<leftarrow> BatchInsertConditions [dr_condition drID CondSuccess
                     (Errf ''batch deploy triggered in tenant %s by %s. Artifacts: %s''
                       [Str (tn_Name tenant), Str (email_or_empty env user), Verb (artifact_lines successOps)])];
              State_Monad.return ()
            } else State_Monad.return ());
     _ \<leftarrow> StartDRSync drID;
     _ \<leftarrow> DetermineOverallStatus drID;
     NotifyDrUpdated drID
   }"

section \<open>Handlers\<close>

record DeliverOpRequest =
  do_OpIDs :: "nat list"
  do_TargetTenant :: nat
  do_DeliveryRequestID :: nat

definition preDeliverCheck :: "DeliverOpRequest \<Rightarrow> (gerr + unit) prog" where
  "preDeliverCheck req =
     (if do_OpIDs req = [] \<or> do_TargetTenant req = 0 \<or> do_DeliveryRequestID req = 0 then
        failwith (Errf ''missing opIDs, targetNode or deliveryRequestID'' [])
      else onerr (db_first db_drs (\<lambda>d. dr_ID d = do_DeliveryRequestID req))
        (\<lambda>e. Errf ''delivery request id %d not found'' [Num (do_DeliveryRequestID req)]) (\<lambda>dr.
      if dr_AggregateStatus dr = AggCanceled then
        failwith (Errf ''delivery request #%d has been canceled, no operations allowed'' [Num (do_DeliveryRequestID req)])
      else if dr_ApprovedBy dr = '''' then
        failwith (Errf ''delivery request not approved yet'' [])
      else done_with ()))"

definition HandleImportOps :: "env \<Rightarrow> DeliverOpRequest \<Rightarrow> string \<Rightarrow> (http + gerr) prog" where
  "HandleImportOps env req user =
     onerr (preDeliverCheck req) (\<lambda>e. (400, e)) (\<lambda>_.
     onerr (BatchImportTenantOps env (do_DeliveryRequestID req) (do_OpIDs req) (do_TargetTenant req) user)
       (\<lambda>e. (400, e))
       (\<lambda>skipErr. done_with (case skipErr of None \<Rightarrow> Errf ''Import triggered'' [] | Some e \<Rightarrow> e)))"

definition HandleDeployOps :: "DeliverOpRequest \<Rightarrow> string \<Rightarrow> (http + gerr) prog" where
  "HandleDeployOps req user =
     onerr (preDeliverCheck req) (\<lambda>e. (400, e)) (\<lambda>_.
     onerr (BatchDeployTenantOps (do_DeliveryRequestID req) (do_OpIDs req) (do_TargetTenant req) user)
       (\<lambda>e. (400, e))
       (\<lambda>skipErr. done_with (case skipErr of None \<Rightarrow> Errf ''Deploy triggered'' [] | Some e \<Rightarrow> e)))"

section \<open>The requests are not touched but for their status\<close>

lemma same_op_updates [pres_intro]: "state_io_rel same_drs (op_updates op)"
  unfolding op_updates_def by (intro pres_intro) (simp add: same_drs_def)

lemma same_batch_update [pres_intro]: "state_io_rel same_drs (batchUpdateOps os)"
  unfolding batchUpdateOps_def by (intro pres_intro)

lemma same_query_ops [pres_intro]:
  "state_io_rel same_drs (queryOpsWithAcco is)" "state_io_rel same_drs (queryTenant i)"
  "state_io_rel same_drs (record_skipped d s)" "state_io_rel same_drs (preDeliverCheck req)"
  unfolding queryOpsWithAcco_def queryTenant_def record_skipped_def preDeliverCheck_def Let_def
  by (intro pres_intro)+

lemmas closed_of_same = same_drs_io [OF same_notify] same_drs_io [OF same_spawn]
  same_drs_io [OF same_conditions] same_drs_io [OF same_start] same_drs_io [OF same_batch_update]
  same_drs_io [OF same_query_ops(1)] same_drs_io [OF same_query_ops(2)]
  same_drs_io [OF same_query_ops(3)] same_drs_io [OF same_query_ops(4)]

lemma closed_import [pres_intro]:
  "state_io_rel closed_kept (BatchImportTenantOps env d is t u)"
  "state_io_rel closed_kept (import_async env d n nm trs os u)"
  unfolding BatchImportTenantOps_def import_async_def Let_def
  by (intro pres_intro closed_of_same)+

lemma closed_deploy [pres_intro]:
  "state_io_rel closed_kept (BatchDeployTenantOps d is t u)"
  "state_io_rel closed_kept (deploy_async env d tn ps u)"
  unfolding BatchDeployTenantOps_def deploy_async_def Let_def
  by (intro pres_intro closed_of_same)+

lemma closed_handle_deliver [pres_intro]:
  "state_io_rel closed_kept (HandleImportOps env req u)" "state_io_rel closed_kept (HandleDeployOps req u)"
  unfolding HandleImportOps_def HandleDeployOps_def
  by (intro pres_intro closed_of_same)+

section \<open>Batch updates\<close>

definition merge_all ::
  "ArtifactTenantOperation list \<Rightarrow> ArtifactTenantOperation list \<Rightarrow> ArtifactTenantOperation list" where
  "merge_all os rows = fold (\<lambda>op. upd_where (\<lambda>x. op_ID x = op_ID op) (op_merge op)) os rows"

lemma op_merge_ID [simp]: "op_ID (op_merge new old) = op_ID old"
  by (simp add: op_merge_def)

lemma merge_all_snoc: "merge_all (os @ [op]) rows =
    upd_where (\<lambda>x. op_ID x = op_ID op) (op_merge op) (merge_all os rows)"
  by (simp add: merge_all_def)

text \<open>When the updated operations are named once each, a batch edits their rows and no other.\<close>

definition merged_row :: "ArtifactTenantOperation list \<Rightarrow> ArtifactTenantOperation \<Rightarrow> ArtifactTenantOperation" where
  "merged_row os x = (case List.find (\<lambda>op. op_ID op = op_ID x) os of None \<Rightarrow> x | Some op \<Rightarrow> op_merge op x)"

lemma merge_all_rows:
  "distinct (map op_ID os) \<Longrightarrow> merge_all os rows = map (merged_row os) rows"
proof (induction os arbitrary: rows)
  case Nil
  then show ?case by (simp add: merge_all_def merged_row_def map_idI)
next
  case (Cons op os)
  have miss: "List.find (\<lambda>y. op_ID y = op_ID op) os = None"
    using Cons.prems by (auto simp: find_None_iff2 image_iff)
  have "merge_all (op # os) rows =
        merge_all os (upd_where (\<lambda>x. op_ID x = op_ID op) (op_merge op) rows)"
    by (simp add: merge_all_def)
  also have "\<dots> = map (merged_row (op # os)) rows"
    using Cons miss by (auto simp: upd_where_def merged_row_def)
  finally show ?case .
qed

text \<open>What a batch update leaves alone, and what its success means.\<close>

definition ops_only :: "world \<Rightarrow> world \<Rightarrow> bool" where
  "ops_only w w' \<longleftrightarrow> db_tenants w' = db_tenants w \<and> db_drs w' = db_drs w \<and> spawned w' = spawned w \<and>
     tracker w' = tracker w \<and> hub w' = hub w \<and> clock w' = clock w \<and> dead w' = dead w"

lemma ops_only_refl [simp]: "ops_only w (w\<lparr>faults := fs\<rparr>)" "ops_only w w"
  by (simp_all add: ops_only_def)

lemma batchUpdateOps_wp:
  "wp (batchUpdateOps os) (\<lambda>r w'. ops_only w w' \<and>
     (r = Inr () \<longrightarrow> db_ops w' = merge_all os (db_ops w))) w"
  unfolding batchUpdateOps_def wp_bind
  apply (rule wp_loop [where I = "\<lambda>seen errOps w'. ops_only w w' \<and>
           (errOps = [] \<longrightarrow> db_ops w' = merge_all seen (db_ops w))"])
  subgoal by (simp add: merge_all_def)
  subgoal for op seen errOps w1
    unfolding op_updates_def wp_bind
    by (rule ops_table.wp_update) (auto simp: wp_simps ops_only_def merge_all_snoc)
  subgoal by (simp add: wp_simps)
  done

lemma batchUpdateOps_ok:
  assumes "faults w = []"
  shows "run_state (batchUpdateOps os) w = (Inr (), w\<lparr>db_ops := merge_all os (db_ops w)\<rparr>)"
proof -
  have "run_state (loop (\<lambda>op errOps. do {
         r \<leftarrow> op_updates op;
         State_Monad.return (case r of
             Inl e \<Rightarrow> map_put (op_ID op) (Errf ''failed to update artifact operation %d: %s'' [Num (op_ID op), Verb e]) errOps
           | Inr _ \<Rightarrow> errOps)
       }) os []) v = ([], v\<lparr>db_ops := merge_all os (db_ops v)\<rparr>)" if "faults v = []" for v
    using that
  proof (induction os arbitrary: v)
    case (Cons op os)
    then show ?case
      by (simp add: op_updates_def State_Monad.bind_def ops_table.update_ok merge_all_def)
  qed (simp add: merge_all_def)
  then show ?thesis
    using assms by (simp add: batchUpdateOps_def State_Monad.bind_def)
qed


section \<open>What a batch import selects and does\<close>

lemma wp_queryTenant:
  assumes "\<And>fs e. Q (Inl e) (w\<lparr>faults := fs\<rparr>)"
    and "\<And>fs t. \<lbrakk>List.find (\<lambda>t. tn_ID t = i) (db_tenants w) = Some t; tn_ID t = i\<rbrakk> \<Longrightarrow>
           Q (Inr t) (w\<lparr>faults := fs\<rparr>)"
  shows "wp (queryTenant i) Q w"
  unfolding queryTenant_def wp_onerr
  by (rule tenants_table.wp_first) (use assms in \<open>simp_all add: wp_return\<close>)

definition named_ops :: "world \<Rightarrow> nat list \<Rightarrow> (ArtifactTenantOperation \<times> CpiTenant) list" where
  "named_ops w opIDs =
     map (\<lambda>op. (op, tenant_of w (op_TenantID op))) (filter (\<lambda>op. op_ID op \<in> set opIDs) (db_ops w))"

lemma wp_queryOps:
  assumes "\<And>fs e. Q (Inl e) (w\<lparr>faults := fs\<rparr>)"
    and "\<And>fs. set opIDs \<subseteq> op_ID ` set (db_ops w) \<Longrightarrow> Q (Inr (named_ops w opIDs)) (w\<lparr>faults := fs\<rparr>)"
  shows "wp (queryOpsWithAcco opIDs) Q w"
proof (cases "opIDs = []")
  case True
  then show ?thesis using assms(1) [of _ "faults w"] by (simp add: queryOpsWithAcco_def wp_return)
next
  case False
  have missing: "filter (\<lambda>i. i \<notin> set (map (op_ID \<circ> fst) (named_ops w opIDs))) opIDs = [] \<longleftrightarrow>
      set opIDs \<subseteq> op_ID ` set (db_ops w)"
    by (force simp: filter_empty_conv named_ops_def)
  show ?thesis
    unfolding queryOpsWithAcco_def if_not_P [OF False] wp_onerr
    apply (rule wp_query)
    subgoal by simp
    subgoal using assms(1) by simp
    subgoal for fs
      unfolding named_ops_def [symmetric] sum.case Let_def
      using assms missing by (simp add: wp_simps)
    done
qed

text \<open>The guards of the import loop for one operation.\<close>

definition import_ready :: "env \<Rightarrow> CpiTenant \<Rightarrow> ArtifactTenantOperation \<Rightarrow> CpiTenant \<Rightarrow> bool" where
  "import_ready env target op t \<longleftrightarrow>
     op_ImportState op \<in> {ImportQueued, ImportFailed} \<and>
     tn_TmsSourceNodeID t = tn_TmsSourceNodeID target \<and>
     ParseUint (op_TransportRequestNumber op) \<noteq> None \<and>
     checkVersionDowngradeInTenant env op target = Inr ()"

definition import_batch :: "env \<Rightarrow> world \<Rightarrow> CpiTenant \<Rightarrow> nat list \<Rightarrow> ArtifactTenantOperation list" where
  "import_batch env w target opIDs =
     filter (\<lambda>op. op_ID op \<in> set opIDs \<and> import_ready env target op (tenant_of w (op_TenantID op))) (db_ops w)"

definition claim :: "string \<Rightarrow> ArtifactTenantOperation \<Rightarrow> ArtifactTenantOperation" where
  "claim u op = op\<lparr>op_ImportState := ImportInProgress, op_UpdatedBy := u\<rparr>"

definition tr_number :: "ArtifactTenantOperation \<Rightarrow> nat" where
  "tr_number op = the (ParseUint (op_TransportRequestNumber op))"

lemma import_check_ready:
  "import_check env target op t = Accept n \<longleftrightarrow> import_ready env target op t \<and> n = tr_number op"
proof (cases "op_ImportState op \<in> {ImportQueued, ImportFailed} \<and> tn_TmsSourceNodeID t = tn_TmsSourceNodeID target")
  case True
  then have "op_ImportState op \<noteq> ImportComplete" by auto
  then show ?thesis
    using True
    by (cases "ParseUint (op_TransportRequestNumber op)"; cases "checkVersionDowngradeInTenant env op target")
      (auto simp: import_check_def import_ready_def tr_number_def ToUint_def Let_def)
next
  case False
  then have "import_check env target op t \<noteq> Accept n"
    by (auto simp: import_check_def Let_def)
  then show ?thesis using False by (auto simp: import_ready_def)
qed

lemma import_step_cases:
  "\<exists>E'. import_step env target u (op, t) (E, T, V) =
     (E', if import_ready env target op t then (T @ [tr_number op], V @ [claim u op]) else (T, V))"
  using import_check_ready [of env target op t]
  by (cases "import_check env target op t") (auto simp: import_step_def claim_def)

lemma fold_import_step:
  "snd (fold (import_step env target u) os (E, T, V)) =
     (let b = map fst (filter (\<lambda>(op, t). import_ready env target op t) os) in
      (T @ map tr_number b, V @ map (claim u) b))"
proof (induction os arbitrary: E T V)
  case (Cons p os)
  obtain op t where p: "p = (op, t)" by fastforce
  obtain E' where "import_step env target u (op, t) (E, T, V) =
     (E', if import_ready env target op t then (T @ [tr_number op], V @ [claim u op]) else (T, V))"
    using import_step_cases by blast
  then show ?case using Cons.IH by (simp add: p Let_def)
qed simp

lemma import_batch_alt:
  "map fst (filter (\<lambda>(op, t). import_ready env target op t) (named_ops w opIDs)) =
   import_batch env w target opIDs"
  by (simp add: named_ops_def import_batch_def filter_map comp_def case_prod_beta conj_commute)

text \<open>Statements that leave operations, tenants and goroutines alone.\<close>

definition bg_kept :: "world \<Rightarrow> world \<Rightarrow> bool" where
  "bg_kept w w' \<longleftrightarrow> db_ops w' = db_ops w \<and> db_tenants w' = db_tenants w \<and>
     spawned w' = spawned w \<and> tracker w' = tracker w"

interpretation bg: kept_relation bg_kept
  by unfold_locales (auto simp: bg_kept_def)

lemma bg_notify [pres_intro]: "state_io_rel bg_kept (NotifyDrUpdated d)"
  unfolding NotifyDrUpdated_def by (intro pres_intro) (simp add: bg_kept_def)

lemma bg_conditions [pres_intro]: "state_io_rel bg_kept (BatchInsertConditions cs)"
  unfolding BatchInsertConditions_def create_conditions_def
  by (intro pres_intro) (simp_all add: bg_kept_def)

lemma bg_determine [pres_intro]: "state_io_rel bg_kept (DetermineOverallStatus d)"
  unfolding DetermineOverallStatus_def QueryDrWithAssociations_def set_status_def Let_def
  by (intro pres_intro) (simp add: bg_kept_def)

lemma bg_skipped [pres_intro]: "state_io_rel bg_kept (record_skipped d s)"
  unfolding record_skipped_def by (intro pres_intro)


text \<open>The common end of a batch: claim the selected operations and start the goroutine.\<close>

lemma start_batch_wp:
  "wp (do {
         _ \<leftarrow> record_skipped drID s;
         if vs = [] then failwith e
         else onerr (batchUpdateOps vs) id (\<lambda>_. do {
           _ \<leftarrow> DetermineOverallStatus drID;
           _ \<leftarrow> NotifyDrUpdated drID;
           _ \<leftarrow> spawn t;
           done_with s
         })
       }) (\<lambda>r w'. case r of
            Inl _ \<Rightarrow> spawned w' = spawned w
          | Inr _ \<Rightarrow> vs \<noteq> [] \<and> db_ops w' = merge_all vs (db_ops w) \<and> spawned w' = spawned w @ [t]) w"
proof -
  show ?thesis
  proof (cases "vs = []")
    case True
    then show ?thesis
      unfolding wp_bind
      by (intro wp_mono [OF wp_of_io [OF bg_skipped]]) (simp add: wp_simps bg_kept_def)
  next
    case False
    show ?thesis
      unfolding wp_bind if_not_P [OF False] wp_onerr
      apply (rule wp_mono [OF wp_of_io [OF bg_skipped]])
      apply (rule wp_mono [OF batchUpdateOps_wp])
      subgoal for r w1 r2 w2
      proof (cases r2)
        case (Inl a)
        assume "bg_kept w w1" "ops_only w1 w2 \<and> (r2 = Inr () \<longrightarrow> db_ops w2 = merge_all vs (db_ops w1))"
        then show ?thesis using Inl by (simp add: bg_kept_def ops_only_def)
      next
        case (Inr a)
        assume "bg_kept w w1" "ops_only w1 w2 \<and> (r2 = Inr () \<longrightarrow> db_ops w2 = merge_all vs (db_ops w1))"
        then show ?thesis
          unfolding Inr sum.case using False
          by (intro wp_mono [OF wp_of_io [OF bg_determine]]) (auto simp: wp_simps bg_kept_def ops_only_def)
      qed
      done
  qed
qed

definition batch_started ::
  "nat \<Rightarrow> nat list \<Rightarrow> (CpiTenant \<Rightarrow> ArtifactTenantOperation list) \<Rightarrow>
   (CpiTenant \<Rightarrow> task) \<Rightarrow> world \<Rightarrow> world \<Rightarrow> bool" where
  "batch_started tid opIDs vs t w w' \<longleftrightarrow>
     (\<exists>target. List.find (\<lambda>t. tn_ID t = tid) (db_tenants w) = Some target \<and>
        set opIDs \<subseteq> op_ID ` set (db_ops w) \<and> vs target \<noteq> [] \<and>
        db_ops w' = merge_all (vs target) (db_ops w) \<and> spawned w' = spawned w @ [t target])"

definition import_claims :: "env \<Rightarrow> world \<Rightarrow> nat list \<Rightarrow> string \<Rightarrow> CpiTenant \<Rightarrow> ArtifactTenantOperation list" where
  "import_claims env w opIDs u target = map (claim u) (import_batch env w target opIDs)"

definition import_task :: "env \<Rightarrow> world \<Rightarrow> nat \<Rightarrow> nat list \<Rightarrow> string \<Rightarrow> CpiTenant \<Rightarrow> task" where
  "import_task env w drID opIDs u target =
     TaskImport drID (tn_TmsSourceNodeID target) (tn_Name target)
       (map tr_number (import_batch env w target opIDs)) (import_claims env w opIDs u target) u"

lemma BatchImportTenantOps_wp:
  "wp (BatchImportTenantOps env drID opIDs tid u) (\<lambda>r w'. case r of
      Inl _ \<Rightarrow> spawned w' = spawned w
    | Inr _ \<Rightarrow> batch_started tid opIDs (import_claims env w opIDs u) (import_task env w drID opIDs u) w w') w"
  unfolding BatchImportTenantOps_def wp_onerr
  apply (rule wp_queryOps)
  subgoal by simp
  subgoal premises ids for fs
    unfolding sum.case wp_onerr id_apply
    apply (rule wp_queryTenant)
    subgoal by simp
    subgoal premises target for fs' target
    proof -
      obtain errOps trs validOps where f:
        "fold (import_step env target u) (named_ops w opIDs) ([], [], []) = (errOps, trs, validOps)"
        by (metis prod_cases3)
      have b: "trs = map tr_number (import_batch env w target opIDs)"
          "validOps = import_claims env w opIDs u target"
        using fold_import_step [of env target u "named_ops w opIDs" "[]" "[]" "[]"] f
        by (simp_all add: import_batch_alt import_claims_def Let_def)
      show ?thesis
        unfolding f sum.case prod.case Let_def id_def [symmetric]
        by (rule wp_mono [OF start_batch_wp])
          (use target ids in \<open>auto simp: batch_started_def import_task_def b split: sum.splits\<close>)
    qed
    done
  done

text \<open>The claimed rows.\<close>

lemma claim_ID [simp]: "op_ID (claim u op) = op_ID op"
  by (simp add: claim_def)

lemma op_merge_claim: "op_merge (claim u op) op = op\<lparr>op_ImportState := ImportInProgress, op_UpdatedBy := nz [] u (op_UpdatedBy op)\<rparr>"
  by (simp add: op_merge_def claim_def nz_def)

lemma merge_claims:
  assumes "distinct (map op_ID rows)" and "b = filter P rows" and "\<And>op. op_ID (c op) = op_ID op"
  shows "merge_all (map c b) rows = map (\<lambda>op. if P op then op_merge (c op) op else op) rows"
proof -
  have d: "distinct (map op_ID (map c b))"
    using assms by (simp add: comp_def distinct_filter_key)
  have "merged_row (map c b) op = (if P op then op_merge (c op) op else op)" if op: "op \<in> set rows" for op
  proof (cases "P op")
    case True
    then have "List.find (\<lambda>x. op_ID x = op_ID (c op)) (map c b) = Some (c op)"
      by (intro find_distinct_key d) (simp add: assms(2) op)
    then show ?thesis using True by (simp add: merged_row_def assms(3))
  next
    case False
    have "List.find (\<lambda>x. op_ID x = op_ID op) (map c b) = None"
      using False key_unique [OF assms(1) _ op] by (auto simp: find_None_iff2 assms(2,3))
    then show ?thesis using False by (simp add: merged_row_def)
  qed
  then show ?thesis by (simp add: merge_all_rows [OF d])
qed

section \<open>What a batch deployment selects and does\<close>

definition deploy_ready :: "nat \<Rightarrow> ArtifactTenantOperation \<Rightarrow> CpiTenant \<Rightarrow> bool" where
  "deploy_ready tid op t \<longleftrightarrow> op_DeployState op \<in> {DeployQueued, DeployFailed} \<and> tn_ID t = tid"

definition deploy_batch :: "world \<Rightarrow> nat list \<Rightarrow> nat \<Rightarrow> ArtifactTenantOperation list" where
  "deploy_batch w opIDs tid =
     filter (\<lambda>op. op_ID op \<in> set opIDs \<and> deploy_ready tid op (tenant_of w (op_TenantID op))) (db_ops w)"

definition claim_deploy :: "string \<Rightarrow> ArtifactTenantOperation \<Rightarrow> ArtifactTenantOperation" where
  "claim_deploy u op = op\<lparr>op_DeployState := DeployInProgress, op_UpdatedBy := u\<rparr>"

lemma deploy_check_ready: "deploy_check tid tenant op t = Accept () \<longleftrightarrow> deploy_ready tid op t"
  by (cases "op_DeployState op") (auto simp: deploy_check_def deploy_ready_def)

lemma deploy_step_cases:
  "\<exists>E'. deploy_step tid tenant u (op, t) (E, V) =
     (E', if deploy_ready tid op t then V @ [(claim_deploy u op, t)] else V)"
  using deploy_check_ready [of tid tenant op t]
  by (cases "deploy_check tid tenant op t") (auto simp: deploy_step_def claim_deploy_def)

lemma fold_deploy_step:
  "snd (fold (deploy_step tid tenant u) os (E, V)) =
     V @ map (\<lambda>(op, t). (claim_deploy u op, t)) (filter (\<lambda>(op, t). deploy_ready tid op t) os)"
proof (induction os arbitrary: E V)
  case (Cons p os)
  obtain op t where p: "p = (op, t)" by fastforce
  obtain E' where "deploy_step tid tenant u (op, t) (E, V) =
     (E', if deploy_ready tid op t then V @ [(claim_deploy u op, t)] else V)"
    using deploy_step_cases by blast
  then show ?case using Cons.IH by (simp add: p)
qed simp

definition deploy_claims ::
  "world \<Rightarrow> nat list \<Rightarrow> nat \<Rightarrow> string \<Rightarrow> (ArtifactTenantOperation \<times> CpiTenant) list" where
  "deploy_claims w opIDs tid u =
     map (\<lambda>op. (claim_deploy u op, tenant_of w (op_TenantID op))) (deploy_batch w opIDs tid)"

lemma deploy_claims_alt:
  "map (\<lambda>(op, t). (claim_deploy u op, t)) (filter (\<lambda>(op, t). deploy_ready tid op t) (named_ops w opIDs)) =
   deploy_claims w opIDs tid u"
  by (simp add: named_ops_def deploy_batch_def deploy_claims_def filter_map comp_def case_prod_beta conj_commute)

lemma map_fst_claims: "map fst (deploy_claims w opIDs tid u) = map (claim_deploy u) (deploy_batch w opIDs tid)"
  by (simp add: deploy_claims_def)

lemma claim_deploy_ID [simp]: "op_ID (claim_deploy u op) = op_ID op"
  by (simp add: claim_deploy_def)

lemma op_merge_claim_deploy: "op_merge (claim_deploy u op) op =
    op\<lparr>op_DeployState := DeployInProgress, op_UpdatedBy := nz [] u (op_UpdatedBy op)\<rparr>"
  by (simp add: op_merge_def claim_deploy_def nz_def)

lemma BatchDeployTenantOps_wp:
  "wp (BatchDeployTenantOps drID opIDs tid u) (\<lambda>r w'. case r of
      Inl _ \<Rightarrow> spawned w' = spawned w
    | Inr _ \<Rightarrow> batch_started tid opIDs (\<lambda>_. map (claim_deploy u) (deploy_batch w opIDs tid))
                (\<lambda>tenant. TaskDeploy drID tenant (deploy_claims w opIDs tid u) u) w w') w"
  unfolding BatchDeployTenantOps_def wp_onerr
  apply (rule wp_queryOps)
  subgoal by simp
  subgoal premises ids for fs
    unfolding sum.case wp_onerr id_apply
    apply (rule wp_queryTenant)
    subgoal by simp
    subgoal premises target for fs' target
    proof -
      obtain errOps validOps where f:
        "fold (deploy_step tid target u) (named_ops w opIDs) ([], []) = (errOps, validOps)"
        by fastforce
      have b: "validOps = deploy_claims w opIDs tid u"
        using fold_deploy_step [of tid target u "named_ops w opIDs" "[]" "[]"] f
        by (simp add: deploy_claims_alt)
      have e: "(validOps = []) = (map fst validOps = [])" by simp
      show ?thesis
        unfolding f sum.case prod.case Let_def id_def [symmetric] e
        by (rule wp_mono [OF start_batch_wp])
          (use target ids in \<open>auto simp: batch_started_def map_fst_claims b split: sum.splits\<close>)
    qed
    done
  done

section \<open>The goroutines\<close>

definition row_update ::
  "(ArtifactTenantOperation \<Rightarrow> bool) \<Rightarrow> nat set \<Rightarrow> ArtifactTenantOperation list \<Rightarrow> ArtifactTenantOperation list \<Rightarrow> bool" where
  "row_update P is = list_all2 (\<lambda>x y. if op_ID x \<in> is then op_ID y = op_ID x \<and> P y else y = x)"

lemma merge_all_row_update:
  assumes "distinct (map op_ID os)" and "\<And>op x. op \<in> set os \<Longrightarrow> P (op_merge op x)"
  shows "row_update P (op_ID ` set os) rows (merge_all os rows)"
proof -
  have "if op_ID x \<in> op_ID ` set os then op_ID (merged_row os x) = op_ID x \<and> P (merged_row os x)
        else merged_row os x = x" for x
  proof (cases "List.find (\<lambda>op. op_ID op = op_ID x) os")
    case None
    then have "op_ID x \<notin> op_ID ` set os" by (auto simp: find_None_iff2)
    then show ?thesis by (simp add: None merged_row_def)
  next
    case (Some op)
    then show ?thesis using find_SomeD [OF Some] assms(2) by (auto simp: merged_row_def image_iff)
  qed
  then show ?thesis
    by (simp add: row_update_def merge_all_rows [OF assms(1)] list_all2_map2 list_all2_same)
qed

lemma bg_drop: "bg_kept w w' \<Longrightarrow> db_ops w' = db_ops w"
  by (simp add: bg_kept_def)

text \<open>Nothing after the update of the failed operations touches operations.\<close>

definition ops_kept :: "world \<Rightarrow> world \<Rightarrow> bool" where
  "ops_kept w w' \<longleftrightarrow> db_ops w' = db_ops w"

interpretation ops_kept: kept_relation ops_kept
  by unfold_locales (auto simp: ops_kept_def)

lemma bg_ops: "state_io_rel bg_kept m \<Longrightarrow> state_io_rel ops_kept m"
  by (auto simp: state_io_rel_def bg_kept_def ops_kept_def)

lemma ops_kept_start [pres_intro]: "state_io_rel ops_kept (StartDRSync d)"
  unfolding StartDRSync_def spawn_def by (intro pres_intro) (simp_all add: ops_kept_def)

lemmas ops_kept_bg = bg_ops [OF bg_notify] bg_ops [OF bg_conditions] bg_ops [OF bg_determine]

lemma ops_after: "state_io_rel ops_kept m \<Longrightarrow> db_ops (snd (run_state m w)) = db_ops w"
  by (simp add: state_io_rel_def ops_kept_def)

lemma wp_ops_after:
  assumes "state_io_rel ops_kept m" and "Q (db_ops w)"
  shows "wp m (\<lambda>r w'. Q (db_ops w')) w"
  using assms by (simp add: wp_run_state ops_after)

lemma wp_batchUpdate_ok:
  "faults w = [] \<Longrightarrow> wp (batchUpdateOps os) Q w = Q (Inr ()) (w\<lparr>db_ops := merge_all os (db_ops w)\<rparr>)"
  by (simp add: wp_run_state batchUpdateOps_ok)

text \<open>A request is tracked from now on, by a new goroutine unless it was tracked before; without a
  tracker nothing happens.\<close>

definition sync_started :: "nat \<Rightarrow> world \<Rightarrow> world \<Rightarrow> bool" where
  "sync_started d w w' \<longleftrightarrow>
     (case tracker w of
        None \<Rightarrow> tracker w' = None \<and> spawned w' = spawned w
      | Some T \<Rightarrow> tracker w' = Some (insert d T) \<and>
          spawned w' = spawned w @ (if d \<in> T then [] else [TaskRunSync d]))"

lemma StartDRSync_started:
  "wp (StartDRSync d) (\<lambda>r w'. sync_started d w w' \<and> db_ops w' = db_ops w) w"
  by (cases "tracker w") (auto simp: StartDRSync_def TryStart_def wp_simps sync_started_def)

lemma wp_bg:
  assumes "state_io_rel bg_kept m" and "\<And>r w'. bg_kept w w' \<Longrightarrow> Q r w'"
  shows "wp m Q w"
  using wp_of_io [OF assms(1)] assms(2) by (rule wp_mono)

lemma import_async_ops:
  assumes "\<not> (isl (TmsSvc env) \<or> isl (ImportTransportRequest env node trs))"
  shows "wp (import_async env drID node name trs os u)
     (\<lambda>r w'. db_ops w' = db_ops w \<and> sync_started drID w w') w"
proof -
  obtain a where a: "(case TmsSvc env of Inl e \<Rightarrow> Inl e | Inr _ \<Rightarrow> ImportTransportRequest env node trs) = Inr a"
    using assms by (cases "TmsSvc env"; cases "ImportTransportRequest env node trs") auto
  show ?thesis
    unfolding import_async_def a sum.case wp_bind
    apply (rule wp_bg [OF bg_conditions])
    apply (rule wp_mono [OF StartDRSync_started])
    apply (rule wp_bg [OF bg_determine])
    apply (rule wp_bg [OF bg_notify])
    apply (auto simp: bg_kept_def sync_started_def split: option.splits)
    done
qed

lemma import_async_failed:
  assumes "faults w = []" and "isl (TmsSvc env) \<or> isl (ImportTransportRequest env node trs)"
  shows "wp (import_async env drID node name trs os u) (\<lambda>r w'.
     db_ops w' = merge_all (map (\<lambda>op. op\<lparr>op_ImportState := ImportFailed\<rparr>) os) (db_ops w) \<and>
     spawned w' = spawned w \<and> tracker w' = tracker w) w"
proof -
  obtain e where e: "(case TmsSvc env of Inl e \<Rightarrow> Inl e | Inr _ \<Rightarrow> ImportTransportRequest env node trs) = Inl e"
    using assms(2) by (cases "TmsSvc env"; cases "ImportTransportRequest env node trs") auto
  show ?thesis
    unfolding import_async_def e sum.case wp_bind wp_batchUpdate_ok [OF assms(1)] wp_return
    apply (rule wp_bg [OF bg_conditions])
    apply (rule wp_bg [OF bg_determine])
    apply (rule wp_bg [OF bg_notify])
    apply (simp add: bg_kept_def)
    done
qed

lemma deploy_async_ops:
  assumes "faults w = []" and "deploy_results env os = (errOps, failedOps, successOps)"
  shows "wp (deploy_async env drID tn os u) (\<lambda>r w'. db_ops w' = merge_all failedOps (db_ops w)) w"
proof -
  have rest: "wp (do {
     _ \<leftarrow> (if errOps \<noteq> [] then do { _ \<leftarrow> BatchInsertConditions c1; State_Monad.return () } else State_Monad.return ());
     _ \<leftarrow> (if successOps \<noteq> [] then do { _ \<leftarrow> BatchInsertConditions c2; State_Monad.return () } else State_Monad.return ());
     _ \<leftarrow> StartDRSync drID;
     _ \<leftarrow> DetermineOverallStatus drID;
     NotifyDrUpdated drID }) (\<lambda>r w'. db_ops w' = rows) v"
    if "db_ops v = rows" for v rows c1 c2
    by (rule wp_ops_after) (intro pres_intro ops_kept_bg | simp add: that)+
  show ?thesis
    unfolding deploy_async_def assms(2) Let_def prod.case wp_bind [of "if failedOps \<noteq> [] then _ else _"]
    by (cases "failedOps = []")
      (simp_all add: wp_return wp_bind [of "batchUpdateOps _"] wp_batchUpdate_ok [OF assms(1)] rest merge_all_def
        del: wp_bind)
qed

lemma deploy_results_failed:
  "fst (snd (deploy_results env os)) =
     map (\<lambda>(op, t). op\<lparr>op_DeployState := DeployFailed\<rparr>) (filter (\<lambda>p. deploy_one env p \<noteq> None) os)"
proof -
  have "fst (snd (fold (\<lambda>(op, t) (errOps, failedOps, successOps).
       case deploy_one env (op, t) of
         Some e \<Rightarrow> (map_put (op_ID op) e errOps, failedOps @ [op\<lparr>op_DeployState := DeployFailed\<rparr>], successOps)
       | None \<Rightarrow> (errOps, failedOps, successOps @ [op])) os (E, F, S))) =
     F @ map (\<lambda>(op, t). op\<lparr>op_DeployState := DeployFailed\<rparr>) (filter (\<lambda>p. deploy_one env p \<noteq> None) os)"
    for E F S
    by (induction os arbitrary: E F S) (auto split: option.split)
  then show ?thesis by (simp add: deploy_results_def)
qed

lemma deploy_one_failed: "deploy_one env p \<noteq> None \<longleftrightarrow> (case p of (op, t) \<Rightarrow>
    isl (CPI env (tn_PirApiDestinationName t)) \<or>
    isl (DeployArtifact env (tn_PirApiDestinationName t) (op_ArtifactTechID op) (op_ArtifactVersion op) (op_ArtifactType op)))"
  by (auto simp: deploy_one_def split: sum.splits prod.split)

definition deliverable :: "world \<Rightarrow> DeliverOpRequest \<Rightarrow> bool" where
  "deliverable w req \<longleftrightarrow> (\<exists>dr. dr_lookup w (do_DeliveryRequestID req) = Some dr \<and>
     dr_ApprovedBy dr \<noteq> [] \<and> dr_AggregateStatus dr \<noteq> AggCanceled)"

lemma preDeliverCheck_wp:
  "wp (preDeliverCheck req) (\<lambda>r w'. r = Inr () \<longrightarrow> deliverable w req) w"
  unfolding preDeliverCheck_def wp_if wp_onerr
  by (auto simp: wp_simps deliverable_def dr_lookup_def intro!: drs_table.wp_first)

section \<open>A request ready for delivery\<close>

definition demo_approved :: DeliveryRequest where
  "demo_approved = demo_dr\<lparr>dr_AggregateStatus := AggAwaitingImport, dr_ApprovedBy := ''bob'',
     dr_ApprovedAt := Some 1\<rparr>"

definition demo_queued :: ArtifactTenantOperation where
  "demo_queued = demo_op\<lparr>op_ID := 8, op_TenantID := 2, op_ImportState := ImportQueued\<rparr>"

definition demo_delivery :: world where
  "demo_delivery = demo_world\<lparr>db_drs := [demo_approved],
     db_ops := [demo_op, demo_queued, demo_queued\<lparr>op_ID := 9, op_TransportRequestNumber := ''43''\<rparr>]\<rparr>"

definition demo_deployable :: world where
  "demo_deployable = demo_delivery\<lparr>db_ops :=
     [demo_op, demo_queued\<lparr>op_ImportState := ImportComplete, op_DeployState := DeployQueued\<rparr>]\<rparr>"

section \<open>Properties\<close>

text \<open>A batch import that is accepted claims exactly the named operations that wait at the
  target tenant's node (queued, or failed before), have a numeric transport request and do not lower
  the version in the tenant: these become IN_PROGRESS, no other operation changes, and one goroutine
  is started with their transport requests. A refused batch starts none.\<close>

theorem BatchImportTenantOps_claims:
  assumes "op_ids_ok w" and "u \<noteq> []"
    and "run_state (BatchImportTenantOps env drID opIDs tid u) w = (r, w')"
  shows "if isl r then spawned w' = spawned w
    else \<exists>target b. List.find (\<lambda>t. tn_ID t = tid) (db_tenants w) = Some target \<and> b \<noteq> [] \<and>
      b = filter (\<lambda>op. op_ID op \<in> set opIDs \<and> op_ImportState op \<in> {ImportQueued, ImportFailed} \<and>
             tn_TmsSourceNodeID (tenant_of w (op_TenantID op)) = tn_TmsSourceNodeID target \<and>
             ParseUint (op_TransportRequestNumber op) \<noteq> None \<and>
             checkVersionDowngradeInTenant env op target = Inr ()) (db_ops w) \<and>
      db_ops w' = map (\<lambda>op. if op \<in> set b
             then op\<lparr>op_ImportState := ImportInProgress, op_UpdatedBy := u\<rparr> else op) (db_ops w) \<and>
      spawned w' = spawned w @ [TaskImport drID (tn_TmsSourceNodeID target) (tn_Name target)
             (map (\<lambda>op. the (ParseUint (op_TransportRequestNumber op))) b)
             (map (\<lambda>op. op\<lparr>op_ImportState := ImportInProgress, op_UpdatedBy := u\<rparr>) b) u]"
proof (cases r)
  case (Inl e)
  then show ?thesis using wp_run [OF BatchImportTenantOps_wp assms(3)] by simp
next
  case (Inr s)
  then obtain target where t: "List.find (\<lambda>t. tn_ID t = tid) (db_tenants w) = Some target"
      "import_claims env w opIDs u target \<noteq> []"
      "db_ops w' = merge_all (import_claims env w opIDs u target) (db_ops w)"
      "spawned w' = spawned w @ [import_task env w drID opIDs u target]"
    using wp_run [OF BatchImportTenantOps_wp assms(3)] by (auto simp: batch_started_def)
  let ?b = "import_batch env w target opIDs"
  let ?P = "\<lambda>op. op_ID op \<in> set opIDs \<and> import_ready env target op (tenant_of w (op_TenantID op))"
  have "db_ops w' = map (\<lambda>op. if ?P op then op_merge (claim u op) op else op) (db_ops w)"
    unfolding t(3) import_claims_def
    by (rule merge_claims) (use assms(1) in \<open>simp_all add: op_ids_ok_def import_batch_def\<close>)
  also have "\<dots> = map (\<lambda>op. if op \<in> set ?b then claim u op else op) (db_ops w)"
    using assms(2) by (auto simp: import_batch_def op_merge_claim nz_def) (simp_all add: claim_def)
  finally have rows: "db_ops w' = map (\<lambda>op. if op \<in> set ?b
             then op\<lparr>op_ImportState := ImportInProgress, op_UpdatedBy := u\<rparr> else op) (db_ops w)"
    by (simp add: claim_def cong: if_cong)
  have started: "?b \<noteq> []" "spawned w' = spawned w @ [TaskImport drID (tn_TmsSourceNodeID target) (tn_Name target)
             (map (\<lambda>op. the (ParseUint (op_TransportRequestNumber op))) ?b)
             (map (\<lambda>op. op\<lparr>op_ImportState := ImportInProgress, op_UpdatedBy := u\<rparr>) ?b) u]"
    using t(2,4)
    by (simp_all add: import_claims_def import_task_def claim_def [abs_def] tr_number_def [abs_def])
  have "?b = filter (\<lambda>op. op_ID op \<in> set opIDs \<and> op_ImportState op \<in> {ImportQueued, ImportFailed} \<and>
             tn_TmsSourceNodeID (tenant_of w (op_TenantID op)) = tn_TmsSourceNodeID target \<and>
             ParseUint (op_TransportRequestNumber op) \<noteq> None \<and>
             checkVersionDowngradeInTenant env op target = Inr ()) (db_ops w)"
    by (simp only: import_batch_def import_ready_def)
  moreover have n: "\<not> isl r" using Inr by simp
  ultimately show ?thesis unfolding if_not_P [OF n] using t(1) rows started by blast
qed

theorem BatchImportTenantOps_claims_witness:
  "\<exists>target b. List.find (\<lambda>t. tn_ID t = 2) (db_tenants demo_delivery) = Some target \<and> b \<noteq> ([] :: ArtifactTenantOperation list)"
proof -
  have "op_ids_ok demo_delivery" by code_simp
  moreover have "\<not> isl (fst (run_state (BatchImportTenantOps demo_env 5 [8, 9] 2 ''ann'') demo_delivery))"
    by code_simp
  ultimately show ?thesis using BatchImportTenantOps_claims [OF _ _ run_ok] by fastforce
qed

text \<open>C7: the import goroutine with a database that answers: when TMS rejects the import, exactly
  the operations of the batch become FAILED and no sync is started; when TMS accepts it no
  operation changes and the request is tracked, by one new sync goroutine unless one was at work
  for it before. A service without a tracker starts none.\<close>

theorem import_async_outcome:
  assumes "faults w = []" and "distinct (map op_ID os)"
    and "run_state (import_async env drID node name trs os u) w = (r, w')"
  shows "if isl (TmsSvc env) \<or> isl (ImportTransportRequest env node trs)
    then list_all2 (\<lambda>x y. if op_ID x \<in> op_ID ` set os then op_ID y = op_ID x \<and> op_ImportState y = ImportFailed
                          else y = x) (db_ops w) (db_ops w') \<and>
      spawned w' = spawned w \<and> tracker w' = tracker w
    else db_ops w' = db_ops w \<and>
      (case tracker w of
         None \<Rightarrow> tracker w' = None \<and> spawned w' = spawned w
       | Some T \<Rightarrow> tracker w' = Some (insert drID T) \<and>
           spawned w' = spawned w @ (if drID \<in> T then [] else [TaskRunSync drID]))"
proof (cases "isl (TmsSvc env) \<or> isl (ImportTransportRequest env node trs)")
  case True
  let ?os = "map (\<lambda>op. op\<lparr>op_ImportState := ImportFailed\<rparr>) os"
  have "db_ops w' = merge_all ?os (db_ops w) \<and> spawned w' = spawned w \<and> tracker w' = tracker w"
    using wp_run [OF import_async_failed [OF assms(1) True] assms(3)] .
  moreover have "row_update (\<lambda>y. op_ImportState y = ImportFailed) (op_ID ` set ?os) (db_ops w) (merge_all ?os (db_ops w))"
    by (rule merge_all_row_update) (use assms(2) in \<open>auto simp: comp_def op_merge_def nz_def\<close>)
  moreover have "op_ID ` set ?os = op_ID ` set os" by (simp add: image_image)
  ultimately show ?thesis using True by (simp add: row_update_def)
next
  case False
  then show ?thesis using wp_run [OF import_async_ops [OF False] assms(3)] by (simp add: sync_started_def)
qed

theorem import_async_outcome_witness:
  "list_all2 (\<lambda>x y. op_ID x = 8 \<longrightarrow> op_ImportState y = ImportFailed) (db_ops demo_delivery)
     (db_ops (snd (run_state (import_async demo_env 5 12 ''QA'' [42] [demo_queued] ''ann'') demo_delivery))) \<and>
   TaskRunSync 5 \<in> set (spawned (snd (run_state (import_async
     (demo_env\<lparr>ImportTransportRequest := \<lambda>_ _. Inr 77\<rparr>) 5 12 ''QA'' [42] [demo_queued] ''ann'')
     (demo_delivery\<lparr>tracker := Some {}\<rparr>))))"
proof -
  let ?e = "demo_env\<lparr>ImportTransportRequest := \<lambda>_ _. Inr 77\<rparr>" and ?w = "demo_delivery\<lparr>tracker := Some {}\<rparr>"
  have demo: "faults demo_delivery = []" "isl (ImportTransportRequest demo_env 12 [42])" "faults ?w = []"
    "tracker ?w = Some {}" "\<not> isl (TmsSvc ?e)" "\<not> isl (ImportTransportRequest ?e 12 [42])"
    by (simp_all add: demo_delivery_def demo_world_def empty_world_def demo_env_def quiet_env_def)
  have "distinct (map op_ID [demo_queued])" by simp
  from import_async_outcome [OF demo(1) this run_split,
      where env = demo_env and drID = 5 and node = 12 and name = "''QA''" and trs = "[42]" and u = "''ann''"]
    import_async_outcome [OF demo(3) this run_split,
      where env = ?e and drID = 5 and node = 12 and name = "''QA''" and trs = "[42]" and u = "''ann''"]
  show ?thesis using demo by (auto simp: demo_queued_def elim: list_all2_mono)
qed

text \<open>A batch deployment that is accepted claims exactly the named operations of the target
  tenant that are imported and wait for deployment or failed before; a refused one starts
  no goroutine.\<close>

theorem BatchDeployTenantOps_claims:
  assumes "op_ids_ok w" and "u \<noteq> []"
    and "run_state (BatchDeployTenantOps drID opIDs tid u) w = (r, w')"
  shows "if isl r then spawned w' = spawned w
    else \<exists>target b. List.find (\<lambda>t. tn_ID t = tid) (db_tenants w) = Some target \<and> b \<noteq> [] \<and>
      b = filter (\<lambda>op. op_ID op \<in> set opIDs \<and> op_DeployState op \<in> {DeployQueued, DeployFailed} \<and>
             tn_ID (tenant_of w (op_TenantID op)) = tid) (db_ops w) \<and>
      db_ops w' = map (\<lambda>op. if op \<in> set b
             then op\<lparr>op_DeployState := DeployInProgress, op_UpdatedBy := u\<rparr> else op) (db_ops w) \<and>
      spawned w' = spawned w @ [TaskDeploy drID target (map (\<lambda>op.
             (op\<lparr>op_DeployState := DeployInProgress, op_UpdatedBy := u\<rparr>, tenant_of w (op_TenantID op))) b) u]"
proof (cases r)
  case (Inl e)
  then show ?thesis using wp_run [OF BatchDeployTenantOps_wp assms(3)] by simp
next
  case (Inr s)
  let ?b = "deploy_batch w opIDs tid"
  obtain target where t: "List.find (\<lambda>t. tn_ID t = tid) (db_tenants w) = Some target"
      "?b \<noteq> []" "db_ops w' = merge_all (map (claim_deploy u) ?b) (db_ops w)"
      "spawned w' = spawned w @ [TaskDeploy drID target (deploy_claims w opIDs tid u) u]"
    using Inr wp_run [OF BatchDeployTenantOps_wp assms(3)] by (auto simp: batch_started_def)
  let ?P = "\<lambda>op. op_ID op \<in> set opIDs \<and> deploy_ready tid op (tenant_of w (op_TenantID op))"
  have "db_ops w' = map (\<lambda>op. if ?P op then op_merge (claim_deploy u op) op else op) (db_ops w)"
    unfolding t(3)
    by (rule merge_claims) (use assms(1) in \<open>simp_all add: op_ids_ok_def deploy_batch_def\<close>)
  also have "\<dots> = map (\<lambda>op. if op \<in> set ?b then claim_deploy u op else op) (db_ops w)"
    using assms(2) by (auto simp: deploy_batch_def op_merge_claim_deploy nz_def) (simp_all add: claim_deploy_def)
  finally have rows: "db_ops w' = map (\<lambda>op. if op \<in> set ?b
             then op\<lparr>op_DeployState := DeployInProgress, op_UpdatedBy := u\<rparr> else op) (db_ops w)"
    by (simp add: claim_deploy_def cong: if_cong)
  have started: "spawned w' = spawned w @ [TaskDeploy drID target (map (\<lambda>op.
             (op\<lparr>op_DeployState := DeployInProgress, op_UpdatedBy := u\<rparr>, tenant_of w (op_TenantID op))) ?b) u]"
    using t(4) by (simp add: deploy_claims_def claim_deploy_def)
  have "?b = filter (\<lambda>op. op_ID op \<in> set opIDs \<and> op_DeployState op \<in> {DeployQueued, DeployFailed} \<and>
             tn_ID (tenant_of w (op_TenantID op)) = tid) (db_ops w)"
    by (simp only: deploy_batch_def deploy_ready_def)
  moreover have n: "\<not> isl r" using Inr by simp
  ultimately show ?thesis unfolding if_not_P [OF n] using t(1,2) rows started by blast
qed

theorem BatchDeployTenantOps_claims_witness:
  "\<exists>target b. List.find (\<lambda>t. tn_ID t = 2) (db_tenants demo_deployable) = Some target \<and> b \<noteq> ([] :: ArtifactTenantOperation list)"
proof -
  have "op_ids_ok demo_deployable" by code_simp
  moreover have "\<not> isl (fst (run_state (BatchDeployTenantOps 5 [8] 2 ''ann'') demo_deployable))"
    by code_simp
  ultimately show ?thesis using BatchDeployTenantOps_claims [OF _ _ run_ok] by fastforce
qed

text \<open>The deployment goroutine with a database that answers: exactly the operations whose client
  or deploy call failed become FAILED, no other operation changes.\<close>

theorem deploy_async_outcome:
  assumes "faults w = []" and "distinct (map (op_ID \<circ> fst) os)"
    and "run_state (deploy_async env drID tn os u) w = (r, w')"
  shows "list_all2 (\<lambda>x y. if \<exists>(op, t)\<in>set os. op_ID op = op_ID x \<and>
           (isl (CPI env (tn_PirApiDestinationName t)) \<or>
            isl (DeployArtifact env (tn_PirApiDestinationName t) (op_ArtifactTechID op) (op_ArtifactVersion op) (op_ArtifactType op)))
         then op_ID y = op_ID x \<and> op_DeployState y = DeployFailed else y = x) (db_ops w) (db_ops w')"
proof -
  obtain errOps failedOps successOps where d: "deploy_results env os = (errOps, failedOps, successOps)"
    by (metis prod_cases3)
  let ?bad = "filter (\<lambda>p. deploy_one env p \<noteq> None) os"
  let ?fail = "map (\<lambda>(op, t). op\<lparr>op_DeployState := DeployFailed\<rparr>)"
  have f: "failedOps = ?fail ?bad" using deploy_results_failed [of env os] d by simp
  have ids: "map op_ID failedOps = map (op_ID \<circ> fst) ?bad" by (auto simp: f)
  have "distinct (map op_ID failedOps)"
    unfolding ids using assms(2) by (rule distinct_filter_key)
  then have "row_update (\<lambda>y. op_DeployState y = DeployFailed) (op_ID ` set failedOps) (db_ops w) (merge_all failedOps (db_ops w))"
    by (rule merge_all_row_update) (auto simp: f op_merge_def nz_def)
  moreover have "db_ops w' = merge_all failedOps (db_ops w)"
    using wp_run [OF deploy_async_ops [OF assms(1) d] assms(3)] .
  moreover have "op_ID x \<in> op_ID ` set failedOps \<longleftrightarrow> (\<exists>(op, t)\<in>set os. op_ID op = op_ID x \<and>
      (isl (CPI env (tn_PirApiDestinationName t)) \<or>
       isl (DeployArtifact env (tn_PirApiDestinationName t) (op_ArtifactTechID op) (op_ArtifactVersion op) (op_ArtifactType op))))" for x :: ArtifactTenantOperation
  proof -
    have "op_ID x \<in> op_ID ` set failedOps \<longleftrightarrow> (\<exists>p\<in>set os. op_ID (fst p) = op_ID x \<and> deploy_one env p \<noteq> None)"
      by (simp add: f image_image case_prod_unfold image_iff) (metis fst_conv surj_pair)
    then show ?thesis by (simp only: deploy_one_failed case_prod_unfold)
  qed
  ultimately show ?thesis unfolding row_update_def by (simp only:)
qed

theorem deploy_async_outcome_witness:
  "list_all2 (\<lambda>x y. op_ID x \<noteq> 8 \<longrightarrow> y = x) (db_ops demo_deployable)
     (db_ops (snd (run_state (deploy_async demo_env 5 demo_qa [(demo_queued, demo_qa)] ''ann'') demo_deployable)))"
proof -
  have "faults demo_deployable = []"
    by (simp add: demo_deployable_def demo_delivery_def demo_world_def empty_world_def)
  from deploy_async_outcome [OF this _ run_split, of "[(demo_queued, demo_qa)]" demo_env 5 demo_qa "''ann''"]
  show ?thesis by (auto simp: demo_queued_def elim: list_all2_mono split: if_splits)
qed

text \<open>C8: import and deploy are triggered only through an existing delivery request that was approved
  and is not canceled.\<close>

theorem deliver_gate:
  assumes "run_state (HandleImportOps env req u) w = (Inr m, w') \<or>
    run_state (HandleDeployOps req u) w = (Inr m, w')"
  shows "\<exists>dr. dr_lookup w (do_DeliveryRequestID req) = Some dr \<and> dr_ApprovedBy dr \<noteq> [] \<and>
    dr_AggregateStatus dr \<noteq> AggCanceled"
proof -
  have gate: "wp (preDeliverCheck req) (\<lambda>r w'. r = Inr () \<longrightarrow> deliverable w req) w"
    by (rule preDeliverCheck_wp)
  have "wp (onerr (preDeliverCheck req) f (\<lambda>_. k)) (\<lambda>r w'. \<not> isl r \<longrightarrow> deliverable w req) w"
    for f :: "gerr \<Rightarrow> http" and k :: "(http + gerr) prog"
    unfolding wp_onerr by (rule wp_mono [OF gate]) (auto simp: wp_run_state split: sum.split)
  from wp_run [OF this] have "deliverable w req"
    using assms unfolding HandleImportOps_def HandleDeployOps_def by fastforce
  then show ?thesis by (simp add: deliverable_def)
qed

theorem deliver_gate_witness:
  "\<exists>dr. dr_lookup demo_delivery 5 = Some dr \<and> dr_ApprovedBy dr \<noteq> []"
proof -
  let ?req = "\<lparr>do_OpIDs = [8], do_TargetTenant = 2, do_DeliveryRequestID = 5\<rparr>"
  have "\<not> isl (fst (run_state (HandleImportOps demo_env ?req ''ann'') demo_delivery))" by code_simp
  from deliver_gate [OF disjI1 [OF run_ok [OF this]]] show ?thesis by auto
qed

text \<open>The guard looks at the delivery request that the caller names, not at the one the
  operations belong to: naming an approved request imports an operation of a canceled one.\<close>

theorem import_of_canceled_request:
  "\<exists>w env m w' d op op'. op_ids_ok w \<and> d \<in> set (db_drs w) \<and> dr_AggregateStatus d = AggCanceled \<and>
     op \<in> set (db_ops w) \<and> op_DeliveryRequestID op = dr_ID d \<and> dr_ID d \<noteq> 5 \<and>
     run_state (HandleImportOps env \<lparr>do_OpIDs = [op_ID op], do_TargetTenant = 2, do_DeliveryRequestID = 5\<rparr> ''bob'') w =
       (Inr m, w') \<and>
     op' \<in> set (db_ops w') \<and> op_ID op' = op_ID op \<and> op_ImportState op' = ImportInProgress"
proof -
  let ?d = "demo_approved\<lparr>dr_ID := 6, dr_AggregateStatus := AggCanceled\<rparr>"
  let ?op = "demo_queued\<lparr>op_ID := 9, op_DeliveryRequestID := 6\<rparr>"
  let ?w = "demo_delivery\<lparr>db_drs := [demo_approved, ?d], db_ops := [?op]\<rparr>"
  let ?m = "HandleImportOps demo_env \<lparr>do_OpIDs = [9], do_TargetTenant = 2, do_DeliveryRequestID = 5\<rparr> ''bob''"
  have "\<not> isl (fst (run_state ?m ?w))" by code_simp
  note run = run_ok [OF this]
  have "list_ex (\<lambda>op. op_ID op = 9 \<and> op_ImportState op = ImportInProgress) (db_ops (snd (run_state ?m ?w)))"
    by code_simp
  then obtain op' where "op' \<in> set (db_ops (snd (run_state ?m ?w)))" "op_ID op' = 9" "op_ImportState op' = ImportInProgress"
    by (auto simp: list_ex_iff)
  moreover have "op_ids_ok ?w" by code_simp
  ultimately show ?thesis
    using run by (intro exI [of _ ?w] exI [of _ demo_env] exI [of _ ?d] exI [of _ ?op] exI [of _ op'] exI conjI) simp_all
qed

text \<open>When the database fails in the middle of claiming a batch, the import is refused and no
  goroutine is started, but the operations claimed before the failure stay IN_PROGRESS; nothing has
  asked TMS to import them, and the next attempt rejects them for their state.\<close>

theorem import_claim_stuck:
  "\<exists>w env e w' e2 w2. run_state (BatchImportTenantOps env 5 [8, 9] 2 ''ann'') w = (Inl e, w') \<and>
     spawned w' = [] \<and> faults w' = [] \<and>
     (\<exists>op\<in>set (db_ops w'). op_ID op = 8 \<and> op_ImportState op = ImportInProgress) \<and>
     run_state (BatchImportTenantOps env 5 [8] 2 ''ann'') w' = (Inl e2, w2)"
proof -
  let ?e = "demo_env" and ?w = "demo_delivery\<lparr>faults := [False, False, False, True]\<rparr>"
  let ?m = "BatchImportTenantOps ?e 5 [8, 9] 2 ''ann''" and ?m2 = "BatchImportTenantOps ?e 5 [8] 2 ''ann''"
  have "isl (fst (run_state ?m ?w))" by code_simp
  note run = run_err [OF this]
  have "isl (fst (run_state ?m2 (snd (run_state ?m ?w))))" by code_simp
  note run2 = run_err [OF this]
  have "list_ex (\<lambda>op. op_ID op = 8 \<and> op_ImportState op = ImportInProgress) (db_ops (snd (run_state ?m ?w)))"
    by code_simp
  then have "\<exists>op\<in>set (db_ops (snd (run_state ?m ?w))). op_ID op = 8 \<and> op_ImportState op = ImportInProgress"
    by (simp add: list_ex_iff)
  moreover have "length (spawned (snd (run_state ?m ?w))) = 0" "length (faults (snd (run_state ?m ?w))) = 0"
    by code_simp+
  ultimately show ?thesis using run run2 unfolding length_0_conv by blast
qed

end
