(* ===== verification/Sync.thy ===== *)
theory Sync
  imports Delivery
begin

text \<open>
  service/sync_status.go and runDRSync of service/sync_tracker.go: the synchronisation of a
  delivery request with TMS and CPI under its lock, and the goroutine that repeats it. A request
  is synchronised in two passes: the import states of every node that TMS reports for its
  transport requests (with operations created for new target tenants), then the deploy states of
  the operations in deployment.
\<close>

section \<open>Deploy states\<close>

definition runtime_state :: "string \<Rightarrow> DeployState" where
  "runtime_state status =
     (if status = ''STARTED'' then DeployComplete
      else if status = ''STARTING'' then DeployInProgress
      else if status = ''ERROR'' then DeployFailed
      else DeployUnset)"

definition set_deploy :: "ArtifactTenantOperation \<Rightarrow> DeployState \<Rightarrow> (gerr + unit) prog" where
  "set_deploy op state =
     db_update db_ops_update (\<lambda>x. op_ID x = op_ID op)
       (\<lambda>x. x\<lparr>op_DeployState := nz DeployUnset state (op_DeployState x)\<rparr>)"

definition sync_deploy_op ::
  "env \<Rightarrow> nat \<Rightarrow> string \<Rightarrow> ArtifactTenantOperation \<times> CpiTenant \<Rightarrow> Condition list \<Rightarrow> Condition list prog" where
  "sync_deploy_op env drID jiraLink = (\<lambda>(op, t) conditions.
     let cond = op_condition drID (op_ID op);
         failed = (\<lambda>e. cond CondError (Errf ''error occurred during sync deploy state for artifact %s in tenant %s: %s''
                     [Str (op_ArtifactTechID op), Str (tn_Name t), Verb e]))
     in
     if op_DeployState op \<noteq> DeployInProgress then State_Monad.return conditions
     else case CPI env (tn_PirApiDestinationName t) of
       Inl e \<Rightarrow> State_Monad.return (conditions @ [cond CondError
         (Errf ''error occurred during sync deploy state: failed to create cpi client for tenant: %s: %s'' [Str (tn_Name t), Verb e])])
     | Inr _ \<Rightarrow>
       (case GetRuntimeArtifact env (tn_PirApiDestinationName t) (op_ArtifactTechID op) of
          Inl e \<Rightarrow> State_Monad.return (conditions @ [cond CondWarn
            (Errf ''failed to get runtime artifact %s in tenant %s(may not deployed yet): %s''
              [Str (op_ArtifactTechID op), Str (tn_Name t), Verb e])])
        | Inr rt \<Rightarrow>
            if ra_Version rt = op_ArtifactVersion op then
              (let state = runtime_state (ra_Status rt) in
               if state = op_DeployState op then State_Monad.return conditions
               else do {
                 r \<leftarrow> set_deploy op state;
                 case r of
                   Inl e \<Rightarrow> State_Monad.return (conditions @ [failed e])
                 | Inr _ \<Rightarrow>
                     if state = DeployFailed then State_Monad.return (conditions @ [cond CondError
                       (Errf ''artifact %s (version %s) deploy failed in tenant %s. please check in CPI tenant %s''
                         [Str (op_ArtifactTechID op), Str (op_ArtifactVersion op), Str (tn_Name t),
                          Str (tn_PirApiDestinationName t)])])
                     else if state = DeployComplete then do {
                       let conditionMsg = Errf ''artifact %s (version %s), deployed in %s. deployed by: %s, at: %s''
                             [Str (op_ArtifactTechID op), Str (op_ArtifactVersion op), Str (tn_Name t),
                              Str (ra_DeployedBy rt), Str (ra_DeployedOn rt)];
                       _ \<leftarrow> PostJiraComment jiraLink drID conditionMsg ''Deployed'';
                       State_Monad.return (conditions @ [cond CondSuccess conditionMsg])
                     }
                     else State_Monad.return conditions
               })
            else if compareCPIVersion (ra_Version rt) (op_ArtifactVersion op) > 0 then do {
              r \<leftarrow> set_deploy op DeployFailed;
              State_Monad.return (conditions @ [case r of
                  Inl e \<Rightarrow> failed e
                | Inr _ \<Rightarrow> cond CondWarn (Errf ''runtime artifact %s version %s in tenant %s is higher than expected version %s. Deploy was superseded by another operation''
                    [Str (op_ArtifactTechID op), Str (ra_Version rt), Str (tn_Name t), Str (op_ArtifactVersion op)])])
            }
            else State_Monad.return conditions))"

definition syncDeployState :: "env \<Rightarrow> nat \<Rightarrow> Condition list prog" where
  "syncDeployState env deliveryRequestID = do {
     r \<leftarrow> queryOpsInDrWithAcc deliveryRequestID;
     case r of
       Inl e \<Rightarrow> State_Monad.return [dr_condition deliveryRequestID CondError
         (Errf ''error occurred during sync deploy state: failed to query artifact operations in delivery request %d: %s''
           [Num deliveryRequestID, Verb e])]
     | Inr os \<Rightarrow> do {
         d \<leftarrow> db_first db_drs (\<lambda>d. dr_ID d = deliveryRequestID);
         let jiraLink = (case d of Inl _ \<Rightarrow> '''' | Inr dr \<Rightarrow> dr_JiraLink dr);
         loop (sync_deploy_op env deliveryRequestID jiraLink) os []
       }
   }"

section \<open>Import states\<close>

text \<open>The statuses of the transport requests, fetched once each; a failed one is left out and
  reported.\<close>

type_synonym tr_statuses = "string \<rightharpoonup> (nat \<times> TrNodeStatus) list"

definition fetch_step ::
  "env \<Rightarrow> nat \<Rightarrow> ArtifactTenantOperation \<times> CpiTenant \<Rightarrow> tr_statuses \<times> Condition list \<Rightarrow>
   tr_statuses \<times> Condition list" where
  "fetch_step env drID = (\<lambda>(op, t) (trNodeStatus, conditions).
     let trNumber = op_TransportRequestNumber op in
     if trNodeStatus trNumber \<noteq> None then (trNodeStatus, conditions)
     else case TrNodeStatuses env trNumber of
       Inl e \<Rightarrow> (trNodeStatus, conditions @ [op_condition drID (op_ID op) CondError
                 (Errf ''error when getting transport request %s: %s'' [Str trNumber, Verb e])])
     | Inr ns \<Rightarrow> (trNodeStatus(trNumber \<mapsto> ns), conditions))"

text \<open>The operations by tenant and transport request, the first of each.\<close>

type_synonym op_index = "nat \<times> string \<rightharpoonup> ArtifactTenantOperation"

definition index_step :: "ArtifactTenantOperation \<times> CpiTenant \<Rightarrow> op_index \<Rightarrow> op_index" where
  "index_step = (\<lambda>(op, t) tenantToOps.
     let k = (tn_ID t, op_TransportRequestNumber op) in
     if tenantToOps k \<noteq> None then tenantToOps else tenantToOps(k \<mapsto> op))"

definition new_target_op ::
  "ArtifactTenantOperation \<Rightarrow> nat \<Rightarrow> string \<Rightarrow> ArtifactTenantOperation" where
  "new_target_op op tenantID user =
     zero_op\<lparr>op_DeliveryRequestID := op_DeliveryRequestID op,
       op_ArtifactTechID := op_ArtifactTechID op, op_ArtifactVersion := op_ArtifactVersion op,
       op_ArtifactName := op_ArtifactName op, op_ArtifactType := op_ArtifactType op,
       op_PackageID := op_PackageID op, op_PackageName := op_PackageName op,
       op_PackageVersion := op_PackageVersion op, op_TenantID := tenantID,
       op_TransportRequestNumber := op_TransportRequestNumber op, op_SkipDeploy := op_SkipDeploy op,
       op_ImportState := ImportNotStarted,
       op_DeployState := (if op_SkipDeploy op then DeployDisabled else DeployNotStarted),
       op_CreatedBy := user\<rparr>"

text \<open>The operation with a new import state, and with the deploy state that completes it.\<close>

definition imported_as :: "ImportState \<Rightarrow> string \<Rightarrow> ArtifactTenantOperation \<Rightarrow> ArtifactTenantOperation" where
  "imported_as state user op =
     op\<lparr>op_ImportState := state, op_UpdatedBy := user,
        op_DeployState := (if state = ImportComplete \<and> op_DeployState op = DeployNotStarted
          then (if op_SkipDeploy op then DeployDisabled else DeployQueued) else op_DeployState op)\<rparr>"

definition keeps_import :: "ImportState \<Rightarrow> ImportState \<Rightarrow> bool" where
  "keeps_import cur state =
     (state = cur \<or> (cur = ImportInProgress \<and> (state = ImportQueued \<or> state = ImportNotStarted)))"

text \<open>The conditions of a saved import state.\<close>

definition warning_body :: "env \<Rightarrow> string \<Rightarrow> nat \<Rightarrow> message" where
  "warning_body env trNumber nID =
     (case WarnLogsInTransportLog env trNumber nID of
        Inl e \<Rightarrow> Errf ''could not load TMS warning messages for transport request %s in node %d: %s''
                  [Str trNumber, Num nID, Verb e]
      | Inr warnMsgs \<Rightarrow>
          if warnMsgs = [] then
            Errf ''TMS reported WARNING for transport request %s in node %d; no severity W messages in transport log.''
              [Str trNumber, Num nID]
          else Errs [] warnMsgs)"

definition failure_body :: "env \<Rightarrow> string \<Rightarrow> nat \<Rightarrow> message" where
  "failure_body env trNumber nID =
     (case ErrLogsInTransportLog env trNumber nID of
        Inl e \<Rightarrow> Errf ''error when getting error logs for transport request %s in node %d: %s''
                  [Str trNumber, Num nID, Verb e]
      | Inr logs \<Rightarrow> Errs [] logs)"

text \<open>What follows a saved state: conditions, and for a completed import the git sync and the Jira
  comment.\<close>

definition sync_saved ::
  "env \<Rightarrow> nat \<Rightarrow> string \<Rightarrow> string \<Rightarrow> nat \<Rightarrow> TrNodeStatus \<Rightarrow> CpiTenant \<Rightarrow> ArtifactTenantOperation \<Rightarrow>
   Condition list \<Rightarrow> Condition list prog" where
  "sync_saved env drID jiraLink trNumber nID nState tenant x conditions =
     (let cond = op_condition drID (op_ID x) in
      if op_ImportState x = ImportComplete then do {
        let conditionMsg = Errf ''artifact %s (version %s) has been successfully imported in tenant %d (node %d), at %d''
              [Str (op_ArtifactTechID x), Str (op_ArtifactVersion x), Num (tn_ID tenant), Num nID,
               Num (tns_UpdatedAt nState)];
        _ \<leftarrow> spawn (TaskGitSyncOp (op_ArtifactTechID x) (op_PackageID x) (op_ArtifactType x)
               (op_TenantID x) drID (op_ID x));
        _ \<leftarrow> PostJiraComment jiraLink drID conditionMsg ''Imported'';
        State_Monad.return (conditions @ [cond CondSuccess conditionMsg] @
          (if EqualFold (tns_Status nState) ''WARNING''
           then [cond CondWarn (warning_body env trNumber nID)] else []))
      }
      else if op_ImportState x = ImportFailed then
        State_Monad.return (conditions @ [cond CondError (failure_body env trNumber nID)])
      else State_Monad.return conditions)"

text \<open>One node of one transport request. A failing save returns from syncImportState with its
  condition alone.\<close>

definition sync_node ::
  "env \<Rightarrow> nat \<Rightarrow> string \<Rightarrow> nat list \<Rightarrow> string \<Rightarrow> ArtifactTenantOperation \<Rightarrow> nat \<times> TrNodeStatus \<Rightarrow>
   Condition list \<times> op_index \<Rightarrow> (Condition list + Condition list \<times> op_index) prog" where
  "sync_node env drID jiraLink targetNodeIDs user op = (\<lambda>(nID, nState) (conditions, tenantToOps).
     let trNumber = op_TransportRequestNumber op in
     if nID \<notin> set targetNodeIDs then done_with (conditions, tenantToOps)
     else do {
       t \<leftarrow> queryTenantByNodeID nID;
       case t of
         Inl e \<Rightarrow> done_with (conditions @ [op_condition drID (op_ID op) CondWarn
           (Errf ''no cpi tenant configured for tms node %d: %s'' [Num nID, Verb e])], tenantToOps)
       | Inr tenant \<Rightarrow>
           (let k = (tn_ID tenant, trNumber);
                curOp = (case tenantToOps k of Some x \<Rightarrow> x | None \<Rightarrow> new_target_op op (tn_ID tenant) user);
                index' = tenantToOps(k \<mapsto> curOp);
                state = DeriveImport (tns_Status nState)
            in
            if keeps_import (op_ImportState curOp) state then done_with (conditions, index')
            else onerr (save_op (imported_as state user curOp))
              (\<lambda>e. [op_condition drID (op_ID curOp) CondError
                (Errf ''error when creating new artifact tenant operation for artifact %s in node %d: %s''
                  [Str (op_ArtifactTechID curOp), Num nID, Verb e])])
              (\<lambda>x. do {
                conditions' \<leftarrow> sync_saved env drID jiraLink trNumber nID nState tenant x conditions;
                done_with (conditions', index')
              }))
     })"

definition sync_tr ::
  "env \<Rightarrow> nat \<Rightarrow> string \<Rightarrow> nat list \<Rightarrow> string \<Rightarrow> tr_statuses \<Rightarrow> ArtifactTenantOperation \<times> CpiTenant \<Rightarrow>
   string list \<times> Condition list \<times> op_index \<Rightarrow>
   (Condition list + string list \<times> Condition list \<times> op_index) prog" where
  "sync_tr env drID jiraLink targetNodeIDs user trNodeStatus = (\<lambda>(op, t) (trUpdated, conditions, tenantToOps).
     let trNumber = op_TransportRequestNumber op in
     if trNumber \<in> set trUpdated then done_with (trUpdated, conditions, tenantToOps)
     else onerr
       (loopE (sync_node env drID jiraLink targetNodeIDs user op)
         (case trNodeStatus trNumber of None \<Rightarrow> [] | Some ns \<Rightarrow> ns) (conditions, tenantToOps)) id
       (\<lambda>(conditions', tenantToOps'). done_with (trUpdated @ [trNumber], conditions', tenantToOps')))"

definition syncImportState :: "env \<Rightarrow> nat \<Rightarrow> string \<Rightarrow> Condition list prog" where
  "syncImportState env deliveryRequestID user = do {
     r \<leftarrow> queryOpsInDrWithAcc deliveryRequestID;
     case r of
       Inl e \<Rightarrow> State_Monad.return [dr_condition deliveryRequestID CondError
         (Errf ''error occurred during sync import state: failed to query artifact operations in delivery request %d: %s''
           [Num deliveryRequestID, Verb e])]
     | Inr artifactOps \<Rightarrow> do {
         d \<leftarrow> db_load (\<lambda>w. case dr_lookup w deliveryRequestID of
                None \<Rightarrow> Inl RecordNotFound
              | Some dr \<Rightarrow> Inr (dr, rule_of w (dr_DeliveryRuleID dr)));
         case d of
           Inl e \<Rightarrow> State_Monad.return [dr_condition deliveryRequestID CondError
             (Errf ''failed to find delivery request %d: %s'' [Num deliveryRequestID, Verb e])]
         | Inr (dr, rule) \<Rightarrow>
             (case TmsSvc env of
                Inl e \<Rightarrow> State_Monad.return [dr_condition deliveryRequestID CondError
                  (Errf ''error resolving TMS client: %s'' [Verb e])]
              | Inr _ \<Rightarrow> do {
                  let (trNodeStatus, conditions) = fold (fetch_step env deliveryRequestID) artifactOps (Map.empty, []);
                  let tenantToOps = fold index_step artifactOps Map.empty;
                  s \<leftarrow> loopE (sync_tr env deliveryRequestID (dr_JiraLink dr) (map nd_ID (ru_TargetNodes rule)) user trNodeStatus)
                         artifactOps ([], conditions, tenantToOps);
                  State_Monad.return (case s of Inl cs \<Rightarrow> cs | Inr (_, cs, _) \<Rightarrow> cs)
                })
       }
   }"

section \<open>SyncDeliveryStatus\<close>

definition ErrSyncAlreadyInProgress :: gerr where
  "ErrSyncAlreadyInProgress = Errf ''sync already in progress'' []"

definition insert_if_any :: "Condition list \<Rightarrow> unit prog" where
  "insert_if_any conditions =
     (if conditions \<noteq> [] then do { _ \<leftarrow> BatchInsertConditions conditions; State_Monad.return () }
      else State_Monad.return ())"

text \<open>What runs between the deferred calls.\<close>

definition sync_body :: "env \<Rightarrow> nat \<Rightarrow> string \<Rightarrow> (gerr + unit) prog" where
  "sync_body env drID user =
     onerr (db_first db_drs (\<lambda>d. dr_ID d = drID))
       (\<lambda>e. Errf ''failed to find delivery request %d: %s'' [Num drID, Verb e]) (\<lambda>dr.
     if dr_ApprovedAt dr = None \<or> dr_ApprovedBy dr = '''' then
       failwith (Errf ''delivery request %d has not been approved yet'' [Num drID])
     else if dr_AggregateStatus dr = AggCanceled then
       failwith (Errf ''delivery request %d is already canceled'' [Num drID])
     else do {
       importConditions \<leftarrow> syncImportState env drID user;
       _ \<leftarrow> insert_if_any importConditions;
       deployConditions \<leftarrow> syncDeployState env drID;
       _ \<leftarrow> insert_if_any deployConditions;
       done_with ()
     })"

definition snapshot_changed :: "drSnapshot \<Rightarrow> drSnapshot \<Rightarrow> bool" where
  "snapshot_changed before after =
     (sn_Exists before \<and> sn_Exists after \<and>
      (sn_OpsKey before \<noteq> sn_OpsKey after \<or> sn_Status before \<noteq> sn_Status after))"

definition SyncDeliveryStatus :: "env \<Rightarrow> nat \<Rightarrow> string \<Rightarrow> (gerr + unit) prog" where
  "SyncDeliveryStatus env drID user = do {
     locks \<leftarrow> gets syncLocks;
     case sync_acquire drID locks of
       (acquired, locks') \<Rightarrow>
         if \<not> acquired then failwith ErrSyncAlreadyInProgress
         else do {
           _ \<leftarrow> modify (\<lambda>w. w\<lparr>syncLocks := locks'\<rparr>);
           before \<leftarrow> captureDrSnapshot drID;
           r \<leftarrow> sync_body env drID user;
           _ \<leftarrow> DetermineOverallStatus drID;
           after \<leftarrow> captureDrSnapshot drID;
           _ \<leftarrow> (if snapshot_changed before after then NotifyDrUpdated drID else State_Monad.return ());
           _ \<leftarrow> modify (\<lambda>w. w\<lparr>syncLocks := sync_release drID (syncLocks w)\<rparr>);
           State_Monad.return r
         }
   }"

section \<open>The sync goroutine\<close>

text \<open>runDRSync up to its select, where it waits for a tick or the cancellation of its context. One
  round is a sync and the test for active operations; without any the goroutine returns and its
  deferred Finish, a step of its own, is due.\<close>

definition FinishSync :: "nat \<Rightarrow> unit prog" where
  "FinishSync drID = modify (\<lambda>w. w\<lparr>tracker := map_option (Finish drID) (tracker w)\<rparr>)"

definition sync_round :: "env \<Rightarrow> nat \<Rightarrow> unit prog" where
  "sync_round env drID = do {
     _ \<leftarrow> SyncDeliveryStatus env drID ''system'';
     active \<leftarrow> hasActiveOps drID;
     spawn (if active then TaskSyncTick drID else TaskSyncExit drID)
   }"

definition sync_tick :: "env \<Rightarrow> bool \<Rightarrow> nat \<Rightarrow> unit prog" where
  "sync_tick env ctxDone drID = (if ctxDone then spawn (TaskSyncExit drID) else sync_round env drID)"

section \<open>Handler\<close>

definition HandleSyncState :: "env \<Rightarrow> string \<Rightarrow> string \<Rightarrow> (http + string) prog" where
  "HandleSyncState env drIDStr user =
     (if drIDStr = '''' then failwith (400, Errf ''missing query param: deliveryRequestId'' [])
      else case ToUint drIDStr of
        Inl e \<Rightarrow> failwith (400, Errf ''invalid deliveryRequestId'' [])
      | Inr drID \<Rightarrow>
          if drID = 0 then failwith (400, Errf ''invalid deliveryRequestId'' [])
          else do {
            r \<leftarrow> SyncDeliveryStatus env drID user;
            case r of
              Inl e \<Rightarrow> if e = ErrSyncAlreadyInProgress then done_with ''sync already in progress''
                       else failwith (500, e)
            | Inr _ \<Rightarrow> done_with ''sync finished''
          })"

section \<open>What a sync leaves alone\<close>

text \<open>A relation that ignores operations, conditions, the id sequence, goroutines and the hub is kept
  by every pass of a sync; stated once, used for the request table, the locks and the tracker.\<close>

locale ops_frame = kept_relation +
  assumes R_ops: "R w (db_ops_update f w)"
    and R_conds: "R w (db_conds_update g w)"
    and R_next: "R w (w\<lparr>next_id := n\<rparr>)"
    and R_spawned: "plain_task t \<Longrightarrow> R w (w\<lparr>spawned := spawned w @ [t]\<rparr>)"
    and R_published: "R w (published d w)"
begin

lemma frame_spawn [pres_intro]: "plain_task t \<Longrightarrow> state_io_rel R (spawn t)"
  unfolding spawn_def by (intro pres_intro keep_modify R_spawned)

lemma frame_notify [pres_intro]: "state_io_rel R (NotifyDrUpdated d)"
  unfolding NotifyDrUpdated_def by (intro keep_modify R_published)

lemma frame_jira [pres_intro]: "state_io_rel R (PostJiraComment l d m st)"
  unfolding PostJiraComment_def Let_def by (intro keep_if keep_return frame_spawn) simp

lemma frame_conditions [pres_intro]: "state_io_rel R (BatchInsertConditions cs)"
  unfolding BatchInsertConditions_def create_conditions_def
  by (intro keep_if keep_return keep_onerr keep_create R_next R_trans [OF R_next R_conds])

lemma frame_insert [pres_intro]: "state_io_rel R (insert_if_any cs)"
  unfolding insert_if_any_def by (intro keep_if keep_return keep_bind frame_conditions)

lemma frame_query [pres_intro]:
  "state_io_rel R (queryOpsInDrWithAcc d)" "state_io_rel R (queryTenantByNodeID i)"
  "state_io_rel R (captureDrSnapshot d)" "state_io_rel R (hasActiveOps d)"
  unfolding queryOpsInDrWithAcc_def queryTenantByNodeID_def captureDrSnapshot_def hasActiveOps_def Let_def
  by (intro keep_onerr keep_query keep_if keep_return keep_first keep_bind keep_sum)+

lemma frame_save [pres_intro]: "state_io_rel R (save_op x)"
  unfolding save_op_def by (intro keep_save R_next R_ops R_trans [OF R_next R_ops])

lemma frame_set_deploy [pres_intro]: "state_io_rel R (set_deploy x s)"
  unfolding set_deploy_def by (intro keep_update R_ops)

lemma frame_batch_update [pres_intro]: "state_io_rel R (batchUpdateOps os)"
  unfolding batchUpdateOps_def op_updates_def
  by (intro keep_bind keep_loop keep_update keep_return keep_if R_ops)

lemma frame_deploy_op [pres_intro]: "state_io_rel R (sync_deploy_op env d l p cs)"
  unfolding sync_deploy_op_def Let_def
  by (cases p; simp only: prod.case)
    (intro keep_bind keep_sum keep_return keep_if frame_set_deploy frame_jira)

lemma frame_sync_deploy [pres_intro]: "state_io_rel R (syncDeployState env d)"
  unfolding syncDeployState_def Let_def
  by (intro keep_bind keep_sum keep_return keep_loop keep_first frame_query frame_deploy_op)

lemma frame_sync_saved [pres_intro]: "state_io_rel R (sync_saved env d l tr n st t x cs)"
  unfolding sync_saved_def Let_def
  by (intro keep_bind keep_return keep_if frame_spawn frame_jira) simp_all

lemma frame_sync_node [pres_intro]: "state_io_rel R (sync_node env d l ns u op p s)"
  unfolding sync_node_def Let_def
  by (cases p; cases s; simp only: prod.case)
    (intro keep_bind keep_sum keep_return keep_if keep_onerr frame_query frame_save frame_sync_saved)

lemma frame_sync_tr [pres_intro]: "state_io_rel R (sync_tr env d l ns u st p s)"
  unfolding sync_tr_def Let_def
  by (cases p; cases s; simp only: prod.case)
    (intro keep_onerr keep_loopE keep_if keep_return keep_prod frame_sync_node)

lemma frame_sync_import [pres_intro]: "state_io_rel R (syncImportState env d u)"
  unfolding syncImportState_def Let_def
  by (intro keep_bind keep_sum keep_return keep_loopE keep_prod keep_load frame_query frame_sync_tr)

lemma frame_sync_body [pres_intro]: "state_io_rel R (sync_body env d u)"
  unfolding sync_body_def
  by (intro keep_onerr keep_first keep_if keep_return keep_bind frame_sync_import frame_sync_deploy frame_insert)

end

definition same_locks :: "world \<Rightarrow> world \<Rightarrow> bool" where
  "same_locks w w' \<longleftrightarrow> syncLocks w' = syncLocks w \<and> tracker w' = tracker w"

interpretation frame_drs: ops_frame same_drs
  by unfold_locales (auto simp: same_drs_def)

interpretation frame_locks: ops_frame same_locks
  by unfold_locales (auto simp: same_locks_def)

lemma locks_determine [pres_intro]: "state_io_rel same_locks (DetermineOverallStatus d)"
  unfolding DetermineOverallStatus_def QueryDrWithAssociations_def set_status_def Let_def
  by (intro pres_intro) (simp add: same_locks_def)

lemma wp_rel: "\<lbrakk>state_io_rel R m; \<And>r w'. R w w' \<Longrightarrow> Q r w'\<rbrakk> \<Longrightarrow> wp m Q w"
  by (rule wp_mono [OF wp_of_io])

text \<open>What a sync does under its lock.\<close>

definition sync_locked :: "env \<Rightarrow> nat \<Rightarrow> string \<Rightarrow> (gerr + unit) prog" where
  "sync_locked env drID user = do {
     before \<leftarrow> captureDrSnapshot drID;
     r \<leftarrow> sync_body env drID user;
     _ \<leftarrow> DetermineOverallStatus drID;
     after \<leftarrow> captureDrSnapshot drID;
     _ \<leftarrow> (if snapshot_changed before after then NotifyDrUpdated drID else State_Monad.return ());
     State_Monad.return r
   }"

lemma locks_sync_locked [pres_intro]: "state_io_rel same_locks (sync_locked env d u)"
  unfolding sync_locked_def by (intro pres_intro)

lemma SyncDeliveryStatus_run:
  "run_state (SyncDeliveryStatus env drID u) w =
     (if drID \<in> syncLocks w then (Inl ErrSyncAlreadyInProgress, w)
      else (case run_state (sync_locked env drID u) (w\<lparr>syncLocks := insert drID (syncLocks w)\<rparr>) of
        (r, w1) \<Rightarrow> (r, w1\<lparr>syncLocks := syncLocks w\<rparr>)))"
proof (cases "drID \<in> syncLocks w")
  case True
  then show ?thesis
    by (simp add: SyncDeliveryStatus_def State_Monad.bind_def gets_def sync_acquire_def LoadOrStore_def)
next
  case False
  let ?w = "w\<lparr>syncLocks := insert drID (syncLocks w)\<rparr>"
  have assoc: "run_state (SyncDeliveryStatus env drID u) w =
    (case run_state (sync_locked env drID u) ?w of
       (r, w1) \<Rightarrow> (r, w1\<lparr>syncLocks := sync_release drID (syncLocks w1)\<rparr>))"
    using False
    by (simp add: SyncDeliveryStatus_def sync_locked_def State_Monad.bind_def gets_def modify_def
        sync_acquire_def LoadOrStore_def split: prod.split)
  have "syncLocks (snd (run_state (sync_locked env drID u) ?w)) = insert drID (syncLocks w)"
    using locks_sync_locked [of env drID u] by (simp add: state_io_rel_def same_locks_def)
  then show ?thesis
    using False unfolding assoc by (auto simp: sync_release_def split: prod.splits)
qed

lemma SyncDeliveryStatus_wp:
  assumes "drID \<in> syncLocks w \<Longrightarrow> Q (Inl ErrSyncAlreadyInProgress) w"
    and "drID \<notin> syncLocks w \<Longrightarrow>
      wp (sync_locked env drID u) (\<lambda>r w1. Q r (w1\<lparr>syncLocks := syncLocks w\<rparr>))
        (w\<lparr>syncLocks := insert drID (syncLocks w)\<rparr>)"
  shows "wp (SyncDeliveryStatus env drID u) Q w"
  using assms by (auto simp: wp_run_state SyncDeliveryStatus_run split: prod.splits)

section \<open>Closed requests stay closed\<close>

lemma closed_sync_locked [pres_intro]: "state_io_rel closed_kept (sync_locked env d u)"
  unfolding sync_locked_def
  by (intro pres_intro same_drs_io [OF frame_drs.frame_query(3)] same_drs_io [OF frame_drs.frame_sync_body]
      same_drs_io [OF same_notify])

lemma closed_in_locks [simp]: "closed_in (w\<lparr>syncLocks := l\<rparr>) i = closed_in w i"
  by (simp add: closed_in_def live_in_def)

lemma closed_sync [pres_intro]: "state_io_rel closed_kept (SyncDeliveryStatus env d u)"
proof (rule io_of_wp, rule SyncDeliveryStatus_wp)
  fix w
  show "wp (sync_locked env d u) (\<lambda>r w1. closed_kept w (w1\<lparr>syncLocks := syncLocks w\<rparr>))
      (w\<lparr>syncLocks := insert d (syncLocks w)\<rparr>)"
    by (rule wp_rel [OF closed_sync_locked]) (simp add: closed_kept_def)
qed (rule closed.R_refl)

lemma same_finish [pres_intro]: "state_io_rel same_drs (FinishSync d)"
  unfolding FinishSync_def by (intro pres_intro) (simp add: same_drs_def)

lemma closed_sync_round [pres_intro]:
  "state_io_rel closed_kept (sync_round env d)" "state_io_rel closed_kept (sync_tick env b d)"
  unfolding sync_round_def sync_tick_def
  by (intro pres_intro same_drs_io [OF same_spawn] same_drs_io [OF same_active])+

lemma closed_handle_sync [pres_intro]: "state_io_rel closed_kept (HandleSyncState env s u)"
  unfolding HandleSyncState_def by (intro pres_intro)

section \<open>What a sync does to operations\<close>

definition deploy_progress :: "DeployState \<Rightarrow> DeployState \<Rightarrow> bool" where
  "deploy_progress a b \<longleftrightarrow>
     b = a \<or> a = DeployNotStarted \<and> b \<in> {DeployQueued, DeployDisabled} \<or>
     a = DeployInProgress \<and> b \<in> {DeployComplete, DeployFailed}"

definition import_progress :: "ImportState \<Rightarrow> ImportState \<Rightarrow> bool" where
  "import_progress a b \<longleftrightarrow> (a = ImportInProgress \<longrightarrow> b \<in> {ImportInProgress, ImportComplete, ImportFailed})"

definition sync_edit :: "nat \<Rightarrow> ArtifactTenantOperation \<Rightarrow> ArtifactTenantOperation \<Rightarrow> bool" where
  "sync_edit drID x y \<longleftrightarrow>
     y = x \<or>
     op_DeliveryRequestID x = drID \<and>
     y = x\<lparr>op_ImportState := op_ImportState y, op_DeployState := op_DeployState y,
           op_UpdatedBy := op_UpdatedBy y\<rparr> \<and>
     import_progress (op_ImportState x) (op_ImportState y) \<and>
     deploy_progress (op_DeployState x) (op_DeployState y)"

lemma sync_edit_refl [simp]: "sync_edit d x x"
  by (simp add: sync_edit_def)

lemma sync_edit_ID: "sync_edit d x y \<Longrightarrow> op_ID y = op_ID x \<and> op_DeliveryRequestID y = op_DeliveryRequestID x"
  by (cases x; cases y) (auto simp: sync_edit_def)

lemma DeriveImport_range:
  "DeriveImport s \<in> {ImportQueued, ImportInProgress, ImportComplete, ImportFailed, ImportNotStarted}"
  by (simp add: DeriveImport_def Let_def)

lemma sync_edit_imported:
  assumes "op_DeliveryRequestID x = d" and "\<not> keeps_import (op_ImportState x) (DeriveImport s)"
  shows "sync_edit d x (imported_as (DeriveImport s) u x)"
  using assms DeriveImport_range [of s]
  by (auto simp: sync_edit_def imported_as_def keeps_import_def import_progress_def deploy_progress_def)

text \<open>The operations after a sync: the rows before, each edited or not, then new ones.\<close>

definition synced_rows ::
  "nat \<Rightarrow> ArtifactTenantOperation list \<Rightarrow> ArtifactTenantOperation list \<Rightarrow> bool" where
  "synced_rows drID rows0 rows \<longleftrightarrow>
     distinct (map op_ID rows) \<and>
     (\<exists>ys zs. rows = ys @ zs \<and> list_all2 (sync_edit drID) rows0 ys \<and>
        (\<forall>z\<in>set zs. op_DeliveryRequestID z = drID \<and> op_RequestState z = RequestUnset))"

lemma synced_rows_refl: "distinct (map op_ID rows) \<Longrightarrow> synced_rows d rows rows"
  unfolding synced_rows_def by (auto simp: list_all2_refl intro: exI [of _ rows])

lemma sync_edits_ids: "list_all2 (sync_edit d) xs ys \<Longrightarrow> map op_ID ys = map op_ID xs"
  by (induction rule: list_all2_induct) (auto dest: sync_edit_ID)

lemma sync_edits_id_set: "list_all2 (sync_edit d) xs ys \<Longrightarrow> op_ID ` set ys = op_ID ` set xs"
  by (metis list.set_map sync_edits_ids)

lemma synced_rows_ids: "synced_rows d rows0 rows \<Longrightarrow> op_ID ` set rows0 \<subseteq> op_ID ` set rows"
  by (auto simp: synced_rows_def image_Un dest!: sync_edits_id_set)

lemma replace_ids: "op_ID y = i \<Longrightarrow> map op_ID (upd_where (\<lambda>x. op_ID x = i) (\<lambda>_. y) rows) = map op_ID rows"
  by (induction rows) auto

lemma synced_rows_update:
  assumes s: "synced_rows d rows0 rows" and d: "distinct (map op_ID rows0)"
    and x: "x \<in> set rows0" "sync_edit d x y" "op_ID y = op_ID x"
  shows "synced_rows d rows0 (upd_where (\<lambda>z. op_ID z = op_ID y) (\<lambda>_. y) rows)"
proof -
  obtain ys zs where rows: "rows = ys @ zs" "list_all2 (sync_edit d) rows0 ys"
      "\<forall>z\<in>set zs. op_DeliveryRequestID z = d \<and> op_RequestState z = RequestUnset"
    using s by (auto simp: synced_rows_def)
  let ?u = "upd_where (\<lambda>z. op_ID z = op_ID y) (\<lambda>_. y)"
  have "list_all2 (sync_edit d) rows0 (?u ys)"
    unfolding list_all2_conv_all_nth
  proof (intro conjI allI impI)
    show "length rows0 = length (?u ys)" using rows(2) by (simp add: list_all2_lengthD)
    show "sync_edit d (rows0 ! i) (?u ys ! i)" if i: "i < length rows0" for i
    proof -
      have e: "sync_edit d (rows0 ! i) (ys ! i)" using rows(2) i by (simp add: list_all2_nthD)
      have "rows0 ! i = x" if "op_ID (rows0 ! i) = op_ID x"
        using key_unique [OF d _ x(1) that] i by simp
      moreover have "?u ys ! i = (if op_ID (ys ! i) = op_ID y then y else ys ! i)"
        using i rows(2) by (simp add: upd_where_def list_all2_lengthD [symmetric])
      moreover have "op_ID (ys ! i) = op_ID (rows0 ! i)" using sync_edit_ID [OF e] by simp
      ultimately show ?thesis using e x(2,3) by (cases "op_ID (rows0 ! i) = op_ID x") simp_all
    qed
  qed
  moreover have "?u zs = zs"
  proof (rule upd_where_none)
    fix z assume "z \<in> set zs"
    have "op_ID y \<in> op_ID ` set ys"
      unfolding sync_edits_id_set [OF rows(2)] x(3) using x(1) by (rule imageI)
    moreover have "op_ID ` set ys \<inter> op_ID ` set zs = {}"
      using s by (simp add: synced_rows_def rows(1))
    ultimately show "op_ID z \<noteq> op_ID y"
      using imageI [OF \<open>z \<in> set zs\<close>, of op_ID] by auto
  qed
  moreover have "?u rows = ?u ys @ ?u zs" by (simp add: rows(1) upd_where_def)
  ultimately show ?thesis
    using rows(3) s unfolding synced_rows_def replace_ids [OF refl] by (intro conjI exI [of _ "?u ys"] exI [of _ zs]) auto
qed

lemma synced_rows_append:
  assumes "synced_rows d rows0 rows" and "op_ID z \<notin> op_ID ` set rows"
    and "op_DeliveryRequestID z = d" "op_RequestState z = RequestUnset"
  shows "synced_rows d rows0 (rows @ [z])"
proof -
  obtain ys zs where "rows = ys @ zs" "list_all2 (sync_edit d) rows0 ys"
      "\<forall>z\<in>set zs. op_DeliveryRequestID z = d \<and> op_RequestState z = RequestUnset"
    using assms(1) by (auto simp: synced_rows_def)
  with assms show ?thesis
    unfolding synced_rows_def by (intro conjI exI [of _ ys] exI [of _ "zs @ [z]"]) auto
qed

text \<open>The index holds operations of the request as they were read, or new ones without id.\<close>

definition index_ok :: "nat \<Rightarrow> ArtifactTenantOperation list \<Rightarrow> op_index \<Rightarrow> bool" where
  "index_ok d rows0 m \<longleftrightarrow> (\<forall>k x. m k = Some x \<longrightarrow> op_DeliveryRequestID x = d \<and>
     (x \<in> set rows0 \<and> op_ID x \<noteq> 0 \<or> op_ID x = 0 \<and> op_RequestState x = RequestUnset))"

lemma wp_save_new:
  assumes "op_ID x = 0" and "\<And>fs n. Q (Inl DbErr) (w\<lparr>faults := fs, next_id := n\<rparr>)"
    and "\<And>fs n i. op_ID ` set (db_ops w) \<inter> {i} = {} \<Longrightarrow>
           Q (Inr (x\<lparr>op_ID := i\<rparr>)) (db_ops_update (\<lambda>rs. rs @ [x\<lparr>op_ID := i\<rparr>]) (w\<lparr>faults := fs, next_id := n\<rparr>))"
  shows "wp (save_op x) Q w"
  unfolding save_op_def db_save_def if_P [OF assms(1)] wp_onerr
  by (rule ops_table.wp_create) (use assms in \<open>auto simp: wp_return\<close>)

lemma wp_queryTenantByNodeID:
  assumes "\<And>fs e. Q (Inl e) (w\<lparr>faults := fs\<rparr>)" and "\<And>fs t. t \<in> set (db_tenants w) \<Longrightarrow> Q (Inr t) (w\<lparr>faults := fs\<rparr>)"
  shows "wp (queryTenantByNodeID i) Q w"
  unfolding queryTenantByNodeID_def wp_onerr
  by (rule tenants_table.wp_first) (use assms in \<open>simp_all add: wp_return\<close>)

lemma wp_save_imported:
  assumes rows: "synced_rows d rows0 (db_ops w)" and d: "distinct (map op_ID rows0)"
    and x: "op_DeliveryRequestID x = d" "x \<in> set rows0 \<and> op_ID x \<noteq> 0 \<or> op_ID x = 0 \<and> op_RequestState x = RequestUnset"
    and n: "\<not> keeps_import (op_ImportState x) (DeriveImport s)"
    and Q: "\<And>r w'. \<lbrakk>synced_rows d rows0 (db_ops w')\<rbrakk> \<Longrightarrow> Q r w'"
  shows "wp (save_op (imported_as (DeriveImport s) u x)) Q w"
proof (cases "op_ID x = 0")
  case True
  let ?y = "imported_as (DeriveImport s) u x"
  have "synced_rows d rows0 (db_ops w @ [?y\<lparr>op_ID := i\<rparr>])" if "op_ID ` set (db_ops w) \<inter> {i} = {}" for i
    by (rule synced_rows_append [OF rows])
      (use that x True synced_rows_ids [OF rows] in \<open>auto simp: imported_as_def\<close>)
  then show ?thesis
    by (intro wp_save_new) (use True rows in \<open>auto simp: imported_as_def intro!: Q\<close>)
next
  case False
  let ?y = "imported_as (DeriveImport s) u x"
  have x0: "x \<in> set rows0" using False x(2) by simp
  have e: "sync_edit d x ?y" by (rule sync_edit_imported [OF x(1) n])
  have "synced_rows d rows0 (upd_where (\<lambda>z. op_ID z = op_ID ?y) (\<lambda>_. ?y) (db_ops w))"
    by (rule synced_rows_update [OF rows d x0 e]) (simp add: imported_as_def)
  moreover have "op_ID x \<in> op_ID ` set (db_ops w)" using synced_rows_ids [OF rows] x0 by blast
  then have "\<exists>z\<in>set (db_ops w). op_ID z = op_ID ?y" by (auto simp: imported_as_def image_iff)
  ultimately show ?thesis
    by (intro wp_save_op) (use False rows in \<open>auto simp: imported_as_def intro!: Q\<close>)
qed
text \<open>One node: the rows stay synced, the index stays good.\<close>

lemma new_target_sel [simp]:
  "op_ID (new_target_op op t u) = 0" "op_DeliveryRequestID (new_target_op op t u) = op_DeliveryRequestID op"
  "op_RequestState (new_target_op op t u) = RequestUnset"
  by (simp_all add: new_target_op_def zero_op_def)

lemma ops_kept_saved: "state_io_rel ops_kept (sync_saved env d l tr n st t x cs)"
  unfolding sync_saved_def PostJiraComment_def spawn_def Let_def
  by (intro pres_intro) (simp_all add: ops_kept_def)

definition pass_ok ::
  "nat \<Rightarrow> ArtifactTenantOperation list \<Rightarrow> Condition list + Condition list \<times> op_index \<Rightarrow> world \<Rightarrow> bool" where
  "pass_ok d rows0 r w \<longleftrightarrow> synced_rows d rows0 (db_ops w) \<and>
     (case r of Inl _ \<Rightarrow> True | Inr (_, m) \<Rightarrow> index_ok d rows0 m)"

lemma sync_node_pass:
  assumes ok: "pass_ok d rows0 (Inr s) w" and d: "distinct (map op_ID rows0)" and op: "op_DeliveryRequestID op = d"
  shows "wp (sync_node env d l ns u op p s) (pass_ok d rows0) w"
proof -
  obtain n st cs m where ps: "p = (n, st)" "s = (cs, m)" by (cases p; cases s)
  have rows: "synced_rows d rows0 (db_ops w)" and idx: "index_ok d rows0 m"
    using ok by (simp_all add: pass_ok_def ps)
  show ?thesis
  proof (cases "n \<in> set ns")
    case False
    then show ?thesis using rows idx by (simp add: sync_node_def ps pass_ok_def wp_return)
  next
    case True
    then have n: "\<not> n \<notin> set ns" by simp
    show ?thesis
      unfolding sync_node_def ps prod.case Let_def if_not_P [OF n] wp_bind
      apply (rule wp_queryTenantByNodeID)
      subgoal using rows idx by (simp add: pass_ok_def wp_return)
      subgoal premises t for fs t
      proof -
        let ?k = "(tn_ID t, op_TransportRequestNumber op)"
        let ?x = "case m ?k of None \<Rightarrow> new_target_op op (tn_ID t) u | Some x \<Rightarrow> x"
        have x: "op_DeliveryRequestID ?x = d"
            "?x \<in> set rows0 \<and> op_ID ?x \<noteq> 0 \<or> op_ID ?x = 0 \<and> op_RequestState ?x = RequestUnset"
          using idx op by (auto simp: index_ok_def split: option.split)
        then have i: "index_ok d rows0 (m(?k \<mapsto> ?x))" using idx by (auto simp: index_ok_def)
        have rows': "synced_rows d rows0 (db_ops (w\<lparr>faults := fs\<rparr>))" using rows by simp
        show ?thesis
        proof (cases "keeps_import (op_ImportState ?x) (DeriveImport (tns_Status st))")
          case True
          then show ?thesis using rows i by (simp add: pass_ok_def wp_return)
        next
          case False
          show ?thesis
            unfolding sum.case if_not_P [OF False] wp_onerr
          proof (rule wp_save_imported [OF rows' d x False])
            fix r :: "gerr + ArtifactTenantOperation" and w' :: world
            assume r: "synced_rows d rows0 (db_ops w')"
            show "case r of Inl e \<Rightarrow> pass_ok d rows0 (Inl (f e)) w'
              | Inr x \<Rightarrow> wp (sync_saved env d l tr n st t x cs \<bind> (\<lambda>cs'. done_with (cs', m(?k \<mapsto> ?x)))) (pass_ok d rows0) w'"
              for f tr
            proof (cases r)
              case (Inr y)
              show ?thesis
                unfolding Inr sum.case wp_bind
                by (rule wp_rel [OF ops_kept_saved]) (use r i in \<open>simp add: pass_ok_def ops_kept_def wp_return\<close>)
            qed (use r in \<open>simp add: pass_ok_def\<close>)
          qed
        qed
      qed
      done
  qed
qed

lemma sync_tr_pass:
  assumes d: "distinct (map op_ID rows0)" and p: "op_DeliveryRequestID (fst p) = d"
    and s: "s = (upd, cs, m)" and ok: "pass_ok d rows0 (Inr (cs, m)) w"
  shows "wp (sync_tr env d l ns u st p s) (\<lambda>r w'. case r of
      Inl e \<Rightarrow> pass_ok d rows0 (Inl e) w' | Inr (_, cs', m') \<Rightarrow> pass_ok d rows0 (Inr (cs', m')) w') w"
proof -
  obtain op t where op: "p = (op, t)" by fastforce
  show ?thesis
  proof (cases "op_TransportRequestNumber op \<in> set upd")
    case True
    then show ?thesis using ok by (simp add: sync_tr_def op s wp_return)
  next
    case False
    show ?thesis
      unfolding sync_tr_def op s prod.case Let_def if_not_P [OF False] wp_onerr
      apply (rule wp_loopE [where I = "\<lambda>_ s w'. pass_ok d rows0 (Inr s) w'"])
      subgoal using ok .
      subgoal for x seen s1 w1
        by (rule wp_mono [OF sync_node_pass [OF _ d]]) (use p op in \<open>auto simp: pass_ok_def split: sum.splits\<close>)
      subgoal for s1 w1 by (cases s1) (simp add: wp_return)
      done
  qed
qed

text \<open>The index at the start holds operations of the request.\<close>

lemma index_start:
  assumes "\<forall>p\<in>set os. fst p \<in> set rows0 \<and> op_ID (fst p) \<noteq> 0 \<and> op_DeliveryRequestID (fst p) = d"
    and "index_ok d rows0 m"
  shows "index_ok d rows0 (fold index_step os m)"
  using assms
proof (induction os arbitrary: m)
  case (Cons p os)
  have "index_ok d rows0 (index_step p m)"
    using Cons.prems by (cases p) (auto simp: index_step_def Let_def index_ok_def)
  then show ?case using Cons by simp
qed simp

definition dr_ops :: "world \<Rightarrow> nat \<Rightarrow> (ArtifactTenantOperation \<times> CpiTenant) list" where
  "dr_ops w drID = map (\<lambda>op. (op, tenant_of w (op_TenantID op))) (ops_of w drID)"

lemma wp_queryOpsInDr:
  assumes "d \<noteq> 0" and "\<And>fs e. Q (Inl e) (w\<lparr>faults := fs\<rparr>)"
    and "\<And>fs. Q (Inr (dr_ops w d)) (w\<lparr>faults := fs\<rparr>)"
  shows "wp (queryOpsInDrWithAcc d) Q w"
  unfolding queryOpsInDrWithAcc_def wp_onerr
  by (rule wp_query) (use assms in \<open>simp_all add: wp_return wp_if dr_ops_def ops_of_def\<close>)

lemma syncImportState_rows:
  assumes ids: "op_ids_ok w" and d: "d \<noteq> 0"
  shows "wp (syncImportState env d u) (\<lambda>r w'. synced_rows d (db_ops w) (db_ops w')) w"
proof -
  have d0: "distinct (map op_ID (db_ops w))" using ids by (simp add: op_ids_ok_def)
  note refl0 = synced_rows_refl [OF d0]
  have ops: "fst p \<in> set (db_ops w)" "op_ID (fst p) \<noteq> 0" "op_DeliveryRequestID (fst p) = d"
    if "p \<in> set (dr_ops w d)" for p
    using that ids by (force simp: dr_ops_def ops_of_def op_ids_ok_def)+
  show ?thesis
    unfolding syncImportState_def wp_bind
    apply (rule wp_queryOpsInDr [OF d])
    subgoal using refl0 by (simp add: wp_return)
    subgoal premises q for fs
      unfolding sum.case wp_bind
      apply (rule wp_load)
      subgoal by (simp split: option.split)
      subgoal using refl0 by (simp add: wp_return)
      subgoal premises l for fs'
      proof (cases "dr_lookup w d")
        case None
        then show ?thesis using refl0 by (simp add: wp_return)
      next
        case (Some dr)
        obtain st cs where f: "fold (fetch_step env d) (dr_ops w d) (Map.empty, []) = (st, cs)" by fastforce
        show ?thesis
        proof (cases "TmsSvc env")
          case (Inl e)
          then show ?thesis using refl0 Some by (simp add: wp_return)
        next
          case (Inr a)
          let ?i = "fold index_step (dr_ops w d) Map.empty"
          have i0: "index_ok d (db_ops w) ?i"
            by (rule index_start) (use ops in \<open>auto simp: index_ok_def\<close>)
          show ?thesis
            using Some
            apply (simp add: Inr f Let_def wp_bind wp_return)
            apply (rule wp_loopE [where I = "\<lambda>_ (upd, cs, m) w'. pass_ok d (db_ops w) (Inr (cs, m)) w'"])
            subgoal using refl0 i0 by (simp add: pass_ok_def)
            subgoal for x seen s w1
              by (cases s) (auto intro!: wp_mono [OF sync_tr_pass [OF d0 ops(3) refl]] simp: pass_ok_def wp_return split: sum.splits)
            subgoal by (auto simp: pass_ok_def wp_return)
            done
        qed
      qed
      done
    done
qed

text \<open>The deploy pass edits operations in deployment only.\<close>

definition deploy_edit :: "nat \<Rightarrow> ArtifactTenantOperation \<Rightarrow> ArtifactTenantOperation \<Rightarrow> bool" where
  "deploy_edit d x y \<longleftrightarrow> y = x \<or> op_DeliveryRequestID x = d \<and> op_DeployState x = DeployInProgress \<and>
     (\<exists>s\<in>{DeployInProgress, DeployComplete, DeployFailed}. y = x\<lparr>op_DeployState := s\<rparr>)"

lemma deploy_sync_edit: "deploy_edit d x y \<Longrightarrow> sync_edit d x y"
  by (cases x) (auto simp: deploy_edit_def sync_edit_def import_progress_def deploy_progress_def)

lemma sync_deploy_edit: "\<lbrakk>sync_edit d x y; deploy_edit d y z\<rbrakk> \<Longrightarrow> sync_edit d x z"
  by (cases x; cases y; cases z)
    (auto simp: deploy_edit_def sync_edit_def import_progress_def deploy_progress_def)

lemma deploy_edit_same:
  "deploy_edit d x y \<Longrightarrow> op_DeliveryRequestID y = op_DeliveryRequestID x \<and> op_RequestState y = op_RequestState x"
  by (auto simp: deploy_edit_def)

lemma deploy_edit_ID: "deploy_edit d x y \<Longrightarrow> op_ID y = op_ID x"
  by (auto simp: deploy_edit_def)

lemma deploy_edits_ids: "list_all2 (deploy_edit d) xs ys \<Longrightarrow> map op_ID ys = map op_ID xs"
  by (induction rule: list_all2_induct) (auto dest: deploy_edit_ID)

lemma deploy_edit_again:
  assumes "deploy_edit d x y" and "op_DeliveryRequestID x = d" "op_DeployState x = DeployInProgress"
    and "s \<in> {DeployUnset, DeployInProgress, DeployComplete, DeployFailed}"
  shows "deploy_edit d x (y\<lparr>op_DeployState := nz DeployUnset s (op_DeployState y)\<rparr>)"
proof -
  have "\<exists>s'\<in>{DeployInProgress, DeployComplete, DeployFailed}. y = x\<lparr>op_DeployState := s'\<rparr>"
    using assms(1,3) by (cases x) (auto simp: deploy_edit_def)
  then obtain s' where s': "s' \<in> {DeployInProgress, DeployComplete, DeployFailed}" "y = x\<lparr>op_DeployState := s'\<rparr>"
    by blast
  have "nz DeployUnset s s' \<in> {DeployInProgress, DeployComplete, DeployFailed}"
    using s'(1) assms(4) by (auto simp: nz_def)
  then show ?thesis
    unfolding deploy_edit_def s'(2) using assms(2,3)
    by (intro disjI2 conjI bexI [of _ "nz DeployUnset s s'"]) simp_all
qed

lemma deploy_edits_set:
  assumes "list_all2 (deploy_edit d) xs ys" and "distinct (map op_ID xs)" and "x \<in> set xs"
    and "op_DeliveryRequestID x = d" "op_DeployState x = DeployInProgress"
    and "s \<in> {DeployUnset, DeployInProgress, DeployComplete, DeployFailed}"
  shows "list_all2 (deploy_edit d) xs
    (upd_where (\<lambda>z. op_ID z = op_ID x) (\<lambda>z. z\<lparr>op_DeployState := nz DeployUnset s (op_DeployState z)\<rparr>) ys)"
  unfolding list_all2_conv_all_nth
proof (intro conjI allI impI)
  show "length xs = length (upd_where (\<lambda>z. op_ID z = op_ID x)
      (\<lambda>z. z\<lparr>op_DeployState := nz DeployUnset s (op_DeployState z)\<rparr>) ys)"
    using assms(1) by (simp add: list_all2_lengthD)
  fix i assume i: "i < length xs"
  have e: "deploy_edit d (xs ! i) (ys ! i)" using assms(1) i by (simp add: list_all2_nthD)
  have same: "xs ! i = x" if "op_ID (ys ! i) = op_ID x"
    using key_unique [OF assms(2) _ assms(3), of "xs ! i"] i deploy_edit_ID [OF e] that by simp
  have nth: "upd_where P f ys ! i = (if P (ys ! i) then f (ys ! i) else ys ! i)" for P f
    using i assms(1) by (simp add: upd_where_def list_all2_lengthD [symmetric])
  show "deploy_edit d (xs ! i) (upd_where (\<lambda>z. op_ID z = op_ID x)
      (\<lambda>z. z\<lparr>op_DeployState := nz DeployUnset s (op_DeployState z)\<rparr>) ys ! i)"
  proof (cases "op_ID (ys ! i) = op_ID x")
    case True
    have "deploy_edit d x (ys ! i)" using e same [OF True] by simp
    from deploy_edit_again [OF this assms(4-6)] show ?thesis
      unfolding nth if_P [OF True] same [OF True] .
  qed (simp add: nth e)
qed

lemma runtime_state_range: "runtime_state s \<in> {DeployUnset, DeployInProgress, DeployComplete, DeployFailed}"
  by (simp add: runtime_state_def)

lemma ops_kept_jira [pres_intro]: "state_io_rel ops_kept (PostJiraComment l d m st)"
  unfolding PostJiraComment_def spawn_def Let_def by (intro pres_intro) (simp add: ops_kept_def)

lemma wp_set_deploy:
  assumes "\<And>fs r. Q r (w\<lparr>faults := fs\<rparr>)"
    and "\<And>fs r. Q r (db_ops_update (upd_where (\<lambda>z. op_ID z = op_ID x)
            (\<lambda>z. z\<lparr>op_DeployState := nz DeployUnset s (op_DeployState z)\<rparr>)) w\<lparr>faults := fs\<rparr>)"
  shows "wp (set_deploy x s) Q w"
  unfolding set_deploy_def by (rule ops_table.wp_update) (use assms in simp_all)

lemma sync_deploy_op_edits:
  assumes rows: "list_all2 (deploy_edit d) rows0 (db_ops w)" and d0: "distinct (map op_ID rows0)"
    and op: "fst p \<in> set rows0" "op_DeliveryRequestID (fst p) = d"
  shows "wp (sync_deploy_op env d l p cs) (\<lambda>r w'. list_all2 (deploy_edit d) rows0 (db_ops w')) w"
proof -
  obtain x t where p: "p = (x, t)" by fastforce
  let ?Q = "\<lambda>w'. list_all2 (deploy_edit d) rows0 (db_ops w')"
  have set_ok: "wp (set_deploy x s \<bind> k) (\<lambda>r w'. ?Q w') w"
    if k: "\<And>r. state_io_rel ops_kept (k r)" and x: "op_DeployState x = DeployInProgress"
      and s: "s \<in> {DeployUnset, DeployInProgress, DeployComplete, DeployFailed}" for s k
    unfolding wp_bind
    by (rule wp_set_deploy; rule wp_rel [OF k])
      (use rows deploy_edits_set [OF rows d0 _ _ x s] op p in \<open>auto simp: ops_kept_def\<close>)
  show ?thesis
  proof (cases "op_DeployState x = DeployInProgress")
    case False
    then show ?thesis using rows by (simp add: sync_deploy_op_def p wp_return)
  next
    case True
    then have x: "\<not> op_DeployState x \<noteq> DeployInProgress" by simp
    show ?thesis
      unfolding sync_deploy_op_def p prod.case Let_def if_not_P [OF x] wp_sum wp_if
      using rows runtime_state_range
      by (auto simp: wp_return split: sum.split intro!: set_ok [OF _ True] pres_intro)
  qed
qed

lemma syncDeployState_rows:
  assumes d0: "distinct (map op_ID (db_ops w))" and d: "d \<noteq> 0"
  shows "wp (syncDeployState env d) (\<lambda>r w'. list_all2 (deploy_edit d) (db_ops w) (db_ops w')) w"
proof -
  have refl0: "list_all2 (deploy_edit d) (db_ops w) (db_ops w)"
    by (simp add: list_all2_refl deploy_edit_def)
  have loop: "wp (loop (sync_deploy_op env d l) (dr_ops w d) []) (\<lambda>r w'. list_all2 (deploy_edit d) (db_ops w) (db_ops w')) v"
    if "db_ops v = db_ops w" for l v
  proof (rule wp_loop [where I = "\<lambda>_ _ w'. list_all2 (deploy_edit d) (db_ops w) (db_ops w')"])
    fix p s and w1 :: world
    assume "list_all2 (deploy_edit d) (db_ops w) (db_ops w1)" "p \<in> set (dr_ops w d)"
    then show "wp (sync_deploy_op env d l p s) (\<lambda>s' w'. list_all2 (deploy_edit d) (db_ops w) (db_ops w')) w1"
      by (intro sync_deploy_op_edits d0) (auto simp: dr_ops_def ops_of_def)
  qed (use that refl0 in simp_all)
  show ?thesis
    unfolding syncDeployState_def wp_bind
    apply (rule wp_queryOpsInDr [OF d])
    subgoal using refl0 by (simp add: wp_return)
    subgoal unfolding sum.case wp_bind Let_def by (rule drs_table.wp_first; rule loop; simp)
    done
qed

lemma sync_body_rows:
  assumes ids: "op_ids_ok w" and d: "drID \<noteq> 0"
  shows "wp (sync_body env drID u) (\<lambda>r w'. synced_rows drID (db_ops w) (db_ops w')) w"
proof -
  have refl0: "synced_rows drID (db_ops w) (db_ops w)"
    using ids by (intro synced_rows_refl) (simp add: op_ids_ok_def)
  have kept: "state_io_rel ops_kept (insert_if_any cs)" for cs
    unfolding insert_if_any_def by (intro pres_intro ops_kept_bg)
  have compose: "synced_rows drID rows0 rows2"
    if sr: "synced_rows drID rows0 rows1" and de: "list_all2 (deploy_edit drID) rows1 rows2" for rows0 rows1 rows2
  proof -
    obtain ys zs where 1: "rows1 = ys @ zs" "list_all2 (sync_edit drID) rows0 ys"
        "\<forall>z\<in>set zs. op_DeliveryRequestID z = drID \<and> op_RequestState z = RequestUnset"
      using sr by (auto simp: synced_rows_def)
    then obtain ys2 zs2 where 2: "rows2 = ys2 @ zs2" "list_all2 (deploy_edit drID) ys ys2"
        "list_all2 (deploy_edit drID) zs zs2"
      using de by (auto simp: list_all2_append1)
    have "list_all2 (sync_edit drID) rows0 ys2"
      using 1(2) 2(2) by (rule list_all2_trans [rotated]) (rule sync_deploy_edit)
    moreover have "\<forall>z\<in>set zs2. op_DeliveryRequestID z = drID \<and> op_RequestState z = RequestUnset"
      using all_list_all2 [OF 2(3)] 1(3) by (metis (no_types, lifting) deploy_edit_same)
    moreover have "distinct (map op_ID rows2)"
      using sr deploy_edits_ids [OF de] by (simp add: synced_rows_def)
    ultimately show ?thesis using 2(1) by (auto simp: synced_rows_def)
  qed
  show ?thesis
    unfolding sync_body_def wp_onerr
    apply (rule drs_table.wp_first)
    subgoal using refl0 by simp
    subgoal using refl0 by simp
    subgoal premises dr for fs dr
    proof -
      have run: "wp (do {
           importConditions \<leftarrow> syncImportState env drID u;
           _ \<leftarrow> insert_if_any importConditions;
           deployConditions \<leftarrow> syncDeployState env drID;
           _ \<leftarrow> insert_if_any deployConditions;
           (done_with () :: (gerr + unit) prog)
         }) (\<lambda>r w'. synced_rows drID (db_ops w) (db_ops w')) (w\<lparr>faults := fs\<rparr>)"
        unfolding wp_bind
        apply (rule wp_mono [OF syncImportState_rows [OF _ d]])
        subgoal using ids by (simp add: op_ids_ok_def)
        subgoal premises i for r w1
          apply (rule wp_rel [OF kept])
          apply (rule wp_mono [OF syncDeployState_rows [OF _ d]])
          subgoal using i by (simp add: ops_kept_def synced_rows_def)
          subgoal
            by (rule wp_rel [OF kept]) (use i in \<open>auto simp: wp_return ops_kept_def intro: compose\<close>)
          done
        done
      show ?thesis using refl0 run by (simp add: wp_if wp_return)
    qed
    done
qed

lemma ops_kept_determine [pres_intro]: "state_io_rel ops_kept (DetermineOverallStatus d)"
  by (rule bg_ops [OF bg_determine])

lemma ops_kept_snapshot [pres_intro]: "state_io_rel ops_kept (captureDrSnapshot d)"
  unfolding captureDrSnapshot_def Let_def by (intro pres_intro)

lemma sync_locked_rows:
  assumes "op_ids_ok w" and "drID \<noteq> 0"
  shows "wp (sync_locked env drID u) (\<lambda>r w'. synced_rows drID (db_ops w) (db_ops w')) w"
proof -
  have rest: "state_io_rel ops_kept (do {
     _ \<leftarrow> DetermineOverallStatus drID;
     after \<leftarrow> captureDrSnapshot drID;
     _ \<leftarrow> (if snapshot_changed before after then NotifyDrUpdated drID else State_Monad.return ());
     State_Monad.return r
   })" for before r
    by (intro pres_intro ops_kept_bg)
  show ?thesis
    unfolding sync_locked_def wp_bind [of "captureDrSnapshot drID"] wp_bind [of "sync_body env drID u"]
    apply (rule wp_rel [OF ops_kept_snapshot])
    apply (rule wp_mono [OF sync_body_rows [OF _ assms(2)]])
    subgoal using assms(1) by (simp add: ops_kept_def op_ids_ok_def)
    subgoal by (rule wp_rel [OF rest]) (simp add: ops_kept_def)
    done
qed

lemma SyncDeliveryStatus_rows:
  assumes "op_ids_ok w" and "drID \<noteq> 0"
  shows "wp (SyncDeliveryStatus env drID u) (\<lambda>r w'. synced_rows drID (db_ops w) (db_ops w')) w"
proof (rule SyncDeliveryStatus_wp)
  show "synced_rows drID (db_ops w) (db_ops w)"
    using assms(1) by (intro synced_rows_refl) (simp add: op_ids_ok_def)
  have "wp (sync_locked env drID u) (\<lambda>r w'. synced_rows drID (db_ops w) (db_ops w'))
      (w\<lparr>syncLocks := insert drID (syncLocks w)\<rparr>)"
    using sync_locked_rows [OF _ assms(2), of "w\<lparr>syncLocks := insert drID (syncLocks w)\<rparr>"] assms(1)
    by (simp add: op_ids_ok_def)
  then show "wp (sync_locked env drID u) (\<lambda>r w1. synced_rows drID (db_ops w) (db_ops (w1\<lparr>syncLocks := syncLocks w\<rparr>)))
      (w\<lparr>syncLocks := insert drID (syncLocks w)\<rparr>)" by simp
qed
section \<open>Refused syncs\<close>

text \<open>A program that only reads changes the fault schedule at most.\<close>

definition reads_only :: "world \<Rightarrow> world \<Rightarrow> bool" where
  "reads_only w w' \<longleftrightarrow> (\<exists>fs. w' = w\<lparr>faults := fs\<rparr>)"

interpretation reads: kept_relation reads_only
proof
  show "reads_only w w" for w by (auto simp: reads_only_def intro: exI [of _ "faults w"])
qed (auto simp: reads_only_def)

lemma reads_snapshot: "state_io_rel reads_only (captureDrSnapshot d)"
  unfolding captureDrSnapshot_def Let_def by (intro pres_intro)

lemma wp_reads: "\<lbrakk>state_io_rel reads_only m; \<And>fs r. Q r (w\<lparr>faults := fs\<rparr>)\<rbrakk> \<Longrightarrow> wp m Q w"
  by (erule wp_rel) (auto simp: reads_only_def)

definition syncable :: "world \<Rightarrow> nat \<Rightarrow> bool" where
  "syncable w drID \<longleftrightarrow> (\<exists>dr. dr_lookup w drID = Some dr \<and> dr_ApprovedAt dr \<noteq> None \<and>
     dr_ApprovedBy dr \<noteq> [] \<and> dr_AggregateStatus dr \<noteq> AggCanceled)"

text \<open>What a refused sync may leave behind: the status of its request derived anew and, when the
  snapshots differ, one event for it.\<close>

definition status_derived :: "nat \<Rightarrow> world \<Rightarrow> DeliveryRequest list \<Rightarrow> bool" where
  "status_derived drID w rows \<longleftrightarrow> rows = db_drs w \<or>
     (\<exists>dr. dr_lookup w drID = Some dr \<and> dr_AggregateStatus dr \<noteq> AggCanceled \<and>
        rows = upd_where (\<lambda>d. dr_ID d = drID)
                 (\<lambda>d. d\<lparr>dr_AggregateStatus := derived_status dr (ops_of w drID)\<rparr>) (db_drs w))"

definition refused_since :: "nat \<Rightarrow> world \<Rightarrow> world \<Rightarrow> bool" where
  "refused_since drID w w' \<longleftrightarrow>
     w' = w\<lparr>faults := faults w', db_drs := db_drs w', hub := hub w'\<rparr> \<and> status_derived drID w (db_drs w') \<and>
     hub w' \<in> {hub w, map_option (\<lambda>h. snd (PublishDrEvent drID (DrUpdated drID) h)) (hub w)}"

lemma world_drs_faults:
  "db_drs_update f w\<lparr>faults := fs\<rparr> = w\<lparr>faults := fs, db_drs := f (db_drs w)\<rparr>"
  by (cases w) simp

lemma refused_sinceI:
  assumes "status_derived d w rows"
    and "h \<in> {hub w, map_option (\<lambda>h. snd (PublishDrEvent d (DrUpdated d) h)) (hub w)}"
  shows "refused_since d w (w\<lparr>faults := fs, db_drs := rows, hub := h\<rparr>)"
  using assms by (simp add: refused_since_def)

lemma refused_sinceE:
  assumes "refused_since d w w'"
  obtains fs rows h where "w' = w\<lparr>faults := fs, db_drs := rows, hub := h\<rparr>" "status_derived d w rows"
    "h \<in> {hub w, map_option (\<lambda>h. snd (PublishDrEvent d (DrUpdated d) h)) (hub w)}"
  using assms that unfolding refused_since_def by blast

lemma published_hub: "published d w = w\<lparr>hub := map_option (\<lambda>h. snd (PublishDrEvent d (DrUpdated d) h)) (hub w)\<rparr>"
  by (cases "hub w") (simp_all add: published_def)

lemma status_derived_faults [simp]: "status_derived d (w\<lparr>faults := fs\<rparr>) rows = status_derived d w rows"
  by (simp add: status_derived_def dr_lookup_def ops_of_def)

lemma determine_derived:
  assumes "\<And>r fs rows. status_derived d w rows \<Longrightarrow> Q r (w\<lparr>faults := fs, db_drs := rows\<rparr>)"
  shows "wp (DetermineOverallStatus d) Q w"
proof (rule DetermineOverallStatus_wp)
  show "Q r (w\<lparr>faults := fs\<rparr>)" for fs r
    using assms [of "db_drs w" r fs] by (simp add: status_derived_def)
  show "Q r (db_drs_update (upd_where (\<lambda>d'. dr_ID d' = d)
          (\<lambda>d'. d'\<lparr>dr_AggregateStatus := derived_status dr (ops_of w d)\<rparr>)) w\<lparr>faults := fs\<rparr>)"
    if "dr_lookup w d = Some dr" "dr_AggregateStatus dr \<noteq> AggCanceled" for fs r dr
    using assms [of "upd_where (\<lambda>d'. dr_ID d' = d)
          (\<lambda>d'. d'\<lparr>dr_AggregateStatus := derived_status dr (ops_of w d)\<rparr>) (db_drs w)" r fs] that
    unfolding world_drs_faults by (auto simp: status_derived_def)
qed

lemma sync_body_refused:
  "wp (sync_body env drID u) (\<lambda>r w'. case r of
      Inl e \<Rightarrow> e \<noteq> ErrSyncAlreadyInProgress \<and> (\<exists>fs. w' = w\<lparr>faults := fs\<rparr>) | Inr _ \<Rightarrow> syncable w drID) w"
  unfolding sync_body_def wp_onerr
  apply (rule drs_table.wp_first)
  subgoal by (auto simp: ErrSyncAlreadyInProgress_def)
  subgoal by (auto simp: ErrSyncAlreadyInProgress_def)
  subgoal premises dr for fs dr
  proof (cases "syncable w drID")
    case True
    then have s: "dr_ApprovedAt dr \<noteq> None" "dr_ApprovedBy dr \<noteq> []" "dr_AggregateStatus dr \<noteq> AggCanceled"
      using dr(1) by (auto simp: syncable_def dr_lookup_def)
    then show ?thesis
      using True s by (auto simp: wp_run_state State_Monad.bind_def split: prod.split)
  next
    case False
    then show ?thesis
      using dr(1) by (auto simp: wp_simps syncable_def dr_lookup_def ErrSyncAlreadyInProgress_def)
  qed
  done

lemma sync_deferred_refused:
  "wp (do {
     _ \<leftarrow> DetermineOverallStatus drID;
     after \<leftarrow> captureDrSnapshot drID;
     _ \<leftarrow> (if snapshot_changed before after then NotifyDrUpdated drID else State_Monad.return ());
     State_Monad.return r
   }) (\<lambda>r' w'. r' = r \<and> refused_since drID v w') v"
  unfolding wp_bind wp_if wp_return
proof (rule determine_derived, rule wp_reads [OF reads_snapshot])
  fix r' fs rows fs' after assume r: "status_derived drID v rows"
  let ?v = "v\<lparr>faults := fs', db_drs := rows\<rparr>"
  have r': "refused_since drID v (?v\<lparr>hub := h\<rparr>)"
    if "h \<in> {hub v, map_option (\<lambda>h. snd (PublishDrEvent drID (DrUpdated drID) h)) (hub v)}" for h
    using refused_sinceI [OF r that] by simp
  have e: "v\<lparr>faults := fs, db_drs := rows, faults := fs'\<rparr> = ?v" by (cases v) simp
  from r' [of "hub v"] r' [of "hub (published drID ?v)"]
  show "if snapshot_changed before after
    then wp (NotifyDrUpdated drID) (\<lambda>x. (\<lambda>r' w'. r' = r \<and> refused_since drID v w') r)
           (v\<lparr>faults := fs, db_drs := rows, faults := fs'\<rparr>)
    else r = r \<and> refused_since drID v (v\<lparr>faults := fs, db_drs := rows, faults := fs'\<rparr>)"
    unfolding e by (simp add: wp_notify published_hub)
qed

lemma sync_deferred_result:
  "wp (do {
     _ \<leftarrow> DetermineOverallStatus drID;
     after \<leftarrow> captureDrSnapshot drID;
     _ \<leftarrow> (if snapshot_changed before after then NotifyDrUpdated drID else State_Monad.return ());
     State_Monad.return r
   }) (\<lambda>r' w'. r' = r) v"
  by (rule wp_mono [OF sync_deferred_refused]) simp

lemma refused_since_lock:
  assumes "refused_since d (w\<lparr>syncLocks := L, faults := fs\<rparr>) w'"
  shows "refused_since d w (w'\<lparr>syncLocks := syncLocks w\<rparr>)"
  using assms
proof (rule refused_sinceE)
  fix fs' rows h
  assume "w' = w\<lparr>syncLocks := L, faults := fs\<rparr>\<lparr>faults := fs', db_drs := rows, hub := h\<rparr>"
  then have "w'\<lparr>syncLocks := syncLocks w\<rparr> = w\<lparr>faults := fs', db_drs := rows, hub := h\<rparr>" by simp
  moreover assume "status_derived d (w\<lparr>syncLocks := L, faults := fs\<rparr>) rows"
    "h \<in> {hub (w\<lparr>syncLocks := L, faults := fs\<rparr>),
      map_option (\<lambda>h. snd (PublishDrEvent d (DrUpdated d) h)) (hub (w\<lparr>syncLocks := L, faults := fs\<rparr>))}"
  ultimately show ?thesis
    using refused_sinceI [of d w rows h fs'] by (simp add: status_derived_def dr_lookup_def ops_of_def)
qed

lemma SyncDeliveryStatus_refuse_wp:
  "wp (SyncDeliveryStatus env drID u) (\<lambda>r w'.
      if drID \<in> syncLocks w then r = Inl ErrSyncAlreadyInProgress \<and> w' = w
      else case r of
        Inl e \<Rightarrow> e \<noteq> ErrSyncAlreadyInProgress \<and> refused_since drID w w'
      | Inr _ \<Rightarrow> syncable w drID) w"
proof (rule SyncDeliveryStatus_wp)
  let ?l = "w\<lparr>syncLocks := insert drID (syncLocks w)\<rparr>"
  assume free: "drID \<notin> syncLocks w"
  have "wp (sync_locked env drID u) (\<lambda>r w1. case r of
      Inl e \<Rightarrow> e \<noteq> ErrSyncAlreadyInProgress \<and> (\<exists>fs. refused_since drID (?l\<lparr>faults := fs\<rparr>) w1)
    | Inr _ \<Rightarrow> syncable w drID) ?l"
    unfolding sync_locked_def wp_bind [of "captureDrSnapshot drID"] wp_bind [of "sync_body env drID u"]
    apply (rule wp_reads [OF reads_snapshot])
    apply (rule wp_mono [OF sync_body_refused])
    subgoal for fs before r w1
    proof (cases r)
      case (Inl e)
      assume "case r of Inl e \<Rightarrow> e \<noteq> ErrSyncAlreadyInProgress \<and> (\<exists>fs'. w1 = ?l\<lparr>faults := fs, faults := fs'\<rparr>)
        | Inr _ \<Rightarrow> syncable (?l\<lparr>faults := fs\<rparr>) drID"
      with Inl obtain fs' where "e \<noteq> ErrSyncAlreadyInProgress" "w1 = ?l\<lparr>faults := fs'\<rparr>" by auto
      then show ?thesis
        using Inl by (intro wp_mono [OF sync_deferred_refused [of drID before r w1]]) auto
    next
      case (Inr x)
      assume "case r of Inl e \<Rightarrow> e \<noteq> ErrSyncAlreadyInProgress \<and> (\<exists>fs'. w1 = ?l\<lparr>faults := fs, faults := fs'\<rparr>)
        | Inr _ \<Rightarrow> syncable (?l\<lparr>faults := fs\<rparr>) drID"
      with Inr have "syncable w drID" by (simp add: syncable_def dr_lookup_def)
      then show ?thesis
        using Inr by (intro wp_mono [OF sync_deferred_result [of drID before r w1]]) auto
    qed
    done
  then show "wp (sync_locked env drID u) (\<lambda>r w1.
      if drID \<in> syncLocks w
      then r = Inl ErrSyncAlreadyInProgress \<and> w1\<lparr>syncLocks := syncLocks w\<rparr> = w
      else case r of
        Inl e \<Rightarrow> e \<noteq> ErrSyncAlreadyInProgress \<and> refused_since drID w (w1\<lparr>syncLocks := syncLocks w\<rparr>)
      | Inr _ \<Rightarrow> syncable w drID) ?l"
  proof (rule wp_mono)
    fix r w1
    assume "case r of Inl e \<Rightarrow> e \<noteq> ErrSyncAlreadyInProgress \<and> (\<exists>fs. refused_since drID (?l\<lparr>faults := fs\<rparr>) w1)
      | Inr _ \<Rightarrow> syncable w drID"
    then show "if drID \<in> syncLocks w
      then r = Inl ErrSyncAlreadyInProgress \<and> w1\<lparr>syncLocks := syncLocks w\<rparr> = w
      else case r of
        Inl e \<Rightarrow> e \<noteq> ErrSyncAlreadyInProgress \<and> refused_since drID w (w1\<lparr>syncLocks := syncLocks w\<rparr>)
      | Inr _ \<Rightarrow> syncable w drID"
      using free refused_since_lock [of drID _ _ w w1]
      by (cases r) auto
  qed
qed simp
section \<open>Deploy states as a function of the answers\<close>

text \<open>Abstract reading of the deploy pass: the state of an operation after it, given CPI's answer.\<close>

definition observed_deploy :: "env \<Rightarrow> ArtifactTenantOperation \<Rightarrow> CpiTenant \<Rightarrow> DeployState" where
  "observed_deploy env op t =
     (if op_DeployState op \<noteq> DeployInProgress \<or> isl (CPI env (tn_PirApiDestinationName t)) then op_DeployState op
      else case GetRuntimeArtifact env (tn_PirApiDestinationName t) (op_ArtifactTechID op) of
        Inl _ \<Rightarrow> op_DeployState op
      | Inr rt \<Rightarrow>
          if ra_Version rt = op_ArtifactVersion op then
            (if ra_Status rt = ''STARTED'' then DeployComplete
             else if ra_Status rt = ''ERROR'' then DeployFailed else DeployInProgress)
          else if compareCPIVersion (ra_Version rt) (op_ArtifactVersion op) > 0 then DeployFailed
          else DeployInProgress)"

definition redeploy :: "env \<Rightarrow> world \<Rightarrow> ArtifactTenantOperation \<Rightarrow> ArtifactTenantOperation" where
  "redeploy env w op = op\<lparr>op_DeployState := observed_deploy env op (tenant_of w (op_TenantID op))\<rparr>"

definition nofault_ops :: "world \<Rightarrow> ArtifactTenantOperation list \<Rightarrow> world \<Rightarrow> bool" where
  "nofault_ops w rows w' \<longleftrightarrow> faults w' = [] \<and> db_ops w' = rows"

lemma wp_jira:
  assumes "\<And>ts. Q () (w\<lparr>spawned := ts\<rparr>)"
  shows "wp (PostJiraComment l d m st) Q w"
  using assms [of "spawned w"] assms
  by (simp add: PostJiraComment_def Let_def wp_simps)

text \<open>One operation: its row gets the observed state.\<close>

lemma sync_deploy_op_observed:
  assumes "faults w = []"
  shows "wp (sync_deploy_op env d l (x, t) cs) (\<lambda>r w'. nofault_ops w
     (upd_where (\<lambda>z. op_ID z = op_ID x)
        (\<lambda>z. z\<lparr>op_DeployState := if observed_deploy env x t = op_DeployState x then op_DeployState z
                                 else observed_deploy env x t\<rparr>) (db_ops w)) w') w"
proof -
  have same: "upd_where P (\<lambda>z. z\<lparr>op_DeployState := op_DeployState z\<rparr>) rows = rows"
    "upd_where P (\<lambda>z. z) rows = rows" for P and rows :: "ArtifactTenantOperation list"
    by (simp_all add: upd_where_def)
  have set: "wp (set_deploy x s) Q w =
      Q (Inr ()) (db_ops_update (upd_where (\<lambda>z. op_ID z = op_ID x)
        (\<lambda>z. z\<lparr>op_DeployState := nz DeployUnset s (op_DeployState z)\<rparr>)) w)" for s Q
    using assms by (simp add: wp_run_state set_deploy_def ops_table.update_ok)
  show ?thesis
    using assms
    unfolding sync_deploy_op_def prod.case Let_def observed_deploy_def
    by (auto simp: wp_simps set nofault_ops_def same nz_def runtime_state_def split: sum.splits if_splits
        intro!: wp_jira)
qed

lemma syncDeployState_observed:
  assumes f: "faults w = []" and d0: "distinct (map op_ID (db_ops w))" and d: "d \<noteq> 0"
  shows "wp (syncDeployState env d) (\<lambda>r w'. db_ops w' =
    map (\<lambda>x. if op_DeliveryRequestID x = d then redeploy env w x else x) (db_ops w)) w"
proof -
  let ?f = "\<lambda>seen x. if x \<in> fst ` set seen then redeploy env w x else x"
  have loop: "wp (loop (sync_deploy_op env d l) (dr_ops w d) [])
      (\<lambda>r w'. db_ops w' = map (?f (dr_ops w d)) (db_ops w)) w" for l
  proof (rule wp_loop [where I = "\<lambda>seen _ w'. faults w' = [] \<and> set seen \<subseteq> set (dr_ops w d) \<and>
        db_ops w' = map (?f seen) (db_ops w)"])
    fix p seen s and w1 :: world
    assume I: "faults w1 = [] \<and> set seen \<subseteq> set (dr_ops w d) \<and> db_ops w1 = map (?f seen) (db_ops w)"
      and p: "p \<in> set (dr_ops w d)"
    obtain x t where x: "p = (x, t)" "t = tenant_of w (op_TenantID x)" "x \<in> set (db_ops w)"
      using p by (auto simp: dr_ops_def ops_of_def)
    have "upd_where (\<lambda>z. op_ID z = op_ID x) (\<lambda>z. z\<lparr>op_DeployState :=
        if observed_deploy env x t = op_DeployState x then op_DeployState z else observed_deploy env x t\<rparr>)
        (map (?f seen) (db_ops w)) = map (?f (seen @ [p])) (db_ops w)"
      unfolding upd_where_def map_map
    proof (rule map_cong [OF refl], goal_cases)
      case (1 z)
      have "z = x" if "op_ID z = op_ID x" using key_unique [OF d0 1 x(3) that] .
      then show ?case by (auto simp: redeploy_def x)
    qed
    then show "wp (sync_deploy_op env d l p s) (\<lambda>s' w'. faults w' = [] \<and>
        set (seen @ [p]) \<subseteq> set (dr_ops w d) \<and> db_ops w' = map (?f (seen @ [p])) (db_ops w)) w1"
      unfolding x(1) using I p
      by (intro wp_mono [OF sync_deploy_op_observed]) (auto simp: nofault_ops_def x)
  qed (use f in \<open>simp_all cong: map_cong\<close>)
  have img: "x \<in> fst ` set (dr_ops w d) \<longleftrightarrow> op_DeliveryRequestID x = d" if "x \<in> set (db_ops w)" for x
    using that by (force simp: dr_ops_def ops_of_def)
  have rows: "map (?f (dr_ops w d)) (db_ops w) =
      map (\<lambda>x. if op_DeliveryRequestID x = d then redeploy env w x else x) (db_ops w)"
    using img by simp
  have q: "wp (queryOpsInDrWithAcc d) Q w = Q (if dr_ops w d = []
      then Inl (Errf ''no artifact tenant operation found for delivery request %d'' [Num d])
      else Inr (dr_ops w d)) w" for Q
    using f d by (simp add: queryOpsInDrWithAcc_def wp_onerr db_query_def wp_stmt_ok dr_ops_def ops_of_def wp_return)
  show ?thesis
  proof (cases "dr_ops w d = []")
    case True
    then have "\<forall>x\<in>set (db_ops w). op_DeliveryRequestID x \<noteq> d"
      by (auto simp: dr_ops_def ops_of_def filter_empty_conv)
    then show ?thesis
      unfolding syncDeployState_def wp_bind q if_P [OF True] sum.case wp_return
      by (simp cong: map_cong)
  next
    case False
    show ?thesis
      unfolding syncDeployState_def wp_bind q if_not_P [OF False] sum.case Let_def db_first_def
        wp_stmt_ok [OF f] rows [symmetric]
      using loop by (auto split: option.split)
  qed
qed
section \<open>The goroutine and its tracker entry\<close>

lemma locks_sync [pres_intro]: "state_io_rel same_locks (SyncDeliveryStatus env d u)"
proof (rule io_of_wp, rule SyncDeliveryStatus_wp)
  fix w
  show "wp (sync_locked env d u) (\<lambda>r w1. same_locks w (w1\<lparr>syncLocks := syncLocks w\<rparr>))
      (w\<lparr>syncLocks := insert d (syncLocks w)\<rparr>)"
    by (rule wp_rel [OF locks_sync_locked]) (simp add: same_locks_def)
qed (simp add: same_locks_def)

section \<open>Properties\<close>

definition demo_importing :: world where
  "demo_importing = demo_delivery\<lparr>db_ops := [demo_op, demo_queued\<lparr>op_ImportState := ImportInProgress\<rparr>]\<rparr>"

definition demo_deploying :: world where
  "demo_deploying = demo_deployable\<lparr>db_ops :=
     [demo_op, demo_queued\<lparr>op_ImportState := ImportComplete, op_DeployState := DeployInProgress\<rparr>]\<rparr>"

text \<open>C9: whatever TMS and CPI answer and whichever statements fail, a sync edits operations in place
  and appends new ones of its own request: other requests' operations, and all but the import state,
  deploy state and user of its own, are untouched; an import in progress is never set back to queued
  or not started; and a deploy state only moves from not started to queued or disabled, or from in
  progress to complete or failed.\<close>

theorem SyncDeliveryStatus_progress:
  assumes "op_ids_ok w" and "drID \<noteq> 0" and "run_state (SyncDeliveryStatus env drID u) w = (r, w')"
  shows "distinct (map op_ID (db_ops w')) \<and>
    (\<exists>ys zs. db_ops w' = ys @ zs \<and> (\<forall>z\<in>set zs. op_DeliveryRequestID z = drID) \<and>
       list_all2 (\<lambda>x y. y = x \<or> op_DeliveryRequestID x = drID \<and>
         y = x\<lparr>op_ImportState := op_ImportState y, op_DeployState := op_DeployState y, op_UpdatedBy := op_UpdatedBy y\<rparr> \<and>
         (op_ImportState x = ImportInProgress \<longrightarrow> op_ImportState y \<in> {ImportInProgress, ImportComplete, ImportFailed}) \<and>
         (op_DeployState y = op_DeployState x \<or>
          op_DeployState x = DeployNotStarted \<and> op_DeployState y \<in> {DeployQueued, DeployDisabled} \<or>
          op_DeployState x = DeployInProgress \<and> op_DeployState y \<in> {DeployComplete, DeployFailed})) (db_ops w) ys)"
  using wp_run [OF SyncDeliveryStatus_rows [OF assms(1,2)] assms(3)]
  unfolding synced_rows_def sync_edit_def import_progress_def deploy_progress_def by blast

theorem SyncDeliveryStatus_progress_witness:
  "distinct (map op_ID (db_ops (snd (run_state (SyncDeliveryStatus demo_env 5 ''ann'') demo_importing))))"
proof -
  have "op_ids_ok demo_importing" by code_simp
  from SyncDeliveryStatus_progress [OF this _ run_split] show ?thesis by simp
qed

text \<open>C10: a sync is refused as already in progress exactly when the lock of its request is held, and
  then nothing changes at all; the lock is always as before when it returns. A sync that reports any
  other error has touched nothing but the rolled-up status of its request, which its deferred
  recomputation derives anew unless the request is canceled, and sent at most the event for that: no
  operation, condition, tracker entry or goroutine has changed. One that succeeds found an approved
  request that is not canceled.\<close>

theorem SyncDeliveryStatus_locked:
  assumes "run_state (SyncDeliveryStatus env drID u) w = (r, w')"
  shows "syncLocks w' = syncLocks w \<and>
    (r = Inl ErrSyncAlreadyInProgress \<longleftrightarrow> drID \<in> syncLocks w) \<and>
    (drID \<in> syncLocks w \<longrightarrow> w' = w) \<and>
    (if isl r then
       w' = w\<lparr>faults := faults w', db_drs := db_drs w', hub := hub w'\<rparr> \<and>
          (db_drs w' = db_drs w \<or>
           (\<exists>dr. dr_lookup w drID = Some dr \<and> dr_AggregateStatus dr \<noteq> AggCanceled \<and>
              db_drs w' = map (\<lambda>d. if dr_ID d = drID
                              then d\<lparr>dr_AggregateStatus := derived_status dr (ops_of w drID)\<rparr> else d) (db_drs w))) \<and>
          hub w' \<in> {hub w, map_option (\<lambda>h. snd (PublishDrEvent drID (DrUpdated drID) h)) (hub w)}
     else \<exists>dr. dr_lookup w drID = Some dr \<and> dr_ApprovedAt dr \<noteq> None \<and> dr_ApprovedBy dr \<noteq> [] \<and>
            dr_AggregateStatus dr \<noteq> AggCanceled)"
proof -
  have l: "syncLocks w' = syncLocks w"
    using assms by (auto simp: SyncDeliveryStatus_run split: if_splits prod.splits)
  note result = wp_run [OF SyncDeliveryStatus_refuse_wp assms]
  show ?thesis
  proof (cases "drID \<in> syncLocks w")
    case True
    then show ?thesis using result l by simp
  next
    case False
    then show ?thesis
      using result l
      by (cases r) (simp_all add: refused_since_def status_derived_def upd_where_def syncable_def)
  qed
qed

theorem SyncDeliveryStatus_locked_witness:
  "run_state (SyncDeliveryStatus demo_env 5 ''ann'') (demo_importing\<lparr>syncLocks := {5}\<rparr>) =
   (Inl ErrSyncAlreadyInProgress, demo_importing\<lparr>syncLocks := {5}\<rparr>)"
  using SyncDeliveryStatus_locked [OF run_split, of demo_env 5 "''ann''" "demo_importing\<lparr>syncLocks := {5}\<rparr>"]
  by (simp add: prod_eq_iff)

text \<open>With a database that answers, the deploy pass is the function of CPI's answers that the
  states promise: an operation in deployment becomes COMPLETE when its version is started in the
  runtime, FAILED when that version is in error or a higher version is there, and stays in progress
  otherwise; every other operation keeps its state.\<close>

theorem syncDeployState_exact:
  assumes "faults w = []" and "op_ids_ok w" and "drID \<noteq> 0"
    and "run_state (syncDeployState env drID) w = (r, w')"
  shows "db_ops w' = map (\<lambda>op. if op_DeliveryRequestID op = drID
    then op\<lparr>op_DeployState := observed_deploy env op (tenant_of w (op_TenantID op))\<rparr> else op) (db_ops w)"
  using wp_run [OF syncDeployState_observed assms(4)] assms(1-3)
  by (simp add: op_ids_ok_def redeploy_def)

theorem syncDeployState_exact_witness:
  "map op_DeployState (db_ops (snd (run_state (syncDeployState
     (demo_env\<lparr>GetRuntimeArtifact := (\<lambda>_ _. Inr \<lparr>ra_Version = ''1.0.2'', ra_Status = ''STARTED'',
        ra_DeployedBy = ''x'', ra_DeployedOn = ''y''\<rparr>)\<rparr>) 5) demo_deploying))) = [DeployNotStarted, DeployComplete]"
proof -
  have *: "faults demo_deploying = []" "op_ids_ok demo_deploying" by code_simp+
  show ?thesis
    unfolding syncDeployState_exact [OF * _ run_split, of 5, simplified]
    by (simp add: demo_deploying_def demo_op_def demo_queued_def observed_deploy_def demo_env_def quiet_env_def)
qed
end
