(* ===== verification/Approval.thy ===== *)
theory Approval
  imports Status
begin

text \<open>
  service/approve.go and handler/approval.go: submitting a delivery request for approval and
  approving it. GORM's Updates on a model also sets the written fields of the model object, which
  RequestApproval reads afterwards; that object is dr1 below.
\<close>

section \<open>RequestApproval\<close>

definition RequestApproval ::
  "env \<Rightarrow> nat \<Rightarrow> string \<Rightarrow> string list \<Rightarrow> string \<Rightarrow> (gerr + unit) prog" where
  "RequestApproval env drID currentUserID approvers comment =
     onerr (QueryDrWithAssociations drID)
       (\<lambda>e. Errf ''delivery request #%d not found'' [Num drID]) (\<lambda>acc.
     let dr = da_dr acc in
     if dr_ApprovedAt dr \<noteq> None then failwith (Errf ''delivery request already approved'' [])
     else if dr_AggregateStatus dr \<noteq> AggPending \<and> dr_AggregateStatus dr \<noteq> AggWaitingApprove then
       failwith (Errf ''only pending delivery request can be submitted for approval, current status: %s'' [Str (agg_str (dr_AggregateStatus dr))])
     else case BatchTrExist env (da_Ops acc) (da_SourceTenant acc) of
       Inl e \<Rightarrow> failwith e
     | Inr _ \<Rightarrow>
         (case GetUserEmail env currentUserID of
            Inl e \<Rightarrow> failwith e
          | Inr requesterEmail \<Rightarrow> do {
              _ \<leftarrow> spawn (TaskNotifyApproval drID requesterEmail comment);
              let upd = zero_request\<lparr>dr_AggregateStatus := AggWaitingApprove,
                          dr_Approvers := approvers, dr_UpdatedBy := currentUserID\<rparr>;
              onerr (dr_updates (dr_ID dr) upd)
                (\<lambda>e. Errf ''failed to update delivery request status: %s'' [Verb e]) (\<lambda>_.
              onerr (BatchInsertConditions [dr_condition drID CondSuccess
                       (Errf ''Delivery request submitted for approval by %s'' [Str requesterEmail])])
                (\<lambda>e. Errf ''failed to update condition: %s'' [Verb e]) (\<lambda>_.
              let dr1 = dr_merge upd dr in
              if dr_AggregateStatus dr1 \<noteq> AggWaitingApprove then do {
                _ \<leftarrow> NotifyDrUpdated drID;
                done_with ()
              } else done_with ()))
            }))"

section \<open>Approve\<close>

definition approval_update :: "string \<Rightarrow> time \<Rightarrow> DeliveryRequest" where
  "approval_update approverID now =
     zero_request\<lparr>dr_AggregateStatus := AggAwaitingImport, dr_ApprovedBy := approverID,
       dr_ApprovedAt := Some now, dr_UpdatedBy := approverID\<rparr>"

text \<open>The part of Approve after the status is committed; its deferred notification runs on every
  exit.\<close>

definition approve_rest :: "env \<Rightarrow> nat \<Rightarrow> string \<Rightarrow> DeliveryRequest \<Rightarrow> (gerr + DeliveryRequest) prog" where
  "approve_rest env drID approverID dr1 =
     (case GetUserEmail env approverID of
        Inl e \<Rightarrow> failwith e
      | Inr approverEmail \<Rightarrow>
          onerr (BatchInsertConditions [dr_condition drID CondSuccess
                   (Errf ''Delivery request approved by %s'' [Str approverEmail])])
            (\<lambda>e. Errf ''failed to update condition: %s'' [Verb e]) (\<lambda>_. do {
          _ \<leftarrow> spawn (TaskNotifyApproved drID
                 (Errf ''Delivery request #%d has been approved by %s'' [Num drID, Str approverID]));
          _ \<leftarrow> spawn (TaskSync drID approverID);
          done_with dr1
        }))"

definition Approve :: "env \<Rightarrow> nat \<Rightarrow> string \<Rightarrow> (gerr + DeliveryRequest) prog" where
  "Approve env drID approverID =
     onerr (QueryDrWithAssociations drID) id (\<lambda>acc.
     let dr = da_dr acc in
     if da_Ops acc = [] then
       failwith (Errf ''cannot approve delivery request %d: no artifact operations found'' [Num drID])
     else if dr_AggregateStatus dr \<noteq> AggWaitingApprove \<and> dr_AggregateStatus dr \<noteq> AggPending then
       failwith (Errf ''cannot apprve delivery request %d: current status is %s'' [Num drID, Str (agg_str (dr_AggregateStatus dr))])
     else if dr_CreatedBy dr = approverID \<and> \<not> ru_SkipApprove (da_Rule acc) then
       failwith (Errf ''cannot approve your own delivery request'' [])
     else case BatchTrExist env (da_Ops acc) (da_SourceTenant acc) of
       Inl e \<Rightarrow> failwith e
     | Inr _ \<Rightarrow> do {
         now \<leftarrow> gets clock;
         onerr (dr_updates (dr_ID dr) (approval_update approverID now))
           (\<lambda>e. Errf ''failed to update delivery request status: %s'' [Verb e]) (\<lambda>_. do {
             r \<leftarrow> approve_rest env drID approverID (dr_merge (approval_update approverID now) dr);
             _ \<leftarrow> NotifyDrUpdated drID;
             State_Monad.return r
           })
       })"

section \<open>The goroutines of the approval\<close>

text \<open>Both record a condition when the notification fails.\<close>

definition notify_approval_task :: "env \<Rightarrow> nat \<Rightarrow> string \<Rightarrow> string \<Rightarrow> unit prog" where
  "notify_approval_task env drID requesterEmail comment =
     (case OnApprovalRequested env drID requesterEmail comment of
        Inr _ \<Rightarrow> State_Monad.return ()
      | Inl e \<Rightarrow> do {
          _ \<leftarrow> BatchInsertConditions [dr_condition drID CondWarn
                 (Errf ''Failed to send approval request notification: %s'' [Verb e])];
          State_Monad.return ()
        })"

definition notify_approved_task :: "env \<Rightarrow> nat \<Rightarrow> message \<Rightarrow> unit prog" where
  "notify_approved_task env drID msg =
     (case OnStatusChanged env drID ''Approved'' msg of
        Inr _ \<Rightarrow> State_Monad.return ()
      | Inl e \<Rightarrow> do {
          _ \<leftarrow> BatchInsertConditions [dr_condition drID CondWarn
                 (Errf ''Failed to send approval notification: %s'' [Verb e])];
          State_Monad.return ()
        })"

section \<open>Handlers\<close>

definition HandleRequestApproval ::
  "env \<Rightarrow> string list \<Rightarrow> nat \<Rightarrow> string \<Rightarrow> string \<Rightarrow> (http + string) prog" where
  "HandleRequestApproval env approvers drID comment user =
     (if approvers = [] then failwith (400, Errf ''no approvers provided'' [])
      else onerr (RequestApproval env drID user approvers comment) (\<lambda>e. (500, e))
             (\<lambda>_. done_with ''approval request submitted''))"

definition HandleApproveDeliveryRequest :: "env \<Rightarrow> nat \<Rightarrow> string \<Rightarrow> (http + DeliveryRequest) prog" where
  "HandleApproveDeliveryRequest env drID user =
     onerr (Approve env drID user) (\<lambda>e. (500, e)) done_with"

section \<open>What approval does\<close>

lemma dr_merge_ID [simp]: "dr_ID (dr_merge new old) = dr_ID old"
  by (simp add: dr_merge_def)

lemma dr_merge_approval:
  "approverID \<noteq> [] \<Longrightarrow> dr_merge (approval_update approverID now) d =
     d\<lparr>dr_AggregateStatus := AggAwaitingImport, dr_ApprovedBy := approverID,
       dr_ApprovedAt := Some now, dr_UpdatedBy := approverID\<rparr>"
  by (simp add: dr_merge_def approval_update_def zero_request_def nz_def)

text \<open>The request table after a run, with no request deleted.\<close>

definition drs_become :: "DeliveryRequest list \<Rightarrow> world \<Rightarrow> world \<Rightarrow> bool" where
  "drs_become rows w w' \<longleftrightarrow>
     db_drs w' = rows \<and> (\<forall>i. (Drs, i) \<in> set (dead w') \<longleftrightarrow> (Drs, i) \<in> set (dead w))"

lemma closed_become_same: "drs_become (db_drs w) w w' \<Longrightarrow> closed_kept w w'"
  by (auto simp: drs_become_def closed_kept_def closed_in_def live_in_def)

lemma closed_become_update:
  assumes "live_in w i" and "\<And>d. dr_ID (f d) = dr_ID d"
    and "drs_become (upd_where (\<lambda>d. dr_ID d = i) f (db_drs w)) w w'"
  shows "closed_kept w w'"
proof (rule closed.R_trans [OF closed_kept_update [OF assms(1,2)]])
  show "closed_kept (db_drs_update (upd_where (\<lambda>d. dr_ID d = i) f) w) w'"
    using assms(3) by (intro same_drs_closed_kept) (simp add: same_drs_def drs_become_def)
qed

lemma closed_become_merge:
  assumes "live_in w i"
    and "drs_become (upd_where (\<lambda>d. dr_ID d = i) (dr_merge x) (db_drs w)) w w'"
  shows "closed_kept w w'"
  using assms by (intro closed_become_update [where f = "dr_merge x"]) auto

lemma conditions_same: "wp (BatchInsertConditions cs) (\<lambda>r w'. same_drs w w' \<and> spawned w' = spawned w \<and> db_ops w' = db_ops w) w"
  unfolding BatchInsertConditions_def create_conditions_def wp_if wp_onerr
  by (auto simp: wp_return same_drs_def split: sum.split intro!: conds_table.wp_create)

text \<open>The guards of Approve, as the request, its operations and its rule stand in the database.\<close>

definition approvable :: "env \<Rightarrow> world \<Rightarrow> nat \<Rightarrow> string \<Rightarrow> bool" where
  "approvable env w drID approverID \<longleftrightarrow>
     (\<exists>dr. dr_lookup w drID = Some dr \<and> ops_of w drID \<noteq> [] \<and>
        dr_AggregateStatus dr \<in> {AggPending, AggWaitingApprove} \<and>
        (dr_CreatedBy dr = approverID \<longrightarrow> ru_SkipApprove (rule_of w (dr_DeliveryRuleID dr))) \<and>
        (\<forall>op\<in>set (ops_of w drID). tr_valid env op (tenant_of w (dr_SourceTenantID dr))))"

definition approve_row :: "nat \<Rightarrow> string \<Rightarrow> time \<Rightarrow> world \<Rightarrow> DeliveryRequest list" where
  "approve_row drID approverID now w =
     upd_where (\<lambda>d. dr_ID d = drID) (dr_merge (approval_update approverID now)) (db_drs w)"

lemma approve_rest_drs:
  "wp (approve_rest env drID u dr1) (\<lambda>r w'. same_drs w w' \<and>
     (case r of Inl _ \<Rightarrow> spawned w' = spawned w
      | Inr dr \<Rightarrow> dr = dr1 \<and> TaskSync drID u \<in> set (spawned w'))) w"
  unfolding approve_rest_def wp_sum wp_onerr
  by (auto simp: wp_simps same_drs_def split: sum.split intro!: wp_mono [OF conditions_same])

lemma Approve_wp:
  "wp (Approve env drID u) (\<lambda>r w'. case r of
      Inl _ \<Rightarrow> drs_become (db_drs w) w w' \<or>
               approvable env w drID u \<and> drs_become (approve_row drID u (clock w) w) w w'
    | Inr dr \<Rightarrow> approvable env w drID u \<and> drs_become (approve_row drID u (clock w) w) w w' \<and>
               TaskSync drID u \<in> set (spawned w')) w"
  unfolding Approve_def wp_onerr
  apply (rule wp_QueryDr)
  subgoal by (simp add: drs_become_def)
  subgoal premises dr for fs dr
  proof (cases "ops_of w drID = [] \<or> dr_AggregateStatus dr \<notin> {AggPending, AggWaitingApprove} \<or>
           (dr_CreatedBy dr = u \<and> \<not> ru_SkipApprove (rule_of w (dr_DeliveryRuleID dr))) \<or>
           isl (BatchTrExist env (ops_of w drID) (tenant_of w (dr_SourceTenantID dr)))")
    case True
    then show ?thesis
      using dr by (auto simp: Let_def wp_simps drs_become_def split: sum.split)
  next
    case False
    then obtain b where b: "BatchTrExist env (ops_of w drID) (tenant_of w (dr_SourceTenantID dr)) = Inr b"
      by (cases "BatchTrExist env (ops_of w drID) (tenant_of w (dr_SourceTenantID dr))") auto
    then have ok: "approvable env w drID u"
      using dr False BatchTrExist_ok_iff [of env] unfolding approvable_def by auto
    have guards: "ops_of w drID \<noteq> []"
      "\<not> (dr_AggregateStatus dr \<noteq> AggWaitingApprove \<and> dr_AggregateStatus dr \<noteq> AggPending)"
      "\<not> (dr_CreatedBy dr = u \<and> \<not> ru_SkipApprove (rule_of w (dr_DeliveryRuleID dr)))"
      using False by auto
    show ?thesis
      using guards dr
      apply (simp add: Let_def b wp_simps dr_updates_def del: de_Morgan_conj)
      apply (rule drs_table.wp_update)
      subgoal by (simp add: drs_become_def)
      subgoal
        by (simp only: sum.case wp_bind, rule wp_mono [OF approve_rest_drs])
          (auto simp: same_drs_def drs_become_def approve_row_def ok wp_simps split: sum.splits)
      done
  qed
  done

lemma approvable_live: "approvable env w drID u \<Longrightarrow> live_in w drID"
  unfolding approvable_def by (auto intro!: live_inI)

lemma closed_approve [pres_intro]: "state_io_rel closed_kept (Approve env drID u)"
proof (rule io_of_wp)
  fix w
  show "wp (Approve env drID u) (\<lambda>r w'. closed_kept w w') w"
    by (rule wp_mono [OF Approve_wp])
      (auto simp: approve_row_def split: sum.splits
        intro: closed_become_same closed_become_merge [OF approvable_live])
qed

definition submit_update :: "string \<Rightarrow> string list \<Rightarrow> DeliveryRequest" where
  "submit_update u approvers =
     zero_request\<lparr>dr_AggregateStatus := AggWaitingApprove, dr_Approvers := approvers, dr_UpdatedBy := u\<rparr>"

lemma submit_status [simp]: "dr_AggregateStatus (dr_merge (submit_update u as) d) = AggWaitingApprove"
  by (simp add: dr_merge_def submit_update_def nz_def)

definition submittable :: "env \<Rightarrow> world \<Rightarrow> nat \<Rightarrow> bool" where
  "submittable env w drID \<longleftrightarrow>
     (\<exists>dr. dr_lookup w drID = Some dr \<and> dr_ApprovedAt dr = None \<and>
        dr_AggregateStatus dr \<in> {AggPending, AggWaitingApprove} \<and>
        (\<forall>op\<in>set (ops_of w drID). tr_valid env op (tenant_of w (dr_SourceTenantID dr))))"

definition submit_row :: "nat \<Rightarrow> string \<Rightarrow> string list \<Rightarrow> world \<Rightarrow> DeliveryRequest list" where
  "submit_row drID u approvers w =
     upd_where (\<lambda>d. dr_ID d = drID) (dr_merge (submit_update u approvers)) (db_drs w)"

lemma submittable_live: "submittable env w drID \<Longrightarrow> live_in w drID"
  unfolding submittable_def by (auto intro!: live_inI)

text \<open>A submission touches only requests that are still before approval; it never publishes.\<close>

lemma RequestApproval_wp:
  "wp (RequestApproval env drID u approvers comment) (\<lambda>r w'. hub w' = hub w \<and>
     (isl r \<and> drs_become (db_drs w) w w' \<or>
      submittable env w drID \<and> drs_become (submit_row drID u approvers w) w w')) w"
  unfolding RequestApproval_def wp_onerr
  apply (rule wp_QueryDr)
  subgoal by (simp add: drs_become_def)
  subgoal premises dr for fs dr
  proof (cases "dr_ApprovedAt dr \<noteq> None \<or> dr_AggregateStatus dr \<notin> {AggPending, AggWaitingApprove} \<or>
           isl (BatchTrExist env (ops_of w drID) (tenant_of w (dr_SourceTenantID dr))) \<or>
           isl (GetUserEmail env u)")
    case True
    then show ?thesis
      using dr by (auto simp: Let_def wp_simps drs_become_def split: sum.split)
  next
    case False
    then obtain b mail where b: "BatchTrExist env (ops_of w drID) (tenant_of w (dr_SourceTenantID dr)) = Inr b"
        and mail: "GetUserEmail env u = Inr mail"
      by (cases "BatchTrExist env (ops_of w drID) (tenant_of w (dr_SourceTenantID dr))";
          cases "GetUserEmail env u") auto
    then have ok: "\<forall>op\<in>set (ops_of w drID). tr_valid env op (tenant_of w (dr_SourceTenantID dr))"
      using BatchTrExist_ok_iff [of env] by auto
    have guards: "dr_ApprovedAt dr = None"
        "\<not> (dr_AggregateStatus dr \<noteq> AggPending \<and> dr_AggregateStatus dr \<noteq> AggWaitingApprove)"
      using False by auto
    then have "submittable env w drID" using dr ok by (auto simp: submittable_def)
    with guards show ?thesis
      using dr
      apply (simp only: sum.case dr_acc_sel Let_def b mail)
      apply (simp add: wp_simps dr_updates_def submit_update_def [symmetric] del: de_Morgan_conj)
      apply (rule drs_table.wp_update)
      subgoal by (simp add: drs_become_def)
      subgoal
        unfolding BatchInsertConditions_def create_conditions_def
        by (simp add: wp_simps, rule conds_table.wp_create)
          (simp_all add: wp_simps drs_become_def submit_row_def)
      done
  qed
  done

lemma closed_request_approval [pres_intro]:
  "state_io_rel closed_kept (RequestApproval env drID u approvers comment)"
proof (rule io_of_wp)
  fix w
  show "wp (RequestApproval env drID u approvers comment) (\<lambda>r w'. closed_kept w w') w"
    by (rule wp_mono [OF RequestApproval_wp])
      (auto simp: submit_row_def intro: closed_become_same closed_become_merge [OF submittable_live])
qed

section \<open>Properties\<close>

text \<open>C6: an approval that succeeds finds a request that is pending or submitted, has operations,
  was created by someone else (unless its rule skips approval), and whose operations all name
  valid transport requests of its source tenant; it sets the row to awaiting import with approver
  and time, leaves all other rows, and starts the sync of the request.\<close>

theorem Approve_success:
  assumes "run_state (Approve env drID u) w = (Inr dr1, w')" and "u \<noteq> []"
  shows "(\<exists>dr. dr_lookup w drID = Some dr \<and> ops_of w drID \<noteq> [] \<and>
      dr_AggregateStatus dr \<in> {AggPending, AggWaitingApprove} \<and>
      (dr_CreatedBy dr = u \<longrightarrow> ru_SkipApprove (rule_of w (dr_DeliveryRuleID dr))) \<and>
      (\<forall>op\<in>set (ops_of w drID). tr_valid env op (tenant_of w (dr_SourceTenantID dr)))) \<and>
    db_drs w' = map (\<lambda>d. if dr_ID d = drID then d\<lparr>dr_AggregateStatus := AggAwaitingImport,
      dr_ApprovedBy := u, dr_ApprovedAt := Some (clock w), dr_UpdatedBy := u\<rparr> else d) (db_drs w) \<and>
    TaskSync drID u \<in> set (spawned w')"
  using wp_run [OF Approve_wp assms(1)]
  by (simp add: approvable_def drs_become_def approve_row_def upd_where_def dr_merge_approval assms(2))

theorem Approve_success_witness:
  "TaskSync 5 ''bob'' \<in> set (spawned (snd (run_state (Approve demo_env 5 ''bob'') demo_world)))"
proof -
  have "\<not> isl (fst (run_state (Approve demo_env 5 ''bob'') demo_world))" by code_simp
  from Approve_success [OF run_ok [OF this]] show ?thesis by simp
qed

text \<open>An approval that reports an error leaves the requests as they were, or all guards held and
  the approval is committed (a later step, the email lookup or the condition, failed): no error
  ever leaves a request approved without the guards.\<close>

theorem Approve_error:
  assumes "run_state (Approve env drID u) w = (Inl e, w')"
  shows "db_drs w' = db_drs w \<or> approvable env w drID u"
  using wp_run [OF Approve_wp assms] by (auto simp: drs_become_def)

theorem Approve_error_witness:
  "db_drs (snd (run_state (Approve demo_env 5 ''ann'') demo_world)) = db_drs demo_world \<or>
   approvable demo_env demo_world 5 ''ann''"
proof -
  have "isl (fst (run_state (Approve demo_env 5 ''ann'') demo_world))" by code_simp
  from Approve_error [OF run_err [OF this]] show ?thesis .
qed

text \<open>Submitting a request for approval never publishes an update to the subscribers: after the
  database update the model object already carries the new status, so the test that should publish
  the change never holds. It succeeds only for a request before approval with valid transport
  requests.\<close>

theorem RequestApproval_silent:
  assumes "run_state (RequestApproval env drID u approvers comment) w = (r, w')"
  shows "hub w' = hub w \<and>
    (r = Inr () \<longrightarrow> submittable env w drID \<and>
       (\<forall>d\<in>set (db_drs w'). dr_ID d = drID \<longrightarrow> dr_AggregateStatus d = AggWaitingApprove))"
proof -
  note run = wp_run [OF RequestApproval_wp assms]
  have rows: "dr_AggregateStatus d = AggWaitingApprove"
    if "drs_become (submit_row drID u approvers w) w w'" "d \<in> set (db_drs w')" "dr_ID d = drID" for d
  proof -
    have "d \<in> set (submit_row drID u approvers w)"
      using that(1,2) unfolding drs_become_def by simp
    then obtain x where d: "d = (if dr_ID x = drID then dr_merge (submit_update u approvers) x else x)"
      unfolding submit_row_def set_upd_where by blast
    show ?thesis using that(3) unfolding d by (cases "dr_ID x = drID") simp_all
  qed
  have "\<not> isl r" if "r = Inr ()" using that by simp
  with run rows show ?thesis by blast
qed

theorem RequestApproval_silent_witness:
  "hub (snd (run_state (RequestApproval demo_env 5 ''ann'' [''bob''] []) (demo_world\<lparr>hub := Some NewWSHub\<rparr>))) =
   hub (demo_world\<lparr>hub := Some NewWSHub\<rparr>)"
  by (rule conjunct1 [OF RequestApproval_silent [OF run_split [of
    "RequestApproval demo_env 5 ''ann'' [''bob''] []" "demo_world\<lparr>hub := Some NewWSHub\<rparr>"]]])

end
