(* ===== verification/Cancel.thy ===== *)
theory Cancel
  imports Sync Approval
begin

text \<open>
  service/cancel.go and its handler: canceling a delivery request after a best-effort sync. The
  code tells the errors it ignores from the others by their text, so the texts are rendered.
\<close>

section \<open>CancelDeliveryRequest\<close>

definition cancellableStatuses :: "AggregateStatus list" where
  "cancellableStatuses =
     [AggPending, AggWaitingApprove, AggAwaitingImport, AggImportFailed, AggWaitingDeploy, AggDeployFailed]"

definition ignored_sync_error :: "gerr \<Rightarrow> bool" where
  "ignored_sync_error e \<longleftrightarrow>
     Contains (err_text e) ''has not been approved yet'' \<or> Contains (err_text e) ''already in progress''"

definition cancel_update :: "string \<Rightarrow> DeliveryRequest" where
  "cancel_update userID = zero_request\<lparr>dr_AggregateStatus := AggCanceled, dr_UpdatedBy := userID\<rparr>"

definition cancel_now :: "env \<Rightarrow> nat \<Rightarrow> string \<Rightarrow> string \<Rightarrow> drSnapshot \<Rightarrow> (gerr + unit) prog" where
  "cancel_now env drID userID reason before =
     onerr (db_first db_drs (\<lambda>d. dr_ID d = drID))
       (\<lambda>e. Errf ''delivery request #%d not found: %s'' [Num drID, Verb e]) (\<lambda>dr.
     if dr_AggregateStatus dr \<notin> set cancellableStatuses then
       failwith (Errf ''cannot cancel delivery request #%d with status %s''
         [Num drID, Str (agg_str (dr_AggregateStatus dr))])
     else onerr (dr_updates (dr_ID dr) (cancel_update userID))
       (\<lambda>e. Errf ''failed to update delivery request status: %s'' [Verb e]) (\<lambda>_. do {
         after \<leftarrow> captureDrSnapshot drID;
         _ \<leftarrow> (if snapshot_changed before after then NotifyDrUpdated drID else State_Monad.return ());
         let userEmail = email_or_empty env userID;
         let conditionMsg = Errf ''Delivery request canceled by %s. Reason: %s'' [Str userEmail, Str reason];
         _ \<leftarrow> BatchInsertConditions [dr_condition drID CondWarn conditionMsg];
         _ \<leftarrow> PostJiraComment (dr_JiraLink dr) drID conditionMsg ''Canceled'';
         _ \<leftarrow> spawn (TaskNotifyCanceled drID
                (Errf ''Delivery request #%d has been canceled by %s. Reason: %s'' [Num drID, Str userEmail, Str reason]));
         done_with ()
       }))"

definition CancelDeliveryRequest :: "env \<Rightarrow> nat \<Rightarrow> string \<Rightarrow> string \<Rightarrow> (gerr + unit) prog" where
  "CancelDeliveryRequest env drID userID reason = do {
     before \<leftarrow> captureDrSnapshot drID;
     s \<leftarrow> SyncDeliveryStatus env drID userID;
     case s of
       Inl e \<Rightarrow>
         if \<not> ignored_sync_error e then
           failwith (Errf ''failed to sync delivery status before cancel: %s'' [Verb e])
         else cancel_now env drID userID reason before
     | Inr _ \<Rightarrow> cancel_now env drID userID reason before
   }"

definition HandleCancelDr :: "env \<Rightarrow> nat \<Rightarrow> string \<Rightarrow> string \<Rightarrow> (http + string) prog" where
  "HandleCancelDr env drID reason user =
     (if drID = 0 then failwith (400, Errf ''missing deliveryRequestID'' [])
      else onerr (CancelDeliveryRequest env drID user reason) (\<lambda>e. (400, e))
             (\<lambda>_. done_with ''Delivery request canceled successfully''))"

section \<open>What a cancellation does\<close>

definition cancel_row :: "string \<Rightarrow> DeliveryRequest \<Rightarrow> DeliveryRequest" where
  "cancel_row u d = d\<lparr>dr_AggregateStatus := AggCanceled, dr_UpdatedBy := nz [] u (dr_UpdatedBy d)\<rparr>"

lemma dr_merge_cancel: "dr_merge (cancel_update u) d = cancel_row u d"
  by (simp add: dr_merge_def cancel_update_def cancel_row_def zero_request_def nz_def)

lemma cancel_row_sel [simp]: "dr_ID (cancel_row u d) = dr_ID d" "dr_AggregateStatus (cancel_row u d) = AggCanceled"
  by (simp_all add: cancel_row_def)

definition cancellable :: "world \<Rightarrow> nat \<Rightarrow> bool" where
  "cancellable w drID \<longleftrightarrow> (\<exists>dr. dr_lookup w drID = Some dr \<and> dr_AggregateStatus dr \<in> set cancellableStatuses)"

lemma cancel_now_wp:
  "wp (cancel_now env drID u reason before) (\<lambda>r w'. db_ops w' = db_ops w \<and>
     (case r of Inl _ \<Rightarrow> drs_become (db_drs w) w w'
      | Inr _ \<Rightarrow> cancellable w drID \<and> drs_become (upd_where (\<lambda>d. dr_ID d = drID) (cancel_row u) (db_drs w)) w w')) w"
proof -
  have tail: "wp (do {
         after \<leftarrow> captureDrSnapshot drID;
         _ \<leftarrow> (if snapshot_changed before after then NotifyDrUpdated drID else State_Monad.return ());
         let userEmail = email_or_empty env u;
         let conditionMsg = Errf ''Delivery request canceled by %s. Reason: %s'' [Str userEmail, Str reason];
         _ \<leftarrow> BatchInsertConditions [dr_condition drID CondWarn conditionMsg];
         _ \<leftarrow> PostJiraComment l drID conditionMsg ''Canceled'';
         _ \<leftarrow> spawn (TaskNotifyCanceled drID
                (Errf ''Delivery request #%d has been canceled by %s. Reason: %s'' [Num drID, Str userEmail, Str reason]));
         done_with ()
       }) (\<lambda>r w'. r = Inr () \<and> same_drs v w' \<and> db_ops w' = db_ops v) v" for l and v :: world
    unfolding wp_bind Let_def wp_if wp_return
    apply (rule wp_reads [OF reads_snapshot])
    apply (simp add: wp_notify)
    apply (intro conjI impI; rule wp_mono [OF conditions_same]; rule wp_jira; simp add: wp_spawn same_drs_def)
    done
  show ?thesis
    unfolding cancel_now_def wp_onerr dr_updates_def
    apply (rule drs_table.wp_first)
    subgoal by (simp add: drs_become_def)
    subgoal by (simp add: drs_become_def)
    subgoal premises dr for fs dr
    proof (cases "dr_AggregateStatus dr \<in> set cancellableStatuses")
      case False
      then show ?thesis by (simp add: wp_return drs_become_def)
    next
      case True
      then have c: "cancellable w drID" "\<not> dr_AggregateStatus dr \<notin> set cancellableStatuses"
        using dr(1) by (auto simp: cancellable_def dr_lookup_def)
      show ?thesis
        unfolding sum.case if_not_P [OF c(2)] wp_onerr
        apply (rule drs_table.wp_update)
        subgoal by (simp add: drs_become_def)
        subgoal
          unfolding sum.case
          by (rule wp_mono [OF tail]) (use c dr in \<open>auto simp: drs_become_def same_drs_def dr_merge_cancel [abs_def]\<close>)
        done
    qed
    done
qed

text \<open>The sync before it changes at most the status of the request, and never to canceled.\<close>

definition restatus :: "nat \<Rightarrow> world \<Rightarrow> world \<Rightarrow> bool" where
  "restatus drID w w' \<longleftrightarrow> db_drs w' = db_drs w \<or>
     (\<exists>a. a \<noteq> AggCanceled \<and>
        db_drs w' = upd_where (\<lambda>d. dr_ID d = drID) (\<lambda>d. d\<lparr>dr_AggregateStatus := a\<rparr>) (db_drs w))"

lemma restatus_sync: "wp (SyncDeliveryStatus env drID u) (\<lambda>r w'. restatus drID w w') w"
proof (rule SyncDeliveryStatus_wp)
  let ?l = "w\<lparr>syncLocks := insert drID (syncLocks w)\<rparr>"
  have "wp (sync_locked env drID u) (\<lambda>r w1. restatus drID ?l w1) ?l"
    unfolding sync_locked_def wp_bind wp_if wp_return
    apply (rule wp_reads [OF reads_snapshot])
    apply (rule wp_rel [OF frame_drs.frame_sync_body])
    subgoal premises s for fs before r w1
      apply (rule DetermineOverallStatus_wp)
      subgoal by (rule wp_reads [OF reads_snapshot]) (use s in \<open>simp add: wp_notify restatus_def same_drs_def\<close>)
      subgoal premises d for fs' r' dr
      proof -
        have "derived_status dr (ops_of w1 drID) \<noteq> AggCanceled"
          using d(2) by (simp add: derived_status_def Let_def DeriveAggregateStatus_not_canceled)
        then show ?thesis
          by (intro wp_reads [OF reads_snapshot]) (use s in \<open>auto simp: wp_notify restatus_def same_drs_def\<close>)
      qed
      done
    done
  then show "wp (sync_locked env drID u) (\<lambda>r w1. restatus drID w (w1\<lparr>syncLocks := syncLocks w\<rparr>)) ?l"
    by (rule wp_mono) (simp add: restatus_def)
qed (simp add: restatus_def)

lemma CancelDeliveryRequest_wp:
  "wp (CancelDeliveryRequest env drID u reason) (\<lambda>r w'. \<exists>v. restatus drID w v \<and>
     (case r of Inl _ \<Rightarrow> db_drs w' = db_drs v
      | Inr _ \<Rightarrow> cancellable v drID \<and> db_drs w' = upd_where (\<lambda>d. dr_ID d = drID) (cancel_row u) (db_drs v))) w"
proof -
  have now: "wp (cancel_now env drID u reason before) (\<lambda>r w'. \<exists>v. restatus drID w v \<and>
     (case r of Inl _ \<Rightarrow> db_drs w' = db_drs v
      | Inr _ \<Rightarrow> cancellable v drID \<and> db_drs w' = upd_where (\<lambda>d. dr_ID d = drID) (cancel_row u) (db_drs v))) v"
    if "restatus drID w v" for before v
    by (rule wp_mono [OF cancel_now_wp]) (use that in \<open>auto simp: drs_become_def split: sum.splits\<close>)
  show ?thesis
    unfolding CancelDeliveryRequest_def wp_bind
    apply (rule wp_reads [OF reads_snapshot])
    apply (rule wp_mono [OF restatus_sync])
    subgoal premises s for fs before r w1
    proof -
      have r: "restatus drID w w1" using s by (simp add: restatus_def)
      then show ?thesis using now [OF r] by (auto simp: wp_return split: sum.split)
    qed
    done
qed

lemma restatus_others:
  "restatus drID w v \<Longrightarrow> filter (\<lambda>d. dr_ID d \<noteq> drID) (db_drs v) = filter (\<lambda>d. dr_ID d \<noteq> drID) (db_drs w)"
proof -
  have "filter (\<lambda>d. dr_ID d \<noteq> drID) (upd_where (\<lambda>d. dr_ID d = drID) (\<lambda>d. d\<lparr>dr_AggregateStatus := a\<rparr>) ds) =
      filter (\<lambda>d. dr_ID d \<noteq> drID) ds" for a ds
    by (induction ds) auto
  then show "restatus drID w v \<Longrightarrow> ?thesis" by (auto simp: restatus_def)
qed

lemma cancel_others:
  "filter (\<lambda>d. dr_ID d \<noteq> drID) (upd_where (\<lambda>d. dr_ID d = drID) (cancel_row u) ds) = filter (\<lambda>d. dr_ID d \<noteq> drID) ds"
  by (induction ds) auto

lemma closed_cancel [pres_intro]: "state_io_rel closed_kept (CancelDeliveryRequest env drID u reason)"
proof -
  have "wp (cancel_now env drID u reason b) (\<lambda>r w'. closed_kept w w') w" for b w
  proof (rule wp_mono [OF cancel_now_wp], goal_cases)
    case (1 r w')
    show ?case
    proof (cases r)
      case (Inl e)
      then show ?thesis using 1 by (auto intro: closed_become_same)
    next
      case (Inr a)
      then obtain dr where "dr_lookup w drID = Some dr" "dr_AggregateStatus dr \<in> set cancellableStatuses"
        using 1 by (auto simp: cancellable_def)
      then have "live_in w drID" by (intro live_inI) (auto simp: cancellableStatuses_def)
      then show ?thesis using 1 Inr by (auto intro: closed_become_update [where f = "cancel_row u"])
    qed
  qed
  then have "state_io_rel closed_kept (cancel_now env drID u reason b)" for b by (rule io_of_wp)
  then show ?thesis
    unfolding CancelDeliveryRequest_def
    by (intro pres_intro same_drs_io [OF frame_drs.frame_query(3)])
qed

lemma closed_handle_cancel [pres_intro]: "state_io_rel closed_kept (HandleCancelDr env d rs u)"
  unfolding HandleCancelDr_def by (intro pres_intro)

section \<open>Properties\<close>

text \<open>C11: a successful cancellation leaves the request, and only it, canceled: it exists and every row
  of its id is CANCELED; no other request changes. A cancellation that reports an error cancels
  nothing.\<close>

theorem CancelDeliveryRequest_effect:
  assumes "run_state (CancelDeliveryRequest env drID u reason) w = (r, w')"
  shows "filter (\<lambda>d. dr_ID d \<noteq> drID) (db_drs w') = filter (\<lambda>d. dr_ID d \<noteq> drID) (db_drs w) \<and>
    (if isl r then \<forall>d\<in>set (db_drs w'). dr_AggregateStatus d = AggCanceled \<longrightarrow> d \<in> set (db_drs w)
     else (\<exists>d\<in>set (db_drs w'). dr_ID d = drID) \<and>
          (\<forall>d\<in>set (db_drs w'). dr_ID d = drID \<longrightarrow> dr_AggregateStatus d = AggCanceled))"
proof -
  obtain v where v: "restatus drID w v" "case r of Inl _ \<Rightarrow> db_drs w' = db_drs v
      | Inr _ \<Rightarrow> cancellable v drID \<and> db_drs w' = upd_where (\<lambda>d. dr_ID d = drID) (cancel_row u) (db_drs v)"
    using wp_run [OF CancelDeliveryRequest_wp assms] by blast
  show ?thesis
  proof (cases r)
    case (Inl e)
    have w': "db_drs w' = db_drs v" using v(2) Inl by simp
    have "d \<in> set (db_drs w)" if "d \<in> set (db_drs v)" "dr_AggregateStatus d = AggCanceled" for d
      using v(1) that unfolding restatus_def by (auto simp: set_upd_where split: if_splits)
    then show ?thesis using restatus_others [OF v(1)] by (simp add: Inl w')
  next
    case (Inr a)
    have w': "db_drs w' = upd_where (\<lambda>d. dr_ID d = drID) (cancel_row u) (db_drs v)"
      and c: "cancellable v drID" using v(2) Inr by simp_all
    obtain dr where "dr_lookup v drID = Some dr" using c by (auto simp: cancellable_def)
    then have dr: "dr \<in> set (db_drs v)" "dr_ID dr = drID" using dr_lookup_SomeD by auto
    then have "cancel_row u dr \<in> set (db_drs w')"
      unfolding w' set_upd_where by (intro image_eqI [of _ _ dr]) simp_all
    then have "\<exists>d\<in>set (db_drs w'). dr_ID d = drID" using dr(2) by (intro bexI) simp_all
    moreover have "\<forall>d\<in>set (db_drs w'). dr_ID d = drID \<longrightarrow> dr_AggregateStatus d = AggCanceled"
      unfolding w' set_upd_where ball_simps(9) by simp
    ultimately show ?thesis using restatus_others [OF v(1)] by (simp add: Inr w' cancel_others)
  qed
qed

theorem CancelDeliveryRequest_effect_witness:
  "dr_AggregateStatus ` {d \<in> set (db_drs (snd (run_state (CancelDeliveryRequest demo_env 5 ''ann'' ''late'') demo_world))).
     dr_ID d = 5} = {AggCanceled}"
proof -
  let ?w = "snd (run_state (CancelDeliveryRequest demo_env 5 ''ann'' ''late'') demo_world)"
  have n: "\<not> isl (fst (run_state (CancelDeliveryRequest demo_env 5 ''ann'' ''late'') demo_world))" by code_simp
  have "\<exists>d\<in>set (db_drs ?w). dr_ID d = 5"
    and "\<forall>d\<in>set (db_drs ?w). dr_ID d = 5 \<longrightarrow> dr_AggregateStatus d = AggCanceled"
    using CancelDeliveryRequest_effect [OF run_split] n by (metis (no_types, lifting))+
  then show ?thesis by auto
qed
end
