(* ===== verification/GitSync.thy ===== *)
theory GitSync
  imports Status
begin

text \<open>
  service/git_sync.go: one version of an artifact is downloaded from a tenant and pushed to the git
  repository. A row of the snapshot table is the lock of a version: its unique key lets one caller
  create it, and a failed or stuck row is claimed again by a conditional update. The archive format,
  YAML, CPI and the git client are parameters.
\<close>

section \<open>Constants and requests\<close>

definition TriggerSourceDR :: string where
  "TriggerSourceDR = ''DR''"

text \<open>Time is in nanoseconds.\<close>

definition snapshotPendingTimeout :: time where
  "snapshotPendingTimeout = 3 * 60 * 10 ^ 9"

definition GitSnapshotPending :: string where
  "GitSnapshotPending = ''pending''"

definition GitSnapshotCompleted :: string where
  "GitSnapshotCompleted = ''completed''"

definition GitSnapshotFailed :: string where
  "GitSnapshotFailed = ''failed''"

definition GitSnapshotNotFound :: string where
  "GitSnapshotNotFound = ''not_found''"

definition notFoundVersion :: string where
  "notFoundVersion = ''0.0.0''"

lemmas snapshot_status_defs =
  GitSnapshotPending_def GitSnapshotCompleted_def GitSnapshotFailed_def GitSnapshotNotFound_def

record GitSyncRequest =
  gr_ArtifactID :: string
  gr_Version :: string
  gr_PackageID :: string
  gr_ArtifactType :: ArtifactType
  gr_CpiTenantID :: nat
  gr_TenantName :: string
  gr_TriggerSource :: string
  gr_DeliveryRequestID :: "nat option"
  gr_ArtifactOpID :: "nat option"

section \<open>Claiming a snapshot\<close>

definition snap_key :: "GitArtifactSnapshot \<Rightarrow> string \<times> string \<times> nat" where
  "snap_key s = (gs_ArtifactID s, gs_Version s, gs_CpiTenantID s)"

definition req_key :: "GitSyncRequest \<Rightarrow> string \<times> string \<times> nat" where
  "req_key req = (gr_ArtifactID req, gr_Version req, gr_CpiTenantID req)"

text \<open>INSERT under the unique index; the sequence is used up even when the row is refused.\<close>

definition create_snapshot :: "GitArtifactSnapshot \<Rightarrow> (gerr + GitArtifactSnapshot) prog" where
  "create_snapshot row = stmt (\<lambda>w.
     let row' = row\<lparr>gs_ID := next_id w\<rparr>; w1 = w\<lparr>next_id := Suc (next_id w)\<rparr> in
     if list_ex (\<lambda>s. snap_key s = snap_key row \<or> gs_ID s = next_id w) (db_snaps w) then (Inl DbErr, w1)
     else (Inr row', db_snaps_update (\<lambda>ss. ss @ [row']) w1))"

definition new_snapshot :: "GitSyncRequest \<Rightarrow> string \<Rightarrow> string \<Rightarrow> string \<Rightarrow> time \<Rightarrow> GitArtifactSnapshot" where
  "new_snapshot req branch treePath tagName now =
    \<lparr>gs_ID = 0, gs_ArtifactID = gr_ArtifactID req, gs_Version = gr_Version req,
     gs_CpiTenantID = gr_CpiTenantID req, gs_PackageID = gr_PackageID req,
     gs_ArtifactType = gr_ArtifactType req, gs_BranchName = branch, gs_TreePath = treePath,
     gs_CommitSHA = [], gs_TagName = tagName, gs_TriggerSource = gr_TriggerSource req,
     gs_DeliveryRequestID = gr_DeliveryRequestID req, gs_ArtifactOpID = gr_ArtifactOpID req,
     gs_Status = GitSnapshotPending, gs_TriggeredAt = now, gs_CompletedAt = None, gs_Error = []\<rparr>"

definition reclaimed :: "GitSyncRequest \<Rightarrow> time \<Rightarrow> GitArtifactSnapshot \<Rightarrow> GitArtifactSnapshot" where
  "reclaimed req now s =
     s\<lparr>gs_Status := GitSnapshotPending, gs_TriggeredAt := now, gs_CompletedAt := None, gs_Error := [],
       gs_CommitSHA := [], gs_TriggerSource := gr_TriggerSource req,
       gs_DeliveryRequestID := gr_DeliveryRequestID req, gs_ArtifactOpID := gr_ArtifactOpID req\<rparr>"

text \<open>The two conditional updates; the result is RowsAffected > 0, which a failing statement leaves
  at zero.\<close>

definition stale :: "time \<Rightarrow> GitArtifactSnapshot \<Rightarrow> bool" where
  "stale now s \<longleftrightarrow> gs_Status s = GitSnapshotPending \<and> gs_TriggeredAt s + snapshotPendingTimeout < now"

definition reclaim_snapshot ::
  "GitSyncRequest \<Rightarrow> nat \<Rightarrow> (GitArtifactSnapshot \<Rightarrow> bool) \<Rightarrow> time \<Rightarrow> bool prog" where
  "reclaim_snapshot req i P now = do {
     r \<leftarrow> stmt (\<lambda>w. (Inr (list_ex (\<lambda>s. gs_ID s = i \<and> P s) (db_snaps w)),
            db_snaps_update (upd_where (\<lambda>s. gs_ID s = i \<and> P s) (reclaimed req now)) w));
     State_Monad.return (case r of Inl e \<Rightarrow> False | Inr affected \<Rightarrow> affected)
   }"

text \<open>The snapshot is a result beside the verdict (Go writes it through a pointer).\<close>

definition claim_existing :: "GitSyncRequest \<Rightarrow> GitArtifactSnapshot \<Rightarrow> (gerr + bool \<times> GitArtifactSnapshot) prog" where
  "claim_existing req out =
     (if gs_Status out = GitSnapshotCompleted then done_with (False, out)
      else if gs_Status out = GitSnapshotPending then do {
        now \<leftarrow> gets clock;
        if now < gs_TriggeredAt out + snapshotPendingTimeout then done_with (False, out)
        else do {
          won \<leftarrow> reclaim_snapshot req (gs_ID out) (stale now) now;
          done_with (won, reclaimed req now out)
        }
      }
      else if gs_Status out = GitSnapshotFailed then do {
        now \<leftarrow> gets clock;
        won \<leftarrow> reclaim_snapshot req (gs_ID out) (\<lambda>s. gs_Status s = GitSnapshotFailed) now;
        done_with (won, reclaimed req now out)
      }
      else failwith (Errf ''unexpected snapshot status: %s'' [Str (gs_Status out)]))"

definition claimGitSyncSnapshot ::
  "GitSyncRequest \<Rightarrow> string \<Rightarrow> string \<Rightarrow> string \<Rightarrow> (gerr + bool \<times> GitArtifactSnapshot) prog" where
  "claimGitSyncSnapshot req branch treePath tagName = do {
     now \<leftarrow> gets clock;
     c \<leftarrow> create_snapshot (new_snapshot req branch treePath tagName now);
     case c of
       Inr row \<Rightarrow> done_with (True, row)
     | Inl _ \<Rightarrow>
         onerr (db_first db_snaps (\<lambda>s. snap_key s = req_key req))
           (Errw ''query existing snapshot: %w'' []) (claim_existing req)
   }"

section \<open>The artifact\<close>

definition downloadArtifactZip :: "env \<Rightarrow> GitSyncRequest \<Rightarrow> (gerr + string) prog" where
  "downloadArtifactZip env req =
     onerr (db_first db_tenants (\<lambda>t. tn_ID t = gr_CpiTenantID req))
       (Errw ''tenant %d not found: %w'' [Num (gr_CpiTenantID req)]) (\<lambda>tenant.
     case CPI env (tn_PirApiDestinationName tenant) of
       Inl e \<Rightarrow> failwith (Errw ''CPI client for tenant %s: %w'' [Str (tn_Name tenant)] e)
     | Inr _ \<Rightarrow> State_Monad.return
         (DownloadArtifactZip env (tn_PirApiDestinationName tenant) (gr_ArtifactID req) (gr_ArtifactType req)))"

fun read_zip :: "ZipFile list \<Rightarrow> FileMap \<Rightarrow> gerr + FileMap" where
  "read_zip [] files = ok files"
| "read_zip (f # fs) files =
     (if zf_IsDir f then read_zip fs files
      else case zf_Open f of
        Inl e \<Rightarrow> err (Errw ''open %s in zip: %w'' [Str (zf_Name f)] e)
      | Inr (Inl e) \<Rightarrow> err (Errw ''read %s in zip: %w'' [Str (zf_Name f)] e)
      | Inr (Inr content) \<Rightarrow>
          read_zip fs (map_put (map (\<lambda>c. if c = CHR 0x5C then CHR ''/'' else c) (zf_Name f)) content files))"

definition unzipToFileMap :: "env \<Rightarrow> string \<Rightarrow> gerr + FileMap" where
  "unzipToFileMap env zipBytes =
     (case ZipReader env zipBytes of
        Inl e \<Rightarrow> err (Errw ''open zip: %w'' [] e)
      | Inr reader \<Rightarrow> read_zip reader [])"

fun bundle_version :: "string list \<Rightarrow> gerr + string" where
  "bundle_version [] = err (Errf ''Bundle-Version not found in MANIFEST.MF'' [])"
| "bundle_version (l # ls) =
     (let line = TrimSpace l in
      if HasPrefix line ''Bundle-Version:'' then
        (let version = TrimSpace (TrimPrefix line ''Bundle-Version:'') in
         if version = [] then err (Errf ''Bundle-Version is empty in MANIFEST.MF'' []) else ok version)
      else bundle_version ls)"

definition extractVersionFromManifest :: "FileMap \<Rightarrow> gerr + string" where
  "extractVersionFromManifest files =
     (case map_of files ''META-INF/MANIFEST.MF'' of
        None \<Rightarrow> err (Errf ''META-INF/MANIFEST.MF not found in artifact ZIP'' [])
      | Some manifest \<Rightarrow> bundle_version (Split (CHR 0x0A) manifest))"

definition cpiSyncYamlHeader :: string where
  "cpiSyncYamlHeader = ''# This file is auto-generated by CPI Delivery.'' @ [CHR 0x0A] @
     ''# It records the sync context of this artifact version.'' @ [CHR 0x0A] @
     ''# Do not edit manually.'' @ [CHR 0x0A, CHR 0x0A]"

definition generateCpiSyncYaml :: "env \<Rightarrow> GitSyncRequest \<Rightarrow> time \<Rightarrow> gerr + string" where
  "generateCpiSyncYaml env req now =
     (case YamlMarshal env
        \<lparr>cy_ArtifactID = gr_ArtifactID req, cy_PackageID = gr_PackageID req, cy_Type = gr_ArtifactType req,
         cy_Version = gr_Version req, cy_Tenant = gr_TenantName req, cy_SyncedAt = FormatRFC3339 env now,
         cy_TriggerSource = gr_TriggerSource req, cy_DeliveryRequestID = gr_DeliveryRequestID req\<rparr> of
        Inl e \<Rightarrow> err e
      | Inr yamlBytes \<Rightarrow> ok (cpiSyncYamlHeader @ yamlBytes))"

definition isArtifactNotFound :: "gerr \<Rightarrow> bool" where
  "isArtifactNotFound e \<longleftrightarrow> as_http_status e = Some 404"

definition not_found_snapshot :: "GitSyncRequest \<Rightarrow> time \<Rightarrow> GitArtifactSnapshot" where
  "not_found_snapshot req now =
    \<lparr>gs_ID = 0, gs_ArtifactID = gr_ArtifactID req, gs_Version = notFoundVersion,
     gs_CpiTenantID = gr_CpiTenantID req, gs_PackageID = gr_PackageID req,
     gs_ArtifactType = gr_ArtifactType req, gs_BranchName = [], gs_TreePath = [],
     gs_CommitSHA = [], gs_TagName = [], gs_TriggerSource = gr_TriggerSource req,
     gs_DeliveryRequestID = None, gs_ArtifactOpID = None, gs_Status = GitSnapshotNotFound,
     gs_TriggeredAt = now, gs_CompletedAt = Some now, gs_Error = []\<rparr>"

definition recordNotFoundSnapshot :: "GitSyncRequest \<Rightarrow> unit prog" where
  "recordNotFoundSnapshot req = do {
     now \<leftarrow> gets clock;
     c \<leftarrow> create_snapshot (not_found_snapshot req now);
     case c of
       Inr _ \<Rightarrow> State_Monad.return ()
     | Inl _ \<Rightarrow> do {
         _ \<leftarrow> db_update db_snaps_update
                (\<lambda>s. snap_key s = (gr_ArtifactID req, notFoundVersion, gr_CpiTenantID req))
                (\<lambda>s. s\<lparr>gs_Status := GitSnapshotNotFound, gs_TriggeredAt := now,
                       gs_CompletedAt := Some now, gs_Error := []\<rparr>);
         State_Monad.return ()
       }
   }"

section \<open>gitSync\<close>

definition complete_row :: "string \<Rightarrow> string \<Rightarrow> string \<Rightarrow> time \<Rightarrow> GitArtifactSnapshot \<Rightarrow> GitArtifactSnapshot" where
  "complete_row status commitSHA errMsg now s =
     s\<lparr>gs_Status := status, gs_CommitSHA := commitSHA, gs_CompletedAt := Some now, gs_Error := errMsg\<rparr>"

definition completeSnapshot :: "nat \<Rightarrow> string \<Rightarrow> string \<Rightarrow> string \<Rightarrow> unit prog" where
  "completeSnapshot i status commitSHA errMsg = do {
     now \<leftarrow> gets clock;
     _ \<leftarrow> db_update db_snaps_update (\<lambda>s. gs_ID s = i) (complete_row status commitSHA errMsg now);
     State_Monad.return ()
   }"

definition commitMessage :: "GitSyncRequest \<Rightarrow> string" where
  "commitMessage req =
     fmt_render (''Sync: %s, Version: %s'' @ [CHR 0x0A, CHR 0x0A] @ ''Tenant: %s(#%d)'' @ [CHR 0x0A] @
        ''Package: %s'' @ [CHR 0x0A] @ ''Artifact Type: %s'' @ [CHR 0x0A] @ ''Trigger: %s'')
       [gr_ArtifactID req, gr_Version req, gr_TenantName req, show_nat (gr_CpiTenantID req),
        gr_PackageID req, gr_ArtifactType req, gr_TriggerSource req]"

definition branch_name :: "GitSyncRequest \<Rightarrow> string" where
  "branch_name req = ''tenant/'' @ gr_TenantName req"

definition tree_path :: "GitSyncRequest \<Rightarrow> string" where
  "tree_path req = fmt_render ''%s/%s'' [gr_PackageID req, gr_ArtifactID req]"

definition tag_name :: "GitSyncRequest \<Rightarrow> string" where
  "tag_name req = fmt_render ''tenant/%s/%s/%s/%s''
     [gr_TenantName req, gr_PackageID req, gr_ArtifactID req, gr_Version req]"

text \<open>The steps of the owner of a snapshot: the row is completed on every way out.\<close>

definition push_artifact :: "env \<Rightarrow> GitSyncRequest \<Rightarrow> FileMap \<Rightarrow> nat \<Rightarrow> (gerr + unit) prog" where
  "push_artifact env req files i =
     (case TagExists env (tag_name req) of
        Inl e \<Rightarrow> do {
          _ \<leftarrow> completeSnapshot i GitSnapshotFailed [] (err_text e);
          failwith (Errw ''tag exists check: %w'' [] e)
        }
      | Inr (Some existingSHA) \<Rightarrow> do {
          _ \<leftarrow> completeSnapshot i GitSnapshotCompleted existingSHA [];
          done_with ()
        }
      | Inr None \<Rightarrow> do {
          now \<leftarrow> gets clock;
          case generateCpiSyncYaml env req now of
            Inl e \<Rightarrow> do {
              _ \<leftarrow> completeSnapshot i GitSnapshotFailed [] (err_text e);
              failwith (Errw ''generate .cpi-sync.yaml: %w'' [] e)
            }
          | Inr syncYaml \<Rightarrow>
              (case GitCommit env (branch_name req) (tree_path req)
                      (map_put ''.cpi-sync.yaml'' syncYaml files) (commitMessage req) of
                 Inl e \<Rightarrow> do {
                   _ \<leftarrow> completeSnapshot i GitSnapshotFailed [] (err_text e);
                   failwith (Errw ''commit: %w'' [] e)
                 }
               | Inr commitSHA \<Rightarrow>
                   (case CreateTag env (tag_name req) commitSHA of
                      Inl e \<Rightarrow> do {
                        _ \<leftarrow> completeSnapshot i GitSnapshotFailed commitSHA (err_text e);
                        failwith (Errw ''create tag: %w'' [] e)
                      }
                    | Inr _ \<Rightarrow> do {
                        _ \<leftarrow> completeSnapshot i GitSnapshotCompleted commitSHA [];
                        done_with ()
                      }))
        })"

definition gitSync :: "env \<Rightarrow> GitSyncRequest \<Rightarrow> (gerr + unit) prog" where
  "gitSync env req0 = do {
     z \<leftarrow> downloadArtifactZip env req0;
     case z of
       Inl e \<Rightarrow>
         if isArtifactNotFound e then do { _ \<leftarrow> recordNotFoundSnapshot req0; done_with () }
         else failwith (Errw ''download artifact: %w'' [] e)
     | Inr zipBytes \<Rightarrow>
         (case unzipToFileMap env zipBytes of
            Inl e \<Rightarrow> failwith (Errw ''unzip: %w'' [] e)
          | Inr files \<Rightarrow>
              (case extractVersionFromManifest files of
                 Inl e \<Rightarrow> failwith (Errw ''extract version from MANIFEST.MF: %w'' [] e)
               | Inr actualVersion \<Rightarrow>
                   (let req = req0\<lparr>gr_Version := actualVersion\<rparr> in
                    onerr (claimGitSyncSnapshot req (branch_name req) (tree_path req) (tag_name req)) id
                      (\<lambda>(claimed, snapshot).
                        if \<not> claimed then done_with () else push_artifact env req files (gs_ID snapshot)))))
   }"

section \<open>Triggering\<close>

definition NewGitClient :: "env \<Rightarrow> GitRepoConfig \<Rightarrow> gerr + unit" where
  "NewGitClient env config =
     (if gc_Provider config = ''github'' then newGoGitHubClient env config
      else err (Errf ''unsupported git provider: %q'' [Str (gc_Provider config)]))"

definition TriggerGitSync ::
  "env \<Rightarrow> string \<Rightarrow> string \<Rightarrow> ArtifactType \<Rightarrow> nat \<Rightarrow> nat option \<Rightarrow> (gerr + unit) prog" where
  "TriggerGitSync env artifactID packageID artifactType tenantID drID = do {
     c \<leftarrow> db_first db_gitcfg gc_Enabled;
     case c of
       Inl _ \<Rightarrow> done_with ()
     | Inr config \<Rightarrow>
         onerr (db_first db_tenants (\<lambda>t. tn_ID t = tenantID))
           (Errw ''git sync: tenant %d not found: %w'' [Num tenantID]) (\<lambda>tenant.
         case NewGitClient env config of
           Inl e \<Rightarrow> failwith (Errw ''git sync: failed to create git client: %w'' [] e)
         | Inr _ \<Rightarrow> gitSync env
             \<lparr>gr_ArtifactID = artifactID, gr_Version = [], gr_PackageID = packageID,
              gr_ArtifactType = artifactType, gr_CpiTenantID = tenantID, gr_TenantName = tn_Name tenant,
              gr_TriggerSource = TriggerSourceDR, gr_DeliveryRequestID = drID, gr_ArtifactOpID = None\<rparr>)
   }"

definition writeGitSyncCondition :: "nat option \<Rightarrow> nat \<Rightarrow> ConditionState \<Rightarrow> message \<Rightarrow> unit prog" where
  "writeGitSyncCondition drID opID st msg =
     (case drID of
        None \<Rightarrow> State_Monad.return ()
      | Some d \<Rightarrow> do { _ \<leftarrow> BatchInsertConditions [op_condition d opID st msg]; State_Monad.return () })"

text \<open>The two goroutines: after an insertion the error is only logged, after an import the outcome
  becomes a condition.\<close>

definition git_sync_task :: "env \<Rightarrow> string \<Rightarrow> string \<Rightarrow> ArtifactType \<Rightarrow> nat \<Rightarrow> nat \<Rightarrow> unit prog" where
  "git_sync_task env tech pkg type tenantID drID =
     do { _ \<leftarrow> TriggerGitSync env tech pkg type tenantID (Some drID); State_Monad.return () }"

definition git_sync_op_task ::
  "env \<Rightarrow> string \<Rightarrow> string \<Rightarrow> ArtifactType \<Rightarrow> nat \<Rightarrow> nat \<Rightarrow> nat \<Rightarrow> unit prog" where
  "git_sync_op_task env tech pkg type tenantID drID opID = do {
     r \<leftarrow> TriggerGitSync env tech pkg type tenantID (Some drID);
     case r of
       Inl e \<Rightarrow> writeGitSyncCondition (Some drID) opID CondError
                  (Errf ''git sync failed for %s on tenant %d: %s'' [Str tech, Num tenantID, Verb e])
     | Inr _ \<Rightarrow> writeGitSyncCondition (Some drID) opID CondSuccess
                  (Errf ''git sync completed for %s on tenant %d'' [Str tech, Num tenantID])
   }"

definition HandleTriggerGitSync :: "env \<Rightarrow> string \<Rightarrow> nat \<Rightarrow> ArtifactType \<Rightarrow> string \<Rightarrow> (http + unit) prog" where
  "HandleTriggerGitSync env artifactID tenantID artifactType packageID =
     (if artifactID = [] \<or> tenantID = 0 \<or> artifactType = [] \<or> packageID = [] then
        failwith (400, Errf ''artifactId, cpiTenantId, artifactType, and packageId are required'' [])
      else onerr (TriggerGitSync env artifactID packageID artifactType tenantID None) (\<lambda>e. (500, e)) done_with)"

section \<open>Reading snapshots\<close>

datatype snap_error =
  OrphanedSnapshotError nat nat gerr       \<comment> \<open>SnapshotID, StatusCode, Err\<close>
| SnapErr gerr

definition isOrphanStatus :: "nat \<Rightarrow> bool" where
  "isOrphanStatus code \<longleftrightarrow> code = 404 \<or> code = 409 \<or> code = 422"

record SnapshotFileEntry =
  fe_Path :: string
  fe_Content :: string
  fe_IsBinary :: bool
  fe_Size :: nat

record SnapshotFilesResponse =
  fr_SnapshotID :: nat
  fr_ArtifactID :: string
  fr_Version :: string
  fr_Tenant :: string
  fr_Files :: "SnapshotFileEntry list"

text \<open>bytes.ReplaceAll of CR LF by LF.\<close>

fun normalizeLineEndings :: "string \<Rightarrow> string" where
  "normalizeLineEndings [] = []"
| "normalizeLineEndings [c] = [c]"
| "normalizeLineEndings (c # d # s) =
     (if c = CHR 0x0D \<and> d = CHR 0x0A then d # normalizeLineEndings s
      else c # normalizeLineEndings (d # s))"

definition isBinaryPath :: "string \<Rightarrow> bool" where
  "isBinaryPath path =
     (let lower = ToLower path in
      HasSuffix lower ''.jar'' \<or> HasSuffix lower ''.zip'' \<or> HasSuffix lower ''.class'')"

definition file_entry :: "string \<Rightarrow> string \<Rightarrow> SnapshotFileEntry" where
  "file_entry path content =
     (if isBinaryPath path then
        \<lparr>fe_Path = path, fe_Content = [], fe_IsBinary = True, fe_Size = length content\<rparr>
      else (let content' = normalizeLineEndings content in
        \<lparr>fe_Path = path, fe_Content = content', fe_IsBinary = False, fe_Size = length content'\<rparr>))"

definition buildFileEntries :: "FileMap \<Rightarrow> SnapshotFileEntry list" where
  "buildFileEntries files =
     map (\<lambda>(path, content). file_entry path content) (filter (\<lambda>(path, _). path \<noteq> ''.cpi-sync.yaml'') files)"

definition GetSnapshotFiles :: "env \<Rightarrow> nat \<Rightarrow> (snap_error + SnapshotFilesResponse) prog" where
  "GetSnapshotFiles env snapshotID =
     onerr (db_first db_snaps (\<lambda>s. gs_ID s = snapshotID))
       (\<lambda>e. SnapErr (Errw ''snapshot %d not found: %w'' [Num snapshotID] e)) (\<lambda>snapshot.
     if gs_Status snapshot \<noteq> GitSnapshotCompleted then
       failwith (SnapErr (Errf ''snapshot %d is not completed (status=%s)''
         [Num snapshotID, Str (gs_Status snapshot)]))
     else do {
       t \<leftarrow> db_first db_tenants (\<lambda>t. tn_ID t = gs_CpiTenantID snapshot);
       let tenant = (case t of Inl _ \<Rightarrow> zero_tenant | Inr x \<Rightarrow> x);
       (case ReadTree env (gs_CommitSHA snapshot) (gs_TreePath snapshot) of
          Inl e \<Rightarrow>
            (case HTTPStatusOf env e of
               Some code \<Rightarrow>
                 if isOrphanStatus code then failwith (OrphanedSnapshotError snapshotID code e)
                 else failwith (SnapErr (Errw ''read tree: %w'' [] e))
             | None \<Rightarrow> failwith (SnapErr (Errw ''read tree: %w'' [] e)))
        | Inr files \<Rightarrow> done_with
            \<lparr>fr_SnapshotID = gs_ID snapshot, fr_ArtifactID = gs_ArtifactID snapshot,
             fr_Version = gs_Version snapshot, fr_Tenant = tn_Name tenant,
             fr_Files = buildFileEntries files\<rparr>)
     })"

definition InvalidateSnapshot :: "nat \<Rightarrow> (gerr + unit) prog" where
  "InvalidateSnapshot snapshotID =
     onerr (db_first db_snaps (\<lambda>s. gs_ID s = snapshotID)) (Errw ''snapshot %d not found: %w'' [Num snapshotID])
       (\<lambda>snapshot. onerr
          (db_update db_snaps_update (\<lambda>s. gs_ID s = gs_ID snapshot \<and> gs_Status s = GitSnapshotCompleted)
             (\<lambda>s. s\<lparr>gs_Status := GitSnapshotFailed,
                gs_Error := ''Snapshot orphaned: commit unreachable in current repo, re-sync required''\<rparr>))
          (Errw ''invalidate snapshot %d: %w'' [Num snapshotID]) done_with)"

definition GetSnapshots :: "string \<Rightarrow> nat \<Rightarrow> (gerr + GitArtifactSnapshot list) prog" where
  "GetSnapshots artifactID tenantID =
     onerr (db_find db_snaps (\<lambda>s. gs_ArtifactID s = artifactID \<and> gs_CpiTenantID s = tenantID))
       (Errw ''query snapshots: %w'' []) (\<lambda>ss. done_with (rev (sort_key gs_TriggeredAt ss)))"

text \<open>strconv.ParseUint(s, 10, 32)\<close>

definition ParseUint32 :: "string \<Rightarrow> nat option" where
  "ParseUint32 s = (case parse_nat s of Some n \<Rightarrow> if n < 2 ^ 32 then Some n else None | None \<Rightarrow> None)"

definition resolveGitClient :: "env \<Rightarrow> (gerr + unit) prog" where
  "resolveGitClient env =
     onerr (db_first db_gitcfg gc_Enabled) (Errw ''no enabled Git Repository Configuration found: %w'' [])
       (\<lambda>config. State_Monad.return (NewGitClient env config))"

definition GetGitSnapshotFiles :: "env \<Rightarrow> string \<Rightarrow> (http + SnapshotFilesResponse) prog" where
  "GetGitSnapshotFiles env idStr =
     (case ParseUint32 idStr of
        None \<Rightarrow> failwith (400, Errf ''invalid snapshot ID'' [])
      | Some snapshotID \<Rightarrow>
          onerr (resolveGitClient env)
            (\<lambda>e. (503, Errf ''GitHub integration not configured: %s'' [Verb e])) (\<lambda>_.
          onerr (GetSnapshotFiles env snapshotID) (\<lambda>e. case e of
              OrphanedSnapshotError _ _ _ \<Rightarrow> (409, Errf
                (''This snapshot'' @ [CHR 0x27] @ ''s version is no longer available in the current repository. Re-sync to rebuild it.'') [])
            | SnapErr e' \<Rightarrow> (500, e')) done_with))"

definition InvalidateGitSnapshot :: "string \<Rightarrow> (http + unit) prog" where
  "InvalidateGitSnapshot idStr =
     (case ParseUint32 idStr of
        None \<Rightarrow> failwith (400, Errf ''invalid snapshot ID'' [])
      | Some snapshotID \<Rightarrow> onerr (InvalidateSnapshot snapshotID) (\<lambda>e. (500, e)) done_with)"

section \<open>The table of snapshots\<close>

definition snaps_ok :: "world \<Rightarrow> bool" where
  "snaps_ok w \<longleftrightarrow> distinct (map gs_ID (db_snaps w)) \<and> distinct (map snap_key (db_snaps w))"

lemma snap_key_sel [simp]:
  "snap_key (s\<lparr>gs_ID := i\<rparr>) = snap_key s" "snap_key (reclaimed req now s) = snap_key s"
  "snap_key (complete_row st sha m now s) = snap_key s"
  "snap_key (new_snapshot req b p g now) = req_key req"
  by (simp_all add: snap_key_def reclaimed_def complete_row_def new_snapshot_def req_key_def)

lemma reclaimed_sel [simp]:
  "gs_ID (reclaimed req now s) = gs_ID s" "gs_Status (reclaimed req now s) = GitSnapshotPending"
  "gs_TriggeredAt (reclaimed req now s) = now"
  by (simp_all add: reclaimed_def)

lemma complete_row_sel [simp]:
  "gs_ID (complete_row st sha m now s) = gs_ID s" "gs_Status (complete_row st sha m now s) = st"
  "gs_CompletedAt (complete_row st sha m now s) = Some now"
  by (simp_all add: complete_row_def)

lemma new_snapshot_sel [simp]:
  "gs_Status (new_snapshot req b p g now) = GitSnapshotPending"
  "gs_TriggeredAt (new_snapshot req b p g now) = now"
  by (simp_all add: new_snapshot_def)

lemma status_distinct [simp]:
  "GitSnapshotPending \<noteq> GitSnapshotCompleted" "GitSnapshotCompleted \<noteq> GitSnapshotPending"
  "GitSnapshotPending \<noteq> GitSnapshotFailed" "GitSnapshotFailed \<noteq> GitSnapshotPending"
  "GitSnapshotCompleted \<noteq> GitSnapshotFailed" "GitSnapshotFailed \<noteq> GitSnapshotCompleted"
  "GitSnapshotNotFound \<noteq> GitSnapshotPending" "GitSnapshotPending \<noteq> GitSnapshotNotFound"
  by (simp_all add: snapshot_status_defs)

text \<open>Every operation on the table keeps its unique keys, whatever fails.\<close>

definition keeps_snaps :: "world \<Rightarrow> world \<Rightarrow> bool" where
  "keeps_snaps w w' \<longleftrightarrow> (snaps_ok w \<longrightarrow> snaps_ok w')"

interpretation snaps_kept: kept_relation keeps_snaps
  by unfold_locales (auto simp: keeps_snaps_def snaps_ok_def)

lemma snaps_ok_append:
  assumes "snaps_ok w" and "\<not> list_ex (\<lambda>s. snap_key s = snap_key row \<or> gs_ID s = gs_ID row) (db_snaps w)"
  shows "snaps_ok (w\<lparr>next_id := n, db_snaps := db_snaps w @ [row]\<rparr>)"
  using assms by (auto simp: snaps_ok_def list_ex_iff)

lemma snaps_ok_upd:
  assumes "snaps_ok w" and "\<And>s. gs_ID (f s) = gs_ID s" and "\<And>s. snap_key (f s) = snap_key s"
  shows "snaps_ok (db_snaps_update (upd_where P f) w)"
proof -
  have "map gs_ID (upd_where P f ss) = map gs_ID ss" "map snap_key (upd_where P f ss) = map snap_key ss" for ss
    using assms(2,3) by (auto simp: upd_where_def)
  then show ?thesis using assms(1) by (simp add: snaps_ok_def)
qed

lemma keeps_snaps_create [pres_intro]: "state_io_rel keeps_snaps (create_snapshot row)"
  unfolding create_snapshot_def
proof (rule snaps_kept.keep_stmt)
  show "keeps_snaps w (snd (let row' = row\<lparr>gs_ID := next_id w\<rparr>; w1 = w\<lparr>next_id := Suc (next_id w)\<rparr> in
     if list_ex (\<lambda>s. snap_key s = snap_key row \<or> gs_ID s = next_id w) (db_snaps w) then (Inl DbErr, w1)
     else (Inr row', db_snaps_update (\<lambda>ss. ss @ [row']) w1)))" for w
    using snaps_ok_append [of w "row\<lparr>gs_ID := next_id w\<rparr>"]
    by (auto simp: keeps_snaps_def Let_def snaps_ok_def)
qed

lemma keeps_snaps_reclaim [pres_intro]: "state_io_rel keeps_snaps (reclaim_snapshot req i P now)"
  unfolding reclaim_snapshot_def
  by (intro snaps_kept.keep_bind snaps_kept.keep_stmt pres_intro)
    (auto simp: keeps_snaps_def intro!: snaps_ok_upd snaps_kept.keep_return)

lemma keeps_snaps_claim [pres_intro]:
  "state_io_rel keeps_snaps (claimGitSyncSnapshot req b t g)"
  unfolding claimGitSyncSnapshot_def claim_existing_def by (intro pres_intro)

lemma keeps_snaps_complete [pres_intro]: "state_io_rel keeps_snaps (completeSnapshot i st sha m)"
  unfolding completeSnapshot_def by (intro pres_intro) (auto simp: keeps_snaps_def intro: snaps_ok_upd)

lemma keeps_snaps_not_found [pres_intro]: "state_io_rel keeps_snaps (recordNotFoundSnapshot req)"
  unfolding recordNotFoundSnapshot_def
  by (intro pres_intro) (auto simp: keeps_snaps_def snap_key_def intro!: snaps_ok_upd)

lemma keeps_snaps_sync [pres_intro]: "state_io_rel keeps_snaps (gitSync env req)"
  unfolding gitSync_def downloadArtifactZip_def push_artifact_def Let_def by (intro pres_intro)

lemma keeps_snaps_trigger [pres_intro]: "state_io_rel keeps_snaps (TriggerGitSync env a p t i d)"
  unfolding TriggerGitSync_def by (intro pres_intro)

lemma keeps_snaps_invalidate [pres_intro]: "state_io_rel keeps_snaps (InvalidateSnapshot i)"
  unfolding InvalidateSnapshot_def
  by (intro pres_intro) (auto simp: keeps_snaps_def snap_key_def intro!: snaps_ok_upd)

section \<open>What a claim does\<close>

definition snap_find :: "world \<Rightarrow> string \<times> string \<times> nat \<Rightarrow> GitArtifactSnapshot option" where
  "snap_find w k = List.find (\<lambda>s. snap_key s = k) (db_snaps w)"

lemma run_bind: "run_state (m \<bind> f) w = (case run_state m w of (x, w') \<Rightarrow> run_state (f x) w')"
  by (simp add: State_Monad.bind_def)

lemma run_return: "run_state (State_Monad.return x) w = (x, w)"
  by (simp add: State_Monad.return_def)

lemma run_gets: "run_state (gets f) w = (f w, w)"
  by (simp add: gets_def)

text \<open>A conditional update by id, for the row that was found.\<close>

lemma reclaim_at:
  assumes "faults w = []" and ok: "snaps_ok w" and s: "s \<in> set (db_snaps w)"
  shows "run_state (reclaim_snapshot req (gs_ID s) P now) w =
    (P s, if P s then db_snaps_update (upd_where (\<lambda>x. gs_ID x = gs_ID s) (reclaimed req now)) w else w)"
proof -
  have u: "gs_ID x = gs_ID s \<longleftrightarrow> x = s" if "x \<in> set (db_snaps w)" for x
    using ok s that by (auto simp: snaps_ok_def distinct_map inj_on_def)
  have ex: "list_ex (\<lambda>x. gs_ID x = gs_ID s \<and> P x) (db_snaps w) = P s"
    using s by (auto simp: list_ex_iff u)
  have yes: "upd_where (\<lambda>x. gs_ID x = gs_ID s \<and> P x) f (db_snaps w) = upd_where (\<lambda>x. gs_ID x = gs_ID s) f (db_snaps w)"
    if "P s" for f
    unfolding upd_where_def by (rule map_cong [OF refl]) (use that u in auto)
  have no: "upd_where (\<lambda>x. gs_ID x = gs_ID s \<and> P x) f (db_snaps w) = db_snaps w" if "\<not> P s" for f
    by (rule upd_where_none) (use that u in auto)
  show ?thesis
    unfolding reclaim_snapshot_def run_bind run_stmt [OF assms(1)]
    by (cases "P s") (simp_all add: run_return ex yes no)
qed

lemma claim_existing_run:
  assumes "faults w = []" and "snaps_ok w" and "s \<in> set (db_snaps w)"
  shows "case run_state (claim_existing req s) w of (r, w') \<Rightarrow>
    if gs_Status s = GitSnapshotFailed \<or> stale (clock w) s then
      r = Inr (True, reclaimed req (clock w) s) \<and>
      w' = db_snaps_update (upd_where (\<lambda>x. gs_ID x = gs_ID s) (reclaimed req (clock w))) w
    else w' = w \<and> (\<forall>out. r \<noteq> Inr (True, out))"
  using assms(1)
  by (simp add: claim_existing_def run_bind run_gets run_return reclaim_at [OF assms] stale_def)

definition demo_git_req :: GitSyncRequest where
  "demo_git_req = \<lparr>gr_ArtifactID = ''flow'', gr_Version = ''1.0.2'', gr_PackageID = ''pkg'',
     gr_ArtifactType = ''Integration Flow'', gr_CpiTenantID = 1, gr_TenantName = ''DEV'',
     gr_TriggerSource = TriggerSourceDR, gr_DeliveryRequestID = Some 5, gr_ArtifactOpID = None\<rparr>"

lemma claimGitSyncSnapshot_rows:
  assumes "faults w = []" and "snaps_ok w" and "next_id w \<notin> gs_ID ` set (db_snaps w)"
    and "run_state (claimGitSyncSnapshot req b p g) w = (r, w')"
  shows "case snap_find w (req_key req) of
     None \<Rightarrow> (let row = (new_snapshot req b p g (clock w))\<lparr>gs_ID := next_id w\<rparr> in
              r = Inr (True, row) \<and> db_snaps w' = db_snaps w @ [row])
   | Some s \<Rightarrow>
       if gs_Status s = GitSnapshotFailed \<or> stale (clock w) s then
         r = Inr (True, reclaimed req (clock w) s) \<and>
         db_snaps w' = upd_where (\<lambda>x. gs_ID x = gs_ID s) (reclaimed req (clock w)) (db_snaps w)
       else db_snaps w' = db_snaps w \<and> \<not> (\<exists>out. r = Inr (True, out))"
proof (cases "snap_find w (req_key req)")
  case None
  then have "\<not> list_ex (\<lambda>s. snap_key s = req_key req \<or> gs_ID s = next_id w) (db_snaps w)"
    using assms(3) by (auto simp: snap_find_def find_None_iff2 list_ex_iff) (metis imageI)
  then show ?thesis
    using assms(4) None
    by (auto simp: claimGitSyncSnapshot_def run_bind run_gets create_snapshot_def run_stmt assms(1) Let_def run_return)
next
  case (Some s)
  let ?w = "w\<lparr>next_id := Suc (next_id w)\<rparr>"
  have s: "s \<in> set (db_snaps w)" "snap_key s = req_key req"
    using Some [unfolded snap_find_def] by (auto dest: find_SomeD)
  then have "list_ex (\<lambda>s. snap_key s = req_key req \<or> gs_ID s = next_id w) (db_snaps w)"
    by (auto simp: list_ex_iff)
  then have "run_state (claim_existing req s) ?w = (r, w')"
    using assms(4) Some [unfolded snap_find_def]
    by (simp add: claimGitSyncSnapshot_def run_bind run_gets create_snapshot_def run_stmt assms(1) Let_def
        onerr_def db_first_def)
  then show ?thesis
    using claim_existing_run [of ?w s req] assms(1,2) s(1) Some
    by (simp add: snaps_ok_def split: if_splits)
qed

section \<open>What a synchronisation leaves behind\<close>

lemma download_reads:
  assumes "faults w = []"
  shows "snd (run_state (downloadArtifactZip env req) w) = w"
  using assms
  by (simp add: downloadArtifactZip_def onerr_def run_bind db_first_def run_stmt run_return
      split: option.split sum.split)

lemma complete_run:
  "faults w = [] \<Longrightarrow> run_state (completeSnapshot i st sha m) w =
     ((), db_snaps_update (upd_where (\<lambda>s. gs_ID s = i) (complete_row st sha m (clock w))) w)"
  by (simp add: completeSnapshot_def run_bind run_gets db_update_def run_stmt run_return)

text \<open>The owner of a row completes it on every way out.\<close>

definition completes :: "nat \<Rightarrow> world \<Rightarrow> (gerr + unit) \<times> world \<Rightarrow> bool" where
  "completes i w = (\<lambda>(r, w'). \<exists>sha m. w' = db_snaps_update (upd_where (\<lambda>s. gs_ID s = i)
     (complete_row (if isl r then GitSnapshotFailed else GitSnapshotCompleted) sha m (clock w))) w)"

lemma completes_return:
  assumes "faults w = []" and "st = (if isl r then GitSnapshotFailed else GitSnapshotCompleted)"
  shows "completes i w (case run_state (completeSnapshot i st sha m) w of (a, w') \<Rightarrow> (r, w'))"
  using assms by (auto simp: completes_def complete_run)

lemma push_run:
  assumes "faults w = []"
  shows "completes i w (run_state (push_artifact env req files i) w)"
  unfolding push_artifact_def
  by (simp add: completes_return [OF assms] run_gets split: option.split sum.split)

text \<open>A snapshot of the table was written: the rows of other keys are untouched.\<close>

definition wrote :: "string \<times> string \<times> nat \<Rightarrow> GitArtifactSnapshot \<Rightarrow> world \<Rightarrow> world \<Rightarrow> bool" where
  "wrote k s w w' \<longleftrightarrow> snap_find w' k = Some s \<and>
     filter (\<lambda>x. snap_key x \<noteq> k) (db_snaps w') = filter (\<lambda>x. snap_key x \<noteq> k) (db_snaps w)"

lemma filter_upd_where_other:
  assumes "\<And>x. x \<in> set xs \<Longrightarrow> P x \<Longrightarrow> key x = k" and "\<And>x. key (f x) = key x"
  shows "filter (\<lambda>x. key x \<noteq> k) (upd_where P f xs) = filter (\<lambda>x. key x \<noteq> k) xs"
  using assms by (induction xs) auto

lemma wrote_update:
  assumes "snaps_ok w" and s: "s \<in> set (db_snaps w)" "snap_key s = k"
    and f: "\<And>x. snap_key (f x) = snap_key x" "\<And>x. gs_ID (f x) = gs_ID x"
  shows "wrote k (f s) w (db_snaps_update (upd_where (\<lambda>x. gs_ID x = gs_ID s) f) w)"
proof -
  have u: "gs_ID x = gs_ID s \<Longrightarrow> x = s" if "x \<in> set (db_snaps w)" for x
    using assms(1) s that by (auto simp: snaps_ok_def distinct_map inj_on_def)
  have ok: "snaps_ok (db_snaps_update (upd_where (\<lambda>x. gs_ID x = gs_ID s) f) w)"
    by (rule snaps_ok_upd [OF assms(1) f(2,1)])
  have "f s \<in> set (upd_where (\<lambda>x. gs_ID x = gs_ID s) f (db_snaps w))"
    unfolding set_upd_where using s(1) by (intro image_eqI [of _ _ s]) simp_all
  with ok have "snap_find (db_snaps_update (upd_where (\<lambda>x. gs_ID x = gs_ID s) f) w) (snap_key (f s)) = Some (f s)"
    unfolding snap_find_def snaps_ok_def by (intro find_distinct_key) simp_all
  moreover have "filter (\<lambda>x. snap_key x \<noteq> k) (upd_where (\<lambda>x. gs_ID x = gs_ID s) f (db_snaps w)) =
      filter (\<lambda>x. snap_key x \<noteq> k) (db_snaps w)"
    by (rule filter_upd_where_other) (use u s f in auto)
  ultimately show ?thesis using s(2) f by (simp add: wrote_def)
qed

lemma wrote_trans: "\<lbrakk>wrote k s u v; wrote k s' v w\<rbrakk> \<Longrightarrow> wrote k s' u w"
  by (simp add: wrote_def)

lemma wrote_append:
  assumes "\<forall>x\<in>set (db_snaps w). snap_key x \<noteq> k" and "snap_key row = k" and "db_snaps w' = db_snaps w @ [row]"
  shows "wrote k row w w'"
proof -
  have "List.find (\<lambda>s. snap_key s = k) (ss @ [row]) = Some row"
    if "\<forall>x\<in>set ss. snap_key x \<noteq> k" for ss
    using that assms(2) by (induction ss) auto
  then show ?thesis using assms by (simp add: wrote_def snap_find_def)
qed

lemma claim_wrote:
  assumes "faults w = []" and "snaps_ok w" and "next_id w \<notin> gs_ID ` set (db_snaps w)"
    and "run_state (claimGitSyncSnapshot req b p g) w = (r, w')"
  shows "(\<exists>s. r = Inr (True, s) \<and> wrote (req_key req) s w w' \<and> snap_key s = req_key req) \<or>
    db_snaps w' = db_snaps w \<and> (\<nexists>out. r = Inr (True, out))"
proof (cases "snap_find w (req_key req)")
  case None
  then have n: "\<forall>x\<in>set (db_snaps w). snap_key x \<noteq> req_key req" by (simp add: snap_find_def find_None_iff2)
  have "wrote (req_key req) row w w'" if "db_snaps w' = db_snaps w @ [row]" "snap_key row = req_key req" for row
    using wrote_append [OF n that(2,1)] .
  then show ?thesis
    using claimGitSyncSnapshot_rows [OF assms] None by (simp add: Let_def)
next
  case (Some s)
  then have s: "s \<in> set (db_snaps w)" "snap_key s = req_key req"
    using Some [unfolded snap_find_def] by (auto dest: find_SomeD)
  have "wrote (req_key req) (reclaimed req (clock w) s) w w'"
    if "db_snaps w' = upd_where (\<lambda>x. gs_ID x = gs_ID s) (reclaimed req (clock w)) (db_snaps w)"
    using wrote_update [OF assms(2) s, of "reclaimed req (clock w)"] that
    by (simp add: wrote_def snap_find_def)
  then show ?thesis
    using claimGitSyncSnapshot_rows [OF assms] Some s by (auto split: if_splits)
qed

lemma claim_keeps:
  assumes "faults w = []" and "snaps_ok w"
    and "run_state (claimGitSyncSnapshot req b p g) w = (r, w')"
  shows "faults w' = [] \<and> snaps_ok w' \<and> clock w' = clock w"
proof -
  have "snaps_ok w'"
    using keeps_snaps_claim [of req b p g] assms(2,3)
    by (auto simp: state_io_rel_def keeps_snaps_def dest!: spec [of _ w])
  moreover have "faults w' = [] \<and> clock w' = clock w"
    using assms(1,3)
    by (auto simp: claimGitSyncSnapshot_def claim_existing_def reclaim_snapshot_def run_bind run_gets run_return
        create_snapshot_def run_stmt Let_def onerr_def db_first_def split: if_splits option.splits)
  ultimately show ?thesis by simp
qed

lemma not_found_wrote:
  assumes "faults w = []" and "snaps_ok w" and "next_id w \<notin> gs_ID ` set (db_snaps w)"
    and "run_state (recordNotFoundSnapshot req) w = (u, w')"
  shows "\<exists>s. wrote (gr_ArtifactID req, notFoundVersion, gr_CpiTenantID req) s w w' \<and>
    gs_Status s = GitSnapshotNotFound \<and> gs_CompletedAt s = Some (clock w)"
proof (cases "snap_find w (gr_ArtifactID req, notFoundVersion, gr_CpiTenantID req)")
  case None
  let ?k = "(gr_ArtifactID req, notFoundVersion, gr_CpiTenantID req)"
  let ?row = "(not_found_snapshot req (clock w))\<lparr>gs_ID := next_id w\<rparr>"
  have n: "\<forall>x\<in>set (db_snaps w). snap_key x \<noteq> ?k \<and> gs_ID x \<noteq> next_id w"
    using None assms(3) by (auto simp: snap_find_def find_None_iff2) (metis imageI)
  have k: "snap_key ?row = ?k" by (simp add: snap_key_def not_found_snapshot_def)
  have "db_snaps w' = db_snaps w @ [?row]"
    using assms(4) n k
    by (auto simp: recordNotFoundSnapshot_def run_bind run_gets create_snapshot_def run_stmt assms(1) Let_def
        run_return list_ex_iff)
  then have "wrote ?k ?row w w'" using wrote_append n k by blast
  then show ?thesis by (intro exI [of _ ?row]) (simp add: not_found_snapshot_def)
next
  case (Some s)
  let ?k = "(gr_ArtifactID req, notFoundVersion, gr_CpiTenantID req)"
  let ?f = "\<lambda>s. s\<lparr>gs_Status := GitSnapshotNotFound, gs_TriggeredAt := clock w, gs_CompletedAt := Some (clock w), gs_Error := []\<rparr>"
  have s: "s \<in> set (db_snaps w)" "snap_key s = ?k"
    using Some [unfolded snap_find_def] by (auto dest: find_SomeD)
  have u: "snap_key x = ?k \<longleftrightarrow> gs_ID x = gs_ID s" if "x \<in> set (db_snaps w)" for x
    using assms(2) s that by (auto simp: snaps_ok_def distinct_map inj_on_def)
  have e: "upd_where (\<lambda>x. snap_key x = ?k) ?f (db_snaps w) = upd_where (\<lambda>x. gs_ID x = gs_ID s) ?f (db_snaps w)"
    unfolding upd_where_def by (rule map_cong [OF refl]) (simp add: u)
  have k: "snap_key (not_found_snapshot req (clock w)) = ?k" by (simp add: snap_key_def not_found_snapshot_def)
  have "list_ex (\<lambda>s. snap_key s = ?k \<or> gs_ID s = next_id w) (db_snaps w)"
    using s by (auto simp: list_ex_iff)
  then have "db_snaps w' = upd_where (\<lambda>x. gs_ID x = gs_ID s) ?f (db_snaps w)"
    using assms(4) k e
    by (auto simp: recordNotFoundSnapshot_def run_bind run_gets create_snapshot_def run_stmt assms(1) Let_def
        run_return db_update_def)
  moreover have "wrote ?k (?f s) w (db_snaps_update (upd_where (\<lambda>x. gs_ID x = gs_ID s) ?f) w)"
    by (rule wrote_update [OF assms(2) s]) (simp_all add: snap_key_def)
  ultimately have "wrote ?k (?f s) w w'" by (simp add: wrote_def snap_find_def)
  then show ?thesis by (intro exI [of _ "?f s"]) simp
qed

section \<open>Properties\<close>

text \<open>A claim, on a table with unique keys and without a database failure: a missing row is created;
  a failed row, or a pending one older than the timeout, is taken over; in every other case (completed,
  freshly pending, or of another state) the claim is refused and the table is left alone.\<close>

theorem claimGitSyncSnapshot_exact:
  assumes "faults w = []" and "snaps_ok w" and "next_id w \<notin> gs_ID ` set (db_snaps w)"
    and "run_state (claimGitSyncSnapshot req b p g) w = (r, w')"
  shows "case snap_find w (req_key req) of
     None \<Rightarrow> (let row = (new_snapshot req b p g (clock w))\<lparr>gs_ID := next_id w\<rparr> in
              r = Inr (True, row) \<and> db_snaps w' = db_snaps w @ [row])
   | Some s \<Rightarrow>
       if gs_Status s = GitSnapshotFailed \<or> stale (clock w) s then
         r = Inr (True, reclaimed req (clock w) s) \<and>
         db_snaps w' = upd_where (\<lambda>x. gs_ID x = gs_ID s) (reclaimed req (clock w)) (db_snaps w)
       else db_snaps w' = db_snaps w \<and> \<not> (\<exists>out. r = Inr (True, out))"
  by (rule claimGitSyncSnapshot_rows [OF assms])

theorem claimGitSyncSnapshot_exact_witness:
  "\<exists>out. fst (run_state (claimGitSyncSnapshot demo_git_req ''b'' ''p'' ''g'') demo_world) = Inr (True, out)"
proof -
  have n: "snap_find demo_world (req_key demo_git_req) = None"
    by (simp add: snap_find_def demo_world_def empty_world_def)
  have "snaps_ok demo_world" by code_simp
  from claimGitSyncSnapshot_exact [OF _ this _ run_split, of demo_git_req "''b''" "''p''" "''g''"]
  show ?thesis unfolding n by (simp add: Let_def demo_world_def empty_world_def)
qed

text \<open>C16: a synchronisation that meets no database failure settles what it touches: the table is as before,
  or exactly one version of the artifact was written, and its row is finished: failed when an error
  is returned, otherwise completed, or not_found (for the marker version, when CPI has no such
  artifact). No row is left pending by its owner, so a lock is released on every error path.\<close>

theorem gitSync_outcome:
  assumes "faults w = []" and "snaps_ok w" and "next_id w \<notin> gs_ID ` set (db_snaps w)"
    and "run_state (gitSync env req) w = (r, w')"
  shows "db_snaps w' = db_snaps w \<or>
    (\<exists>v s. let k = (gr_ArtifactID req, v, gr_CpiTenantID req) in
       snap_find w' k = Some s \<and>
       filter (\<lambda>x. snap_key x \<noteq> k) (db_snaps w') = filter (\<lambda>x. snap_key x \<noteq> k) (db_snaps w) \<and>
       gs_CompletedAt s = Some (clock w) \<and>
       (if isl r then gs_Status s = GitSnapshotFailed
        else gs_Status s = GitSnapshotCompleted \<or> gs_Status s = GitSnapshotNotFound \<and> v = notFoundVersion))"
proof -
  let ?t = "db_snaps w' = db_snaps w"
  obtain z where z: "run_state (downloadArtifactZip env req) w = (z, w)"
    using download_reads [OF assms(1), of env req] by (metis prod.collapse)
  note run = assms(4) [unfolded gitSync_def run_bind z prod.case]
  show ?thesis
  proof (cases z)
    case (Inl e)
    show ?thesis
    proof (cases "isArtifactNotFound e")
      case True
      then have "r = Inr ()" "run_state (recordNotFoundSnapshot req) w = ((), w')"
        using run Inl by (auto simp: run_bind run_return split: prod.splits)
      then show ?thesis using not_found_wrote [OF assms(1-3)] by (auto simp: wrote_def Let_def)
    next
      case False
      then show ?thesis using run Inl by (simp add: run_return)
    qed
  next
    case (Inr zipBytes)
    show ?thesis
    proof (cases "\<exists>files v. unzipToFileMap env zipBytes = Inr files \<and> extractVersionFromManifest files = Inr v")
      case False
      then show ?thesis
        using run Inr by (auto simp: run_return split: sum.splits)
    next
      case True
      then obtain files v where fv: "unzipToFileMap env zipBytes = Inr files" "extractVersionFromManifest files = Inr v"
        by blast
      let ?req = "req\<lparr>gr_Version := v\<rparr>"
      obtain c w1 where c: "run_state (claimGitSyncSnapshot ?req (branch_name ?req) (tree_path ?req) (tag_name ?req)) w = (c, w1)"
        by fastforce
      note after = run [unfolded Inr sum.case fv Let_def onerr_def run_bind c prod.case]
      from claim_wrote [OF assms(1-3) c] show ?thesis
      proof (elim disjE exE conjE)
        fix s assume s: "c = Inr (True, s)" "wrote (req_key ?req) s w w1" "snap_key s = req_key ?req"
        have w1: "faults w1 = []" "snaps_ok w1" "clock w1 = clock w"
          using claim_keeps [OF assms(1,2) c] by simp_all
        have s1: "s \<in> set (db_snaps w1)"
          using s(2) by (auto simp: wrote_def snap_find_def dest: find_SomeD)
        have "completes (gs_ID s) w1 (r, w')"
          using after s(1) push_run [OF w1(1), of "gs_ID s" env ?req files] by simp
        then obtain sha m where w': "w' = db_snaps_update (upd_where (\<lambda>x. gs_ID x = gs_ID s)
            (complete_row (if isl r then GitSnapshotFailed else GitSnapshotCompleted) sha m (clock w1))) w1"
          by (auto simp: completes_def)
        have "wrote (req_key ?req) (complete_row (if isl r then GitSnapshotFailed else GitSnapshotCompleted) sha m (clock w1) s) w1 w'"
          unfolding w' by (rule wrote_update [OF w1(2) s1 s(3)]) simp_all
        from wrote_trans [OF s(2) this] show ?thesis
          by (intro disjI2 exI [of _ v]) (auto simp: wrote_def req_key_def Let_def w1(3))
      next
        assume "db_snaps w1 = db_snaps w" "\<nexists>out. c = Inr (True, out)"
        then show ?thesis using after by (auto simp: run_return split: sum.splits if_splits prod.splits)
      qed
    qed
  qed
qed

definition demo_git_env :: env where
  "demo_git_env = demo_env\<lparr>
     DownloadArtifactZip := (\<lambda>_ _ _. Inr ''zip''),
     ZipReader := (\<lambda>_. Inr [\<lparr>zf_Name = ''META-INF/MANIFEST.MF'', zf_IsDir = False,
       zf_Open = Inr (Inr (''Bundle-Version: 1.0.2''))\<rparr>])\<rparr>"

theorem gitSync_outcome_witness:
  "\<exists>v s. gs_CompletedAt s = Some 0 \<and>
     snap_find (snd (run_state (gitSync demo_git_env demo_git_req) demo_world)) (''flow'', v, 1) = Some s"
proof -
  have ok: "snaps_ok demo_world" by code_simp
  have "db_snaps (snd (run_state (gitSync demo_git_env demo_git_req) demo_world)) \<noteq> db_snaps demo_world"
    by code_simp
  with gitSync_outcome [OF _ ok _ run_split, of demo_git_env demo_git_req]
  show ?thesis by (auto simp: Let_def demo_world_def empty_world_def demo_git_req_def)
qed
end
