(* ===== verification/GitClaim.thy ===== *)
theory GitClaim
  imports GitSync
begin

text \<open>
  The claim of a snapshot by concurrent synchronisations, in one process or several: the statements of
  claimGitSyncSnapshot and completeSnapshot interleave, each atomic in the database, and any time may
  pass between them. The state is the world and the position of every synchronisation of one
  version of an artifact; other versions change as they like.
\<close>

section \<open>The positions of a synchronisation\<close>

datatype pc =
  Idle
| Creating time                   \<comment> \<open>the row is built, its INSERT is under way\<close>
| Refused                         \<comment> \<open>the INSERT failed\<close>
| Seen GitArtifactSnapshot        \<comment> \<open>the existing row was read\<close>
| Retrying nat bool time          \<comment> \<open>the conditional update of a failed (True) or stale row\<close>
| Owner nat time                  \<comment> \<open>claimed at that time\<close>
| Over

definition retry_guard :: "bool \<Rightarrow> time \<Rightarrow> GitArtifactSnapshot \<Rightarrow> bool" where
  "retry_guard failed now s \<longleftrightarrow> (if failed then gs_Status s = GitSnapshotFailed else stale now s)"

text \<open>The switch on the status of the row that was read.\<close>

definition seen_next :: "time \<Rightarrow> GitArtifactSnapshot \<Rightarrow> pc" where
  "seen_next now out =
     (if gs_Status out = GitSnapshotCompleted then Over
      else if gs_Status out = GitSnapshotPending then
        (if now < gs_TriggeredAt out + snapshotPendingTimeout then Over else Retrying (gs_ID out) False now)
      else if gs_Status out = GitSnapshotFailed then Retrying (gs_ID out) True now
      else Over)"

type_synonym claim_state = "world \<times> (nat \<Rightarrow> pc)"

section \<open>Steps\<close>

text \<open>One statement, or one test, of one synchronisation p. Every synchronisation may stop anywhere (a
  crash, or an error of the database), and a finished one starts again.\<close>

inductive proc_step :: "(nat \<Rightarrow> GitSyncRequest) \<Rightarrow> nat \<Rightarrow> claim_state \<Rightarrow> claim_state \<Rightarrow> bool" for req p where
  begin_sync: "pcs p = Idle \<Longrightarrow> proc_step req p (w, pcs) (w, pcs(p := Creating (clock w)))"
| created: "\<lbrakk>pcs p = Creating now;
     run_state (create_snapshot (new_snapshot (req p) (branch_name (req p)) (tree_path (req p)) (tag_name (req p)) now)) w = (Inr row, w')\<rbrakk> \<Longrightarrow>
   proc_step req p (w, pcs) (w', pcs(p := Owner (gs_ID row) now))"
| refused: "\<lbrakk>pcs p = Creating now;
     run_state (create_snapshot (new_snapshot (req p) (branch_name (req p)) (tree_path (req p)) (tag_name (req p)) now)) w = (Inl e, w')\<rbrakk> \<Longrightarrow>
   proc_step req p (w, pcs) (w', pcs(p := Refused))"
| read: "\<lbrakk>pcs p = Refused; run_state (db_first db_snaps (\<lambda>s. snap_key s = req_key (req p))) w = (Inr out, w')\<rbrakk> \<Longrightarrow>
   proc_step req p (w, pcs) (w', pcs(p := Seen out))"
| read_fails: "\<lbrakk>pcs p = Refused; run_state (db_first db_snaps (\<lambda>s. snap_key s = req_key (req p))) w = (Inl e, w')\<rbrakk> \<Longrightarrow>
   proc_step req p (w, pcs) (w', pcs(p := Over))"
| decide: "pcs p = Seen out \<Longrightarrow> proc_step req p (w, pcs) (w, pcs(p := seen_next (clock w) out))"
| retry: "\<lbrakk>pcs p = Retrying i failed now;
     run_state (reclaim_snapshot (req p) i (retry_guard failed now) now) w = (won, w')\<rbrakk> \<Longrightarrow>
   proc_step req p (w, pcs) (w', pcs(p := (if won then Owner i now else Over)))"
| complete: "\<lbrakk>pcs p = Owner i t; st \<in> {GitSnapshotCompleted, GitSnapshotFailed};
     run_state (completeSnapshot i st sha m) w = (u, w')\<rbrakk> \<Longrightarrow>
   proc_step req p (w, pcs) (w', pcs(p := Over))"
| stop: "proc_step req p (w, pcs) (w, pcs(p := Over))"
| again: "pcs p = Over \<Longrightarrow> proc_step req p (w, pcs) (w, pcs(p := Idle))"

text \<open>The rest of the system: a row is invalidated by its id, the clock goes on, other rows and tables
  change while the keys stay unique.\<close>

definition key_rows :: "string \<times> string \<times> nat \<Rightarrow> world \<Rightarrow> GitArtifactSnapshot list" where
  "key_rows k w = filter (\<lambda>s. snap_key s = k) (db_snaps w)"

inductive env_step :: "string \<times> string \<times> nat \<Rightarrow> world \<Rightarrow> world \<Rightarrow> bool" for k where
  tick: "clock w \<le> t \<Longrightarrow> env_step k w (w\<lparr>clock := t\<rparr>)"
| invalidate: "run_state (InvalidateSnapshot i) w = (r, w') \<Longrightarrow> env_step k w w'"
| other: "\<lbrakk>key_rows k w' = key_rows k w; clock w' = clock w; snaps_ok w'\<rbrakk> \<Longrightarrow> env_step k w w'"

text \<open>In time: a synchronisation that holds the claim, or is about to write one, has not been at it for
  longer than the timeout.\<close>

fun since :: "pc \<Rightarrow> time option" where
  "since (Creating now) = Some now"
| "since (Retrying i failed now) = Some now"
| "since (Owner i t) = Some t"
| "since _ = None"

definition in_time :: "claim_state \<Rightarrow> bool" where
  "in_time = (\<lambda>(w, pcs). \<forall>p t. since (pcs p) = Some t \<longrightarrow> clock w \<le> t + snapshotPendingTimeout)"

inductive claim_step :: "(nat \<Rightarrow> GitSyncRequest) \<Rightarrow> string \<times> string \<times> nat \<Rightarrow> claim_state \<Rightarrow> claim_state \<Rightarrow> bool" for req k where
  proc: "proc_step req p c c' \<Longrightarrow> claim_step req k c c'"
| rest: "env_step k w w' \<Longrightarrow> claim_step req k (w, pcs) (w', pcs)"

definition claim_start :: "claim_state \<Rightarrow> bool" where
  "claim_start = (\<lambda>(w, pcs). snaps_ok w \<and> pcs = (\<lambda>_. Idle))"

text \<open>The states of a system whose owners are in time, and of any system.\<close>

inductive timely :: "(nat \<Rightarrow> GitSyncRequest) \<Rightarrow> string \<times> string \<times> nat \<Rightarrow> claim_state \<Rightarrow> bool" for req k where
  timely_start: "claim_start c \<Longrightarrow> timely req k c"
| timely_step: "\<lbrakk>timely req k c; claim_step req k c c'; in_time c'\<rbrakk> \<Longrightarrow> timely req k c'"

inductive reached :: "(nat \<Rightarrow> GitSyncRequest) \<Rightarrow> string \<times> string \<times> nat \<Rightarrow> claim_state \<Rightarrow> bool" for req k where
  reached_start: "claim_start c \<Longrightarrow> reached req k c"
| reached_step: "\<lbrakk>reached req k c; claim_step req k c c'\<rbrakk> \<Longrightarrow> reached req k c'"

inductive_cases proc_stepE [consumes 1, case_names begin_sync created refused read read_fails decide retry complete stop again]:
  "proc_step req p (w, pcs) (w', pcs')"
inductive_cases env_stepE [consumes 1, case_names tick invalidate other]: "env_step k w w'"
inductive_cases claim_stepE [consumes 1, case_names proc rest]: "claim_step req k (w, pcs) c'"

section \<open>The statements on the rows of one key\<close>

fun claimed_id :: "pc \<Rightarrow> nat option" where
  "claimed_id (Seen s) = Some (gs_ID s)"
| "claimed_id (Retrying i failed now) = Some i"
| "claimed_id (Owner i t) = Some i"
| "claimed_id _ = None"

definition has_row :: "string \<times> string \<times> nat \<Rightarrow> world \<Rightarrow> nat \<Rightarrow> bool" where
  "has_row k w i \<longleftrightarrow> (\<exists>s\<in>set (db_snaps w). gs_ID s = i \<and> snap_key s = k)"

definition held :: "string \<times> string \<times> nat \<Rightarrow> world \<Rightarrow> nat \<Rightarrow> time \<Rightarrow> bool" where
  "held k w i t \<longleftrightarrow> (\<exists>s\<in>set (db_snaps w). gs_ID s = i \<and> snap_key s = k \<and>
     gs_Status s = GitSnapshotPending \<and> gs_TriggeredAt s = t)"

text \<open>The invariant: ids that a synchronisation remembers are ids of the row, an owner's row is pending
  since its claim, there is one owner, and no claim is from the future.\<close>

definition claim_inv :: "string \<times> string \<times> nat \<Rightarrow> claim_state \<Rightarrow> bool" where
  "claim_inv k = (\<lambda>(w, pcs). snaps_ok w \<and>
     (\<forall>p i. claimed_id (pcs p) = Some i \<longrightarrow> has_row k w i) \<and>
     (\<forall>p i t. pcs p = Owner i t \<longrightarrow> held k w i t) \<and>
     (\<forall>p q i t j u. pcs p = Owner i t \<longrightarrow> pcs q = Owner j u \<longrightarrow> p = q) \<and>
     (\<forall>p t. since (pcs p) = Some t \<longrightarrow> t \<le> clock w))"

lemma held_has_row: "held k w i t \<Longrightarrow> has_row k w i"
  by (auto simp: held_def has_row_def)

lemma has_row_unique:
  assumes "snaps_ok w" and "has_row k w i" and "s \<in> set (db_snaps w)" and "snap_key s = k"
  shows "gs_ID s = i"
  using assms by (auto simp: snaps_ok_def has_row_def distinct_map inj_on_def)

text \<open>An update of rows, written as a change of the table.\<close>

definition rows_updated :: "(GitArtifactSnapshot \<Rightarrow> bool) \<Rightarrow> (GitArtifactSnapshot \<Rightarrow> GitArtifactSnapshot) \<Rightarrow> world \<Rightarrow> world \<Rightarrow> bool" where
  "rows_updated P f w w' \<longleftrightarrow> db_snaps w' = upd_where P f (db_snaps w) \<and> clock w' = clock w \<and>
     (\<forall>s. gs_ID (f s) = gs_ID s) \<and> (\<forall>s. snap_key (f s) = snap_key s)"

lemma rows_updated_ok: "rows_updated P f w w' \<Longrightarrow> snaps_ok w \<Longrightarrow> snaps_ok w'"
  using snaps_ok_upd [of w f P] by (simp add: rows_updated_def snaps_ok_def)

lemma rows_updated_has_row: "rows_updated P f w w' \<Longrightarrow> has_row k w i \<Longrightarrow> has_row k w' i"
proof -
  assume u: "rows_updated P f w w'" and "has_row k w i"
  then obtain s where s: "s \<in> set (db_snaps w)" "gs_ID s = i" "snap_key s = k" by (auto simp: has_row_def)
  have "(if P s then f s else s) \<in> set (db_snaps w')"
    using u s(1) by (simp add: rows_updated_def set_upd_where)
  then show "has_row k w' i"
    using u s(2,3) unfolding has_row_def rows_updated_def by (intro bexI) auto
qed

lemma rows_updated_held:
  assumes "rows_updated P f w w'" and "held k w i t"
    and "\<And>s. \<lbrakk>s \<in> set (db_snaps w); gs_ID s = i; snap_key s = k; gs_Status s = GitSnapshotPending;
       gs_TriggeredAt s = t\<rbrakk> \<Longrightarrow> \<not> P s"
  shows "held k w' i t"
proof -
  obtain s where s: "s \<in> set (db_snaps w)" "gs_ID s = i" "snap_key s = k"
    "gs_Status s = GitSnapshotPending" "gs_TriggeredAt s = t"
    using assms(2) by (auto simp: held_def)
  have "(if P s then f s else s) \<in> set (db_snaps w')"
    using assms(1) s(1) by (simp add: rows_updated_def set_upd_where)
  then show ?thesis using assms(3) [OF s] s by (auto simp: held_def)
qed

lemma unchanged: "db_snaps w' = db_snaps w \<Longrightarrow> clock w' = clock w \<Longrightarrow> rows_updated (\<lambda>_. False) id w w'"
  by (simp add: rows_updated_def upd_where_none)

lemma create_cases:
  assumes "run_state (create_snapshot row) w = (r, w')"
  shows "case r of
      Inl e \<Rightarrow> rows_updated (\<lambda>_. False) id w w'
    | Inr row' \<Rightarrow> db_snaps w' = db_snaps w @ [row'] \<and> clock w' = clock w \<and> (\<exists>n. row' = row\<lparr>gs_ID := n\<rparr>) \<and>
        (\<forall>s\<in>set (db_snaps w). snap_key s \<noteq> snap_key row \<and> gs_ID s \<noteq> gs_ID row')"
proof -
  have "wp (create_snapshot row) (\<lambda>r w'. case r of
      Inl e \<Rightarrow> rows_updated (\<lambda>_. False) id w w'
    | Inr row' \<Rightarrow> db_snaps w' = db_snaps w @ [row'] \<and> clock w' = clock w \<and> (\<exists>n. row' = row\<lparr>gs_ID := n\<rparr>) \<and>
        (\<forall>s\<in>set (db_snaps w). snap_key s \<noteq> snap_key row \<and> gs_ID s \<noteq> gs_ID row')) w"
    unfolding create_snapshot_def
    by (rule wp_stmt) (auto simp: unchanged Let_def list_ex_iff)
  from wp_run [OF this assms] show ?thesis .
qed

lemma first_cases:
  assumes "run_state (db_first db_snaps P) w = (Inr out, w')"
  shows "rows_updated (\<lambda>_. False) id w w' \<and> out \<in> set (db_snaps w) \<and> P out"
proof -
  have "wp (db_first db_snaps P) (\<lambda>r w'. \<forall>out. r = Inr out \<longrightarrow>
      rows_updated (\<lambda>_. False) id w w' \<and> out \<in> set (db_snaps w) \<and> P out) w"
    by (rule snaps_table.wp_first) (simp_all add: unchanged)
  from wp_run [OF this assms] show ?thesis by simp
qed

lemma first_fails:
  assumes "run_state (db_first db_snaps P) w = (Inl e, w')"
  shows "rows_updated (\<lambda>_. False) id w w'"
proof -
  have "wp (db_first db_snaps P) (\<lambda>r. rows_updated (\<lambda>_. False) id w) w"
    by (rule snaps_table.wp_first) (simp_all add: unchanged)
  from wp_run [OF this assms] show ?thesis .
qed

lemma reclaim_cases:
  assumes "run_state (reclaim_snapshot req i P now) w = (won, w')"
  shows "if won then rows_updated (\<lambda>s. gs_ID s = i \<and> P s) (reclaimed req now) w w' \<and>
      (\<exists>s\<in>set (db_snaps w). gs_ID s = i \<and> P s)
    else rows_updated (\<lambda>_. False) id w w'"
proof -
  have "wp (reclaim_snapshot req i P now) (\<lambda>won w'. if won then
      rows_updated (\<lambda>s. gs_ID s = i \<and> P s) (reclaimed req now) w w' \<and>
      (\<exists>s\<in>set (db_snaps w). gs_ID s = i \<and> P s)
    else rows_updated (\<lambda>_. False) id w w') w"
    unfolding reclaim_snapshot_def wp_bind
  proof (rule wp_stmt)
    show "case (ok (list_ex (\<lambda>s. gs_ID s = i \<and> P s) (db_snaps (w\<lparr>faults := fs\<rparr>))),
         db_snaps_update (upd_where (\<lambda>s. gs_ID s = i \<and> P s) (reclaimed req now)) (w\<lparr>faults := fs\<rparr>)) of
        (r, w') \<Rightarrow> wp (State_Monad.return (case r of Inl e \<Rightarrow> False | Inr affected \<Rightarrow> affected))
         (\<lambda>won w'. if won then rows_updated (\<lambda>s. gs_ID s = i \<and> P s) (reclaimed req now) w w' \<and>
            (\<exists>s\<in>set (db_snaps w). gs_ID s = i \<and> P s)
          else rows_updated (\<lambda>_. False) id w w') w'" for fs
    proof (cases "list_ex (\<lambda>s. gs_ID s = i \<and> P s) (db_snaps w)")
      case True
      then show ?thesis by (auto simp: wp_return rows_updated_def list_ex_iff)
    next
      case False
      then have "upd_where (\<lambda>s. gs_ID s = i \<and> P s) f (db_snaps w) = db_snaps w" for f
        by (intro upd_where_none) (auto simp: list_ex_iff)
      then show ?thesis using False by (simp add: wp_return unchanged)
    qed
  qed (simp add: wp_return unchanged)
  from wp_run [OF this assms] show ?thesis .
qed

text \<open>Only rows with a property were updated.\<close>

definition updated_only :: "(GitArtifactSnapshot \<Rightarrow> bool) \<Rightarrow> world \<Rightarrow> world \<Rightarrow> bool" where
  "updated_only Q w w' \<longleftrightarrow> (\<exists>P f. rows_updated P f w w' \<and> (\<forall>s. P s \<longrightarrow> Q s))"

lemma updated_none: "db_snaps w' = db_snaps w \<Longrightarrow> clock w' = clock w \<Longrightarrow> updated_only Q w w'"
  using unchanged [of w' w] unfolding updated_only_def by blast

lemma updated_some:
  assumes "db_snaps w' = upd_where P f (db_snaps w)" and "clock w' = clock w"
    and "\<And>s. gs_ID (f s) = gs_ID s" and "\<And>s. snap_key (f s) = snap_key s" and "\<And>s. P s \<Longrightarrow> Q s"
  shows "updated_only Q w w'"
  using assms unfolding updated_only_def rows_updated_def by blast

lemma complete_cases:
  assumes "run_state (completeSnapshot i st sha m) w = (u, w')"
  shows "updated_only (\<lambda>s. gs_ID s = i) w w'"
proof -
  have "wp (completeSnapshot i st sha m) (\<lambda>u w'. updated_only (\<lambda>s. gs_ID s = i) w w') w"
    unfolding completeSnapshot_def wp_bind wp_gets
  proof (rule snaps_table.wp_update; unfold wp_return)
    show "updated_only (\<lambda>s. gs_ID s = i) w (w\<lparr>faults := fs\<rparr>)" for fs by (rule updated_none) simp_all
    show "updated_only (\<lambda>s. gs_ID s = i) w (db_snaps_update (upd_where (\<lambda>s. gs_ID s = i)
        (complete_row st sha m (clock w))) w\<lparr>faults := fs\<rparr>)" for fs
      by (rule updated_some [where f = "complete_row st sha m (clock w)" and P = "\<lambda>s. gs_ID s = i"]) simp_all
  qed
  from wp_run [OF this assms] show ?thesis .
qed

lemma invalidate_cases:
  assumes "run_state (InvalidateSnapshot i) w = (r, w')"
  shows "updated_only (\<lambda>s. gs_Status s = GitSnapshotCompleted) w w'"
proof -
  let ?Q = "updated_only (\<lambda>s. gs_Status s = GitSnapshotCompleted)"
  let ?f = "\<lambda>s. s\<lparr>gs_Status := GitSnapshotFailed,
    gs_Error := ''Snapshot orphaned: commit unreachable in current repo, re-sync required''\<rparr>"
  have upd: "wp (db_update db_snaps_update (\<lambda>s. gs_ID s = j \<and> gs_Status s = GitSnapshotCompleted) ?f)
      (\<lambda>r. ?Q w) (w\<lparr>faults := fs\<rparr>)" for j fs
  proof (rule snaps_table.wp_update)
    show "?Q w (w\<lparr>faults := fs, faults := gs\<rparr>)" for gs by (rule updated_none) simp_all
    show "?Q w (db_snaps_update (upd_where (\<lambda>s. gs_ID s = j \<and> gs_Status s = GitSnapshotCompleted) ?f)
        (w\<lparr>faults := fs\<rparr>)\<lparr>faults := gs\<rparr>)" for gs
      by (rule updated_some [where f = ?f and P = "\<lambda>s. gs_ID s = j \<and> gs_Status s = GitSnapshotCompleted"])
        (simp_all add: snap_key_def)
  qed
  have "wp (InvalidateSnapshot i) (\<lambda>r. ?Q w) w"
    unfolding InvalidateSnapshot_def wp_onerr
    by (rule snaps_table.wp_first; unfold sum.case wp_onerr wp_return)
      (rule updated_none, simp_all, rule updated_none, simp_all,
       rule wp_mono [OF upd], simp split: sum.split)
  from wp_run [OF this assms] show ?thesis .
qed

section \<open>The invariant is kept\<close>

lemma inv_update:
  assumes "claim_inv k (w, pcs)" and u: "rows_updated P f w w'"
    and "\<And>p i t s. \<lbrakk>pcs p = Owner i t; s \<in> set (db_snaps w); gs_ID s = i; snap_key s = k;
       gs_Status s = GitSnapshotPending; gs_TriggeredAt s = t\<rbrakk> \<Longrightarrow> \<not> P s"
  shows "claim_inv k (w', pcs)"
proof -
  have "held k w' i t" if "pcs p = Owner i t" for p i t
    by (rule rows_updated_held [OF u]) (use that assms in \<open>auto simp: claim_inv_def\<close>)
  moreover have "clock w' = clock w" using u by (simp add: rows_updated_def)
  moreover have "snaps_ok w'" by (rule rows_updated_ok [OF u]) (use assms(1) in \<open>simp add: claim_inv_def\<close>)
  moreover have "has_row k w' i" if "claimed_id (pcs p) = Some i" for p i
    by (rule rows_updated_has_row [OF u]) (use that assms(1) in \<open>auto simp: claim_inv_def\<close>)
  moreover have "p = q" if "pcs p = Owner i t" "pcs q = Owner j v" for p q i t j v
    using assms(1) that unfolding claim_inv_def by blast
  moreover have "t \<le> clock w" if "since (pcs p) = Some t" for p t
    using assms(1) that unfolding claim_inv_def by blast
  ultimately show ?thesis unfolding claim_inv_def by auto
qed

lemma in_timeD: "\<lbrakk>in_time (w, pcs); since (pcs p) = Some t\<rbrakk> \<Longrightarrow> clock w \<le> t + snapshotPendingTimeout"
  unfolding in_time_def by blast

lemma inv_ok: "claim_inv k (w, pcs) \<Longrightarrow> snaps_ok w"
  by (simp add: claim_inv_def)

lemma inv_row: "\<lbrakk>claim_inv k (w, pcs); claimed_id (pcs p) = Some i\<rbrakk> \<Longrightarrow> has_row k w i"
  unfolding claim_inv_def by blast

lemma inv_held: "\<lbrakk>claim_inv k (w, pcs); pcs p = Owner i t\<rbrakk> \<Longrightarrow> held k w i t"
  by (simp add: claim_inv_def)

lemma inv_one: "\<lbrakk>claim_inv k (w, pcs); pcs p = Owner i t; pcs q = Owner j u\<rbrakk> \<Longrightarrow> p = q"
  unfolding claim_inv_def by blast

lemma inv_since: "\<lbrakk>claim_inv k (w, pcs); since (pcs p) = Some t\<rbrakk> \<Longrightarrow> t \<le> clock w"
  unfolding claim_inv_def by blast

lemma inv_pc:
  assumes "claim_inv k (w, pcs)" and "\<And>i t. x \<noteq> Owner i t"
    and "\<And>i. claimed_id x = Some i \<Longrightarrow> has_row k w i" and "\<And>t. since x = Some t \<Longrightarrow> t \<le> clock w"
  shows "claim_inv k (w, pcs(p := x))"
  using assms by (auto simp: claim_inv_def)

lemma inv_owner:
  assumes "claim_inv k (w, pcs)" and "\<And>q i t. pcs q \<noteq> Owner i t"
    and "held k w i t" and "t \<le> clock w"
  shows "claim_inv k (w, pcs(p := Owner i t))"
  using assms held_has_row [OF assms(3)] by (auto simp: claim_inv_def)

lemma has_row_key_rows: "has_row k w i \<longleftrightarrow> i \<in> gs_ID ` set (key_rows k w)"
  by (auto simp: has_row_def key_rows_def)

lemma held_key_rows: "held k w i t \<longleftrightarrow>
    (\<exists>s\<in>set (key_rows k w). gs_ID s = i \<and> gs_Status s = GitSnapshotPending \<and> gs_TriggeredAt s = t)"
  by (auto simp: held_def key_rows_def)

lemma env_inv:
  assumes "env_step k w w'" and "claim_inv k (w, pcs)"
  shows "claim_inv k (w', pcs)"
  using assms(1)
proof (cases rule: env_stepE)
  case (tick t)
  have rows: "snaps_ok (w\<lparr>clock := t\<rparr>) = snaps_ok w" "has_row k (w\<lparr>clock := t\<rparr>) i = has_row k w i"
    "held k (w\<lparr>clock := t\<rparr>) i u = held k w i u" for i u
    by (simp_all add: snaps_ok_def has_row_def held_def)
  have "u \<le> t" if "since (pcs p) = Some u" for p u
    using inv_since [OF assms(2) that] tick(2) by simp
  then show ?thesis using assms(2) unfolding tick(1) claim_inv_def prod.case rows by auto
next
  case (invalidate i r)
  from invalidate_cases [OF this] obtain P f where "rows_updated P f w w'" "\<forall>s. P s \<longrightarrow> gs_Status s = GitSnapshotCompleted"
    by (auto simp: updated_only_def)
  then show ?thesis by (intro inv_update [OF assms(2)]) auto
next
  case other
  then show ?thesis using assms(2) by (simp add: claim_inv_def has_row_key_rows held_key_rows)
qed

lemma inv_no_owner:
  assumes inv: "claim_inv k (w, pcs)" and "in_time (w, pcs)" and p: "pcs p = Retrying i failed now"
    and s: "s \<in> set (db_snaps w)" "gs_ID s = i" "retry_guard failed now s"
  shows "pcs q \<noteq> Owner j u"
proof
  assume q: "pcs q = Owner j u"
  then have h: "held k w j u" using inv unfolding claim_inv_def by blast
  then obtain x where x: "x \<in> set (db_snaps w)" "gs_ID x = j" "snap_key x = k" "gs_Status x = GitSnapshotPending"
    "gs_TriggeredAt x = u" by (auto simp: held_def)
  have ok: "snaps_ok w" and i: "has_row k w i" using inv_ok [OF inv] inv_row [OF inv, of p] p by simp_all
  have "j = i" using has_row_unique [OF ok i x(1,3)] x(2) by simp
  then have "x = s" using ok s x by (auto simp: snaps_ok_def distinct_map inj_on_def)
  moreover have "now \<le> clock w" using inv_since [OF inv, of p] p by simp
  moreover have "clock w \<le> u + snapshotPendingTimeout" using in_timeD [OF assms(2), of q u] q by simp
  ultimately show False using s(3) x(4,5) by (simp add: retry_guard_def stale_def split: if_splits)
qed

lemma proc_inv:
  assumes "proc_step req p (w, pcs) (w', pcs')" and inv: "claim_inv k (w, pcs)" and t: "in_time (w, pcs)"
    and k: "req_key (req p) = k"
  shows "claim_inv k (w', pcs')"
  using assms(1)
proof (cases rule: proc_stepE)
  case begin_sync
  then show ?thesis by (auto intro!: inv_pc inv)
next
  case (created now row)
  from create_cases [OF created(3)]
  have c: "db_snaps w' = db_snaps w @ [row]" "clock w' = clock w"
    "\<forall>s\<in>set (db_snaps w). snap_key s \<noteq> k \<and> gs_ID s \<noteq> gs_ID row"
    "snap_key row = k" "gs_Status row = GitSnapshotPending" "gs_TriggeredAt row = now" using k by auto
  have no: "pcs q \<noteq> Owner i u" for q i u
    using inv c(3) unfolding claim_inv_def held_def by blast
  have "snaps_ok w'" using inv c by (auto simp: claim_inv_def snaps_ok_def)
  moreover have "has_row k w' i" if "claimed_id (pcs q) = Some i" for q i
    using inv c(1) that by (fastforce simp: claim_inv_def has_row_def)
  ultimately have "claim_inv k (w', pcs)"
    using inv c(2) no by (auto simp: claim_inv_def)
  moreover have "held k w' (gs_ID row) now" using c by (auto simp: held_def)
  moreover have "now \<le> clock w'" using inv_since [OF inv, of p now] created(1,2) c(2) by simp
  ultimately show ?thesis unfolding created(1) by (intro inv_owner no)
next
  case (refused now e)
  have u: "rows_updated (\<lambda>_. False) id w w'" using create_cases [OF refused(3)] by simp
  then show ?thesis unfolding refused(1) by (intro inv_pc inv_update [OF inv u]) simp_all
next
  case (read out)
  from first_cases [OF read(3)] have u: "rows_updated (\<lambda>_. False) id w w'"
    and out: "out \<in> set (db_snaps w)" "snap_key out = k" using k by simp_all
  have "has_row k w' (gs_ID out)"
    by (rule rows_updated_has_row [OF u]) (use out in \<open>auto simp: has_row_def\<close>)
  then show ?thesis unfolding read(1) by (intro inv_pc inv_update [OF inv u]) simp_all
next
  case (read_fails e)
  have u: "rows_updated (\<lambda>_. False) id w w'" using first_fails [OF read_fails(3)] .
  then show ?thesis unfolding read_fails(1) by (intro inv_pc inv_update [OF inv u]) simp_all
next
  case (decide out)
  have "has_row k w (gs_ID out)" by (rule inv_row [OF inv, of p]) (use decide in simp)
  then show ?thesis using decide inv by (auto intro!: inv_pc simp: seen_next_def split: if_splits)
next
  case (retry i failed now won)
  show ?thesis
  proof (cases won)
    case True
    from reclaim_cases [OF retry(3)] True obtain s where
      u: "rows_updated (\<lambda>s. gs_ID s = i \<and> retry_guard failed now s) (reclaimed (req p) now) w w'"
      and s: "s \<in> set (db_snaps w)" "gs_ID s = i" "retry_guard failed now s" by auto
    have no: "pcs q \<noteq> Owner j v" for q j v by (rule inv_no_owner [OF inv t retry(2) s])
    have ok: "snaps_ok w" and i: "has_row k w i" using inv_ok [OF inv] inv_row [OF inv, of p] retry(2) by simp_all
    then have "snap_key s = k" using s ok
      by (auto simp: has_row_def snaps_ok_def distinct_map inj_on_def)
    moreover have "reclaimed (req p) now s \<in> set (db_snaps w')"
      using u s by (auto simp: rows_updated_def set_upd_where intro!: image_eqI [of _ _ s])
    ultimately have "held k w' i now"
      unfolding held_def using s(2) by (intro bexI [of _ "reclaimed (req p) now s"]) simp_all
    moreover have "now \<le> clock w'" using inv_since [OF inv, of p now] retry(2) u by (simp add: rows_updated_def)
    ultimately show ?thesis
      unfolding retry(1) using True no inv_update [OF inv u] by (auto intro: inv_owner)
  next
    case False
    then have u: "rows_updated (\<lambda>_. False) id w w'" using reclaim_cases [OF retry(3)] by simp
    show ?thesis unfolding retry(1) using False by (auto intro!: inv_pc inv_update [OF inv u])
  qed
next
  case (complete i t st sha m)
  from complete_cases [OF complete(4)] obtain P f where u: "rows_updated P f w w'" "\<forall>s. P s \<longrightarrow> gs_ID s = i"
    by (auto simp: updated_only_def)
  have one: "pcs q = Owner j v \<Longrightarrow> q = p" for q j v
    using inv complete(2) unfolding claim_inv_def by blast
  have "claim_inv k (w, pcs(p := Over))" by (intro inv_pc inv) simp_all
  then show ?thesis unfolding complete(1)
    by (rule inv_update [OF _ u(1)]) (use one in \<open>auto split: if_splits\<close>)
next
  case stop
  then show ?thesis by (auto intro!: inv_pc inv)
next
  case again
  then show ?thesis by (auto intro!: inv_pc inv)
qed

lemma timely_inv:
  assumes "timely req k c" and "\<And>p. req_key (req p) = k"
  shows "claim_inv k c \<and> in_time c"
  using assms(1)
proof (induction rule: timely.induct)
  case (timely_start c)
  then show ?case by (auto simp: claim_start_def claim_inv_def in_time_def)
next
  case (timely_step c c')
  obtain w pcs where c: "c = (w, pcs)" by fastforce
  have inv: "claim_inv k (w, pcs)" "in_time (w, pcs)" using timely_step.IH by (simp_all add: c)
  from timely_step(2) [unfolded c] have "claim_inv k c'"
  proof (cases rule: claim_stepE)
    case (proc p)
    then show ?thesis using proc_inv inv assms(2) by (cases c') blast
  next
    case (rest w')
    then show ?thesis using env_inv inv(1) by blast
  qed
  then show ?case using timely_step(3) by simp
qed

section \<open>The service's claim is a path of these steps\<close>

text \<open>Steps of synchronisation p alone.\<close>

definition proc_steps :: "(nat \<Rightarrow> GitSyncRequest) \<Rightarrow> nat \<Rightarrow> claim_state \<Rightarrow> claim_state \<Rightarrow> bool" where
  "proc_steps req p = (proc_step req p)\<^sup>*\<^sup>*"

lemma steps_one: "proc_step req p c c' \<Longrightarrow> proc_steps req p c c'"
  by (simp add: proc_steps_def)

lemma steps_cons: "\<lbrakk>proc_step req p c c'; proc_steps req p c' c''\<rbrakk> \<Longrightarrow> proc_steps req p c c''"
  unfolding proc_steps_def by (rule converse_rtranclp_into_rtranclp)

definition verdict :: "time \<Rightarrow> gerr + bool \<times> GitArtifactSnapshot \<Rightarrow> pc" where
  "verdict now r = (case r of Inr (True, s) \<Rightarrow> Owner (gs_ID s) now | _ \<Rightarrow> Over)"

lemma verdict_simps [simp]:
  "verdict now (Inl e) = Over" "verdict now (Inr (False, s)) = Over"
  "verdict now (Inr (True, s)) = Owner (gs_ID s) now"
  by (simp_all add: verdict_def)

lemma existing_path:
  assumes "pcs p = Seen out" and "run_state (claim_existing (req p) out) w = (r, w')"
  shows "proc_steps req p (w, pcs) (w', pcs(p := verdict (clock w) r))"
proof (cases "seen_next (clock w) out")
  case (Retrying i failed now)
  have d: "proc_step req p (w, pcs) (w, pcs(p := Retrying i failed now))"
    using decide [of pcs p out req w] assms(1) by (simp add: Retrying)
  have n: "now = clock w" "i = gs_ID out" using Retrying by (auto simp: seen_next_def split: if_splits)
  obtain won v where g: "run_state (reclaim_snapshot (req p) i (retry_guard failed now) now) w = (won, v)"
    by fastforce
  have "r = Inr (won, reclaimed (req p) now out) \<and> w' = v"
    using assms(2) Retrying g n
    by (auto simp: claim_existing_def seen_next_def run_bind run_gets run_return retry_guard_def [abs_def]
        split: if_splits)
  then show ?thesis
    using steps_cons [OF d steps_one [OF proc_step.retry [of "pcs(p := Retrying i failed now)" p i failed now req, OF _ g]]] n by (cases won) simp_all
next
  case Over
  then have "w' = w \<and> verdict (clock w) r = Over"
    using assms(2)
    by (auto simp: claim_existing_def seen_next_def run_bind run_gets run_return split: if_splits)
  then show ?thesis using steps_one [OF decide [of pcs p out req w]] assms(1) Over by simp
qed (auto simp: seen_next_def split: if_splits)

lemma first_clock: "run_state (db_first db_snaps P) w = (Inr out, w') \<Longrightarrow> clock w' = clock w"
  using first_cases [of P w out w'] by (simp add: rows_updated_def)

lemma claim_path:
  assumes "pcs p = Idle"
    and "run_state (claimGitSyncSnapshot (req p) (branch_name (req p)) (tree_path (req p)) (tag_name (req p))) w = (r, w')"
  shows "proc_steps req p (w, pcs) (w', pcs(p := verdict (clock w) r))"
proof -
  have b: "proc_step req p (w, pcs) (w, pcs(p := Creating (clock w)))" by (rule begin_sync [of pcs p]) (rule assms(1))
  obtain c w1 where c: "run_state (create_snapshot (new_snapshot (req p) (branch_name (req p)) (tree_path (req p))
      (tag_name (req p)) (clock w))) w = (c, w1)" by fastforce
  note run = assms(2) [unfolded claimGitSyncSnapshot_def run_bind run_gets c prod.case]
  show ?thesis
  proof (cases c)
    case (Inr row)
    then show ?thesis
      using run steps_cons [OF b steps_one [OF created [of "pcs(p := Creating (clock w))" p "clock w" req, OF _ c [unfolded Inr]]]] by (auto simp: run_return)
  next
    case (Inl e)
    obtain o1 w2 where o1: "run_state (db_first db_snaps (\<lambda>s. snap_key s = req_key (req p))) w1 = (o1, w2)"
      by fastforce
    have b2: "proc_step req p (w, pcs(p := Creating (clock w))) (w1, pcs(p := Refused))"
      using refused [of "pcs(p := Creating (clock w))" p "clock w" req, OF _ c [unfolded Inl]] by simp
    show ?thesis
    proof (cases o1)
      case (Inl e1)
      have "proc_step req p (w1, pcs(p := Refused)) (w2, pcs(p := Over))"
        using read_fails [of "pcs(p := Refused)" p req, OF _ o1 [unfolded Inl]] by simp
      moreover have "w' = w2" "verdict (clock w) r = Over"
        using run o1 \<open>c = Inl e\<close> by (auto simp: onerr_def run_bind Inl run_return)
      ultimately show ?thesis using steps_cons [OF b steps_cons [OF b2 steps_one]] by simp
    next
      case (Inr out)
      have r1: "proc_step req p (w1, pcs(p := Refused)) (w2, pcs(p := Seen out))"
        using read [of "pcs(p := Refused)" p req, OF _ o1 [unfolded Inr]] by simp
      have "run_state (claim_existing (req p) out) w2 = (r, w')"
        using run o1 \<open>c = Inl e\<close> by (simp add: onerr_def run_bind Inr)
      from existing_path [of "pcs(p := Seen out)" p out req, OF _ this]
      have "proc_steps req p (w2, pcs(p := Seen out)) (w', pcs(p := verdict (clock w2) r))" by simp
      moreover have "clock w2 = clock w"
        using first_clock [OF o1 [unfolded Inr]] create_cases [OF c] Inl by (simp add: rows_updated_def)
      ultimately show ?thesis using steps_cons [OF b steps_cons [OF b2 steps_cons [OF r1]]] by simp
    qed
  qed
qed

lemma steps_reached: "proc_steps req p c c' \<Longrightarrow> reached req k c \<Longrightarrow> reached req k c'"
  unfolding proc_steps_def
  by (induction rule: rtranclp_induct) (auto intro: reached_step claim_step.proc)

lemma claim_reached:
  assumes "reached req k (w, pcs)" and "pcs p = Idle"
    and "run_state (claimGitSyncSnapshot (req p) (branch_name (req p)) (tree_path (req p)) (tag_name (req p))) w = (r, w')"
  shows "reached req k (w', pcs(p := verdict (clock w) r))"
  by (rule steps_reached [OF claim_path [of pcs p req, OF assms(2,3)] assms(1)])

section \<open>Properties\<close>

text \<open>C15: the claim of the service is a path of the statement-level steps of one synchronisation, whatever
  statements fail: it starts idle and ends as the owner of the row exactly when the service's verdict
  is that it claimed the snapshot.\<close>

theorem claimGitSyncSnapshot_refines:
  assumes "pcs p = Idle"
    and "run_state (claimGitSyncSnapshot (req p) (branch_name (req p)) (tree_path (req p)) (tag_name (req p))) w = (r, w')"
  shows "proc_steps req p (w, pcs) (w', pcs(p := verdict (clock w) r))"
  by (rule claim_path [of pcs p req, OF assms])

theorem claimGitSyncSnapshot_refines_witness:
  "proc_steps (\<lambda>_. demo_git_req) 3 (demo_world, \<lambda>_. Idle)
     (snd (run_state (claimGitSyncSnapshot demo_git_req (branch_name demo_git_req) (tree_path demo_git_req)
        (tag_name demo_git_req)) demo_world), (\<lambda>_. Idle)(3 := Owner 100 0))"
proof -
  have "verdict (clock demo_world) (fst (run_state (claimGitSyncSnapshot demo_git_req (branch_name demo_git_req)
      (tree_path demo_git_req) (tag_name demo_git_req)) demo_world)) = Owner 100 0"
    by code_simp
  then show ?thesis
    using claimGitSyncSnapshot_refines [where req = "\<lambda>_. demo_git_req" and p = 3, OF refl run_split, of demo_world]
    by (simp only:)
qed

text \<open>C14: one version of an artifact is pushed by one synchronisation at a time, however the statements of
  any number of them interleave and whatever fails, as long as each is done within the timeout: two
  owners are the same, and the owner's row is pending since its claim.\<close>

theorem claim_exclusive:
  assumes "timely req k (w, pcs)" and "\<And>p. req_key (req p) = k"
    and "pcs p = Owner i t" and "pcs q = Owner j u"
  shows "p = q \<and> held k w i t \<and> clock w \<le> t + snapshotPendingTimeout"
  using timely_inv [OF assms(1,2)] assms(3,4) inv_one inv_held in_timeD [of w pcs p t]
  by (metis since.simps(3))

theorem claim_exclusive_witness:
  "\<exists>w. timely (\<lambda>_. demo_git_req) (req_key demo_git_req) (w, (\<lambda>_. Idle)(3 := Owner 100 0)) \<and>
     held (req_key demo_git_req) w 100 0"
proof -
  let ?req = "\<lambda>_ :: nat. demo_git_req" and ?k = "req_key demo_git_req"
  let ?c = "create_snapshot (new_snapshot demo_git_req (branch_name demo_git_req) (tree_path demo_git_req) (tag_name demo_git_req) 0)"
  let ?w = "snd (run_state ?c demo_world)"
  have ok: "snaps_ok demo_world" by code_simp
  have t0: "timely ?req ?k (demo_world, \<lambda>_. Idle)" using ok by (simp add: timely.timely_start claim_start_def)
  have i: "in_time (demo_world, (\<lambda>_. Idle)(3 := Creating 0))" "in_time (?w, (\<lambda>_. Idle)(3 := Owner 100 0))"
    by (auto simp: in_time_def demo_world_def empty_world_def create_snapshot_def run_stmt Let_def)
  have "proc_step ?req 3 (demo_world, \<lambda>_. Idle) (demo_world, (\<lambda>_. Idle)(3 := Creating 0))"
    using begin_sync [of "\<lambda>_. Idle" 3 ?req demo_world] by (simp add: demo_world_def empty_world_def)
  from timely.timely_step [OF t0 claim_step.proc [OF this] i(1)]
  have t1: "timely ?req ?k (demo_world, (\<lambda>_. Idle)(3 := Creating 0))" .
  have "\<not> isl (fst (run_state ?c demo_world))" and id: "gs_ID (projr (fst (run_state ?c demo_world))) = 100"
    by code_simp+
  then have "proc_step ?req 3 (demo_world, (\<lambda>_. Idle)(3 := Creating 0)) (?w, (\<lambda>_. Idle)(3 := Owner 100 0))"
    using created [of "(\<lambda>_. Idle)(3 := Creating 0)" 3 0 ?req demo_world, OF _ run_ok] by simp
  from timely.timely_step [OF t1 claim_step.proc [OF this] i(2)]
  have t2: "timely ?req ?k (?w, (\<lambda>_. Idle)(3 := Owner 100 0))" .
  from claim_exclusive [OF t2, of 3 100 0 3 100 0] t2 show ?thesis by auto
qed

text \<open>The premise is needed: an owner that outlives the timeout completes the row of the one that took
  over, by its id alone. When the late one reports a failure, the row can be claimed again at once,
  so two synchronisations own the same version at the same moment, both within their timeout.\<close>

theorem late_completion_frees_claim:
  "\<exists>w pcs i. reached (\<lambda>_. demo_git_req) (req_key demo_git_req) (w, pcs) \<and>
     pcs 1 = Owner i (clock w) \<and> pcs 2 = Owner i (clock w)"
proof -
  let ?req = "\<lambda>_ :: nat. demo_git_req" and ?k = "req_key demo_git_req" and ?T = "snapshotPendingTimeout + 1"
  let ?claim = "claimGitSyncSnapshot demo_git_req (branch_name demo_git_req) (tree_path demo_git_req) (tag_name demo_git_req)"
  define row where "row = (new_snapshot demo_git_req (branch_name demo_git_req) (tree_path demo_git_req)
     (tag_name demo_git_req) 0)\<lparr>gs_ID := 100\<rparr>"
  define at where "at = (\<lambda>n t s. demo_world\<lparr>next_id := n, db_snaps := [s], clock := t\<rparr>)"
  define taken where "taken = reclaimed demo_git_req ?T row"
  define freed where "freed = complete_row GitSnapshotFailed [] [] ?T taken"
  have rows: "snap_key row = ?k" "gs_ID row = 100" "gs_Status row = GitSnapshotPending" "gs_TriggeredAt row = 0"
    "gs_ID taken = 100" "gs_ID freed = 100" "snap_key freed = ?k" "gs_Status freed = GitSnapshotFailed"
    by (simp_all add: row_def taken_def freed_def)
  have at: "faults (at n t s) = []" "clock (at n t s) = t" "db_snaps (at n t s) = [s]" "next_id (at n t s) = n"
    "(at n t s)\<lparr>clock := u\<rparr> = at n u s" "(at n t s)\<lparr>next_id := m\<rparr> = at m t s"
    "db_snaps_update f (at n t s) = demo_world\<lparr>next_id := n, db_snaps := f [s], clock := t\<rparr>"
    "demo_world\<lparr>next_id := n, db_snaps := [s], clock := t\<rparr> = at n t s" for n t s u m f
    by (simp_all add: at_def demo_world_def empty_world_def)
  note eval = claimGitSyncSnapshot_def claim_existing_def reclaim_snapshot_def run_bind run_gets run_return
    create_snapshot_def run_stmt onerr_def db_first_def Let_def at rows stale_def
  have c0: "run_state ?claim demo_world = (Inr (True, row), at 101 0 row)"
    by (simp add: claimGitSyncSnapshot_def run_bind run_gets create_snapshot_def run_stmt run_return
        Let_def demo_world_def empty_world_def at_def row_def)
  have c1: "run_state ?claim (at 101 ?T row) = (Inr (True, taken), at 102 ?T taken)"
    by (simp add: eval taken_def)
  have f: "run_state (completeSnapshot 100 GitSnapshotFailed [] []) (at 102 ?T taken) = ((), at 102 ?T freed)"
    by (simp add: complete_run at rows freed_def)
  have c2: "run_state ?claim (at 102 ?T freed) = (Inr (True, reclaimed demo_git_req ?T freed), at 103 ?T (reclaimed demo_git_req ?T freed))"
    by (simp add: eval)
  have "snaps_ok demo_world" by code_simp
  then have r: "reached ?req ?k (demo_world, \<lambda>_. Idle)" by (simp add: reached.reached_start claim_start_def)
  have "reached ?req ?k (at 101 0 row, (\<lambda>_. Idle)(0 := Owner 100 0))"
    using claim_reached [OF r _ c0, of 0] by (simp add: rows demo_world_def empty_world_def)
  then have "reached ?req ?k (at 101 ?T row, (\<lambda>_. Idle)(0 := Owner 100 0))"
    by (rule reached.reached_step [OF _ claim_step.rest]) (use env_step.tick [of "at 101 0 row" ?T ?k] in \<open>simp add: at\<close>)
  from claim_reached [OF this _ c1, of 1]
  have "reached ?req ?k (at 102 ?T taken, (\<lambda>_. Idle)(0 := Owner 100 0, 1 := Owner 100 ?T))"
    by (simp add: rows at)
  then have "reached ?req ?k (at 102 ?T freed, (\<lambda>_. Idle)(0 := Owner 100 0, 1 := Owner 100 ?T, 0 := Over))"
    by (rule reached.reached_step [OF _ claim_step.proc])
      (rule complete [OF _ _ f], simp_all)
  from claim_reached [OF this _ c2, of 2]
  have "reached ?req ?k (at 103 ?T (reclaimed demo_git_req ?T freed),
      (\<lambda>_. Idle)(0 := Owner 100 0, 1 := Owner 100 ?T, 0 := Over, 2 := Owner 100 ?T))"
    by (simp add: rows at)
  then show ?thesis by (intro exI conjI) (assumption, simp_all add: at)
qed
end
