(* ===== verification/VersionCompare.thy ===== *)
theory VersionCompare
  imports Status
begin

text \<open>
  service/version_compare.go with db/version_compare.go, service/cpi_artifact.go and the handlers of
  handler/version_compare.go: collecting what every tenant of a delivery rule holds of each
  artifact, answering queries over the stored snapshot, the whitelist of packages, and delivery
  requests made from the mismatches of a snapshot. The goroutines of one collection write to keys
  of their own; only the order of the packages depends on their timing (parameter arrival).
\<close>

section \<open>Artifacts of a package\<close>

record PackageArtifact =
  pa_TechID :: string
  pa_Version :: string
  pa_PackageID :: string
  pa_Name :: string
  pa_Description :: string
  pa_CreatedBy :: string
  pa_CreatedAt :: string
  pa_ModifiedBy :: string
  pa_ModifiedAt :: string
  pa_Type :: ArtifactType

definition isNotFoundError :: "gerr \<Rightarrow> bool" where
  "isNotFoundError e = (as_http_status e = Some 404)"

definition package_artifact :: "ArtifactType \<Rightarrow> ArtifactCommonItem \<Rightarrow> PackageArtifact" where
  "package_artifact aType item =
    \<lparr>pa_TechID = ci_ID item, pa_Version = ci_Version item, pa_PackageID = ci_PackageID item,
     pa_Name = ci_Name item, pa_Description = ci_Description item, pa_CreatedBy = ci_CreatedBy item,
     pa_CreatedAt = ci_CreatedAt item, pa_ModifiedBy = ci_ModifiedBy item,
     pa_ModifiedAt = ci_ModifiedAt item, pa_Type = aType\<rparr>"

fun collect_types ::
  "(ArtifactType \<Rightarrow> gerr + ArtifactCommonItem list) \<Rightarrow> ArtifactType list \<Rightarrow> gerr + PackageArtifact list" where
  "collect_types answer [] = ok []"
| "collect_types answer (t # ts) =
     (case answer t of
        Inl e \<Rightarrow> if isNotFoundError e then collect_types answer ts else err e
      | Inr items \<Rightarrow>
          (case collect_types answer ts of
             Inl e \<Rightarrow> err e
           | Inr arts \<Rightarrow> ok (map (package_artifact t) items @ arts)))"

definition GetPackageArtifacts :: "env \<Rightarrow> string \<Rightarrow> string \<Rightarrow> gerr + PackageArtifact list" where
  "GetPackageArtifacts env client packageID =
     collect_types (GetPackageArtifactsByType env client packageID) AllArtifactTypes"

record BatchPackageResult =
  bp_PackageID :: string
  bp_Artifacts :: "PackageArtifact list"
  bp_Error :: string

definition GetPackageArtifactsBatch :: "env \<Rightarrow> string \<Rightarrow> string list \<Rightarrow> BatchPackageResult list" where
  "GetPackageArtifactsBatch env client packageIDs =
     map (\<lambda>pid. case GetPackageArtifacts env client pid of
            Inl e \<Rightarrow> \<lparr>bp_PackageID = pid, bp_Artifacts = [], bp_Error = err_text e\<rparr>
          | Inr arts \<Rightarrow> \<lparr>bp_PackageID = pid, bp_Artifacts = arts, bp_Error = []\<rparr>) packageIDs"

section \<open>Collecting\<close>

definition versionCompareCooldown :: time where
  "versionCompareCooldown = 5 * 60 * 10 ^ 9"

definition AdhocCooldown :: time where
  "AdhocCooldown = 5 * 60 * 10 ^ 9"

type_synonym rt_index = "(nat \<times> (string \<times> RuntimeArtifact) list) list"

text \<open>A tenant that does not answer gets an empty index.\<close>

definition tenant_runtime :: "env \<Rightarrow> CpiTenant \<Rightarrow> (string \<times> RuntimeArtifact) list" where
  "tenant_runtime env tenant =
     (case CPI env (tn_PirApiDestinationName tenant) of
        Inl _ \<Rightarrow> []
      | Inr _ \<Rightarrow>
          (case GetRuntimeArtifacts env (tn_PirApiDestinationName tenant) of
             Inl _ \<Rightarrow> []
           | Inr artifacts \<Rightarrow> fold (\<lambda>(i, a). map_put i a) artifacts []))"

definition fetchRuntimeIndex :: "env \<Rightarrow> CpiTenant list \<Rightarrow> rt_index" where
  "fetchRuntimeIndex env tenants =
     fold (\<lambda>t. map_put (tn_ID t) (tenant_runtime env t)) tenants []"

definition version_info :: "rt_index \<Rightarrow> nat \<Rightarrow> PackageArtifact \<Rightarrow> ArtifactVersionInfo" where
  "version_info runtimeIndex tenantID art =
     (let v = zero_vinfo\<lparr>vi_DesignTimeVersion := pa_Version art, vi_ModifiedBy := pa_ModifiedBy art,
                 vi_ModifiedAt := pa_ModifiedAt art\<rparr> in
      case map_of runtimeIndex tenantID of
        None \<Rightarrow> v
      | Some rtMap \<Rightarrow>
          (case map_of rtMap (pa_TechID art) of
             None \<Rightarrow> v
           | Some rt \<Rightarrow> v\<lparr>vi_RuntimeVersion := ra_Version rt, vi_RuntimeStatus := ra_Status rt\<rparr>))"

text \<open>artifactMap with artifactOrder, as one list in order of discovery.\<close>

definition add_artifact ::
  "rt_index \<Rightarrow> nat \<Rightarrow> PackageArtifact \<Rightarrow> ArtifactSnapshot list \<Rightarrow> ArtifactSnapshot list" where
  "add_artifact runtimeIndex tenantID art arts =
     (let arts1 = (if \<exists>a\<in>set arts. as_ID a = pa_TechID art then arts
                   else arts @ [\<lparr>as_ID = pa_TechID art, as_Name = pa_Name art, as_Type = pa_Type art,
                                 as_Versions = []\<rparr>]) in
      upd_where (\<lambda>a. as_ID a = pa_TechID art)
        (\<lambda>a. a\<lparr>as_Versions := map_put tenantID (version_info runtimeIndex tenantID art) (as_Versions a)\<rparr>)
        arts1)"

definition tenant_artifacts :: "env \<Rightarrow> string \<Rightarrow> CpiTenant \<Rightarrow> gerr + PackageArtifact list" where
  "tenant_artifacts env packageID tenant =
     (case CPI env (tn_PirApiDestinationName tenant) of
        Inl e \<Rightarrow> err e
      | Inr _ \<Rightarrow> GetPackageArtifacts env (tn_PirApiDestinationName tenant) packageID)"

text \<open>A tenant's error is logged only: its result has no artifacts.\<close>

definition add_result ::
  "env \<Rightarrow> string \<Rightarrow> rt_index \<Rightarrow> CpiTenant \<Rightarrow> ArtifactSnapshot list \<Rightarrow> ArtifactSnapshot list" where
  "add_result env packageID runtimeIndex tenant arts =
     (case tenant_artifacts env packageID tenant of
        Inl _ \<Rightarrow> arts
      | Inr l \<Rightarrow> fold (add_artifact runtimeIndex (tn_ID tenant)) l arts)"

definition collectPackageSnapshot ::
  "env \<Rightarrow> string \<Rightarrow> CpiTenant list \<Rightarrow> rt_index \<Rightarrow> gerr + PackageSnapshot" where
  "collectPackageSnapshot env packageID tenants runtimeIndex =
     ok \<lparr>ps_PackageID = packageID,
         ps_Artifacts = fold (add_result env packageID runtimeIndex) tenants []\<rparr>"

definition collectAllPackageSnapshots ::
  "env \<Rightarrow> (PackageSnapshot list \<Rightarrow> PackageSnapshot list) \<Rightarrow> string list \<Rightarrow> CpiTenant list \<Rightarrow> rt_index \<Rightarrow>
   PackageSnapshot list" where
  "collectAllPackageSnapshots env arrival packages tenants runtimeIndex =
     arrival (concat (map (\<lambda>pkg. case collectPackageSnapshot env pkg tenants runtimeIndex of
                              Inl _ \<Rightarrow> []
                            | Inr s \<Rightarrow> [s]) packages))"

text \<open>A whitelist that cannot be read is treated as an empty one: all packages are compared.\<close>

definition loadIncludedPackageFilter :: "string list option prog" where
  "loadIncludedPackageFilter = do {
     r \<leftarrow> db_find db_included (\<lambda>_. True);
     State_Monad.return
       (case r of
          Inl _ \<Rightarrow> None
        | Inr included \<Rightarrow> if included = [] then None else Some (map ip_PackageID included))
   }"

definition of_rule :: "nat \<Rightarrow> VersionCompareSnapshot \<Rightarrow> bool" where
  "of_rule ruleID s \<longleftrightarrow> ruleID = 0 \<or> vs_DeliveryRuleID s = ruleID"

definition failed_snapshot :: "time \<Rightarrow> message \<Rightarrow> VersionCompareSnapshot \<Rightarrow> VersionCompareSnapshot" where
  "failed_snapshot now errMsg s =
     s\<lparr>vs_Status := SnapFailed, vs_CompletedAt := Some now, vs_Error := errMsg\<rparr>"

definition completed_snapshot :: "time \<Rightarrow> SnapshotData \<Rightarrow> VersionCompareSnapshot \<Rightarrow> VersionCompareSnapshot" where
  "completed_snapshot now data s =
     s\<lparr>vs_Status := SnapCompleted, vs_CompletedAt := Some now, vs_Data := data, vs_Error := no_message\<rparr>"

text \<open>The outcome of these updates is ignored.\<close>

definition complete_with ::
  "nat \<Rightarrow> (time \<Rightarrow> VersionCompareSnapshot \<Rightarrow> VersionCompareSnapshot) \<Rightarrow> unit prog" where
  "complete_with ruleID f = do {
     now \<leftarrow> gets clock;
     _ \<leftarrow> db_update db_vcsnaps_update (of_rule ruleID) (f now);
     State_Monad.return ()
   }"

definition completeWithError :: "nat \<Rightarrow> message \<Rightarrow> unit prog" where
  "completeWithError ruleID errMsg = complete_with ruleID (\<lambda>now. failed_snapshot now errMsg)"

definition all_tenants :: "DeliveryRule \<Rightarrow> CpiTenant \<Rightarrow> CpiTenant list \<Rightarrow> CpiTenant list" where
  "all_tenants rule source included =
     source # filter (\<lambda>t. tn_ID t \<noteq> ru_SourceTenantID rule) included"

definition compared_ids :: "DeliveryRule \<Rightarrow> CpiTenant \<Rightarrow> CpiTenant list \<Rightarrow> nat list" where
  "compared_ids rule source included =
     map tn_ID (filter (\<lambda>t. tn_ID t \<noteq> ru_SourceTenantID rule) (all_tenants rule source included))"

definition collectVersionSnapshot ::
  "env \<Rightarrow> (PackageSnapshot list \<Rightarrow> PackageSnapshot list) \<Rightarrow> DeliveryRule \<Rightarrow> CpiTenant \<Rightarrow> CpiTenant list \<Rightarrow> unit prog" where
  "collectVersionSnapshot env arrival rule source included =
     (case CPI env (tn_PirApiDestinationName source) of
        Inl e \<Rightarrow> completeWithError (ru_ID rule) (Errf ''failed to get source tenant CPI client: %s'' [Verb e])
      | Inr _ \<Rightarrow>
     (case GetPackages env (tn_PirApiDestinationName source) of
        Inl e \<Rightarrow> completeWithError (ru_ID rule) (Errf ''failed to list packages from source tenant via PIR: %s'' [Verb e])
      | Inr packages \<Rightarrow> do {
          includeSet \<leftarrow> loadIncludedPackageFilter;
          let packages1 = (case includeSet of None \<Rightarrow> packages | Some ids \<Rightarrow> filter (\<lambda>p. p \<in> set ids) packages);
          let tenants = all_tenants rule source included;
          let runtimeIndex = fetchRuntimeIndex env tenants;
          let pkgSnapshots = collectAllPackageSnapshots env arrival packages1 tenants runtimeIndex;
          complete_with (ru_ID rule) (\<lambda>now. completed_snapshot now
            \<lparr>sd_SourceTenantID = ru_SourceTenantID rule, sd_ComparedTenants = compared_ids rule source included,
             sd_Packages = pkgSnapshots\<rparr>)
        }))"

section \<open>Triggering\<close>

datatype TriggerStatus = TrigRunning | TrigRateLimited | TrigConflict

definition running_snapshot :: "time \<Rightarrow> string \<Rightarrow> VersionCompareSnapshot \<Rightarrow> VersionCompareSnapshot" where
  "running_snapshot now user s =
     s\<lparr>vs_Status := SnapRunning, vs_TriggeredAt := now, vs_TriggeredBy := user, vs_CompletedAt := None,
       vs_Error := no_message, vs_Data := zero_data\<rparr>"

text \<open>The guarded update with its number of affected rows.\<close>

definition claim_update :: "nat \<Rightarrow> time \<Rightarrow> string \<Rightarrow> (gerr + nat) prog" where
  "claim_update ruleID now user = stmt (\<lambda>w.
     let P = (\<lambda>s. of_rule ruleID s \<and> vs_Status s \<noteq> SnapRunning) in
     (Inr (length (filter P (db_vcsnaps w))), db_vcsnaps_update (upd_where P (running_snapshot now user)) w))"

definition create_vcsnap :: "VersionCompareSnapshot \<Rightarrow> (gerr + VersionCompareSnapshot) prog" where
  "create_vcsnap s = db_create_unique db_vcsnaps db_vcsnaps_update vs_DeliveryRuleID (\<lambda>n s. s\<lparr>vs_ID := n\<rparr>) s"

definition new_vcsnap :: "nat \<Rightarrow> time \<Rightarrow> string \<Rightarrow> VersionCompareSnapshot" where
  "new_vcsnap ruleID now user =
    \<lparr>vs_ID = 0, vs_DeliveryRuleID = ruleID, vs_Status = SnapRunning, vs_TriggeredAt = now,
     vs_CompletedAt = None, vs_TriggeredBy = user, vs_Data = zero_data, vs_Error = no_message\<rparr>"

definition rate_limited :: "time \<Rightarrow> VersionCompareSnapshot \<Rightarrow> bool" where
  "rate_limited now s \<longleftrightarrow> vs_Status s = SnapCompleted \<and>
     (case vs_CompletedAt s of None \<Rightarrow> False | Some t \<Rightarrow> now - t < versionCompareCooldown)"

definition claim_run :: "VersionCompareSnapshot option \<Rightarrow> nat \<Rightarrow> string \<Rightarrow> (gerr + TriggerStatus) prog" where
  "claim_run found ruleID user = do {
     now \<leftarrow> gets clock;
     if found \<noteq> None then
       onerr (claim_update ruleID now user) (Errw ''failed to update snapshot: %w'' [])
         (\<lambda>affected. done_with (if affected = 0 then TrigConflict else TrigRunning))
     else onerr (create_vcsnap (new_vcsnap ruleID now user)) (Errw ''failed to create snapshot: %w'' [])
         (\<lambda>_. done_with TrigRunning)
   }"

definition TriggerVersionCompare :: "nat \<Rightarrow> string \<Rightarrow> (gerr + TriggerStatus) prog" where
  "TriggerVersionCompare ruleID triggeredBy =
     onerr (db_load (\<lambda>w. case List.find (\<lambda>r. ru_ID r = ruleID) (db_rules w) of
                None \<Rightarrow> Inl RecordNotFound
              | Some r \<Rightarrow> Inr (r, tenant_of w (ru_SourceTenantID r), tenants_in w (ru_IncludedTenants r))))
       (\<lambda>e. if is_not_found e then Errf ''delivery rule %d not found'' [Num ruleID]
             else Errw ''failed to load delivery rule %d: %w'' [Num ruleID] e)
       (\<lambda>(rule, source, included).
          if ru_SourceTenantID rule = 0 then
            failwith (Errf ''delivery rule %d has no source tenant configured'' [Num ruleID])
          else do {
            r \<leftarrow> db_first db_vcsnaps (of_rule ruleID);
            let found = (case r of Inl _ \<Rightarrow> None | Inr s \<Rightarrow> Some s);
            now \<leftarrow> gets clock;
            if (case found of None \<Rightarrow> False | Some s \<Rightarrow> rate_limited now s) then done_with TrigRateLimited
            else onerr (claim_run found ruleID triggeredBy) id (\<lambda>status.
              if status = TrigRunning then do {
                _ \<leftarrow> spawn (TaskCollect rule source included);
                done_with TrigRunning
              } else done_with status)
          })"

section \<open>Querying\<close>

record VersionCompareQueryParams =
  qp_PackageIDs :: "string list"
  qp_DesignTime :: bool
  qp_RunTime :: bool
  qp_MismatchOnly :: bool

record VersionCompareArtifactTenantInfo =
  ti_DesignTimeVersion :: string
  ti_DesignTimeMatch :: "bool option"
  ti_DesignTimeDraft :: bool
  ti_ModifiedBy :: string
  ti_ModifiedAt :: string
  ti_RuntimeVersion :: string
  ti_RuntimeMatch :: "bool option"
  ti_RuntimeStatus :: string
  ti_Error :: string

record VersionCompareArtifact =
  va_ID :: string
  va_Name :: string
  va_Type :: ArtifactType
  va_Versions :: "(nat \<times> VersionCompareArtifactTenantInfo) list"

record VersionComparePackage =
  vp_PackageID :: string
  vp_Artifacts :: "VersionCompareArtifact list"

record VersionCompareTenantInfo =
  vt_ID :: nat
  vt_Name :: string
  vt_IsSource :: bool

record VersionCompareResponse =
  vr_Status :: SnapshotStatus
  vr_TriggeredAt :: "time option"
  vr_CompletedAt :: "time option"
  vr_TriggeredBy :: string
  vr_Error :: message
  vr_Tenants :: "VersionCompareTenantInfo list"
  vr_Packages :: "VersionComparePackage list"

text \<open>The design-time and the runtime comparison of a tenant with the source, when both apply.\<close>

definition dt_match :: "ArtifactVersionInfo \<Rightarrow> ArtifactVersionInfo \<Rightarrow> bool" where
  "dt_match source vi \<longleftrightarrow> vi_DesignTimeVersion vi = vi_DesignTimeVersion source \<and>
     \<not> isDraftVersion (vi_DesignTimeVersion vi) \<and> \<not> isDraftVersion (vi_DesignTimeVersion source)"

definition rt_match :: "ArtifactVersionInfo \<Rightarrow> ArtifactVersionInfo \<Rightarrow> bool" where
  "rt_match source vi \<longleftrightarrow> vi_RuntimeVersion vi = vi_RuntimeVersion source"

definition with_design_time ::
  "nat \<Rightarrow> ArtifactVersionInfo option \<Rightarrow> nat \<Rightarrow> ArtifactVersionInfo \<Rightarrow>
   VersionCompareArtifactTenantInfo \<Rightarrow> VersionCompareArtifactTenantInfo" where
  "with_design_time src sourceVersion tid vi info =
     info\<lparr>ti_DesignTimeVersion := vi_DesignTimeVersion vi,
          ti_DesignTimeDraft := EqualFold (vi_DesignTimeVersion vi) ''active'',
          ti_ModifiedBy := (if tid = src then vi_ModifiedBy vi else []),
          ti_ModifiedAt := (if tid = src then vi_ModifiedAt vi else []),
          ti_DesignTimeMatch :=
            (if tid \<noteq> src then map_option (\<lambda>s. dt_match s vi) sourceVersion else None)\<rparr>"

definition with_runtime ::
  "nat \<Rightarrow> ArtifactVersionInfo option \<Rightarrow> nat \<Rightarrow> ArtifactVersionInfo \<Rightarrow>
   VersionCompareArtifactTenantInfo \<Rightarrow> VersionCompareArtifactTenantInfo" where
  "with_runtime src sourceVersion tid vi info =
     info\<lparr>ti_RuntimeVersion := vi_RuntimeVersion vi, ti_RuntimeStatus := vi_RuntimeStatus vi,
          ti_RuntimeMatch :=
            (if tid \<noteq> src then map_option (\<lambda>s. rt_match s vi) sourceVersion else None)\<rparr>"

definition tenant_info ::
  "VersionCompareQueryParams \<Rightarrow> nat \<Rightarrow> ArtifactVersionInfo option \<Rightarrow> nat \<Rightarrow> ArtifactVersionInfo \<Rightarrow>
   VersionCompareArtifactTenantInfo" where
  "tenant_info params src sourceVersion tid vi =
     (let i0 = \<lparr>ti_DesignTimeVersion = [], ti_DesignTimeMatch = None, ti_DesignTimeDraft = False,
                ti_ModifiedBy = [], ti_ModifiedAt = [], ti_RuntimeVersion = [], ti_RuntimeMatch = None,
                ti_RuntimeStatus = [], ti_Error = vi_Error vi\<rparr>;
          i1 = (if qp_DesignTime params then with_design_time src sourceVersion tid vi i0 else i0) in
      if qp_RunTime params then with_runtime src sourceVersion tid vi i1 else i1)"

text \<open>hasMismatch: some match flag is set and false.\<close>

definition info_mismatch :: "VersionCompareArtifactTenantInfo \<Rightarrow> bool" where
  "info_mismatch i \<longleftrightarrow> ti_DesignTimeMatch i = Some False \<or> ti_RuntimeMatch i = Some False"

definition compare_artifact ::
  "VersionCompareQueryParams \<Rightarrow> nat \<Rightarrow> ArtifactSnapshot \<Rightarrow> VersionCompareArtifact" where
  "compare_artifact params src art =
     \<lparr>va_ID = as_ID art, va_Name = as_Name art, va_Type = as_Type art,
      va_Versions = map (\<lambda>(tid, vi). (tid, tenant_info params src (map_of (as_Versions art) src) tid vi)) (as_Versions art)\<rparr>"

definition has_mismatch :: "VersionCompareArtifact \<Rightarrow> bool" where
  "has_mismatch a \<longleftrightarrow> list_ex (\<lambda>(tid, i). info_mismatch i) (va_Versions a)"

definition compare_package ::
  "VersionCompareQueryParams \<Rightarrow> nat \<Rightarrow> PackageSnapshot \<Rightarrow> VersionComparePackage list" where
  "compare_package params src pkg =
     (if qp_PackageIDs params \<noteq> [] \<and> ps_PackageID pkg \<notin> set (qp_PackageIDs params) then []
      else
        (let filtered = filter (\<lambda>a. \<not> (qp_MismatchOnly params \<and> \<not> has_mismatch a))
                          (map (compare_artifact params src) (ps_Artifacts pkg)) in
         if filtered \<noteq> [] \<or> \<not> qp_MismatchOnly params then
           [\<lparr>vp_PackageID = ps_PackageID pkg, vp_Artifacts = filtered\<rparr>]
         else []))"

definition response_tenants :: "CpiTenant list \<Rightarrow> nat \<Rightarrow> nat list \<Rightarrow> VersionCompareTenantInfo list" where
  "response_tenants tenants src ids =
     concat (map (\<lambda>i. case find (\<lambda>t. tn_ID t = i) (rev tenants) of
                        None \<Rightarrow> []
                      | Some t \<Rightarrow> [\<lparr>vt_ID = tn_ID t, vt_Name = tn_Name t, vt_IsSource = (tn_ID t = src)\<rparr>])
              (src # ids))"

definition buildVersionCompareResponse ::
  "SnapshotData \<Rightarrow> CpiTenant list \<Rightarrow> nat \<Rightarrow> VersionCompareQueryParams \<Rightarrow> VersionCompareResponse" where
  "buildVersionCompareResponse data tenants src params =
     \<lparr>vr_Status = SnapNone, vr_TriggeredAt = None, vr_CompletedAt = None, vr_TriggeredBy = [],
      vr_Error = no_message, vr_Tenants = response_tenants tenants src (sd_ComparedTenants data),
      vr_Packages = concat (map (compare_package params src) (sd_Packages data))\<rparr>"

definition snapshot_head :: "VersionCompareSnapshot \<Rightarrow> VersionCompareResponse \<Rightarrow> VersionCompareResponse" where
  "snapshot_head s r =
     r\<lparr>vr_Status := vs_Status s, vr_TriggeredAt := Some (vs_TriggeredAt s),
       vr_CompletedAt := vs_CompletedAt s, vr_TriggeredBy := vs_TriggeredBy s, vr_Error := vs_Error s\<rparr>"

definition empty_response :: VersionCompareResponse where
  "empty_response =
    \<lparr>vr_Status = SnapNone, vr_TriggeredAt = None, vr_CompletedAt = None, vr_TriggeredBy = [],
     vr_Error = no_message, vr_Tenants = [], vr_Packages = []\<rparr>"

definition QueryVersionCompare ::
  "nat \<Rightarrow> VersionCompareQueryParams \<Rightarrow> (gerr + VersionCompareResponse) prog" where
  "QueryVersionCompare ruleID params = do {
     r \<leftarrow> db_first db_vcsnaps (of_rule ruleID);
     case r of
       Inl e \<Rightarrow> if is_not_found e then done_with empty_response
                else failwith (Errw ''failed to query snapshot: %w'' [] e)
     | Inr snapshot \<Rightarrow>
         if vs_Status snapshot \<noteq> SnapCompleted then done_with (snapshot_head snapshot empty_response)
         else
           (let data = vs_Data snapshot; src = sd_SourceTenantID data in
            onerr (db_find db_tenants (\<lambda>t. tn_ID t \<in> set (src # sd_ComparedTenants data)))
              (Errw ''failed to load tenants: %w'' [])
              (\<lambda>tenants. done_with (snapshot_head snapshot (buildVersionCompareResponse data tenants src params))))
   }"

definition set_adhocLastRun :: "time \<Rightarrow> unit prog" where
  "set_adhocLastRun now = modify (\<lambda>w. w\<lparr>adhocLastRun := Some now\<rparr>)"

text \<open>The cooldown is global, and every call that passes it starts it anew, whatever its outcome.\<close>

definition AdhocVersionCompare ::
  "env \<Rightarrow> (PackageSnapshot list \<Rightarrow> PackageSnapshot list) \<Rightarrow> nat list \<Rightarrow> (gerr + VersionCompareResponse) prog" where
  "AdhocVersionCompare env arrival tenantIDs = do {
     now \<leftarrow> gets clock;
     lastRun \<leftarrow> gets adhocLastRun;
     if (case lastRun of None \<Rightarrow> False | Some t \<Rightarrow> now - t < AdhocCooldown) then failwith (Errf ''rate_limited'' [])
     else do {
       _ \<leftarrow> set_adhocLastRun now;
       onerr (db_find db_tenants (\<lambda>t. tn_ID t \<in> set tenantIDs)) (Errw ''failed to load tenants: %w'' []) (\<lambda>found.
         if length found < 2 then
           failwith (Errf ''at least 2 valid tenants required, found %d'' [Num (length found)])
         else
           (let tenants = concat (map (\<lambda>i. case find (\<lambda>t. tn_ID t = i) (rev found) of None \<Rightarrow> [] | Some t \<Rightarrow> [t]) tenantIDs);
                src = hd tenants in
            case CPI env (tn_PirApiDestinationName src) of
              Inl e \<Rightarrow> failwith (Errw ''failed to get source CPI client: %w'' [] e)
            | Inr _ \<Rightarrow>
           (case GetPackages env (tn_PirApiDestinationName src) of
              Inl e \<Rightarrow> failwith (Errw ''failed to list packages from source tenant via PIR: %w'' [] e)
            | Inr packages \<Rightarrow> do {
                let data = \<lparr>sd_SourceTenantID = tn_ID src, sd_ComparedTenants = map tn_ID (tl tenants),
                            sd_Packages = collectAllPackageSnapshots env arrival packages tenants
                                            (fetchRuntimeIndex env tenants)\<rparr>;
                now2 \<leftarrow> gets clock;
                done_with ((buildVersionCompareResponse data tenants (tn_ID src)
                    \<lparr>qp_PackageIDs = [], qp_DesignTime = True, qp_RunTime = True, qp_MismatchOnly = False\<rparr>)
                  \<lparr>vr_Status := SnapCompleted, vr_CompletedAt := Some now2\<rparr>)
              })))
     }
   }"

section \<open>Counts\<close>

text \<open>The helper of the summaries: matched, mismatched and total.\<close>

definition count_mismatch :: "nat \<Rightarrow> ArtifactSnapshot \<Rightarrow> bool option" where
  "count_mismatch src art =
     map_option (\<lambda>s. list_ex (\<lambda>(tid, vi). tid \<noteq> src \<and>
          (vi_DesignTimeVersion vi \<noteq> vi_DesignTimeVersion s \<or> vi_RuntimeVersion vi \<noteq> vi_RuntimeVersion s))
        (as_Versions art)) (map_of (as_Versions art) src)"

definition computeMismatchCounts :: "SnapshotData \<Rightarrow> nat \<times> nat \<times> nat" where
  "computeMismatchCounts data =
     (let arts = concat (map ps_Artifacts (sd_Packages data)); c = count_mismatch (sd_SourceTenantID data) in
      (length (filter (\<lambda>a. c a = Some False) arts), length (filter (\<lambda>a. c a = Some True) arts), length arts))"

record VersionCompareSummaryItem =
  si_DeliveryRuleID :: nat
  si_DeliveryRuleName :: string
  si_SourceTenantName :: string
  si_TenantCount :: nat
  si_Status :: SnapshotStatus
  si_TriggeredAt :: "time option"
  si_CompletedAt :: "time option"
  si_MatchedCount :: nat
  si_MismatchedCount :: nat
  si_TotalArtifacts :: nat

definition snapshot_of :: "VersionCompareSnapshot list \<Rightarrow> nat \<Rightarrow> VersionCompareSnapshot option" where
  "snapshot_of snapshots ruleID = find (\<lambda>s. vs_DeliveryRuleID s = ruleID) (rev snapshots)"

definition summary_item ::
  "VersionCompareSnapshot list \<Rightarrow> DeliveryRule \<times> CpiTenant \<times> CpiTenant list \<Rightarrow> VersionCompareSummaryItem" where
  "summary_item snapshots = (\<lambda>(rule, source, included).
     (let i0 = \<lparr>si_DeliveryRuleID = ru_ID rule, si_DeliveryRuleName = ru_Name rule,
                si_SourceTenantName = tn_Name source, si_TenantCount = length included,
                si_Status = SnapNone, si_TriggeredAt = None, si_CompletedAt = None,
                si_MatchedCount = 0, si_MismatchedCount = 0, si_TotalArtifacts = 0\<rparr> in
      case snapshot_of snapshots (ru_ID rule) of
        None \<Rightarrow> i0
      | Some snap \<Rightarrow>
          (let i1 = i0\<lparr>si_Status := vs_Status snap, si_TriggeredAt := Some (vs_TriggeredAt snap),
                       si_CompletedAt := vs_CompletedAt snap\<rparr> in
           if vs_Status snap = SnapCompleted then
             (case computeMismatchCounts (vs_Data snap) of (ok_count, bad_count, all_count) \<Rightarrow>
                i1\<lparr>si_MatchedCount := ok_count, si_MismatchedCount := bad_count, si_TotalArtifacts := all_count\<rparr>)
           else i1)))"

definition GetVersionCompareSummary :: "(gerr + VersionCompareSummaryItem list) prog" where
  "GetVersionCompareSummary =
     onerr (db_query (\<lambda>w. map (\<lambda>r. (r, tenant_of w (ru_SourceTenantID r), tenants_in w (ru_IncludedTenants r)))
              (filter ru_Active (db_rules w))))
       (Errw ''failed to load delivery rules: %w'' []) (\<lambda>rules.
     onerr (db_find db_vcsnaps (\<lambda>_. True)) (Errw ''failed to load snapshots: %w'' []) (\<lambda>snapshots.
       done_with (map (summary_item snapshots) rules)))"

datatype CountKey = CountStatus SnapshotStatus | CountMismatched | CountMatched

definition count_key :: "VersionCompareSnapshot list \<Rightarrow> DeliveryRule \<Rightarrow> CountKey" where
  "count_key snapshots rule =
     (case snapshot_of snapshots (ru_ID rule) of
        None \<Rightarrow> CountStatus SnapNone
      | Some snap \<Rightarrow>
          if vs_Status snap \<noteq> SnapCompleted then CountStatus (vs_Status snap)
          else (case computeMismatchCounts (vs_Data snap) of (ok_count, bad_count, all_count) \<Rightarrow>
                  if 0 < bad_count then CountMismatched else CountMatched))"

definition GetVersionCompareCounts :: "(gerr + nat \<times> (CountKey \<Rightarrow> nat)) prog" where
  "GetVersionCompareCounts =
     onerr (db_find db_rules ru_Active) (Errw ''failed to load delivery rules: %w'' []) (\<lambda>rules.
     onerr (db_find db_vcsnaps (\<lambda>_. True)) (Errw ''failed to load snapshots: %w'' []) (\<lambda>snapshots.
       done_with (length rules, \<lambda>k. length (filter (\<lambda>r. count_key snapshots r = k) rules))))"

section \<open>Included packages\<close>

record IncludedPackageInput =
  in_PackageID :: string
  in_Description :: string

definition insert_included ::
  "string \<Rightarrow> IncludedPackageInput \<Rightarrow> VersionCompareIncludedPackage list \<Rightarrow>
   (gerr + VersionCompareIncludedPackage list) prog" where
  "insert_included updatedBy input result =
     onerr (db_create_unique db_included db_included_update ip_PackageID (\<lambda>n p. p\<lparr>ip_ID := n\<rparr>)
              \<lparr>ip_ID = 0, ip_PackageID = in_PackageID input, ip_Description = in_Description input,
               ip_CreatedBy = updatedBy\<rparr>)
       (Errw ''failed to insert included package %s: %w'' [Str (in_PackageID input)])
       (\<lambda>pkg. done_with (result @ [pkg]))"

text \<open>The deletion is a hard one: the index on the package id is freed.\<close>

definition clear_included :: "(gerr + unit) prog" where
  "clear_included = stmt (\<lambda>w. (Inr (), w\<lparr>db_included := []\<rparr>))"

definition UpdateIncludedPackages ::
  "IncludedPackageInput list \<Rightarrow> string \<Rightarrow> (gerr + VersionCompareIncludedPackage list) prog" where
  "UpdateIncludedPackages inputs updatedBy =
     transaction (onerr clear_included (Errw ''failed to clear included packages: %w'' [])
       (\<lambda>_. loopE (insert_included updatedBy) inputs []))"

section \<open>Delivery requests from mismatches\<close>

record ExistingDRInfo =
  ei_ID :: nat
  ei_Name :: string

datatype Category = CatIncludable | CatDraft | CatVersionPattern | CatDuplicate

record PreviewDRArtifact =
  pd_ArtifactID :: string
  pd_ArtifactName :: string
  pd_PackageID :: string
  pd_Type :: ArtifactType
  pd_SourceVersion :: string
  pd_ModifiedBy :: string
  pd_ModifiedAt :: string
  pd_Category :: Category
  pd_Reason :: message
  pd_ExistingDR :: "ExistingDRInfo option"

record PreviewDRSummary =
  pm_TotalMismatch :: nat
  pm_Includable :: nat
  pm_Draft :: nat
  pm_VersionPattern :: nat
  pm_Duplicate :: nat

record PreviewDRResponse =
  pr_SnapshotID :: nat
  pr_SnapshotCompletedAt :: time
  pr_RuleName :: string
  pr_RequireJira :: bool
  pr_Artifacts :: "PreviewDRArtifact list"
  pr_Summary :: PreviewDRSummary

text \<open>A design-time mismatch for a preview: a compared tenant without the artifact, with another
  version, or a draft on either side.\<close>

definition preview_mismatch :: "nat list \<Rightarrow> ArtifactVersionInfo \<Rightarrow> ArtifactSnapshot \<Rightarrow> bool" where
  "preview_mismatch compared source art \<longleftrightarrow>
     list_ex (\<lambda>tid. case map_of (as_Versions art) tid of
                None \<Rightarrow> True
              | Some vi \<Rightarrow> vi_DesignTimeVersion vi \<noteq> vi_DesignTimeVersion source \<or>
                  isDraftVersion (vi_DesignTimeVersion source) \<or> isDraftVersion (vi_DesignTimeVersion vi)) compared"

text \<open>The active requests of the rule with their operations, indexed by artifact and version; the
  first request keeps the key.\<close>

definition existing_ops ::
  "(DeliveryRequest \<times> ArtifactTenantOperation list) list \<Rightarrow> ((string \<times> string) \<times> ExistingDRInfo) list" where
  "existing_ops activeDRs =
     concat (map (\<lambda>(dr, ops). map (\<lambda>op. ((op_ArtifactTechID op, op_ArtifactVersion op),
                                  \<lparr>ei_ID = dr_ID dr, ei_Name = dr_Name dr\<rparr>)) ops) activeDRs)"

definition preview_base :: "string \<Rightarrow> ArtifactSnapshot \<Rightarrow> ArtifactVersionInfo \<Rightarrow> PreviewDRArtifact" where
  "preview_base pkgID art source =
    \<lparr>pd_ArtifactID = as_ID art, pd_ArtifactName = as_Name art, pd_PackageID = pkgID, pd_Type = as_Type art,
     pd_SourceVersion = vi_DesignTimeVersion source, pd_ModifiedBy = vi_ModifiedBy source,
     pd_ModifiedAt = vi_ModifiedAt source, pd_Category = CatIncludable, pd_Reason = no_message,
     pd_ExistingDR = None\<rparr>"

definition classify ::
  "glob \<Rightarrow> string \<Rightarrow> ((string \<times> string) \<times> ExistingDRInfo) list \<Rightarrow> PreviewDRArtifact \<Rightarrow> gerr + PreviewDRArtifact" where
  "classify glob pattern existingOps pa =
     (if EqualFold (pd_SourceVersion pa) ''active'' then ok (pa\<lparr>pd_Category := CatDraft\<rparr>)
      else case matchVersionPattern glob (pd_SourceVersion pa) pattern of
        Inl p \<Rightarrow> err p
      | Inr m \<Rightarrow>
          if \<not> m then
            ok (pa\<lparr>pd_Category := CatVersionPattern,
                   pd_Reason := Errf ''version %s does not match pattern %s'' [Str (pd_SourceVersion pa), Str pattern]\<rparr>)
          else (case map_of existingOps (pd_ArtifactID pa, pd_SourceVersion pa) of
                  Some drInfo \<Rightarrow>
                    ok (pa\<lparr>pd_Category := CatDuplicate,
                           pd_Reason := Errf ''already in active DR #%d %q'' [Num (ei_ID drInfo), Str (ei_Name drInfo)],
                           pd_ExistingDR := Some drInfo\<rparr>)
                | None \<Rightarrow> ok pa))"

definition count_category :: "PreviewDRArtifact \<Rightarrow> PreviewDRSummary \<Rightarrow> PreviewDRSummary" where
  "count_category pa s =
     (case pd_Category pa of
        CatDraft \<Rightarrow> s\<lparr>pm_Draft := Suc (pm_Draft s)\<rparr>
      | CatVersionPattern \<Rightarrow> s\<lparr>pm_VersionPattern := Suc (pm_VersionPattern s)\<rparr>
      | CatDuplicate \<Rightarrow> s\<lparr>pm_Duplicate := Suc (pm_Duplicate s)\<rparr>
      | CatIncludable \<Rightarrow> s\<lparr>pm_Includable := Suc (pm_Includable s)\<rparr>)"

text \<open>The loop over the artifacts of all packages.\<close>

fun preview_loop ::
  "glob \<Rightarrow> string \<Rightarrow> ((string \<times> string) \<times> ExistingDRInfo) list \<Rightarrow> nat \<Rightarrow> nat list \<Rightarrow>
   (string \<times> ArtifactSnapshot) list \<Rightarrow> PreviewDRArtifact list \<times> PreviewDRSummary \<Rightarrow>
   gerr + (PreviewDRArtifact list \<times> PreviewDRSummary)" where
  "preview_loop glob pattern existingOps src compared [] acc = ok acc"
| "preview_loop glob pattern existingOps src compared ((pkgID, art) # arts) (artifacts, summary) =
     (case map_of (as_Versions art) src of
        None \<Rightarrow> preview_loop glob pattern existingOps src compared arts (artifacts, summary)
      | Some source \<Rightarrow>
          if vi_DesignTimeVersion source = [] \<or> \<not> preview_mismatch compared source art then
            preview_loop glob pattern existingOps src compared arts (artifacts, summary)
          else case classify glob pattern existingOps (preview_base pkgID art source) of
            Inl p \<Rightarrow> err p
          | Inr pa \<Rightarrow>
              preview_loop glob pattern existingOps src compared arts
                (artifacts @ [pa],
                 count_category pa (summary\<lparr>pm_TotalMismatch := Suc (pm_TotalMismatch summary)\<rparr>)))"

definition zero_summary :: PreviewDRSummary where
  "zero_summary = \<lparr>pm_TotalMismatch = 0, pm_Includable = 0, pm_Draft = 0, pm_VersionPattern = 0, pm_Duplicate = 0\<rparr>"

definition data_artifacts :: "SnapshotData \<Rightarrow> (string \<times> ArtifactSnapshot) list" where
  "data_artifacts data =
     concat (map (\<lambda>pkg. map (\<lambda>art. (ps_PackageID pkg, art)) (ps_Artifacts pkg)) (sd_Packages data))"

definition active_drs :: "nat \<Rightarrow> world \<Rightarrow> (DeliveryRequest \<times> ArtifactTenantOperation list) list" where
  "active_drs ruleID w =
     map (\<lambda>d. (d, ops_of w (dr_ID d)))
       (filter (\<lambda>d. dr_DeliveryRuleID d = ruleID \<and> dr_AggregateStatus d \<notin> {AggCanceled, AggDeployed}) (db_drs w))"

definition PreviewDRFromMismatch :: "env \<Rightarrow> nat \<Rightarrow> (gerr + PreviewDRResponse) prog" where
  "PreviewDRFromMismatch env ruleID =
     onerr (GetDeliveryRuleWithAcc ruleID) id (\<lambda>(rule, _, _).
     onerr (db_first db_vcsnaps (\<lambda>s. of_rule ruleID s \<and> vs_Status s = SnapCompleted))
       (\<lambda>e. if is_not_found e then Errf ''no completed version compare snapshot found for rule %d'' [Num ruleID]
             else Errw ''failed to query snapshot: %w'' [] e) (\<lambda>snapshot.
     case vs_CompletedAt snapshot of
       None \<Rightarrow> failwith (Errf ''snapshot %d has no completion timestamp'' [Num (vs_ID snapshot)])
     | Some completedAt \<Rightarrow>
     onerr (db_query (active_drs ruleID)) (Errw ''failed to query active delivery requests: %w'' []) (\<lambda>activeDRs.
       (let data = vs_Data snapshot in
        case preview_loop (Glob env) (ru_VersionPattern rule) (existing_ops activeDRs) (sd_SourceTenantID data)
               (sd_ComparedTenants data) (data_artifacts data) ([], zero_summary) of
          Inl p \<Rightarrow> failwith p
        | Inr (artifacts, summary) \<Rightarrow>
            if pm_TotalMismatch summary = 0 then
              failwith (Errf ''no design-time mismatches found in snapshot'' [])
            else done_with
              \<lparr>pr_SnapshotID = vs_ID snapshot, pr_SnapshotCompletedAt = completedAt,
               pr_RuleName = ru_Name rule, pr_RequireJira = ru_RequireJira rule,
               pr_Artifacts = artifacts, pr_Summary = summary\<rparr>))))"

record ArtifactKey =
  ak_ArtifactID :: string
  ak_PackageID :: string
  ak_SkipDeploy :: bool

record CreateDRFromMismatchRequest =
  cm_Name :: string
  cm_JiraLink :: string
  cm_SnapshotID :: nat
  cm_SnapshotCompletedAt :: time
  cm_ArtifactKeys :: "ArtifactKey list"

record MismatchSkipError =
  me_ArtifactID :: string
  me_PackageID :: string
  me_Reason :: string

record CreateDRFromMismatchResponse =
  mr_DeliveryRequest :: DeliveryRequest
  mr_Ops :: "ArtifactTenantOperation list"
  mr_Requested :: nat
  mr_Created :: nat
  mr_Errors :: "MismatchSkipError list"

text \<open>The selected artifacts with their skip flag; of equal keys the last one decides.\<close>

definition skip_flags :: "ArtifactKey list \<Rightarrow> ((string \<times> string) \<times> bool) list" where
  "skip_flags keys = map (\<lambda>k. ((ak_ArtifactID k, ak_PackageID k), ak_SkipDeploy k)) (rev keys)"

definition selected_artifacts ::
  "ArtifactKey list \<Rightarrow> SnapshotData \<Rightarrow> (string \<times> ArtifactSnapshot \<times> bool) list" where
  "selected_artifacts keys data =
     concat (map (\<lambda>(pkgID, art). case map_of (skip_flags keys) (as_ID art, pkgID) of
                    None \<Rightarrow> []
                  | Some skip \<Rightarrow> [(pkgID, art, skip)]) (data_artifacts data))"

definition mismatch_op ::
  "DeliveryRule \<Rightarrow> string \<Rightarrow> ArtifactSnapshot \<Rightarrow> ArtifactVersionInfo \<Rightarrow> bool \<Rightarrow> ArtifactTenantOperation" where
  "mismatch_op rule pkgID art source skip =
     zero_op\<lparr>op_TenantID := ru_SourceTenantID rule, op_ArtifactTechID := as_ID art,
       op_ArtifactVersion := vi_DesignTimeVersion source, op_ArtifactName := as_Name art,
       op_ArtifactType := as_Type art, op_PackageID := pkgID,
       op_SkipDeploy := (skip \<or> \<not> IsDeployable (as_Type art))\<rparr>"

definition source_version :: "nat \<Rightarrow> ArtifactSnapshot \<Rightarrow> ArtifactVersionInfo option" where
  "source_version src art =
     (case map_of (as_Versions art) src of
        None \<Rightarrow> None
      | Some vi \<Rightarrow> if vi_DesignTimeVersion vi = [] then None else Some vi)"

definition valid_ops :: "DeliveryRule \<Rightarrow> nat \<Rightarrow> (string \<times> ArtifactSnapshot \<times> bool) list \<Rightarrow> ArtifactTenantOperation list" where
  "valid_ops rule src items =
     concat (map (\<lambda>(pkgID, art, skip). case source_version src art of
                    None \<Rightarrow> []
                  | Some source \<Rightarrow> [mismatch_op rule pkgID art source skip]) items)"

definition skip_errors :: "nat \<Rightarrow> (string \<times> ArtifactSnapshot \<times> bool) list \<Rightarrow> MismatchSkipError list" where
  "skip_errors src items =
     concat (map (\<lambda>(pkgID, art, skip). case source_version src art of
                    None \<Rightarrow> [\<lparr>me_ArtifactID = as_ID art, me_PackageID = pkgID,
                              me_Reason = ''source tenant has no data for this artifact''\<rparr>]
                  | Some _ \<Rightarrow> []) items)"

text \<open>The checks before anything is written: the snapshot to use, or the error.\<close>

definition check_snapshot ::
  "env \<Rightarrow> nat \<Rightarrow> CreateDRFromMismatchRequest \<Rightarrow> DeliveryRule \<Rightarrow> VersionCompareSnapshot \<Rightarrow> gerr + time" where
  "check_snapshot env ruleID req rule snapshot =
     (if vs_DeliveryRuleID snapshot \<noteq> ruleID \<or> vs_Status snapshot \<noteq> SnapCompleted then
        err (Errf ''snapshot %d not found or not completed for rule %d'' [Num (cm_SnapshotID req), Num ruleID])
      else case vs_CompletedAt snapshot of
        None \<Rightarrow> err (Errf ''snapshot %d has no completion timestamp'' [Num (vs_ID snapshot)])
      | Some completedAt \<Rightarrow>
          if completedAt \<noteq> cm_SnapshotCompletedAt req then
            err (Errf ''snapshot data has changed since preview (completedAt mismatch): preview saw %s, current is %s''
              [Str (FormatRFC3339 env (cm_SnapshotCompletedAt req)), Str (FormatRFC3339 env completedAt)])
          else if cm_ArtifactKeys req = [] then err (Errf ''artifactKeys must not be empty'' [])
          else if ru_RequireJira rule \<and> cm_JiraLink req = [] then
            err (Errf ''jira link is required for delivery rule %q'' [Str (ru_Name rule)])
          else ok completedAt)"

definition mismatch_dr ::
  "env \<Rightarrow> CreateDRFromMismatchRequest \<Rightarrow> DeliveryRule \<Rightarrow> VersionCompareSnapshot \<Rightarrow> time \<Rightarrow> string \<Rightarrow> DeliveryRequest" where
  "mismatch_dr env req rule snapshot completedAt user =
     zero_request\<lparr>
       dr_Name := (if cm_Name req = [] then
                     fmt_render ''Auto DR - %s - VC %s''
                       [ru_Name rule, FormatTime env ''2006-01-02 15:04'' completedAt]
                   else cm_Name req),
       dr_JiraLink := cm_JiraLink req, dr_DeliveryRuleID := ru_ID rule,
       dr_SourceTenantID := ru_SourceTenantID rule, dr_AggregateStatus := AggPending,
       dr_VersionCompareSnapshotID := Some (vs_ID snapshot), dr_CreatedBy := user, dr_UpdatedBy := user\<rparr>"

definition CreateDRFromMismatch ::
  "env \<Rightarrow> nat \<Rightarrow> CreateDRFromMismatchRequest \<Rightarrow> string \<Rightarrow> (gerr + CreateDRFromMismatchResponse) prog" where
  "CreateDRFromMismatch env ruleID req user =
     onerr (GetDeliveryRuleWithAcc ruleID) id (\<lambda>(rule, included, _).
     onerr (db_first db_vcsnaps (\<lambda>s. vs_ID s = cm_SnapshotID req))
       (\<lambda>e. if is_not_found e then
               Errf ''snapshot %d not found or not completed for rule %d'' [Num (cm_SnapshotID req), Num ruleID]
             else Errw ''failed to query snapshot: %w'' [] e) (\<lambda>snapshot.
     case check_snapshot env ruleID req rule snapshot of
       Inl e \<Rightarrow> failwith e
     | Inr completedAt \<Rightarrow>
         (let items = selected_artifacts (cm_ArtifactKeys req) (vs_Data snapshot);
              src = sd_SourceTenantID (vs_Data snapshot);
              validOps = valid_ops rule src items in
          if validOps = [] then failwith (Errf ''no artifacts passed validation checks'' [])
          else onerr (CreateDeliveryRequest (mismatch_dr env req rule snapshot completedAt user))
            (Errw ''failed to create delivery request: %w'' []) (\<lambda>dr.
          onerr (InsertTenantOps env (dr_ID dr) validOps user)
            (Errw ''failed to create artifact tenant operations: %w'' []) (\<lambda>createdOps.
            done_with \<lparr>mr_DeliveryRequest = dr, mr_Ops = createdOps,
                       mr_Requested = length (cm_ArtifactKeys req), mr_Created = length createdOps,
                       mr_Errors = skip_errors src items\<rparr>)))))"

section \<open>Handlers\<close>

text \<open>strings.Split at commas, trimmed, empty parts dropped.\<close>

definition ParsePackageIDs :: "string \<Rightarrow> string list" where
  "ParsePackageIDs raw =
     (if raw = [] then []
      else filter (\<lambda>p. p \<noteq> []) (map TrimSpace (Split CHR '','' raw)))"

definition id_param :: "string \<Rightarrow> nat option" where
  "id_param raw = (case Atoi raw of None \<Rightarrow> None | Some n \<Rightarrow> if n \<le> 0 then None else Some (nat n))"

lemma trigger_status_rel [pres_intro]:
  "\<lbrakk>state_io_rel R a; state_io_rel R b; state_io_rel R c\<rbrakk> \<Longrightarrow>
   state_io_rel R (case s of TrigRateLimited \<Rightarrow> a | TrigConflict \<Rightarrow> b | TrigRunning \<Rightarrow> c)"
  by (cases s) simp_all

definition TriggerVersionCompareHandler :: "string \<Rightarrow> string \<Rightarrow> (http + TriggerStatus) prog" where
  "TriggerVersionCompareHandler rawID triggeredBy =
     (case id_param rawID of
        None \<Rightarrow> failwith (400, Errf ''invalid id'' [])
      | Some i \<Rightarrow>
          onerr (TriggerVersionCompare i triggeredBy) (\<lambda>e. (500, e)) (\<lambda>status.
            case status of
              TrigRateLimited \<Rightarrow> failwith (429, Errf ''rate limited'' [])
            | TrigConflict \<Rightarrow> failwith (409, Errf ''conflict'' [])
            | TrigRunning \<Rightarrow> done_with status))"

definition QueryVersionCompareHandler ::
  "string \<Rightarrow> string \<Rightarrow> string \<Rightarrow> string \<Rightarrow> string \<Rightarrow> (http + VersionCompareResponse) prog" where
  "QueryVersionCompareHandler rawID packageIDs designTime runTime mismatchOnly =
     (case id_param rawID of
        None \<Rightarrow> failwith (400, Errf ''invalid id'' [])
      | Some i \<Rightarrow>
          onerr (QueryVersionCompare i
                   \<lparr>qp_PackageIDs = ParsePackageIDs packageIDs, qp_DesignTime = (designTime \<noteq> ''false''),
                    qp_RunTime = (runTime \<noteq> ''false''), qp_MismatchOnly = (mismatchOnly = ''true'')\<rparr>)
            (\<lambda>e. (500, e)) done_with)"

definition UpdateIncludedPackagesHandler ::
  "IncludedPackageInput list \<Rightarrow> string \<Rightarrow> (http + VersionCompareIncludedPackage list) prog" where
  "UpdateIncludedPackagesHandler inputs updatedBy =
     onerr (UpdateIncludedPackages inputs updatedBy) (\<lambda>e. (500, e)) done_with"

definition preview_status :: "gerr \<Rightarrow> nat" where
  "preview_status e =
     (if Contains (err_text e) ''not found'' then 404
      else if Contains (err_text e) ''no design-time mismatches'' then 409 else 500)"

definition HandlePreviewDRFromMismatch :: "env \<Rightarrow> string \<Rightarrow> (http + PreviewDRResponse) prog" where
  "HandlePreviewDRFromMismatch env rawID =
     (case id_param rawID of
        None \<Rightarrow> failwith (400, Errf ''invalid id'' [])
      | Some i \<Rightarrow> onerr (PreviewDRFromMismatch env i) (\<lambda>e. (preview_status e, e)) done_with)"

definition create_status :: "gerr \<Rightarrow> nat" where
  "create_status e =
     (if Contains (err_text e) ''not found'' then 404
      else if Contains (err_text e) ''completedAt mismatch'' then 409
      else if Contains (err_text e) ''artifactKeys must not be empty'' \<or>
              Contains (err_text e) ''jira link is required'' \<or>
              Contains (err_text e) ''no artifacts passed validation'' then 400 else 500)"

definition HandleCreateDRFromMismatch ::
  "env \<Rightarrow> string \<Rightarrow> CreateDRFromMismatchRequest \<Rightarrow> string \<Rightarrow> (http + CreateDRFromMismatchResponse) prog" where
  "HandleCreateDRFromMismatch env rawID req user =
     (case id_param rawID of
        None \<Rightarrow> failwith (400, Errf ''invalid id'' [])
      | Some i \<Rightarrow> onerr (CreateDRFromMismatch env i req user) (\<lambda>e. (create_status e, e)) done_with)"

definition HandleAdhocVersionCompare ::
  "env \<Rightarrow> (PackageSnapshot list \<Rightarrow> PackageSnapshot list) \<Rightarrow> nat list \<Rightarrow> (http + VersionCompareResponse) prog" where
  "HandleAdhocVersionCompare env arrival tenantIDs =
     (if length tenantIDs < 2 then failwith (400, Errf ''at least 2 tenants required'' [])
      else onerr (AdhocVersionCompare env arrival tenantIDs)
        (\<lambda>e. if err_text e = ''rate_limited'' then
                (429, Errf ''adhoc version compare is rate limited, please wait 5m0s'' [])
              else (500, e)) done_with)"
section \<open>What a collection holds\<close>

text \<open>The elements in the order of their first occurrence.\<close>

definition first_occ :: "'a list \<Rightarrow> 'a list" where
  "first_occ xs = rev (remdups (rev xs))"

lemma first_occ_Nil [simp]: "first_occ [] = []"
  by (simp add: first_occ_def)

lemma first_occ_snoc: "first_occ (xs @ [x]) = (if x \<in> set xs then first_occ xs else first_occ xs @ [x])"
  by (simp add: first_occ_def)

lemma set_first_occ [simp]: "set (first_occ xs) = set xs"
  by (simp add: first_occ_def)

lemma distinct_first_occ [simp]: "distinct (first_occ xs)"
  by (simp add: first_occ_def)

text \<open>The artifacts a tenant answered with, and the last of them with an id.\<close>

definition arts_of :: "env \<Rightarrow> string \<Rightarrow> CpiTenant \<Rightarrow> PackageArtifact list" where
  "arts_of env packageID t = (case tenant_artifacts env packageID t of Inl _ \<Rightarrow> [] | Inr l \<Rightarrow> l)"

definition latest :: "string \<Rightarrow> PackageArtifact list \<Rightarrow> PackageArtifact option" where
  "latest i l = List.find (\<lambda>a. pa_TechID a = i) (rev l)"

lemma latest_snoc: "latest i (l @ [a]) = (if pa_TechID a = i then Some a else latest i l)"
  by (simp add: latest_def)

text \<open>The version of an artifact on a tenant in a list of artifacts under construction.\<close>

definition entry :: "ArtifactSnapshot list \<Rightarrow> string \<Rightarrow> nat \<Rightarrow> ArtifactVersionInfo option" where
  "entry arts i u = (case List.find (\<lambda>a. as_ID a = i) arts of None \<Rightarrow> None | Some a \<Rightarrow> map_of (as_Versions a) u)"

lemma entry_of: "\<lbrakk>distinct (map as_ID arts); a \<in> set arts\<rbrakk> \<Longrightarrow> entry arts (as_ID a) u = map_of (as_Versions a) u"
  by (simp add: entry_def find_distinct_key)

lemma find_append: "List.find P (xs @ ys) = (case List.find P xs of None \<Rightarrow> List.find P ys | r \<Rightarrow> r)"
  by (induction xs) auto

definition put_version ::
  "rt_index \<Rightarrow> nat \<Rightarrow> PackageArtifact \<Rightarrow> ArtifactSnapshot \<Rightarrow> ArtifactSnapshot" where
  "put_version idx t art a = a\<lparr>as_Versions := map_put t (version_info idx t art) (as_Versions a)\<rparr>"

lemma put_version_sel [simp]:
  "as_ID (put_version idx t art a) = as_ID a"
  "map_of (as_Versions (put_version idx t art a)) u =
     (if u = t then Some (version_info idx t art) else map_of (as_Versions a) u)"
  by (simp_all add: put_version_def map_of_map_put)

lemma find_put:
  "List.find (\<lambda>a. as_ID a = j) (upd_where (\<lambda>a. as_ID a = i) (put_version idx t art) xs) =
   (if j = i then map_option (put_version idx t art) (List.find (\<lambda>a. as_ID a = j) xs)
    else List.find (\<lambda>a. as_ID a = j) xs)"
  by (induction xs) auto

lemma entry_put:
  "List.find (\<lambda>a. as_ID a = pa_TechID art) xs = Some a \<Longrightarrow>
   entry (upd_where (\<lambda>a. as_ID a = pa_TechID art) (put_version idx t art) xs) i u =
     (if i = pa_TechID art \<and> u = t then Some (version_info idx t art) else entry xs i u)"
  unfolding entry_def find_put by (cases "i = pa_TechID art") simp_all

definition new_artifact :: "PackageArtifact \<Rightarrow> ArtifactSnapshot" where
  "new_artifact art = \<lparr>as_ID = pa_TechID art, as_Name = pa_Name art, as_Type = pa_Type art, as_Versions = []\<rparr>"

lemma new_artifact_sel [simp]: "as_ID (new_artifact art) = pa_TechID art" "as_Versions (new_artifact art) = []"
  by (simp_all add: new_artifact_def)

lemma add_artifact_put:
  "add_artifact idx t art arts =
     upd_where (\<lambda>a. as_ID a = pa_TechID art) (put_version idx t art)
       (if pa_TechID art \<in> as_ID ` set arts then arts else arts @ [new_artifact art])"
  unfolding add_artifact_def Let_def put_version_def new_artifact_def by (auto simp: image_iff)

lemma entry_add:
  "entry (add_artifact idx t art arts) i u =
     (if i = pa_TechID art \<and> u = t then Some (version_info idx t art) else entry arts i u)"
proof (cases "List.find (\<lambda>a. as_ID a = pa_TechID art) arts")
  case (Some a)
  then have "pa_TechID art \<in> as_ID ` set arts" using find_SomeD [OF Some] by force
  then show ?thesis unfolding add_artifact_put using entry_put [OF Some] by simp
next
  case None
  then have n: "pa_TechID art \<notin> as_ID ` set arts" by (auto simp: find_None_iff2)
  have s: "List.find (\<lambda>a. as_ID a = pa_TechID art) (arts @ [new_artifact art]) = Some (new_artifact art)"
    using None by (simp add: find_append)
  have "entry (arts @ [new_artifact art]) i u = entry arts i u"
    unfolding entry_def find_append by (cases "i = pa_TechID art"; cases "List.find (\<lambda>a. as_ID a = i) arts") (use None in simp_all)
  then show ?thesis unfolding add_artifact_put using n entry_put [OF s] by simp
qed

lemma ids_add:
  "map as_ID (add_artifact idx t art arts) =
     (if pa_TechID art \<in> set (map as_ID arts) then map as_ID arts else map as_ID arts @ [pa_TechID art])"
proof -
  have "map as_ID (upd_where P (put_version idx t art) xs) = map as_ID xs" for P xs
    by (induction xs) simp_all
  then show ?thesis by (simp add: add_artifact_put)
qed

lemma fold_add_entry:
  "entry (fold (add_artifact idx t) l arts) i u =
     (if u = t then (case latest i l of None \<Rightarrow> entry arts i u | Some a \<Rightarrow> Some (version_info idx t a))
      else entry arts i u)"
  by (induction l rule: rev_induct) (auto simp: latest_snoc entry_add latest_def)

lemma fold_add_ids:
  "map as_ID arts = first_occ seen \<Longrightarrow>
   map as_ID (fold (add_artifact idx t) l arts) = first_occ (seen @ map pa_TechID l)"
proof (induction l rule: rev_induct)
  case (snoc a l)
  have "set (map as_ID (fold (add_artifact idx t) l arts)) = set seen \<union> pa_TechID ` set l"
    using snoc by (metis set_first_occ set_append set_map)
  then show ?case
    using snoc first_occ_snoc [of "seen @ map pa_TechID l" "pa_TechID a"] by (auto simp: ids_add)
qed simp

lemma add_result_fold: "add_result env p idx t arts = fold (add_artifact idx (tn_ID t)) (arts_of env p t) arts"
  by (simp add: add_result_def arts_of_def split: sum.split)

lemma collect_ids:
  "map as_ID (fold (add_result env p idx) ts []) = first_occ (map pa_TechID (concat (map (arts_of env p) ts)))"
proof (induction ts rule: rev_induct)
  case (snoc t ts)
  from fold_add_ids [OF this] show ?case by (simp add: add_result_fold)
qed simp

lemma collect_entry:
  "distinct (map tn_ID ts) \<Longrightarrow> entry (fold (add_result env p idx) ts []) i u =
     (case List.find (\<lambda>t. tn_ID t = u) ts of None \<Rightarrow> None
      | Some t \<Rightarrow> map_option (version_info idx u) (latest i (arts_of env p t)))"
proof (induction ts rule: rev_induct)
  case Nil
  then show ?case by (simp add: entry_def)
next
  case (snoc t ts)
  have n: "List.find (\<lambda>t'. tn_ID t' = tn_ID t) ts = None"
    using snoc.prems unfolding find_None_iff2 by (simp add: image_iff) metis
  show ?case
    using snoc n by (auto simp: add_result_fold fold_add_entry find_append split: option.split)
qed

definition keyed :: "nat set \<Rightarrow> ArtifactSnapshot list \<Rightarrow> bool" where
  "keyed K arts \<longleftrightarrow> (\<forall>a\<in>set arts. fst ` set (as_Versions a) \<subseteq> K)"

lemma keyed_add: "\<lbrakk>keyed K arts; t \<in> K\<rbrakk> \<Longrightarrow> keyed K (add_artifact idx t art arts)"
proof -
  have put: "fst ` set (as_Versions (put_version idx t art a)) = insert t (fst ` set (as_Versions a))" for a
    by (simp add: put_version_def keys_map_put)
  have up: "keyed K (upd_where P (put_version idx t art) xs)" if "keyed K xs" "t \<in> K" for P xs
    using that put by (induction xs) (simp_all add: keyed_def)
  assume k: "keyed K arts" "t \<in> K"
  then have "keyed K (arts @ [new_artifact art])" by (auto simp: keyed_def)
  with k show "keyed K (add_artifact idx t art arts)"
    unfolding add_artifact_put by (simp add: up)
qed

lemma keyed_fold: "\<lbrakk>keyed K arts; t \<in> K\<rbrakk> \<Longrightarrow> keyed K (fold (add_artifact idx t) l arts)"
  by (induction l arbitrary: arts) (simp_all add: keyed_add)

lemma keyed_collect: "\<lbrakk>tn_ID ` set ts \<subseteq> K; keyed K arts\<rbrakk> \<Longrightarrow> keyed K (fold (add_result env p idx) ts arts)"
  by (induction ts arbitrary: arts) (simp_all add: add_result_fold keyed_fold)

text \<open>The runtime index: of two entries of one artifact the later one counts.\<close>

lemma map_of_fold_put: "map_of (fold (\<lambda>(k, v). map_put k v) ps m) k = (case map_of (rev ps) k of None \<Rightarrow> map_of m k | Some v \<Rightarrow> Some v)"
proof (induction ps rule: rev_induct)
  case (snoc p ps)
  then show ?case by (cases p) (simp add: map_of_map_put)
qed simp

lemma map_of_runtime_index:
  "map_of (fetchRuntimeIndex env ts) u =
     (if u \<in> tn_ID ` set ts then map_option (tenant_runtime env) (List.find (\<lambda>t. tn_ID t = u) (rev ts)) else None)"
proof -
  have "map_of (fold (\<lambda>t. map_put (tn_ID t) (tenant_runtime env t)) ts m) u =
     (case List.find (\<lambda>t. tn_ID t = u) (rev ts) of None \<Rightarrow> map_of m u | Some t \<Rightarrow> Some (tenant_runtime env t))" for m
    by (induction ts rule: rev_induct) (auto simp: map_of_map_put)
  moreover have "List.find (\<lambda>t. tn_ID t = u) (rev ts) = None \<longleftrightarrow> u \<notin> tn_ID ` set ts"
    by (auto simp: find_None_iff2)
  ultimately show ?thesis
    by (cases "List.find (\<lambda>t. tn_ID t = u) (rev ts)") (simp_all add: fetchRuntimeIndex_def)
qed

definition runtime_of :: "env \<Rightarrow> CpiTenant \<Rightarrow> string \<Rightarrow> RuntimeArtifact option" where
  "runtime_of env t i =
     (if isl (CPI env (tn_PirApiDestinationName t)) then None
      else case GetRuntimeArtifacts env (tn_PirApiDestinationName t) of
             Inl _ \<Rightarrow> None
           | Inr rts \<Rightarrow> map_of (rev rts) i)"

lemma tenant_runtime_of: "map_of (tenant_runtime env t) i = runtime_of env t i"
  by (auto simp: tenant_runtime_def runtime_of_def map_of_fold_put split: sum.split option.split)

text \<open>What the snapshot says of an artifact a tenant has.\<close>

definition seen_version :: "env \<Rightarrow> CpiTenant \<Rightarrow> PackageArtifact \<Rightarrow> ArtifactVersionInfo" where
  "seen_version env t a =
     zero_vinfo\<lparr>vi_DesignTimeVersion := pa_Version a, vi_ModifiedBy := pa_ModifiedBy a, vi_ModifiedAt := pa_ModifiedAt a,
       vi_RuntimeVersion := (case runtime_of env t (pa_TechID a) of None \<Rightarrow> [] | Some rt \<Rightarrow> ra_Version rt),
       vi_RuntimeStatus := (case runtime_of env t (pa_TechID a) of None \<Rightarrow> [] | Some rt \<Rightarrow> ra_Status rt)\<rparr>"

lemma version_info_seen:
  "\<lbrakk>distinct (map tn_ID ts); t \<in> set ts\<rbrakk> \<Longrightarrow>
   version_info (fetchRuntimeIndex env ts) (tn_ID t) a = seen_version env t a"
proof -
  assume d: "distinct (map tn_ID ts)" "t \<in> set ts"
  have "List.find (\<lambda>t'. tn_ID t' = tn_ID t) (rev ts) = Some t"
    using d by (intro find_distinct_key) (simp_all add: rev_map [symmetric])
  with d(2) show ?thesis
    by (auto simp: version_info_def seen_version_def map_of_runtime_index tenant_runtime_of zero_vinfo_def Let_def split: option.split)
qed

text \<open>The snapshot of a package lists every artifact some tenant has, once, in the order of
  discovery; and it says of each artifact and each tenant exactly what the tenant answered: the
  last item of that id with its runtime version, and nothing when the tenant does not have it or
  did not answer. The error of a tenant leaves no trace.\<close>

theorem collectPackageSnapshot_exact:
  assumes "collectPackageSnapshot env packageID tenants (fetchRuntimeIndex env tenants) = Inr snap"
    and "distinct (map tn_ID tenants)"
  shows "map as_ID (ps_Artifacts snap) = first_occ (map pa_TechID (concat (map (arts_of env packageID) tenants))) \<and>
    (\<forall>a\<in>set (ps_Artifacts snap). fst ` set (as_Versions a) \<subseteq> tn_ID ` set tenants \<and>
       (\<forall>t\<in>set tenants. map_of (as_Versions a) (tn_ID t) =
          map_option (seen_version env t) (latest (as_ID a) (arts_of env packageID t))))"
proof (intro conjI ballI)
  let ?idx = "fetchRuntimeIndex env tenants"
  have s: "ps_Artifacts snap = fold (add_result env packageID ?idx) tenants []"
    using assms(1) by (auto simp: collectPackageSnapshot_def)
  show ids: "map as_ID (ps_Artifacts snap) = first_occ (map pa_TechID (concat (map (arts_of env packageID) tenants)))"
    unfolding s by (rule collect_ids)
  fix a assume a: "a \<in> set (ps_Artifacts snap)"
  show "fst ` set (as_Versions a) \<subseteq> tn_ID ` set tenants"
    using keyed_collect [of tenants "tn_ID ` set tenants" "[]" env packageID ?idx] a by (simp add: keyed_def s)
  fix t assume t: "t \<in> set tenants"
  have "distinct (map as_ID (ps_Artifacts snap))" unfolding ids by simp
  from entry_of [OF this a] have "map_of (as_Versions a) (tn_ID t) = entry (ps_Artifacts snap) (as_ID a) (tn_ID t)" by simp
  also have "\<dots> = map_option (version_info ?idx (tn_ID t)) (latest (as_ID a) (arts_of env packageID t))"
    unfolding s collect_entry [OF assms(2)] by (simp add: find_distinct_key [OF assms(2) t])
  also have "\<dots> = map_option (seen_version env t) (latest (as_ID a) (arts_of env packageID t))"
    by (cases "latest (as_ID a) (arts_of env packageID t)") (simp_all add: version_info_seen [OF assms(2) t])
  finally show "map_of (as_Versions a) (tn_ID t) = map_option (seen_version env t) (latest (as_ID a) (arts_of env packageID t))" .
qed

text \<open>Two tenants, one of which has deployed the artifact; a third does not answer.\<close>

definition demo_vc_env :: env where
  "demo_vc_env = quiet_env
    \<lparr>CPI := (\<lambda>d. if d = ''down'' then Inl (ExtErr ''down'') else Inr ()),
     GetPackages := (\<lambda>_. Inr [''p'']),
     GetPackageArtifactsByType := (\<lambda>d p t. if t \<noteq> ''Integration Flow'' then Inl (HttpResponseError 404 [])
       else Inr [\<lparr>ci_ID = ''flow'', ci_Version = (if d = ''dev'' then ''1.0.2'' else ''1.0.1''), ci_PackageID = p,
                  ci_Name = ''Flow'', ci_Description = [], ci_CreatedBy = [], ci_CreatedAt = [],
                  ci_ModifiedBy = ''ann'', ci_ModifiedAt = []\<rparr>]),
     GetRuntimeArtifacts := (\<lambda>d. if d = ''dev'' then
        Inr [(''flow'', \<lparr>ra_Version = ''1.0.2'', ra_Status = ''STARTED'', ra_DeployedBy = [], ra_DeployedOn = []\<rparr>)]
        else Inr [])\<rparr>"

definition demo_vc_tenant :: "nat \<Rightarrow> string \<Rightarrow> CpiTenant" where
  "demo_vc_tenant i d = zero_tenant\<lparr>tn_ID := i, tn_Name := d, tn_PirApiDestinationName := d\<rparr>"

definition demo_vc_tenants :: "CpiTenant list" where
  "demo_vc_tenants = [demo_vc_tenant 1 ''dev'', demo_vc_tenant 2 ''qa'', demo_vc_tenant 3 ''down'']"

definition demo_vc_package :: PackageSnapshot where
  "demo_vc_package =
     projr (collectPackageSnapshot demo_vc_env ''p'' demo_vc_tenants (fetchRuntimeIndex demo_vc_env demo_vc_tenants))"

theorem collectPackageSnapshot_exact_witness:
  "map as_ID (ps_Artifacts demo_vc_package) = [''flow'']"
proof -
  have "collectPackageSnapshot demo_vc_env ''p'' demo_vc_tenants (fetchRuntimeIndex demo_vc_env demo_vc_tenants) = Inr demo_vc_package"
    by (simp add: demo_vc_package_def collectPackageSnapshot_def)
  moreover have "distinct (map tn_ID demo_vc_tenants)" by code_simp
  ultimately have "map as_ID (ps_Artifacts demo_vc_package) =
      first_occ (map pa_TechID (concat (map (arts_of demo_vc_env ''p'') demo_vc_tenants)))"
    using collectPackageSnapshot_exact by blast
  also have "\<dots> = [''flow'']" by code_simp
  finally show ?thesis .
qed
section \<open>Three notions of mismatch\<close>

lemma has_mismatch_iff:
  assumes s: "map_of (as_Versions art) src = Some s" and d: "distinct (map fst (as_Versions art))"
  shows "has_mismatch (compare_artifact params src art) \<longleftrightarrow>
    (\<exists>t vi. map_of (as_Versions art) t = Some vi \<and> t \<noteq> src \<and>
       (qp_DesignTime params \<and> \<not> dt_match s vi \<or> qp_RunTime params \<and> \<not> rt_match s vi))"
proof -
  have i: "info_mismatch (tenant_info params src (Some s) t vi) \<longleftrightarrow>
      t \<noteq> src \<and> (qp_DesignTime params \<and> \<not> dt_match s vi \<or> qp_RunTime params \<and> \<not> rt_match s vi)" for t vi
    by (simp add: info_mismatch_def tenant_info_def with_design_time_def with_runtime_def Let_def)
  have "has_mismatch (compare_artifact params src art) \<longleftrightarrow>
      (\<exists>(t, vi)\<in>set (as_Versions art). info_mismatch (tenant_info params src (Some s) t vi))"
    by (simp add: has_mismatch_def compare_artifact_def list_ex_iff s Bex_def image_iff split_paired_Ex) blast
  also have "\<dots> \<longleftrightarrow> (\<exists>t vi. map_of (as_Versions art) t = Some vi \<and> t \<noteq> src \<and>
       (qp_DesignTime params \<and> \<not> dt_match s vi \<or> qp_RunTime params \<and> \<not> rt_match s vi))"
    unfolding i by (simp add: Bex_def map_of_eq_Some_iff [OF d])
  finally show ?thesis .
qed

lemma count_mismatch_iff:
  assumes s: "map_of (as_Versions art) src = Some s" and d: "distinct (map fst (as_Versions art))"
  shows "count_mismatch src art = Some c \<longleftrightarrow> c = (\<exists>t vi. map_of (as_Versions art) t = Some vi \<and> t \<noteq> src \<and>
    (vi_DesignTimeVersion vi \<noteq> vi_DesignTimeVersion s \<or> vi_RuntimeVersion vi \<noteq> vi_RuntimeVersion s))"
proof -
  have "list_ex (\<lambda>(tid, vi). tid \<noteq> src \<and> (vi_DesignTimeVersion vi \<noteq> vi_DesignTimeVersion s \<or>
        vi_RuntimeVersion vi \<noteq> vi_RuntimeVersion s)) (as_Versions art) \<longleftrightarrow>
     (\<exists>t vi. map_of (as_Versions art) t = Some vi \<and> t \<noteq> src \<and>
       (vi_DesignTimeVersion vi \<noteq> vi_DesignTimeVersion s \<or> vi_RuntimeVersion vi \<noteq> vi_RuntimeVersion s))"
    by (simp add: list_ex_iff Bex_def split_paired_Ex map_of_eq_Some_iff [OF d])
  then show ?thesis by (auto simp: count_mismatch_def s)
qed

definition dt_params :: VersionCompareQueryParams where
  "dt_params = \<lparr>qp_PackageIDs = [], qp_DesignTime = True, qp_RunTime = False, qp_MismatchOnly = True\<rparr>"

definition both_params :: VersionCompareQueryParams where
  "both_params = \<lparr>qp_PackageIDs = [], qp_DesignTime = True, qp_RunTime = True, qp_MismatchOnly = True\<rparr>"

text \<open>The preview, the query and the counts mean different things by a mismatch. The preview
  offers what the query shows and also what a compared tenant lacks; the query shows what the
  counts count and also an artifact whose source is a draft. So an artifact that is nowhere but on
  the source is offered for delivery, but hidden by the query and counted as matched.\<close>

theorem mismatch_notions:
  assumes "map_of (as_Versions art) src = Some s" and "distinct (map fst (as_Versions art))"
    and "fst ` set (as_Versions art) \<subseteq> insert src (set compared)" and "src \<notin> set compared"
  shows "(preview_mismatch compared s art \<longleftrightarrow>
      (\<exists>t\<in>set compared. map_of (as_Versions art) t = None) \<or> has_mismatch (compare_artifact dt_params src art)) \<and>
    (has_mismatch (compare_artifact both_params src art) \<longleftrightarrow>
      count_mismatch src art = Some True \<or>
      isDraftVersion (vi_DesignTimeVersion s) \<and> (\<exists>t\<in>set compared. map_of (as_Versions art) t \<noteq> None))"
proof -
  have dom: "t \<noteq> src \<Longrightarrow> map_of (as_Versions art) t = Some vi \<Longrightarrow> t \<in> set compared" for t vi
    using assms(3) map_of_SomeD by fastforce
  have pre: "preview_mismatch compared s art \<longleftrightarrow> (\<exists>t\<in>set compared. map_of (as_Versions art) t = None \<or>
      (\<exists>vi. map_of (as_Versions art) t = Some vi \<and> \<not> dt_match s vi))"
    unfolding preview_mismatch_def list_ex_iff
    by (rule bex_cong [OF refl]) (auto simp: dt_match_def split: option.split)
  have dt: "has_mismatch (compare_artifact dt_params src art) \<longleftrightarrow>
      (\<exists>t\<in>set compared. \<exists>vi. map_of (as_Versions art) t = Some vi \<and> \<not> dt_match s vi)"
    unfolding has_mismatch_iff [OF assms(1,2)] dt_params_def using dom assms(4) by auto
  have both: "has_mismatch (compare_artifact both_params src art) \<longleftrightarrow>
      (\<exists>t\<in>set compared. \<exists>vi. map_of (as_Versions art) t = Some vi \<and> (\<not> dt_match s vi \<or> \<not> rt_match s vi))"
    unfolding has_mismatch_iff [OF assms(1,2)] both_params_def using dom assms(4) by auto
  have counted: "count_mismatch src art = Some True \<longleftrightarrow>
      (\<exists>t\<in>set compared. \<exists>vi. map_of (as_Versions art) t = Some vi \<and>
        (vi_DesignTimeVersion vi \<noteq> vi_DesignTimeVersion s \<or> vi_RuntimeVersion vi \<noteq> vi_RuntimeVersion s))"
    unfolding count_mismatch_iff [OF assms(1,2)] using dom assms(4) by auto
  have each: "(\<not> dt_match s vi \<or> \<not> rt_match s vi) \<longleftrightarrow>
      (vi_DesignTimeVersion vi \<noteq> vi_DesignTimeVersion s \<or> vi_RuntimeVersion vi \<noteq> vi_RuntimeVersion s) \<or>
      isDraftVersion (vi_DesignTimeVersion s)" for vi
    by (auto simp: dt_match_def rt_match_def)
  show ?thesis
    unfolding pre dt both counted each bex_disj_distrib by blast
qed

text \<open>An artifact that the second of two compared tenants lacks, with everything else equal.\<close>

definition demo_art :: ArtifactSnapshot where
  "demo_art = \<lparr>as_ID = ''flow'', as_Name = ''Flow'', as_Type = ''Integration Flow'',
     as_Versions = [(1, zero_vinfo\<lparr>vi_DesignTimeVersion := ''1.0.2''\<rparr>), (2, zero_vinfo\<lparr>vi_DesignTimeVersion := ''1.0.2''\<rparr>)]\<rparr>"

theorem mismatch_notions_witness:
  "preview_mismatch [2, 3] (zero_vinfo\<lparr>vi_DesignTimeVersion := ''1.0.2''\<rparr>) demo_art \<and>
   \<not> has_mismatch (compare_artifact both_params 1 demo_art) \<and> count_mismatch 1 demo_art = Some False"
proof -
  let ?s = "zero_vinfo\<lparr>vi_DesignTimeVersion := ''1.0.2''\<rparr>"
  have a: "map_of (as_Versions demo_art) 1 = Some ?s" "distinct (map fst (as_Versions demo_art))"
    "fst ` set (as_Versions demo_art) \<subseteq> insert 1 (set [2, 3])" "1 \<notin> set [2, 3 :: nat]"
    "map_of (as_Versions demo_art) 3 = None"
    by (simp_all add: demo_art_def)
  have c: "count_mismatch 1 demo_art = Some False" by code_simp
  have v: "\<not> isDraftVersion ''1.0.2''" by code_simp
  from mismatch_notions [OF a(1-4)] a(5) c v show ?thesis by simp
qed
section \<open>The preview\<close>

text \<open>The artifacts a preview is about, and the counts of a list of them.\<close>

definition offered :: "nat \<Rightarrow> nat list \<Rightarrow> ArtifactSnapshot \<Rightarrow> bool" where
  "offered src compared art \<longleftrightarrow> (case map_of (as_Versions art) src of None \<Rightarrow> False
     | Some s \<Rightarrow> vi_DesignTimeVersion s \<noteq> [] \<and> preview_mismatch compared s art)"

definition category_count :: "Category \<Rightarrow> PreviewDRArtifact list \<Rightarrow> nat" where
  "category_count c pas = length (filter (\<lambda>p. pd_Category p = c) pas)"

definition summary_of :: "PreviewDRArtifact list \<Rightarrow> PreviewDRSummary" where
  "summary_of pas = \<lparr>pm_TotalMismatch = length pas, pm_Includable = category_count CatIncludable pas,
     pm_Draft = category_count CatDraft pas, pm_VersionPattern = category_count CatVersionPattern pas,
     pm_Duplicate = category_count CatDuplicate pas\<rparr>"

lemma summary_of_Nil: "summary_of [] = zero_summary"
  by (simp add: summary_of_def zero_summary_def category_count_def)

lemma summary_of_snoc:
  "count_category pa ((summary_of pas)\<lparr>pm_TotalMismatch := Suc (pm_TotalMismatch (summary_of pas))\<rparr>) = summary_of (pas @ [pa])"
  by (simp add: count_category_def summary_of_def category_count_def split: Category.split)

lemma classify_base:
  "classify glob pattern ex (preview_base pkg art s) = Inr pa \<Longrightarrow>
   pd_PackageID pa = pkg \<and> pd_ArtifactID pa = as_ID art \<and> pd_SourceVersion pa = vi_DesignTimeVersion s"
  by (auto simp: classify_def preview_base_def split: if_splits sum.splits option.splits)

lemma classify_category:
  assumes "classify glob pattern ex pa0 = Inr pa" and "pd_Category pa0 = CatIncludable"
  shows "pd_Category pa =
    (if isDraftVersion (pd_SourceVersion pa0) then CatDraft
     else if matchVersionPattern glob (pd_SourceVersion pa0) pattern \<noteq> Inr True then CatVersionPattern
     else if map_of ex (pd_ArtifactID pa0, pd_SourceVersion pa0) \<noteq> None then CatDuplicate
     else CatIncludable)"
  using assms by (auto simp: classify_def isDraftVersion_def split: if_splits sum.splits option.splits)

lemma preview_loop_ok:
  "\<lbrakk>preview_loop glob pattern ex src compared arts (pas0, summary_of pas0) = Inr (pas, summary)\<rbrakk> \<Longrightarrow>
   summary = summary_of pas \<and> (\<exists>new. pas = pas0 @ new \<and>
     list_all2 (\<lambda>(pkg, art) pa. \<exists>s. map_of (as_Versions art) src = Some s \<and>
         classify glob pattern ex (preview_base pkg art s) = Inr pa)
       (filter (\<lambda>(pkg, art). offered src compared art) arts) new)"
proof (induction arts arbitrary: pas0)
  case (Cons p arts)
  obtain pkg art where p: "p = (pkg, art)" by fastforce
  show ?case
  proof (cases "offered src compared art")
    case False
    then have "preview_loop glob pattern ex src compared arts (pas0, summary_of pas0) = Inr (pas, summary)"
      using Cons.prems by (auto simp: p offered_def split: option.splits if_splits)
    with Cons.IH False show ?thesis by (simp add: p)
  next
    case True
    then obtain s where s: "map_of (as_Versions art) src = Some s" "\<not> (vi_DesignTimeVersion s = [] \<or> \<not> preview_mismatch compared s art)"
      by (auto simp: offered_def split: option.splits)
    with Cons.prems obtain pa where pa: "classify glob pattern ex (preview_base pkg art s) = Inr pa"
      "preview_loop glob pattern ex src compared arts (pas0 @ [pa], summary_of (pas0 @ [pa])) = Inr (pas, summary)"
      by (auto simp: p summary_of_snoc simp del: append.simps split: sum.splits)
    from Cons.IH [OF pa(2)] obtain new where "summary = summary_of pas" "pas = pas0 @ pa # new"
      "list_all2 (\<lambda>(pkg, art) pa. \<exists>s. map_of (as_Versions art) src = Some s \<and>
         classify glob pattern ex (preview_base pkg art s) = Inr pa)
       (filter (\<lambda>(pkg, art). offered src compared art) arts) new" by auto
    then show ?thesis using True s(1) pa(1) by (auto simp: p)
  qed
qed simp

text \<open>An active request of the rule has an operation for this version.\<close>

definition in_active_dr :: "world \<Rightarrow> nat \<Rightarrow> string \<Rightarrow> string \<Rightarrow> bool" where
  "in_active_dr w ruleID tech version \<longleftrightarrow>
     (\<exists>d\<in>set (db_drs w). dr_DeliveryRuleID d = ruleID \<and> dr_AggregateStatus d \<notin> {AggCanceled, AggDeployed} \<and>
        (\<exists>op\<in>set (db_ops w). op_DeliveryRequestID op = dr_ID d \<and> op_ArtifactTechID op = tech \<and> op_ArtifactVersion op = version))"

lemma existing_ops_iff:
  "map_of (existing_ops (active_drs ruleID w)) (tech, version) \<noteq> None \<longleftrightarrow> in_active_dr w ruleID tech version"
proof -
  have "map_of xs k \<noteq> None \<longleftrightarrow> k \<in> fst ` set xs" for xs :: "((string \<times> string) \<times> ExistingDRInfo) list" and k
    by (simp add: map_of_eq_None_iff)
  then show ?thesis
    by (auto simp: existing_ops_def active_drs_def ops_of_def in_active_dr_def image_iff)
qed

definition category_of :: "env \<Rightarrow> world \<Rightarrow> nat \<Rightarrow> DeliveryRule \<Rightarrow> PreviewDRArtifact \<Rightarrow> Category" where
  "category_of env w ruleID rule p =
     (if isDraftVersion (pd_SourceVersion p) then CatDraft
      else if matchVersionPattern (Glob env) (pd_SourceVersion p) (ru_VersionPattern rule) \<noteq> Inr True then CatVersionPattern
      else if in_active_dr w ruleID (pd_ArtifactID p) (pd_SourceVersion p) then CatDuplicate
      else CatIncludable)"

lemma in_active_faults [simp]: "in_active_dr (w\<lparr>faults := fs\<rparr>) i t v = in_active_dr w i t v"
  by (simp add: in_active_dr_def)

lemma active_drs_faults [simp]: "active_drs i (w\<lparr>faults := fs\<rparr>) = active_drs i w"
  by (simp add: active_drs_def)

text \<open>What a successful preview answers.\<close>

definition preview_ok :: "env \<Rightarrow> world \<Rightarrow> nat \<Rightarrow> PreviewDRResponse \<Rightarrow> bool" where
  "preview_ok env w ruleID resp \<longleftrightarrow>
     (\<exists>rule snap. rule \<in> set (db_rules w) \<and> ru_ID rule = ruleID \<and> snap \<in> set (db_vcsnaps w) \<and>
        of_rule ruleID snap \<and> vs_Status snap = SnapCompleted \<and> vs_CompletedAt snap = Some (pr_SnapshotCompletedAt resp) \<and>
        map (\<lambda>p. (pd_PackageID p, pd_ArtifactID p)) (pr_Artifacts resp) =
          map (\<lambda>(pkg, art). (pkg, as_ID art))
            (filter (\<lambda>(pkg, art). offered (sd_SourceTenantID (vs_Data snap)) (sd_ComparedTenants (vs_Data snap)) art)
               (data_artifacts (vs_Data snap))) \<and>
        list_all (\<lambda>p. pd_Category p = category_of env w ruleID rule p) (pr_Artifacts resp) \<and>
        pr_Summary resp = summary_of (pr_Artifacts resp) \<and> pr_Artifacts resp \<noteq> [])"

lemma preview_wp: "wp (PreviewDRFromMismatch env ruleID) (\<lambda>r w'. (\<exists>fs. w' = w\<lparr>faults := fs\<rparr>) \<and> (\<forall>x. r = Inr x \<longrightarrow> preview_ok env w ruleID x)) w"
proof -
  let ?Q = "\<lambda>r w'. (\<exists>fs. w' = w\<lparr>faults := fs\<rparr>) \<and> (\<forall>x. r = Inr x \<longrightarrow> preview_ok env w ruleID x)"
  show ?thesis
    unfolding PreviewDRFromMismatch_def wp_onerr
    apply (rule wp_GetRule)
    subgoal by auto
    subgoal premises rule for fs rule
      unfolding sum.case prod.case wp_onerr
      apply (rule vcsnaps_table.wp_first)
      subgoal by auto
      subgoal by auto
      subgoal premises snap for fs2 snap
      proof (cases "vs_CompletedAt snap")
        case None
        then show ?thesis by (auto simp: wp_return)
      next
        case (Some t)
        let ?d = "vs_Data snap" and ?ex = "existing_ops (active_drs ruleID w)"
        have fin: "wp (case preview_loop (Glob env) (ru_VersionPattern rule) ?ex (sd_SourceTenantID ?d)
               (sd_ComparedTenants ?d) (data_artifacts ?d) ([], zero_summary) of
            Inl p \<Rightarrow> failwith p
          | Inr (artifacts, summary) \<Rightarrow>
              if pm_TotalMismatch summary = 0 then failwith (Errf ''no design-time mismatches found in snapshot'' [])
              else done_with \<lparr>pr_SnapshotID = vs_ID snap, pr_SnapshotCompletedAt = t, pr_RuleName = ru_Name rule,
                 pr_RequireJira = ru_RequireJira rule, pr_Artifacts = artifacts, pr_Summary = summary\<rparr>) ?Q (w\<lparr>faults := fs3\<rparr>)" for fs3
        proof (cases "preview_loop (Glob env) (ru_VersionPattern rule) ?ex (sd_SourceTenantID ?d)
               (sd_ComparedTenants ?d) (data_artifacts ?d) ([], zero_summary)")
          case (Inl p)
          then show ?thesis by (auto simp: wp_return)
        next
          case (Inr res)
          obtain pas summary where res: "res = (pas, summary)" by fastforce
          from preview_loop_ok [of _ _ _ _ _ _ "[]", unfolded summary_of_Nil, OF Inr [unfolded res]]
          have l: "summary = summary_of pas" "list_all2 (\<lambda>(pkg, art) pa. \<exists>s. map_of (as_Versions art) (sd_SourceTenantID ?d) = Some s \<and>
              classify (Glob env) (ru_VersionPattern rule) ?ex (preview_base pkg art s) = Inr pa)
              (filter (\<lambda>(pkg, art). offered (sd_SourceTenantID ?d) (sd_ComparedTenants ?d) art) (data_artifacts ?d)) pas" by auto
          have keys: "map (\<lambda>p. (pd_PackageID p, pd_ArtifactID p)) pas = map (\<lambda>(pkg, art). (pkg, as_ID art))
              (filter (\<lambda>(pkg, art). offered (sd_SourceTenantID ?d) (sd_ComparedTenants ?d) art) (data_artifacts ?d))"
            using l(2) by (induction rule: list_all2_induct) (auto dest: classify_base)
          have cats: "list_all (\<lambda>p. pd_Category p = category_of env w ruleID rule p) pas"
            using l(2)
          proof (induction rule: list_all2_induct)
            case (Cons x xs y ys)
            obtain pkg art s where "classify (Glob env) (ru_VersionPattern rule) ?ex (preview_base pkg art s) = Inr y"
              using Cons by (cases x) auto
            from classify_category [OF this] classify_base [OF this] existing_ops_iff [of ruleID w]
            have "pd_Category y = category_of env w ruleID rule y"
              by (simp add: category_of_def preview_base_def)
            with Cons show ?case by simp
          qed simp
          show ?thesis
            unfolding Inr res sum.case prod.case wp_if wp_return
            using find_SomeD [OF rule] snap Some keys cats l(1) by (auto simp: preview_ok_def summary_of_def)
        qed
        show ?thesis
          unfolding sum.case Some option.case wp_onerr Let_def
          by (rule wp_query) (use fin in \<open>auto simp: wp_onerr\<close>)
      qed
      done
    done
qed

text \<open>A preview changes nothing; when it succeeds it lists exactly the artifacts of the completed
  snapshot whose source version some compared tenant lacks or differs from, each under the first
  category that applies (draft, wrong version pattern, already in an active request of the rule,
  includable), and the counts add up.\<close>

theorem PreviewDRFromMismatch_exact:
  assumes "run_state (PreviewDRFromMismatch env ruleID) w = (r, w')"
  shows "(\<exists>fs. w' = w\<lparr>faults := fs\<rparr>) \<and> (r = Inr resp \<longrightarrow> preview_ok env w ruleID resp \<and>
    pm_TotalMismatch (pr_Summary resp) = pm_Draft (pr_Summary resp) + pm_VersionPattern (pr_Summary resp) +
      pm_Duplicate (pr_Summary resp) + pm_Includable (pr_Summary resp))"
proof -
  have "length pas = category_count CatDraft pas + category_count CatVersionPattern pas +
      category_count CatDuplicate pas + category_count CatIncludable pas" for pas
  proof (induction pas)
    case (Cons p pas)
    then show ?case by (cases "pd_Category p") (simp_all add: category_count_def)
  qed (simp add: category_count_def)
  moreover have "(\<exists>fs. w' = w\<lparr>faults := fs\<rparr>) \<and> (\<forall>x. r = Inr x \<longrightarrow> preview_ok env w ruleID x)"
    by (rule wp_run [OF preview_wp assms])
  moreover have "pr_Summary x = summary_of (pr_Artifacts x)" if "preview_ok env w ruleID x" for x
    using that by (auto simp: preview_ok_def)
  ultimately show ?thesis by (simp add: summary_of_def)
qed

text \<open>A completed snapshot of the rule of the demo landscape, with an artifact QA does not have.\<close>

definition demo_snapshot :: VersionCompareSnapshot where
  "demo_snapshot = (new_vcsnap 3 0 ''ann'')\<lparr>vs_ID := 9, vs_Status := SnapCompleted, vs_CompletedAt := Some 1,
     vs_Data := \<lparr>sd_SourceTenantID = 1, sd_ComparedTenants = [2], sd_Packages = [\<lparr>ps_PackageID = ''pkg'',
       ps_Artifacts = [demo_art\<lparr>as_Versions := [(1, zero_vinfo\<lparr>vi_DesignTimeVersion := ''1.0.3''\<rparr>)]\<rparr>,
         \<lparr>as_ID = ''draft'', as_Name = ''Draft'', as_Type = ''Data Type'',
          as_Versions = [(1, zero_vinfo\<lparr>vi_DesignTimeVersion := ''Active''\<rparr>)]\<rparr>]\<rparr>]\<rparr>\<rparr>"

definition demo_vc_world :: world where
  "demo_vc_world = demo_world\<lparr>db_vcsnaps := [demo_snapshot]\<rparr>"

theorem PreviewDRFromMismatch_exact_witness:
  "\<exists>resp. fst (run_state (PreviewDRFromMismatch demo_env 3) demo_vc_world) = Inr resp \<and>
     preview_ok demo_env demo_vc_world 3 resp \<and> map pd_Category (pr_Artifacts resp) = [CatIncludable, CatDraft]"
proof -
  have n: "\<not> isl (fst (run_state (PreviewDRFromMismatch demo_env 3) demo_vc_world)) \<and>
      map pd_Category (pr_Artifacts (projr (fst (run_state (PreviewDRFromMismatch demo_env 3) demo_vc_world)))) =
        [CatIncludable, CatDraft]" by code_simp
  then obtain resp where r: "fst (run_state (PreviewDRFromMismatch demo_env 3) demo_vc_world) = Inr resp"
    by (metis isl_def sum.exhaust)
  from PreviewDRFromMismatch_exact [OF run_split] r n show ?thesis by auto
qed

section \<open>Requests from mismatches\<close>

text \<open>The snapshot a request may be made from: that of the rule and of the preview, unchanged since; with
  at least one key, and a Jira link where the rule requires one.\<close>

definition previewed ::
  "world \<Rightarrow> nat \<Rightarrow> CreateDRFromMismatchRequest \<Rightarrow> DeliveryRule \<Rightarrow> VersionCompareSnapshot \<Rightarrow> bool" where
  "previewed w ruleID req rule snap \<longleftrightarrow>
     List.find (\<lambda>r. ru_ID r = ruleID) (db_rules w) = Some rule \<and>
     snap \<in> set (db_vcsnaps w) \<and> vs_ID snap = cm_SnapshotID req \<and> vs_DeliveryRuleID snap = ruleID \<and>
     vs_Status snap = SnapCompleted \<and> vs_CompletedAt snap = Some (cm_SnapshotCompletedAt req) \<and>
     cm_ArtifactKeys req \<noteq> [] \<and> (ru_RequireJira rule \<longrightarrow> cm_JiraLink req \<noteq> [])"

lemma check_snapshot_ok:
  assumes "List.find (\<lambda>r. ru_ID r = ruleID) (db_rules w) = Some rule" and "snap \<in> set (db_vcsnaps w)"
    and "vs_ID snap = cm_SnapshotID req" and "check_snapshot env ruleID req rule snap = Inr t"
  shows "previewed w ruleID req rule snap \<and> t = cm_SnapshotCompletedAt req"
  using assms by (auto simp: check_snapshot_def previewed_def split: if_splits option.splits)

text \<open>The artifacts of the snapshot that one of the keys names, in the order of the snapshot, and what the last
  such key says on deployment.\<close>

definition key_of :: "string \<Rightarrow> ArtifactSnapshot \<Rightarrow> ArtifactKey \<Rightarrow> bool" where
  "key_of p a k \<longleftrightarrow> ak_ArtifactID k = as_ID a \<and> ak_PackageID k = p"

definition chosen :: "CreateDRFromMismatchRequest \<Rightarrow> SnapshotData \<Rightarrow> (string \<times> ArtifactSnapshot) list" where
  "chosen req data = [(ps_PackageID pkg, a). pkg \<leftarrow> sd_Packages data, a \<leftarrow> ps_Artifacts pkg,
     \<exists>k\<in>set (cm_ArtifactKeys req). key_of (ps_PackageID pkg) a k]"

definition wants_skip :: "CreateDRFromMismatchRequest \<Rightarrow> string \<Rightarrow> ArtifactSnapshot \<Rightarrow> bool" where
  "wants_skip req p a = ak_SkipDeploy (last (filter (key_of p a) (cm_ArtifactKeys req)))"

definition in_source :: "SnapshotData \<Rightarrow> ArtifactSnapshot \<Rightarrow> bool" where
  "in_source data a \<longleftrightarrow>
     (\<exists>vi. map_of (as_Versions a) (sd_SourceTenantID data) = Some vi \<and> vi_DesignTimeVersion vi \<noteq> [])"

text \<open>The request and an operation of it, field by field.\<close>

definition requested_dr ::
  "env \<Rightarrow> CreateDRFromMismatchRequest \<Rightarrow> DeliveryRule \<Rightarrow> VersionCompareSnapshot \<Rightarrow> string \<Rightarrow> DeliveryRequest \<Rightarrow> bool" where
  "requested_dr env req rule snap user d \<longleftrightarrow>
     dr_Name d = (if cm_Name req \<noteq> [] then cm_Name req
       else fmt_render ''Auto DR - %s - VC %s'' [ru_Name rule, FormatTime env ''2006-01-02 15:04'' (cm_SnapshotCompletedAt req)]) \<and>
     dr_JiraLink d = cm_JiraLink req \<and> dr_DeliveryRuleID d = ru_ID rule \<and> dr_SourceTenantID d = ru_SourceTenantID rule \<and>
     dr_AggregateStatus d = AggPending \<and> dr_ApprovedAt d = None \<and> dr_ApprovedBy d = [] \<and>
     dr_VersionCompareSnapshotID d = Some (vs_ID snap) \<and> dr_CreatedBy d = user \<and> dr_UpdatedBy d = user"

definition requested_op ::
  "CreateDRFromMismatchRequest \<Rightarrow> DeliveryRule \<Rightarrow> SnapshotData \<Rightarrow> nat \<Rightarrow> string \<Rightarrow> string \<times> ArtifactSnapshot \<Rightarrow>
   ArtifactTenantOperation \<Rightarrow> bool" where
  "requested_op req rule data drID user = (\<lambda>(p, a) op.
     op_DeliveryRequestID op = drID \<and> op_TenantID op = ru_SourceTenantID rule \<and>
     op_ArtifactTechID op = as_ID a \<and> op_PackageID op = p \<and> op_ArtifactName op = as_Name a \<and> op_ArtifactType op = as_Type a \<and>
     map_option vi_DesignTimeVersion (map_of (as_Versions a) (sd_SourceTenantID data)) = Some (op_ArtifactVersion op) \<and>
     op_TransportRequestNumber op = [] \<and> op_RequestState op = RequestPending \<and> op_ImportState op = ImportNotStarted \<and>
     op_SkipDeploy op = (wants_skip req p a \<or> \<not> IsDeployable (as_Type a)) \<and>
     op_DeployState op = (if op_SkipDeploy op then DeployDisabled else DeployNotStarted) \<and> op_CreatedBy op = user)"

lemma requested_dr_made: "requested_dr env req rule snap user ((mismatch_dr env req rule snap (cm_SnapshotCompletedAt req) user)\<lparr>dr_ID := i\<rparr>)"
  by (simp add: requested_dr_def mismatch_dr_def zero_request_def)

lemma skip_flags_last:
  "map_of (skip_flags keys) (as_ID a, p) =
     (if \<exists>k\<in>set keys. key_of p a k then Some (ak_SkipDeploy (last (filter (key_of p a) keys))) else None)"
proof (induction keys rule: rev_induct)
  case (snoc k keys)
  have "map_of (skip_flags (keys @ [k])) (as_ID a, p) =
      (if key_of p a k then Some (ak_SkipDeploy k) else map_of (skip_flags keys) (as_ID a, p))"
    by (auto simp: skip_flags_def key_of_def)
  then show ?case using snoc by auto
qed (simp add: skip_flags_def)

lemma chosen_filter:
  "chosen req data = filter (\<lambda>(p, a). \<exists>k\<in>set (cm_ArtifactKeys req). key_of p a k) (data_artifacts data)"
proof -
  have inner: "concat (map (\<lambda>a. if P a then [(p, a)] else []) as) = filter (\<lambda>(p, a). P a) (map (Pair p) as)"
    for P as and p :: string
    by (induction as) auto
  have "concat (map (\<lambda>pkg. concat (map (\<lambda>a. if P (ps_PackageID pkg) a then [(ps_PackageID pkg, a)] else []) (ps_Artifacts pkg))) pkgs) =
      filter (\<lambda>(p, a). P p a) (concat (map (\<lambda>pkg. map (\<lambda>a. (ps_PackageID pkg, a)) (ps_Artifacts pkg)) pkgs))" for P pkgs
    by (induction pkgs) (auto simp: inner filter_map comp_def)
  then show ?thesis unfolding chosen_def data_artifacts_def .
qed

lemma selected_chosen:
  "selected_artifacts (cm_ArtifactKeys req) data = map (\<lambda>(p, a). (p, a, wants_skip req p a)) (chosen req data)"
proof -
  have "concat (map (\<lambda>(p, a). case map_of (skip_flags (cm_ArtifactKeys req)) (as_ID a, p) of None \<Rightarrow> [] | Some s \<Rightarrow> [(p, a, s)]) xs) =
      map (\<lambda>(p, a). (p, a, wants_skip req p a)) (filter (\<lambda>(p, a). \<exists>k\<in>set (cm_ArtifactKeys req). key_of p a k) xs)" for xs
    by (induction xs) (auto simp: skip_flags_last wants_skip_def)
  then show ?thesis by (simp add: selected_artifacts_def chosen_filter)
qed

lemma source_version_in: "source_version (sd_SourceTenantID data) a \<noteq> None \<longleftrightarrow> in_source data a"
  by (auto simp: source_version_def in_source_def split: option.split)

lemma valid_ops_chosen:
  "valid_ops rule (sd_SourceTenantID data) (selected_artifacts (cm_ArtifactKeys req) data) =
     map (\<lambda>(p, a). mismatch_op rule p a (the (source_version (sd_SourceTenantID data) a)) (wants_skip req p a))
       (filter (\<lambda>(p, a). in_source data a) (chosen req data))"
proof -
  have "concat (map (\<lambda>(p, a, s). case v a of None \<Rightarrow> [] | Some x \<Rightarrow> [f p a x s]) (map (\<lambda>(p, a). (p, a, g p a)) xs)) =
      map (\<lambda>(p, a). f p a (the (v a)) (g p a)) (filter (\<lambda>(p, a). v a \<noteq> None) xs)" for v f g and xs :: "(string \<times> ArtifactSnapshot) list"
    by (induction xs) (auto split: option.splits)
  then show ?thesis unfolding selected_chosen valid_ops_def source_version_in [symmetric] .
qed

lemma skip_errors_chosen:
  "map (\<lambda>e. (me_PackageID e, me_ArtifactID e)) (skip_errors (sd_SourceTenantID data) (selected_artifacts (cm_ArtifactKeys req) data)) =
     map (\<lambda>(p, a). (p, as_ID a)) (filter (\<lambda>(p, a). \<not> in_source data a) (chosen req data))"
proof -
  have "map (\<lambda>e. (me_PackageID e, me_ArtifactID e)) (skip_errors src (map (\<lambda>(p, a). (p, a, g p a)) xs)) =
      map (\<lambda>(p, a). (p, as_ID a)) (filter (\<lambda>(p, a). source_version src a = None) xs)" for src g xs
    by (induction xs) (auto simp: skip_errors_def split: option.splits)
  then show ?thesis unfolding selected_chosen source_version_in [symmetric] by simp
qed

lemma requested_op_made:
  assumes "in_source data a"
  shows "requested_op req rule data i user (p, a)
    ((init_op i user (mismatch_op rule p a (the (source_version (sd_SourceTenantID data) a)) (wants_skip req p a)))\<lparr>op_ID := k\<rparr>)"
  using assms
  by (auto simp: requested_op_def in_source_def source_version_def init_op_def mismatch_op_def zero_op_def Let_def)

text \<open>The two outcomes.\<close>

definition rejected_request ::
  "env \<Rightarrow> world \<Rightarrow> nat \<Rightarrow> CreateDRFromMismatchRequest \<Rightarrow> string \<Rightarrow> world \<Rightarrow> bool" where
  "rejected_request env w ruleID req user w' \<longleftrightarrow> db_ops w' = db_ops w \<and> spawned w' = spawned w \<and>
     (db_drs w' = db_drs w \<or>
      (\<exists>rule snap d. previewed w ruleID req rule snap \<and> requested_dr env req rule snap user d \<and> db_drs w' = db_drs w @ [d]))"

definition created_request ::
  "env \<Rightarrow> world \<Rightarrow> nat \<Rightarrow> CreateDRFromMismatchRequest \<Rightarrow> string \<Rightarrow> CreateDRFromMismatchResponse \<Rightarrow> world \<Rightarrow> bool" where
  "created_request env w ruleID req user resp w' \<longleftrightarrow>
     (\<exists>rule snap. previewed w ruleID req rule snap \<and>
        requested_dr env req rule snap user (mr_DeliveryRequest resp) \<and>
        db_drs w' = db_drs w @ [mr_DeliveryRequest resp] \<and> db_ops w' = db_ops w @ mr_Ops resp \<and> mr_Ops resp \<noteq> [] \<and>
        list_all2 (requested_op req rule (vs_Data snap) (dr_ID (mr_DeliveryRequest resp)) user)
          (filter (\<lambda>(p, a). in_source (vs_Data snap) a) (chosen req (vs_Data snap))) (mr_Ops resp) \<and>
        mr_Requested resp = length (cm_ArtifactKeys req) \<and> mr_Created resp = length (mr_Ops resp) \<and>
        map (\<lambda>e. (me_PackageID e, me_ArtifactID e)) (mr_Errors resp) =
          map (\<lambda>(p, a). (p, as_ID a)) (filter (\<lambda>(p, a). \<not> in_source (vs_Data snap) a) (chosen req (vs_Data snap))))"

lemma requested_ops:
  assumes "list_all2 (\<lambda>n r. \<exists>k. r = (init_op i user n)\<lparr>op_ID := k\<rparr>)
    (valid_ops rule (sd_SourceTenantID data) (selected_artifacts (cm_ArtifactKeys req) data)) rows"
  shows "list_all2 (requested_op req rule data i user) (filter (\<lambda>(p, a). in_source data a) (chosen req data)) rows"
  using assms unfolding valid_ops_chosen list_all2_map1
  by (rule list.rel_mono_strong) (auto intro: requested_op_made)

lemma same_drs_insert: "state_io_rel same_drs (InsertTenantOps env d os u)"
  unfolding InsertTenantOps_def Let_def by (intro pres_intro) (simp_all add: same_drs_def)

lemma inserted_rows:
  assumes "inserted env w d u new rows w'"
  shows "db_ops w' = db_ops w @ rows \<and> list_all2 (\<lambda>n r. \<exists>k. r = (init_op d u n)\<lparr>op_ID := k\<rparr>) new rows"
  using assms unfolding inserted_def Let_def
  by (elim exE conjE, intro conjI) (assumption, erule list_all2_mono, blast)

lemma CreateDRFromMismatch_wp:
  "wp (CreateDRFromMismatch env ruleID req user)
     (\<lambda>r w'. case r of Inl e \<Rightarrow> rejected_request env w ruleID req user w' | Inr resp \<Rightarrow> created_request env w ruleID req user resp w') w"
proof -
  let ?Q = "\<lambda>r w'. case r of Inl e \<Rightarrow> rejected_request env w ruleID req user w' | Inr resp \<Rightarrow> created_request env w ruleID req user resp w'"
  have rej: "rejected_request env w ruleID req user (w\<lparr>faults := fs\<rparr>)"
    "rejected_request env w ruleID req user (w\<lparr>faults := fs, next_id := n\<rparr>)" for fs n
    by (simp_all add: rejected_request_def)
  show ?thesis
    unfolding CreateDRFromMismatch_def wp_onerr
    apply (rule wp_GetRule)
    subgoal by (simp add: rej)
    subgoal premises rule for fs rule
      unfolding sum.case prod.case wp_onerr
      apply (rule vcsnaps_table.wp_first)
      subgoal by (simp add: rej)
      subgoal by (simp add: rej)
      subgoal premises snap for fs2 snap
      proof (cases "check_snapshot env ruleID req rule snap")
        case (Inl e)
        then show ?thesis by (simp add: wp_return rej)
      next
        case (Inr completedAt)
        have p: "previewed w ruleID req rule snap" and t: "completedAt = cm_SnapshotCompletedAt req"
          using check_snapshot_ok [OF rule _ _ Inr] snap by auto
        let ?items = "selected_artifacts (cm_ArtifactKeys req) (vs_Data snap)" and ?src = "sd_SourceTenantID (vs_Data snap)"
        let ?ops = "valid_ops rule ?src ?items" and ?dr = "mismatch_dr env req rule snap completedAt user"
        have z: "dr_ID ?dr = 0" by (simp add: mismatch_dr_def zero_request_def)
        have ins: "wp (onerr (InsertTenantOps env i ?ops user)
              (Errw ''failed to create artifact tenant operations: %w'' []) (\<lambda>createdOps.
            done_with \<lparr>mr_DeliveryRequest = ?dr\<lparr>dr_ID := i\<rparr>, mr_Ops = createdOps,
                       mr_Requested = length (cm_ArtifactKeys req), mr_Created = length createdOps,
                       mr_Errors = skip_errors ?src ?items\<rparr>)) ?Q w1"
          if ne: "?ops \<noteq> []" and w1: "db_drs w1 = db_drs w @ [?dr\<lparr>dr_ID := i\<rparr>]" "db_ops w1 = db_ops w" "spawned w1 = spawned w" for i w1
        proof -
          have d: "requested_dr env req rule snap user (?dr\<lparr>dr_ID := i\<rparr>)" unfolding t by (rule requested_dr_made)
          have "wp (InsertTenantOps env i ?ops user) (\<lambda>r w'. same_drs w1 w' \<and> (case r of
              Inl e \<Rightarrow> db_ops w' = db_ops w1 \<and> spawned w' = spawned w1 | Inr rows \<Rightarrow> inserted env w1 i user ?ops rows w')) w1"
            using InsertTenantOps_wp [OF ne, of env i user w1] wp_of_io [OF same_drs_insert, of env i ?ops user w1]
            by (simp add: wp_run_state)
          then show ?thesis
            unfolding wp_onerr
          proof (rule wp_mono, goal_cases)
            case (1 r w2)
            show ?case
            proof (cases r)
              case (Inl e)
              then show ?thesis using 1 w1 p d by (auto simp: rejected_request_def same_drs_def)
            next
              case rows: (Inr rows)
              then have "inserted env w1 i user ?ops rows w2" using 1 by simp
              note l = inserted_rows [OF this]
              then have l2: "list_all2 (\<lambda>n r. \<exists>k. r = (init_op i user n)\<lparr>op_ID := k\<rparr>) ?ops rows" by blast
              have "rows \<noteq> []" using l2 ne by auto
              then show ?thesis
                unfolding rows sum.case wp_return created_request_def
                using p d 1 rows w1 l requested_ops [OF l2] skip_errors_chosen
                by (intro exI [of _ rule] exI [of _ snap]) (simp add: same_drs_def)
            qed
          qed
        qed
        show ?thesis
        proof (cases "?ops = []")
          case True
          then show ?thesis by (simp add: Inr wp_return rej Let_def)
        next
          case False
          show ?thesis
            unfolding sum.case Inr Let_def if_not_P [OF False] wp_onerr CreateDeliveryRequest_def
            apply (rule drs_table.wp_create)
            subgoal by (simp add: rej)
            subgoal premises created for fs3 n rows
            proof -
              have rows: "rows = [?dr\<lparr>dr_ID := next_id w\<rparr>]" using created(1) z by simp
              have i: "dr_ID (?dr\<lparr>dr_ID := next_id w\<rparr>) = next_id w" by simp
              show ?thesis
                unfolding sum.case wp_return rows list.sel i
                by (rule ins [OF False, unfolded wp_onerr wp_return sum.case]) simp_all
            qed
            done
        qed
      qed
      done
    done
qed

text \<open>C23: a request made from the mismatches of a snapshot. When it succeeds the snapshot is a completed
  one of the rule, of the time the caller previewed, at least one artifact was named and a required
  Jira link given; the new request is that of the call and refers to the snapshot; and its operations
  are exactly one per named artifact the source has, in the order of the snapshot, in the state of a
  new operation, not deployed when the last key of the artifact says so or its type cannot be; the
  named artifacts the source does not have are reported. When it fails no operation and no goroutine is
  new, but the request may have been stored, without operations, if the checks of the snapshot passed.\<close>

theorem CreateDRFromMismatch_outcome:
  assumes "run_state (CreateDRFromMismatch env ruleID req user) w = (r, w')"
  shows "case r of
      Inl e \<Rightarrow> db_ops w' = db_ops w \<and> spawned w' = spawned w \<and>
        (db_drs w' = db_drs w \<or>
         (\<exists>rule snap d. previewed w ruleID req rule snap \<and> requested_dr env req rule snap user d \<and> db_drs w' = db_drs w @ [d]))
    | Inr resp \<Rightarrow> \<exists>rule snap. previewed w ruleID req rule snap \<and>
        requested_dr env req rule snap user (mr_DeliveryRequest resp) \<and>
        db_drs w' = db_drs w @ [mr_DeliveryRequest resp] \<and> db_ops w' = db_ops w @ mr_Ops resp \<and> mr_Ops resp \<noteq> [] \<and>
        list_all2 (requested_op req rule (vs_Data snap) (dr_ID (mr_DeliveryRequest resp)) user)
          (filter (\<lambda>(p, a). in_source (vs_Data snap) a) (chosen req (vs_Data snap))) (mr_Ops resp) \<and>
        mr_Requested resp = length (cm_ArtifactKeys req) \<and> mr_Created resp = length (mr_Ops resp) \<and>
        map (\<lambda>e. (me_PackageID e, me_ArtifactID e)) (mr_Errors resp) =
          map (\<lambda>(p, a). (p, as_ID a)) (filter (\<lambda>(p, a). \<not> in_source (vs_Data snap) a) (chosen req (vs_Data snap)))"
  using wp_run [OF CreateDRFromMismatch_wp assms] unfolding rejected_request_def created_request_def .

definition demo_key :: "string \<Rightarrow> ArtifactKey" where
  "demo_key i = \<lparr>ak_ArtifactID = i, ak_PackageID = ''pkg'', ak_SkipDeploy = False\<rparr>"

definition demo_mismatch :: "string list \<Rightarrow> CreateDRFromMismatchRequest" where
  "demo_mismatch ids = \<lparr>cm_Name = ''from compare'', cm_JiraLink = ''https://jira/SI-1'', cm_SnapshotID = 9,
     cm_SnapshotCompletedAt = 1, cm_ArtifactKeys = map demo_key ids\<rparr>"

theorem CreateDRFromMismatch_outcome_witness:
  "\<exists>resp. fst (run_state (CreateDRFromMismatch demo_env 3 (demo_mismatch [''flow'']) ''ann'') demo_vc_world) = Inr resp \<and>
     db_ops (snd (run_state (CreateDRFromMismatch demo_env 3 (demo_mismatch [''flow'']) ''ann'') demo_vc_world)) =
       db_ops demo_vc_world @ mr_Ops resp"
proof -
  have "\<not> isl (fst (run_state (CreateDRFromMismatch demo_env 3 (demo_mismatch [''flow'']) ''ann'') demo_vc_world))"
    by code_simp
  then obtain resp where r: "fst (run_state (CreateDRFromMismatch demo_env 3 (demo_mismatch [''flow'']) ''ann'') demo_vc_world) = Inr resp"
    by (metis isl_def sum.exhaust)
  from CreateDRFromMismatch_outcome [OF run_split, where w = demo_vc_world and env = demo_env and ruleID = 3 and
      req = "demo_mismatch [''flow'']" and user = "''ann''"]
  show ?thesis unfolding r by auto
qed

text \<open>One selected artifact that the rule rejects fails the whole call, but not as a whole: the new
  request has been committed before and stays, pending and without operations. A caller who tries
  again makes another one.\<close>

theorem rejected_mismatch_leaves_request:
  "\<exists>env req w w' e d. run_state (CreateDRFromMismatch env 3 req ''ann'') w = (Inl e, w') \<and>
     db_drs w' = db_drs w @ [d] \<and> dr_AggregateStatus d = AggPending \<and> ops_of w' (dr_ID d) = []"
proof -
  let ?m = "CreateDRFromMismatch demo_env 3 (demo_mismatch [''flow'', ''draft'']) ''ann''"
  let ?f = "\<lambda>(r, w'). (isl r, take 1 (db_drs w') = db_drs demo_vc_world,
     map (\<lambda>d. (dr_AggregateStatus d, ops_of w' (dr_ID d))) (drop 1 (db_drs w')))"
  have "?f (run_state ?m demo_vc_world) = (True, True, [(AggPending, [])])" by code_simp
  then obtain e w' where r: "run_state ?m demo_vc_world = (Inl e, w')" "take 1 (db_drs w') = db_drs demo_vc_world"
      "map (\<lambda>d. (dr_AggregateStatus d, ops_of w' (dr_ID d))) (drop 1 (db_drs w')) = [(AggPending, [])]"
    by (cases "run_state ?m demo_vc_world") (auto simp: isl_def)
  from r(3) obtain d where d: "drop 1 (db_drs w') = [d]" "dr_AggregateStatus d = AggPending" "ops_of w' (dr_ID d) = []"
    by auto
  have "db_drs w' = db_drs demo_vc_world @ [d]" using r(2) d(1) by (metis append_take_drop_id)
  with r(1) d(2,3) show ?thesis by blast
qed

section \<open>The whitelist\<close>

definition included_row :: "string \<Rightarrow> IncludedPackageInput \<Rightarrow> VersionCompareIncludedPackage \<Rightarrow> bool" where
  "included_row user input row \<longleftrightarrow> ip_PackageID row = in_PackageID input \<and>
     ip_Description row = in_Description input \<and> ip_CreatedBy row = user"

lemma UpdateIncludedPackages_wp:
  "wp (UpdateIncludedPackages inputs user) (\<lambda>r w'. case r of
       Inl e \<Rightarrow> \<exists>fs n. w' = w\<lparr>faults := fs, next_id := n\<rparr>
     | Inr rows \<Rightarrow> db_included w' = rows \<and> list_all2 (included_row user) inputs rows \<and> distinct (map ip_PackageID rows)) w"
proof -
  let ?Q = "\<lambda>(r :: gerr + VersionCompareIncludedPackage list) (w1 :: world). case r of Inl _ \<Rightarrow> True | Inr rows \<Rightarrow> (\<forall>fs. db_included (w1\<lparr>faults := fs\<rparr>) = rows \<and>
     list_all2 (included_row user) inputs rows \<and> distinct (map ip_PackageID rows))"
  let ?I = "\<lambda>seen rows (w1 :: world). db_included w1 = rows \<and> list_all2 (included_row user) seen rows \<and> distinct (map ip_PackageID rows)"
  have body: "wp (loopE (insert_included user) inputs []) ?Q (w\<lparr>faults := fs', db_included := []\<rparr>)" for fs'
  proof (rule wp_loopE [where I = ?I])
    fix x seen rows w1 assume i: "?I seen rows w1"
    show "wp (insert_included user x rows) (\<lambda>r w'. case r of Inl e \<Rightarrow> ?Q (Inl e) w' | Inr s' \<Rightarrow> ?I (seen @ [x]) s' w') w1"
      unfolding insert_included_def wp_onerr
      by (rule included_table.wp_create_unique)
        (use i in \<open>auto simp: wp_return included_row_def intro!: list_all2_appendI\<close>)
  qed simp_all
  have "wp (onerr clear_included (Errw ''failed to clear included packages: %w'' [])
       (\<lambda>_. loopE (insert_included user) inputs [])) ?Q (w\<lparr>faults := fs\<rparr>)" for fs
    unfolding clear_included_def wp_onerr by (rule wp_stmt) (use body in \<open>auto simp: wp_return\<close>)
  then show ?thesis
    unfolding UpdateIncludedPackages_def by (intro wp_transaction; unfold sum.case) blast+
qed

text \<open>Replacing the whitelist is all or nothing: on any error, a repeated package id among them, the
  tables are what they were; otherwise the whitelist is the given packages in their order, each once.\<close>

theorem UpdateIncludedPackages_atomic:
  assumes "run_state (UpdateIncludedPackages inputs user) w = (r, w')"
  shows "case r of
      Inl e \<Rightarrow> \<exists>fs n. w' = w\<lparr>faults := fs, next_id := n\<rparr>
    | Inr rows \<Rightarrow> db_included w' = rows \<and> list_all2 (included_row user) inputs rows \<and> distinct (map ip_PackageID rows)"
  using wp_run [OF UpdateIncludedPackages_wp assms] .

theorem UpdateIncludedPackages_atomic_witness:
  "map ip_PackageID (db_included (snd (run_state (UpdateIncludedPackages
     [\<lparr>in_PackageID = ''a'', in_Description = ''x''\<rparr>] ''ann'') demo_world))) = [''a'']"
proof -
  let ?m = "UpdateIncludedPackages [\<lparr>in_PackageID = ''a'', in_Description = ''x''\<rparr>] ''ann''"
  have "\<not> isl (fst (run_state ?m demo_world))" by code_simp
  then obtain rows where r: "fst (run_state ?m demo_world) = Inr rows" by (metis isl_def sum.exhaust)
  from UpdateIncludedPackages_atomic [OF run_split, of "[\<lparr>in_PackageID = ''a'', in_Description = ''x''\<rparr>]" "''ann''" demo_world]
  show ?thesis unfolding r by (auto simp: included_row_def list_all2_Cons1 split: sum.splits)
qed

section \<open>The cooldown of ad-hoc comparisons\<close>

lemma AdhocVersionCompare_wp:
  "wp (AdhocVersionCompare env arrival ids) (\<lambda>r w'. clock w' = clock w \<and>
     (if \<exists>t. adhocLastRun w = Some t \<and> clock w - t < AdhocCooldown
      then r = Inl (Errf ''rate_limited'' []) \<and> w' = w
      else adhocLastRun w' = Some (clock w))) w"
proof (cases "\<exists>t. adhocLastRun w = Some t \<and> clock w - t < AdhocCooldown")
  case True
  then show ?thesis by (auto simp: AdhocVersionCompare_def wp_simps)
next
  case False
  then have n: "\<not> (case adhocLastRun w of None \<Rightarrow> False | Some t \<Rightarrow> clock w - t < AdhocCooldown)"
    by (auto split: option.splits)
  show ?thesis
    unfolding if_not_P [OF False] AdhocVersionCompare_def wp_bind wp_gets if_not_P [OF n] set_adhocLastRun_def
      wp_modify wp_onerr
    apply (rule tenants_table.wp_find)
    subgoal by (simp add: wp_return)
    subgoal by (auto simp: wp_simps Let_def split: sum.split)
    done
qed

text \<open>Of all calls of the service, at most one in five minutes gets to compare tenants ad hoc: after one
  that was let through every call before the end of the cooldown is refused and changes nothing,
  also when the first one failed (because it named unknown tenants, say) and compared nothing.\<close>

theorem AdhocVersionCompare_cooldown:
  assumes "run_state (AdhocVersionCompare env arrival ids) w = (r, w1)" and "r \<noteq> Inl (Errf ''rate_limited'' [])"
    and "adhocLastRun w2 = adhocLastRun w1" and "clock w2 - clock w < AdhocCooldown"
  shows "run_state (AdhocVersionCompare env' arrival' ids') w2 = (Inl (Errf ''rate_limited'' []), w2)"
proof -
  have "adhocLastRun w2 = Some (clock w)"
    using wp_run [OF AdhocVersionCompare_wp assms(1)] assms(2,3) by (auto split: if_splits)
  then have t: "\<exists>t. adhocLastRun w2 = Some t \<and> clock w2 - t < AdhocCooldown" using assms(4) by blast
  obtain r2 w3 where r: "run_state (AdhocVersionCompare env' arrival' ids') w2 = (r2, w3)" by fastforce
  from wp_run [OF AdhocVersionCompare_wp r] show ?thesis unfolding if_P [OF t] r by simp
qed

theorem AdhocVersionCompare_cooldown_witness:
  "run_state (AdhocVersionCompare demo_env id [1, 2])
     (snd (run_state (AdhocVersionCompare demo_env id [77, 78]) demo_world)) =
     (Inl (Errf ''rate_limited'' []), snd (run_state (AdhocVersionCompare demo_env id [77, 78]) demo_world))"
proof -
  let ?m = "AdhocVersionCompare demo_env id [77, 78]"
  have e: "case fst (run_state ?m demo_world) of Inl (Errf f _) \<Rightarrow> f \<noteq> ''rate_limited'' | _ \<Rightarrow> False"
    and c: "clock (snd (run_state ?m demo_world)) - clock demo_world = 0" by code_simp+
  have "fst (run_state ?m demo_world) \<noteq> Inl (Errf ''rate_limited'' [])" using e by auto
  moreover have "clock (snd (run_state ?m demo_world)) - clock demo_world < AdhocCooldown"
    unfolding c AdhocCooldown_def by simp
  ultimately show ?thesis by (intro AdhocVersionCompare_cooldown [OF run_split _ refl])
qed

end
