(* ===== verification/TrGen.thy ===== *)
theory TrGen
  imports Status
begin

text \<open>
  service/tr_resolver.go: generating one transport request per artifact operation through the CAS
  export interface. The exports run concurrently and their results arrive in any order, so the
  order is a parameter. The polling loop of an export ends when CAS answers or its deadline has
  passed; time is the environment's, so not ending is a possible result.
\<close>

section \<open>acquireTenantForTR\<close>

fun prereq_str :: "PrerequisiteStatus \<Rightarrow> string" where
  "prereq_str PrereqUnset = []"
| "prereq_str PrereqMissing = ''missing''"
| "prereq_str PrereqReady = ''ready''"
| "prereq_str PrereqFailed = ''failed''"
| "prereq_str PrereqRegistering = ''registering''"

definition acquireTenantForTR :: "nat \<Rightarrow> (gerr + CpiTenant) prog" where
  "acquireTenantForTR tenantID =
     (let gate = Errw ''GenerateTransportRequest: readiness gate: %w'' [] in
      onerr (db_first db_tenants (\<lambda>t. tn_ID t = tenantID))
        (\<lambda>e. gate (Errw ''load tenant %d: %w'' [Num tenantID] e)) (\<lambda>tenant.
      if tn_LifecycleState tenant \<noteq> TenantReady then
        failwith (gate (Errf ''tenant %d lifecycleState=%q, must be ready''
          [Num tenantID, Str (tenant_state_str (tn_LifecycleState tenant))]))
      else if tn_TmsNodeRegistrationStatus tenant \<noteq> PrereqReady then
        failwith (gate (Errf ''tenant %d tmsNodeRegistrationStatus=%q, must be ready''
          [Num tenantID, Str (prereq_str (tn_TmsNodeRegistrationStatus tenant))]))
      else if tn_TmsSourceNodeName tenant = '''' \<or> tn_TmsSourceNodeID tenant = 0 then
        failwith (gate (Errf ''tenant %d has no TmsSourceNodeName or TmsSourceNodeID'' [Num tenantID]))
      else done_with tenant))"

section \<open>ensureCasGUIDs\<close>

type_synonym cas_entry = "CatalogComponent \<times> CatalogContentResource"

definition cas_key :: "string \<Rightarrow> string \<Rightarrow> string" where
  "cas_key packageID name = packageID @ ''::'' @ name"

definition op_key :: "ArtifactTenantOperation \<Rightarrow> string" where
  "op_key op = cas_key (op_PackageID op) (op_ArtifactName op)"

definition affected_packages :: "ArtifactTenantOperation list \<Rightarrow> string list" where
  "affected_packages os =
     fold (\<lambda>op seen. if op_PackageID op \<noteq> '''' \<and> op_PackageID op \<notin> set seen
                     then seen @ [op_PackageID op] else seen) os []"

definition em_dash :: string where
  "em_dash = [CHR 0xE2, CHR 0x80, CHR 0x94]"

fun index_components ::
  "string list \<Rightarrow> CatalogContentResource \<Rightarrow> CatalogComponent list \<Rightarrow> (string \<rightharpoonup> cas_entry) \<Rightarrow>
   gerr + (string \<rightharpoonup> cas_entry)" where
  "index_components needed res [] idx = ok idx"
| "index_components needed res (c # cs) idx =
     (let key = cas_key (cr_ID res) (cc_Name c) in
      if key \<notin> set needed then index_components needed res cs idx
      else if idx key \<noteq> None then
        err (Errf (''ambiguous artifact %q in package %q: multiple components share the same display name ''
            @ em_dash @ '' rename to unique names within the package'') [Str (cc_Name c), Str (cr_ID res)])
      else index_components needed res cs (idx(key \<mapsto> (c, res))))"

fun index_catalog ::
  "string list \<Rightarrow> CatalogContentResource list \<Rightarrow> (string \<rightharpoonup> cas_entry) \<Rightarrow> gerr + (string \<rightharpoonup> cas_entry)" where
  "index_catalog needed [] idx = ok idx"
| "index_catalog needed (res # catalog) idx =
     (if cr_SubType res \<noteq> ''package'' then index_catalog needed catalog idx
      else case index_components needed res (cr_Components res) idx of
        Inl e \<Rightarrow> err e
      | Inr idx' \<Rightarrow> index_catalog needed catalog idx')"

definition with_guid :: "cas_entry \<Rightarrow> ArtifactTenantOperation \<Rightarrow> ArtifactTenantOperation" where
  "with_guid = (\<lambda>(c, pkg) op.
     op\<lparr>op_CasArtifactGUID := cc_ID c, op_CasPackageResourceID := cr_ResourceID pkg,
        op_CasArtifactExportable := cc_Exportable c, op_PackageName := cr_Name pkg,
        op_PackageVersion := cr_Version pkg\<rparr>)"

text \<open>The operations with their cache fields, persisted one by one.\<close>

definition persist_guid ::
  "(string \<rightharpoonup> cas_entry) \<Rightarrow> ArtifactTenantOperation \<Rightarrow> ArtifactTenantOperation list \<Rightarrow>
   (gerr + ArtifactTenantOperation list) prog" where
  "persist_guid idx op ops' =
     (case idx (op_key op) of
        None \<Rightarrow> failwith (Errf ''artifact %q (techID=%q) not found in CAS catalog''
                 [Str (op_ArtifactName op), Str (op_ArtifactTechID op)])
      | Some e \<Rightarrow>
          onerr (db_update db_ops_update (\<lambda>x. op_ID x = op_ID op) (with_guid e))
            (Errw ''persist CAS GUIDs for op %d: %w'' [Num (op_ID op)])
            (\<lambda>_. done_with (ops' @ [with_guid e op])))"

definition ensureCasGUIDs ::
  "env \<Rightarrow> nat \<Rightarrow> ArtifactTenantOperation list \<Rightarrow> (gerr + ArtifactTenantOperation list) prog" where
  "ensureCasGUIDs env tenantID os =
     (if list_all (\<lambda>op. op_CasArtifactGUID op \<noteq> '''') os then done_with os
      else case ListCloudIntegrationResources env tenantID (affected_packages os) of
        Inl e \<Rightarrow> failwith (Errw ''fetch CAS catalog: %w'' [] e)
      | Inr catalog \<Rightarrow>
          (case index_catalog (map op_key os) catalog Map.empty of
             Inl e \<Rightarrow> failwith e
           | Inr idx \<Rightarrow> loopE (persist_guid idx) os []))"

section \<open>exportOneTR\<close>

record TransportRequest =
  gen_ID :: string
  gen_URL :: string

definition export_request ::
  "CpiTenant \<Rightarrow> DeliveryRequest \<Rightarrow> ArtifactTenantOperation \<Rightarrow> string \<Rightarrow> ExportRequest" where
  "export_request tenant dr op requester =
    \<lparr>ex_ID = show_nat (op_ID op),
     ex_Description = Errf ''DR#%d - %s %s - Requested by: %s''
       [Num (dr_ID dr), Str (op_ArtifactName op), Str (op_ArtifactVersion op), Str requester],
     ex_SourceNode = tn_TmsSourceNodeName tenant, ex_PackageID = op_PackageID op,
     ex_PackageResourceID = op_CasPackageResourceID op, ex_PackageName = op_PackageName op,
     ex_PackageVersion = op_PackageVersion op, ex_ComponentID = op_CasArtifactGUID op,
     ex_ComponentName = op_ArtifactName op, ex_ComponentType = op_ArtifactType op,
     ex_ComponentVersion = op_ArtifactVersion op,
     ex_ComponentExportable = op_CasArtifactExportable op\<rparr>"

definition casExportTimeout :: nat where
  "casExportTimeout = 180"

definition casExportPollInterval :: nat where
  "casExportPollInterval = 3"

definition finished_export :: "env \<Rightarrow> string \<Rightarrow> string \<Rightarrow> gerr + TransportRequest" where
  "finished_export env techID processID =
     (case GetOperationConfig env processID of
        Inl e \<Rightarrow> err (Errw ''get operation config %s (artifact=%q): %w'' [Str processID, Str techID] e)
      | Inr (trID, trURL) \<Rightarrow>
          if trID = '''' then
            err (Errf ''missing transportRequestID in config (artifact=%q, processId=%s)'' [Str techID, Str processID])
          else ok \<lparr>gen_ID = trID, gen_URL = trURL\<rparr>)"

text \<open>The polling loop from poll n on; the context of an export is never canceled.\<close>

partial_function (option) poll_export ::
  "env \<Rightarrow> string \<Rightarrow> string \<Rightarrow> nat \<Rightarrow> (gerr + TransportRequest) option" where
  "poll_export env techID processID n =
     (if PollTime env processID n > casExportTimeout then
        Some (err (Errf ''CAS export timed out after %v (artifact=%q, processId=%s)''
          [Str ''3m0s'', Str techID, Str processID]))
      else case PollOperation env processID n of
        Inl e \<Rightarrow> Some (err (Errw ''poll operation %s (artifact=%q): %w'' [Str processID, Str techID] e))
      | Inr state \<Rightarrow>
          if state = ''FINISHED'' then Some (finished_export env techID processID)
          else if state = ''FAILED'' then
            Some (err (Errf ''CAS export FAILED (artifact=%q, processId=%s)'' [Str techID, Str processID]))
          else poll_export env techID processID (Suc n))"

declare poll_export.simps [code]

definition exportOneTR ::
  "env \<Rightarrow> CpiTenant \<Rightarrow> DeliveryRequest \<Rightarrow> ArtifactTenantOperation \<Rightarrow> string \<Rightarrow>
   (gerr + TransportRequest) option" where
  "exportOneTR env tenant dr op requester =
     (let techID = op_ArtifactTechID op in
      if techID = '''' then Some (err (Errf ''operation %d has no ArtifactTechID'' [Num (op_ID op)]))
      else if op_CasArtifactGUID op = '''' then
        Some (err (Errf ''operation %d has no CasArtifactGUID (ensureCasGUIDs must be called first)'' [Num (op_ID op)]))
      else case TriggerExport env (export_request tenant dr op requester) of
        Inl e \<Rightarrow> Some (err (Errw ''trigger export for artifact %q: %w'' [Str techID] e))
      | Inr processID \<Rightarrow> poll_export env techID processID 0)"

section \<open>GenerateTransportRequest\<close>

definition set_generating :: "nat list \<Rightarrow> (gerr + unit) prog" where
  "set_generating ids =
     db_update db_ops_update (\<lambda>x. op_ID x \<in> set ids)
       (\<lambda>x. x\<lparr>op_RequestState := RequestTrGenerating, op_TrError := ''''\<rparr>)"

definition set_tr_failed :: "nat list \<Rightarrow> gerr \<Rightarrow> (gerr + unit) prog" where
  "set_tr_failed ids e =
     db_update db_ops_update (\<lambda>x. op_ID x \<in> set ids)
       (\<lambda>x. x\<lparr>op_RequestState := RequestTrFailed, op_TrError := err_text e\<rparr>)"

definition write_back :: "nat \<Rightarrow> string \<Rightarrow> (gerr + unit) prog" where
  "write_back i trID =
     db_update db_ops_update (\<lambda>x. op_ID x = i)
       (\<lambda>x. x\<lparr>op_TransportRequestNumber := trID, op_RequestState := RequestPending, op_TrError := ''''\<rparr>)"

text \<open>The outcome: a fatal error, or what succeeded and what failed; None when an export never
  returns.\<close>

type_synonym gen_outcome =
  "(gerr + (nat \<times> TransportRequest) list \<times> (nat \<times> gerr) list) option"

definition fatalf :: "nat \<Rightarrow> nat list \<Rightarrow> gerr \<Rightarrow> gen_outcome prog" where
  "fatalf drID ids e = do {
     _ \<leftarrow> BatchInsertConditions [dr_condition drID CondError (Errf ''TR generation failed: %s'' [Verb e])];
     _ \<leftarrow> set_tr_failed ids e;
     _ \<leftarrow> NotifyDrUpdated drID;
     State_Monad.return (Some (Inl e))
   }"

text \<open>One received result.\<close>

definition receive_result ::
  "nat \<Rightarrow> (ArtifactTenantOperation \<Rightarrow> (gerr + TransportRequest) option) \<Rightarrow> ArtifactTenantOperation \<Rightarrow>
   (nat \<times> TransportRequest) list \<times> (nat \<times> gerr) list \<Rightarrow>
   (unit + (nat \<times> TransportRequest) list \<times> (nat \<times> gerr) list) prog" where
  "receive_result drID export op = (\<lambda>(succeeded, failed).
     case export op of
       None \<Rightarrow> failwith ()
     | Some (Inl e) \<Rightarrow> do {
         _ \<leftarrow> set_tr_failed [op_ID op] e;
         _ \<leftarrow> BatchInsertConditions [dr_condition drID CondError
                (Errf ''TR generation failed for %s %s: %s'' [Str (op_ArtifactName op), Str (op_ArtifactVersion op), Verb e])];
         done_with (succeeded, map_put (op_ID op) e failed)
       }
     | Some (Inr tr) \<Rightarrow> do {
         r \<leftarrow> write_back (op_ID op) (gen_ID tr);
         case r of
           Inl dbErr \<Rightarrow> done_with (succeeded, map_put (op_ID op)
             (Errw ''TR %s created in TMS but write-back failed: %w'' [Str (gen_ID tr)] dbErr) failed)
         | Inr _ \<Rightarrow> do {
             _ \<leftarrow> BatchInsertConditions [dr_condition drID CondSuccess
                    (Errf ''TR %s created for %s %s'' [Str (gen_ID tr), Str (op_ArtifactName op), Str (op_ArtifactVersion op)])];
             done_with (map_put (op_ID op) tr succeeded, failed)
           }
       })"

definition tr_ops :: "nat list \<Rightarrow> nat \<Rightarrow> nat \<Rightarrow> ArtifactTenantOperation \<Rightarrow> bool" where
  "tr_ops ids drID tenantID op \<longleftrightarrow>
     op_ID op \<in> set ids \<and> op_DeliveryRequestID op = drID \<and> op_TenantID op = tenantID"

definition GenerateTransportRequest ::
  "env \<Rightarrow> (ArtifactTenantOperation list \<Rightarrow> ArtifactTenantOperation list) \<Rightarrow> nat \<Rightarrow> nat \<Rightarrow> nat list \<Rightarrow>
   gen_outcome prog" where
  "GenerateTransportRequest env arrival tenantID drID ids = do {
     _ \<leftarrow> set_generating ids;
     t \<leftarrow> acquireTenantForTR tenantID;
     case t of
       Inl e \<Rightarrow> fatalf drID ids e
     | Inr tenant \<Rightarrow> do {
     d \<leftarrow> db_first db_drs (\<lambda>d. dr_ID d = drID);
     case d of
       Inl e \<Rightarrow> fatalf drID ids (Errw ''GenerateTransportRequest: load delivery request %d: %w'' [Num drID] e)
     | Inr dr \<Rightarrow> do {
     let requester = (case GetUserEmail env (dr_CreatedBy dr) of Inl _ \<Rightarrow> dr_CreatedBy dr | Inr mail \<Rightarrow> mail);
     s \<leftarrow> db_find db_ops (tr_ops ids drID tenantID);
     case s of
       Inl e \<Rightarrow> fatalf drID ids (Errw ''GenerateTransportRequest: load operations: %w'' [] e)
     | Inr os \<Rightarrow>
         if os = [] then
           fatalf drID ids (Errf ''GenerateTransportRequest: no matching operations for tenant %d, DR %d'' [Num tenantID, Num drID])
         else case CAS env tenantID of
           Inl e \<Rightarrow> fatalf drID ids (Errw ''GenerateTransportRequest: build CAS client: %w'' [] e)
         | Inr _ \<Rightarrow> do {
             g \<leftarrow> ensureCasGUIDs env tenantID os;
             case g of
               Inl e \<Rightarrow> fatalf drID ids (Errw ''GenerateTransportRequest: GUID cache: %w'' [] e)
             | Inr ops1 \<Rightarrow> do {
                 r \<leftarrow> loopE (receive_result drID (\<lambda>op. exportOneTR env tenant dr op requester)) (arrival ops1) ([], []);
                 case r of
                   Inl _ \<Rightarrow> State_Monad.return None
                 | Inr (succeeded, failed) \<Rightarrow> do {
                     _ \<leftarrow> NotifyDrUpdated drID;
                     State_Monad.return (Some (Inr (succeeded, failed)))
                   }
               }
           }
     } } }"

section \<open>HandleGenTR\<close>

text \<open>url.PathUnescape: percent escapes become bytes, a malformed escape is an error.\<close>

definition hex_val :: "char \<Rightarrow> nat option" where
  "hex_val c = (let n = (of_char c :: nat) in
     if 48 \<le> n \<and> n \<le> 57 then Some (n - 48)
     else if 65 \<le> n \<and> n \<le> 70 then Some (n - 55)
     else if 97 \<le> n \<and> n \<le> 102 then Some (n - 87) else None)"

fun PathUnescape :: "string \<Rightarrow> string option" where
  "PathUnescape [] = Some []"
| "PathUnescape (c # s) =
     (if c = CHR ''%'' then
        (case s of
           a # b # r \<Rightarrow>
             (case (hex_val a, hex_val b) of
                (Some x, Some y) \<Rightarrow> map_option (Cons (char_of (16 * x + y))) (PathUnescape r)
              | _ \<Rightarrow> None)
         | _ \<Rightarrow> None)
      else map_option (Cons c) (PathUnescape s))"

text \<open>The result of PathUnescape with its error dropped: the empty string.\<close>

definition decodedURL :: "string \<Rightarrow> string" where
  "decodedURL u = (case PathUnescape u of None \<Rightarrow> [] | Some v \<Rightarrow> v)"

definition parseTenantID :: "string \<Rightarrow> http + nat" where
  "parseTenantID idStr =
     (case Atoi idStr of
        None \<Rightarrow> err (400, Errf ''invalid tenant id'' [])
      | Some i \<Rightarrow> if i \<le> 0 then err (400, Errf ''invalid tenant id'' []) else ok (nat i))"

text \<open>The body's list is None when it is absent or null.\<close>

definition HandleGenTR ::
  "env \<Rightarrow> (ArtifactTenantOperation list \<Rightarrow> ArtifactTenantOperation list) \<Rightarrow> string \<Rightarrow> nat \<Rightarrow> nat list option \<Rightarrow>
   (http + (string \<times> string \<times> string) list \<times> (string \<times> string) list) option prog" where
  "HandleGenTR env arrival idStr drID ids =
     (case parseTenantID idStr of
        Inl e \<Rightarrow> State_Monad.return (Some (Inl e))
      | Inr tenantID \<Rightarrow>
          if drID = 0 \<or> ids = None then
            State_Monad.return (Some (Inl (400, Errf ''deliveryRequestID and artifactOperationIDs are required'' [])))
          else if the ids = [] then
            State_Monad.return (Some (Inl (400, Errf ''artifactOperationIDs must not be empty'' [])))
          else do {
            r \<leftarrow> GenerateTransportRequest env arrival tenantID drID (the ids);
            State_Monad.return (case r of
              None \<Rightarrow> None
            | Some (Inl fatalErr) \<Rightarrow> Some (Inl (500, fatalErr))
            | Some (Inr (succeeded, failed)) \<Rightarrow>
                Some (Inr (map (\<lambda>(opID, tr). (show_nat opID, gen_ID tr, decodedURL (gen_URL tr))) succeeded,
                           map (\<lambda>(opID, e). (show_nat opID, err_text e)) failed)))
          })"

section \<open>Termination of an export\<close>

lemma poll_export_ends:
  assumes time: "\<And>k. casExportPollInterval * k \<le> PollTime env pid k"
  shows "\<exists>r. poll_export env t pid n = Some r"
proof (induction "casExportTimeout + 1 - casExportPollInterval * n" arbitrary: n rule: less_induct)
  case less
  show ?case
  proof (cases "PollTime env pid n > casExportTimeout")
    case True
    then show ?thesis by (subst poll_export.simps) simp
  next
    case False
    then have "casExportTimeout + 1 - casExportPollInterval * Suc n < casExportTimeout + 1 - casExportPollInterval * n"
      using time [of n] by (simp add: casExportPollInterval_def)
    from less [OF this] show ?thesis
      using False by (subst poll_export.simps) (auto split: sum.split)
  qed
qed

section \<open>Rows under a generation\<close>

definition rows_rel ::
  "(ArtifactTenantOperation \<Rightarrow> ArtifactTenantOperation \<Rightarrow> bool) \<Rightarrow>
   ArtifactTenantOperation list \<Rightarrow> ArtifactTenantOperation list \<Rightarrow> bool" where
  "rows_rel P = list_all2 (\<lambda>x y. op_ID y = op_ID x \<and> op_DeliveryRequestID y = op_DeliveryRequestID x \<and>
     op_TenantID y = op_TenantID x \<and> P x y)"

lemma rows_rel_update:
  assumes "rows_rel P xs ys"
    and "\<And>x y. \<lbrakk>P x y; op_ID y = op_ID x\<rbrakk> \<Longrightarrow> (if c y then P' x (f y) else P' x y)"
    and "\<And>y. op_ID (f y) = op_ID y \<and> op_DeliveryRequestID (f y) = op_DeliveryRequestID y \<and> op_TenantID (f y) = op_TenantID y"
  shows "rows_rel P' xs (upd_where c f ys)"
  unfolding rows_rel_def upd_where_def list_all2_map2
  by (rule list_all2_mono [OF assms(1) [unfolded rows_rel_def]])
    (use assms(2,3) in \<open>auto split: if_splits\<close>)

lemma rows_rel_mono: "\<lbrakk>rows_rel P xs ys; \<And>x y. \<lbrakk>P x y; op_ID y = op_ID x\<rbrakk> \<Longrightarrow> P' x y\<rbrakk> \<Longrightarrow> rows_rel P' xs ys"
  unfolding rows_rel_def by (erule list_all2_mono) auto

lemma rows_rel_ids: "rows_rel P xs ys \<Longrightarrow> map op_ID ys = map op_ID xs"
  unfolding rows_rel_def by (induction rule: list_all2_induct) auto

lemma rows_rel_selected:
  "rows_rel P xs ys \<Longrightarrow> map op_ID (filter (tr_ops is d t) ys) = map op_ID (filter (tr_ops is d t) xs)"
  unfolding rows_rel_def by (induction rule: list_all2_induct) (auto simp: tr_ops_def)

text \<open>Statements of a database that answers.\<close>

definition calm :: "world \<Rightarrow> world \<Rightarrow> bool" where
  "calm w w' \<longleftrightarrow> faults w' = [] \<and> db_ops w' = db_ops w"

lemma wp_calm_conditions: "faults w = [] \<Longrightarrow> wp (BatchInsertConditions cs) (\<lambda>r w'. calm w w') w"
  unfolding BatchInsertConditions_def create_conditions_def db_create_def wp_if wp_onerr
  by (auto simp: wp_return wp_stmt_ok calm_def Let_def split: prod.split sum.split)

lemma wp_update_ok:
  "faults w = [] \<Longrightarrow> wp (db_update db_ops_update P f) Q w = Q (Inr ()) (db_ops_update (upd_where P f) w)"
  by (simp add: wp_run_state ops_table.update_ok)

definition gen_rows ::
  "nat list \<Rightarrow> (ArtifactTenantOperation \<Rightarrow> ArtifactTenantOperation \<Rightarrow> bool) \<Rightarrow>
   ArtifactTenantOperation list \<Rightarrow> world \<Rightarrow> bool" where
  "gen_rows ids P rows0 w \<longleftrightarrow> faults w = [] \<and>
     rows_rel (\<lambda>x y. if op_ID x \<in> set ids then P x y else y = x) rows0 (db_ops w)"

abbreviation generating :: "ArtifactTenantOperation \<Rightarrow> ArtifactTenantOperation \<Rightarrow> bool" where
  "generating \<equiv> \<lambda>x y. op_RequestState y = RequestTrGenerating"

lemma gen_rows_start:
  assumes "faults w = []"
  shows "wp (set_generating ids) (\<lambda>r w'. gen_rows ids generating (db_ops w) w' \<and>
     db_tenants w' = db_tenants w \<and> db_drs w' = db_drs w) w"
proof -
  have "rows_rel (=) (db_ops w) (db_ops w)" by (simp add: rows_rel_def list_all2_refl)
  then show ?thesis
    unfolding set_generating_def wp_update_ok [OF assms] gen_rows_def
    using assms by (auto intro!: rows_rel_update)
qed

lemma gen_rows_update:
  assumes g: "gen_rows ids P rows0 w" and i: "i \<in> set ids"
    and step: "\<And>x y. \<lbrakk>P x y; op_ID y = op_ID x\<rbrakk> \<Longrightarrow> if op_ID x = i then P' x (f y) else P' x y"
    and keep: "\<And>y. op_ID (f y) = op_ID y \<and> op_DeliveryRequestID (f y) = op_DeliveryRequestID y \<and> op_TenantID (f y) = op_TenantID y"
  shows "gen_rows ids P' rows0 (db_ops_update (upd_where (\<lambda>x. op_ID x = i) f) w)"
proof -
  have "rows_rel (\<lambda>x y. if op_ID x \<in> set ids then P' x y else y = x) rows0 (upd_where (\<lambda>x. op_ID x = i) f (db_ops w))"
  proof (rule rows_rel_update)
    show "rows_rel (\<lambda>x y. if op_ID x \<in> set ids then P x y else y = x) rows0 (db_ops w)"
      using g by (simp add: gen_rows_def)
    fix x y
    assume "if op_ID x \<in> set ids then P x y else y = x" "op_ID y = op_ID x"
    then show "if op_ID y = i then if op_ID x \<in> set ids then P' x (f y) else f y = x
        else if op_ID x \<in> set ids then P' x y else y = x"
      using step [of x y] i by (cases "op_ID x \<in> set ids"; cases "op_ID x = i") simp_all
  qed (rule keep)
  then show ?thesis using g by (simp add: gen_rows_def)
qed

lemma fatalf_rows:
  assumes "gen_rows ids P rows0 w"
  shows "wp (fatalf drID ids e) (\<lambda>r w'. r = Some (Inl e) \<and>
     gen_rows ids (\<lambda>x y. op_RequestState y = RequestTrFailed \<and> op_TrError y = err_text e) rows0 w') w"
proof -
  have f: "faults w = []" using assms by (simp add: gen_rows_def)
  show ?thesis
    unfolding fatalf_def wp_bind
    apply (rule wp_mono [OF wp_calm_conditions [OF f]])
    subgoal premises c for r w1
    proof -
      have f1: "faults w1 = []" and rows: "db_ops w1 = db_ops w" using c by (simp_all add: calm_def)
      show ?thesis
        unfolding set_tr_failed_def wp_update_ok [OF f1]
        using assms f1 rows
        by (auto simp: wp_simps gen_rows_def intro!: rows_rel_update)
    qed
    done
qed

lemma ensure_rows:
  assumes "gen_rows ids generating rows0 w" and "\<forall>op\<in>set os. op_ID op \<in> set ids"
  shows "wp (ensureCasGUIDs env t os) (\<lambda>r w'. gen_rows ids generating rows0 w' \<and>
     (\<forall>os'. r = Inr os' \<longrightarrow> map op_ID os' = map op_ID os)) w"
proof -
  have step: "wp (persist_guid idx op acc) (\<lambda>r w'. gen_rows ids generating rows0 w' \<and>
       (\<forall>acc'. r = Inr acc' \<longrightarrow> map op_ID acc' = map op_ID acc @ [op_ID op])) v"
    if v: "gen_rows ids generating rows0 v" and op: "op_ID op \<in> set ids" for idx op acc v
  proof (cases "idx (op_key op)")
    case (Some e)
    have f: "faults v = []" using v by (simp add: gen_rows_def)
    have keep: "op_ID (with_guid e y) = op_ID y" "op_DeliveryRequestID (with_guid e y) = op_DeliveryRequestID y"
        "op_TenantID (with_guid e y) = op_TenantID y" "op_RequestState (with_guid e y) = op_RequestState y" for y
      by (cases e; simp add: with_guid_def)+
    have "gen_rows ids generating rows0 (db_ops_update (upd_where (\<lambda>x. op_ID x = op_ID op) (with_guid e)) v)"
      by (rule gen_rows_update [OF v op]) (simp_all add: keep)
    then show ?thesis
      unfolding persist_guid_def Some option.case wp_onerr wp_update_ok [OF f]
      by (simp add: wp_return keep)
  qed (use v in \<open>simp add: persist_guid_def wp_return\<close>)
  have loop: "wp (loopE (persist_guid idx) os []) (\<lambda>r w'. gen_rows ids generating rows0 w' \<and>
     (\<forall>os'. r = Inr os' \<longrightarrow> map op_ID os' = map op_ID os)) w" for idx
  proof (rule wp_loopE [where I = "\<lambda>seen acc w'. gen_rows ids generating rows0 w' \<and> map op_ID acc = map op_ID seen"])
    fix op :: ArtifactTenantOperation and seen acc :: "ArtifactTenantOperation list" and v
    assume "gen_rows ids generating rows0 v \<and> map op_ID acc = map op_ID seen" "op \<in> set os"
    note I = this
    show "wp (persist_guid idx op acc) (\<lambda>r w'. case r of
        Inl e \<Rightarrow> gen_rows ids generating rows0 w' \<and> (\<forall>os'. Inl e = Inr os' \<longrightarrow> map op_ID os' = map op_ID os)
      | Inr s' \<Rightarrow> gen_rows ids generating rows0 w' \<and> map op_ID s' = map op_ID (seen @ [op])) v"
    proof (rule wp_mono [OF step])
      show "gen_rows ids generating rows0 v" "op_ID op \<in> set ids" using I assms(2) by simp_all
      show "case r of
        Inl e \<Rightarrow> gen_rows ids generating rows0 w' \<and> (\<forall>os'. Inl e = Inr os' \<longrightarrow> map op_ID os' = map op_ID os)
      | Inr s' \<Rightarrow> gen_rows ids generating rows0 w' \<and> map op_ID s' = map op_ID (seen @ [op])"
        if "gen_rows ids generating rows0 w' \<and> (\<forall>acc'. r = Inr acc' \<longrightarrow> map op_ID acc' = map op_ID acc @ [op_ID op])"
        for r :: "gerr + ArtifactTenantOperation list" and w'
        using that I by (cases r) simp_all
    qed
  qed (use assms(1) in simp_all)
  show ?thesis
    unfolding ensureCasGUIDs_def wp_if wp_return wp_sum
    using assms(1) loop by (cases "ListCloudIntegrationResources env t (affected_packages os)") (simp_all split: sum.split)
qed

text \<open>What the results received so far say of an operation.\<close>

definition result_of ::
  "(nat \<times> TransportRequest) list \<Rightarrow> (nat \<times> gerr) list \<Rightarrow> ArtifactTenantOperation \<Rightarrow> ArtifactTenantOperation \<Rightarrow> bool" where
  "result_of succeeded failed x y \<longleftrightarrow>
     (case map_of succeeded (op_ID x) of
        Some tr \<Rightarrow> op_RequestState y = RequestPending \<and> op_TransportRequestNumber y = gen_ID tr \<and> op_TrError y = [] \<and>
                   map_of failed (op_ID x) = None
      | None \<Rightarrow> op_RequestState y = RequestTrFailed \<and>
                (\<exists>e. map_of failed (op_ID x) = Some e \<and> op_TrError y = err_text e))"

definition received ::
  "nat list \<Rightarrow> (nat \<times> TransportRequest) list \<times> (nat \<times> gerr) list \<Rightarrow>
   ArtifactTenantOperation \<Rightarrow> ArtifactTenantOperation \<Rightarrow> bool" where
  "received seen s x y \<longleftrightarrow> (if op_ID x \<in> set seen then result_of (fst s) (snd s) x y else generating x y)"

definition keys_in :: "nat list \<Rightarrow> (nat \<times> TransportRequest) list \<times> (nat \<times> gerr) list \<Rightarrow> bool" where
  "keys_in seen s \<longleftrightarrow> fst ` set (fst s) \<subseteq> set seen \<and> fst ` set (snd s) \<subseteq> set seen"

definition unfinished :: "env \<Rightarrow> string \<Rightarrow> nat \<Rightarrow> bool" where
  "unfinished env pid k \<longleftrightarrow> PollTime env pid k \<le> casExportTimeout \<and>
     (case PollOperation env pid k of Inl _ \<Rightarrow> False | Inr st \<Rightarrow> st \<notin> {''FINISHED'', ''FAILED''})"

lemma poll_export_later:
  assumes "unfinished env pid m"
  shows "poll_export env t pid m = poll_export env t pid (Suc m)"
  using assms by (subst poll_export.simps) (auto simp: unfinished_def split: sum.splits)

lemma poll_export_now:
  assumes "\<not> unfinished env pid m"
  shows "poll_export env t pid m = Some (Inr tr) \<longleftrightarrow> PollTime env pid m \<le> casExportTimeout \<and>
     PollOperation env pid m = Inr ''FINISHED'' \<and> finished_export env t pid = Inr tr"
  using assms by (subst poll_export.simps) (auto simp: unfinished_def split: sum.splits)

lemma poll_export_skip:
  assumes "list_all (unfinished env pid) [m..<n]" and "m \<le> n"
  shows "poll_export env t pid m = poll_export env t pid n"
  using assms
proof (induction "n - m" arbitrary: m)
  case (Suc k)
  then have "[m..<n] = m # [Suc m..<n]" by (simp add: upt_conv_Cons)
  then show ?case using Suc poll_export_later [of env pid m t] by simp
qed simp

lemma poll_export_stops:
  assumes "poll_export env t pid m = Some y"
  shows "\<exists>n\<ge>m. \<not> unfinished env pid n \<and> list_all (unfinished env pid) [m..<n]"
proof (rule poll_export.raw_induct [where P = "\<lambda>env t pid m y. \<exists>n\<ge>m. \<not> unfinished env pid n \<and>
    list_all (unfinished env pid) [m..<n]", OF _ assms], goal_cases)
  case (1 poll env t pid n y)
  show ?case
  proof (cases "unfinished env pid n")
    case True
    then have "poll env t pid (Suc n) = Some y"
      using 1(2) by (auto simp: unfinished_def split: sum.splits)
    from 1(1) [OF this] obtain k where "Suc n \<le> k" "\<not> unfinished env pid k" "list_all (unfinished env pid) [Suc n..<k]"
      by blast
    then show ?thesis using True by (intro exI [of _ k]) (simp add: upt_conv_Cons)
  next
    case False
    then show ?thesis by (intro exI [of _ n]) simp
  qed
qed

lemma poll_export_success:
  "poll_export env t pid m = Some (Inr tr) \<longleftrightarrow>
     (\<exists>n\<ge>m. list_all (unfinished env pid) [m..<n] \<and>
        PollTime env pid n \<le> casExportTimeout \<and> PollOperation env pid n = Inr ''FINISHED'' \<and>
        finished_export env t pid = Inr tr)" (is "?l \<longleftrightarrow> ?r")
proof
  assume ?r
  then obtain n where n: "n \<ge> m" "list_all (unfinished env pid) [m..<n]"
    "PollTime env pid n \<le> casExportTimeout" "PollOperation env pid n = Inr ''FINISHED''"
    "finished_export env t pid = Inr tr" by blast
  have "\<not> unfinished env pid n" using n(4) by (simp add: unfinished_def)
  then show ?l using poll_export_skip [OF n(2,1)] poll_export_now n(3-5) by metis
next
  assume l: ?l
  have "\<exists>n\<ge>m. \<not> unfinished env pid n \<and> list_all (unfinished env pid) [m..<n]"
    by (rule poll_export_stops [OF l])
  then show ?r using l poll_export_skip poll_export_now by metis
qed

lemma map_of_not_in: "i \<notin> fst ` set ps \<Longrightarrow> map_of ps i = None"
  by (simp add: map_of_eq_None_iff)

lemma received_failed:
  assumes "received seen (succ, failed) x y" and "map_of succ i = None"
  shows "if op_ID x = i then received (seen @ [i]) (succ, map_put i e failed) x
           (y\<lparr>op_RequestState := RequestTrFailed, op_TrError := err_text e\<rparr>)
         else received (seen @ [i]) (succ, map_put i e failed) x y"
  using assms
  by (cases "op_ID x = i"; cases "op_ID x \<in> set seen"; cases "map_of succ (op_ID x)")
    (simp_all add: received_def result_of_def map_of_map_put)

lemma received_succeeded:
  assumes "received seen (succ, failed) x y" and "map_of failed i = None"
  shows "if op_ID x = i then received (seen @ [i]) (map_put i tr succ, failed) x
           (y\<lparr>op_TransportRequestNumber := gen_ID tr, op_RequestState := RequestPending, op_TrError := []\<rparr>)
         else received (seen @ [i]) (map_put i tr succ, failed) x y"
  using assms
  by (cases "op_ID x = i"; cases "op_ID x \<in> set seen"; cases "map_of succ (op_ID x)")
    (simp_all add: received_def result_of_def map_of_map_put)

lemma receive_result_rows:
  assumes g: "gen_rows ids (received seen s) rows0 w" and i: "op_ID op \<in> set ids" "op_ID op \<notin> set seen"
    and k: "keys_in seen s" and e: "export op \<noteq> None"
  shows "wp (receive_result drID export op s) (\<lambda>r w'. \<exists>s'. r = Inr s' \<and>
     gen_rows ids (received (seen @ [op_ID op]) s') rows0 w' \<and> keys_in (seen @ [op_ID op]) s') w"
proof -
  obtain succ failed where s: "s = (succ, failed)" by fastforce
  have f: "faults w = []" using g by (simp add: gen_rows_def)
  have none: "map_of succ (op_ID op) = None" "map_of failed (op_ID op) = None"
    using k i(2) by (auto simp: s keys_in_def intro!: map_of_not_in)
  obtain res where res: "export op = Some res" using e by auto
  have calm_rows: "gen_rows ids P rows0 w2" if "gen_rows ids P rows0 w1" "calm w1 w2" for P w1 w2
    using that by (simp add: gen_rows_def calm_def)
  show ?thesis
  proof (cases res)
    case (Inl err)
    have "gen_rows ids (received (seen @ [op_ID op]) (succ, map_put (op_ID op) err failed)) rows0
        (db_ops_update (upd_where (\<lambda>x. op_ID x = op_ID op)
          (\<lambda>x. x\<lparr>op_RequestState := RequestTrFailed, op_TrError := err_text err\<rparr>)) w)"
      by (rule gen_rows_update [OF g i(1)]) (use received_failed none(1) in \<open>simp_all add: s\<close>)
    moreover have "keys_in (seen @ [op_ID op]) (succ, map_put (op_ID op) err failed)"
      using k by (auto simp: s keys_in_def keys_map_put)
    ultimately show ?thesis
      unfolding receive_result_def s prod.case res option.case Inl sum.case set_tr_failed_def wp_bind
        wp_update_ok [OF f]
      by (intro wp_mono [OF wp_calm_conditions]) (simp_all add: f wp_return calm_rows)
  next
    case (Inr tr)
    have "gen_rows ids (received (seen @ [op_ID op]) (map_put (op_ID op) tr succ, failed)) rows0
        (db_ops_update (upd_where (\<lambda>x. op_ID x = op_ID op)
          (\<lambda>x. x\<lparr>op_TransportRequestNumber := gen_ID tr, op_RequestState := RequestPending, op_TrError := []\<rparr>)) w)"
      by (rule gen_rows_update [OF g i(1)]) (use received_succeeded none(2) in \<open>simp_all add: s\<close>)
    moreover have "keys_in (seen @ [op_ID op]) (map_put (op_ID op) tr succ, failed)"
      using k by (auto simp: s keys_in_def keys_map_put)
    ultimately show ?thesis
      unfolding receive_result_def s prod.case res option.case Inr sum.case write_back_def wp_bind
        wp_update_ok [OF f]
      by (intro wp_mono [OF wp_calm_conditions]) (simp_all add: f wp_return calm_rows)
  qed
qed

text \<open>The row of an operation after a generation that returned r.\<close>

definition generated :: "nat list \<Rightarrow> nat \<Rightarrow> nat \<Rightarrow> gen_outcome \<Rightarrow> ArtifactTenantOperation \<Rightarrow> ArtifactTenantOperation \<Rightarrow> bool" where
  "generated ids drID tenantID r x y \<longleftrightarrow>
     (case r of
        Some (Inl e) \<Rightarrow> op_RequestState y = RequestTrFailed \<and> op_TrError y = err_text e
      | Some (Inr (succeeded, failed)) \<Rightarrow>
          if tr_ops ids drID tenantID x then result_of succeeded failed x y
          else op_RequestState y = RequestTrGenerating
      | None \<Rightarrow> False)"

lemma receive_loop_rows:
  assumes g: "gen_rows ids generating rows0 w" and ops: "\<forall>op\<in>set os. op_ID op \<in> set ids" "distinct (map op_ID os)"
    and e: "\<forall>op\<in>set os. export op \<noteq> None"
  shows "wp (loopE (receive_result drID export) os ([], [])) (\<lambda>r w'. \<exists>s. r = Inr s \<and>
     gen_rows ids (received (map op_ID os) s) rows0 w') w"
proof -
  have "wp (loopE (receive_result drID export) rest s) (\<lambda>r w'. \<exists>s. r = Inr s \<and>
     gen_rows ids (received (map op_ID os) s) rows0 w') v"
    if "os = seen @ rest" "gen_rows ids (received (map op_ID seen) s) rows0 v" "keys_in (map op_ID seen) s"
    for rest seen s v
    using that
  proof (induction rest arbitrary: seen s v)
    case (Cons op rest)
    have op: "op_ID op \<in> set ids" "op_ID op \<notin> set (map op_ID seen)" "export op \<noteq> None"
      using Cons.prems(1) ops e by auto
    show ?case
      unfolding loopE.simps wp_bind
      apply (rule wp_mono [OF receive_result_rows [where op = op and export = export, OF Cons.prems(2) op(1,2) Cons.prems(3) op(3)]])
      using Cons.IH [of "seen @ [op]"] Cons.prems(1) by fastforce
  next
    case Nil
    then show ?case by (cases s) (simp add: wp_return)
  qed
  note gen = this
  have "gen_rows ids (received (map op_ID []) ([], [])) rows0 w"
    using g by (simp add: received_def [abs_def])
  then show ?thesis using gen [of "[]" os "([], [])" w] by (simp add: keys_in_def)
qed

lemma received_all:
  assumes g: "gen_rows ids (received seen (succeeded, failed)) rows0 w"
    and sel0: "set seen = op_ID ` set (filter (tr_ops ids d t) rows0)" and d: "distinct (map op_ID rows0)"
  shows "rows_rel (\<lambda>x y. if op_ID x \<in> set ids then generated ids d t (Some (Inr (succeeded, failed))) x y else y = x)
    rows0 (db_ops w)"
proof -
  have sel: "op_ID x \<in> set seen \<longleftrightarrow> tr_ops ids d t x" if "x \<in> set rows0" for x
    unfolding sel0 using key_unique [OF d _ that] that by auto
  have "rows_rel (\<lambda>x y. if op_ID x \<in> set ids then received seen (succeeded, failed) x y else y = x) rows0 (db_ops w)"
    using g by (simp add: gen_rows_def)
  then show ?thesis
    unfolding rows_rel_def
    by (rule list.rel_mono_strong) (auto simp: received_def generated_def sel)
qed

lemma gen_rows_published [simp]: "gen_rows ids P rows0 (published d w) = gen_rows ids P rows0 w"
  by (simp add: gen_rows_def)

lemma GenerateTransportRequest_rows:
  assumes f: "faults w = []" and ids: "op_ids_ok w"
    and arrival: "\<And>os. mset (arrival os) = mset os"
    and time: "\<And>pid k. casExportPollInterval * k \<le> PollTime env pid k"
  shows "wp (GenerateTransportRequest env arrival t d opIDs) (\<lambda>r w'. r \<noteq> None \<and> rows_rel
     (\<lambda>x y. if op_ID x \<in> set opIDs then generated opIDs d t r x y else y = x) (db_ops w) (db_ops w')) w"
proof -
  have d0: "distinct (map op_ID (db_ops w))" using ids by (simp add: op_ids_ok_def)
  define Q where "Q = (\<lambda>r (w' :: world). r \<noteq> None \<and> rows_rel (\<lambda>x y. if op_ID x \<in> set opIDs then generated opIDs d t r x y else y = x) (db_ops w) (db_ops w'))"
  have fatal: "wp (fatalf d opIDs e) Q v" if "gen_rows opIDs generating (db_ops w) v" for e v
    by (rule wp_mono [OF fatalf_rows [OF that]])
      (auto simp: Q_def gen_rows_def generated_def elim!: rows_rel_mono split: if_splits)
  show ?thesis
    unfolding Q_def [symmetric] GenerateTransportRequest_def acquireTenantForTR_def wp_bind Let_def wp_onerr
    apply (rule wp_mono [OF gen_rows_start [OF f]])
    subgoal premises g for r w1
    proof -
      have g1: "gen_rows opIDs generating (db_ops w) w1" using g by simp
      then have f1: "faults w1 = []" by (simp add: gen_rows_def)
      have rows1: "rows_rel (\<lambda>x y. if op_ID x \<in> set opIDs then generating x y else y = x) (db_ops w) (db_ops w1)"
        using g1 by (simp add: gen_rows_def)
      let ?os = "filter (tr_ops opIDs d t) (db_ops w1)"
      have sel: "set (map op_ID ?os) = op_ID ` set (filter (tr_ops opIDs d t) (db_ops w))"
        using rows_rel_selected [OF rows1, of opIDs d t] by (metis list.set_map)
      have d1: "distinct (map op_ID ?os)"
        using d0 rows_rel_selected [OF rows1, of opIDs d t] distinct_filter_key by metis
      have run: "wp (loopE (receive_result d (\<lambda>op. exportOneTR env tn dr op u)) (arrival ops1) ([], []))
          (\<lambda>r. wp (case r of Inl _ \<Rightarrow> State_Monad.return None
             | Inr (succeeded, failed) \<Rightarrow> do {
                 _ \<leftarrow> NotifyDrUpdated d;
                 State_Monad.return (Some (Inr (succeeded, failed)))
               }) Q) w2"
        if w2: "gen_rows opIDs generating (db_ops w) w2" and ops1: "map op_ID ops1 = map op_ID ?os" for tn dr u ops1 w2
      proof -
        have m: "mset (map op_ID (arrival ops1)) = mset (map op_ID ?os)"
          using arrival [of ops1] ops1 by (metis mset_map)
        then have a: "set (map op_ID (arrival ops1)) = set (map op_ID ?os)" "distinct (map op_ID (arrival ops1))"
          using d1 by (metis mset_eq_setD, metis mset_eq_imp_distinct_iff)
        have ids1: "\<forall>op\<in>set (arrival ops1). op_ID op \<in> set opIDs"
        proof
          fix op assume "op \<in> set (arrival ops1)"
          then have "op_ID op \<in> set (map op_ID (arrival ops1))" by simp
          then have "op_ID op \<in> set (map op_ID ?os)" using a(1) by blast
          then show "op_ID op \<in> set opIDs" by (auto simp: tr_ops_def)
        qed
        have ends: "\<forall>op\<in>set (arrival ops1). exportOneTR env tn dr op u \<noteq> None"
          using poll_export_ends [OF time] by (auto simp: exportOneTR_def Let_def split: sum.split)
        have fin: "Q (Some (Inr (succ, failed))) v"
          if "gen_rows opIDs (received (map op_ID (arrival ops1)) (succ, failed)) (db_ops w) v" for succ failed v
          using received_all [OF that _ d0] a(1) sel by (simp add: Q_def)
        show ?thesis
          apply (rule wp_mono [OF receive_loop_rows [OF w2 ids1 a(2) ends]])
          using fin by (auto simp: wp_simps intro!: fin simp del: if_split split del: if_split)
      qed
      have tail: "wp (if ?os = [] then fatalf d opIDs e0
           else case CAS env t of
             Inl e \<Rightarrow> fatalf d opIDs (Errw ''GenerateTransportRequest: build CAS client: %w'' [] e)
           | Inr _ \<Rightarrow> do {
               g \<leftarrow> ensureCasGUIDs env t ?os;
               case g of
                 Inl e \<Rightarrow> fatalf d opIDs (Errw ''GenerateTransportRequest: GUID cache: %w'' [] e)
               | Inr ops1 \<Rightarrow> do {
                   r \<leftarrow> loopE (receive_result d (\<lambda>op. exportOneTR env tn dr op u)) (arrival ops1) ([], []);
                   case r of
                     Inl _ \<Rightarrow> State_Monad.return None
                   | Inr (succeeded, failed) \<Rightarrow> do {
                       _ \<leftarrow> NotifyDrUpdated d;
                       State_Monad.return (Some (Inr (succeeded, failed)))
                     }
                 }
             }) Q w1" for e0 tn dr u
      proof (cases "?os = [] \<or> isl (CAS env t)")
        case True
        then show ?thesis using fatal [OF g1] by (auto split: sum.split)
      next
        case False
        then obtain c where c: "?os \<noteq> []" "CAS env t = Inr c" by (cases "CAS env t") auto
        show ?thesis
          unfolding if_not_P [OF c(1)] c(2) sum.case wp_bind [of "ensureCasGUIDs env t ?os"]
        proof (rule wp_mono [OF ensure_rows [OF g1]])
          show "\<forall>op\<in>set ?os. op_ID op \<in> set opIDs" by (simp add: tr_ops_def)
          fix r :: "gerr + ArtifactTenantOperation list" and w2 assume e: "gen_rows opIDs generating (db_ops w) w2 \<and> (\<forall>os'. r = Inr os' \<longrightarrow> map op_ID os' = map op_ID ?os)"
          show "wp (case r of
                 Inl e \<Rightarrow> fatalf d opIDs (Errw ''GenerateTransportRequest: GUID cache: %w'' [] e)
               | Inr ops1 \<Rightarrow> do {
                   r \<leftarrow> loopE (receive_result d (\<lambda>op. exportOneTR env tn dr op u)) (arrival ops1) ([], []);
                   case r of
                     Inl _ \<Rightarrow> State_Monad.return None
                   | Inr (succeeded, failed) \<Rightarrow> do {
                       _ \<leftarrow> NotifyDrUpdated d;
                       State_Monad.return (Some (Inr (succeeded, failed)))
                     }
                 }) Q w2"
            using fatal run e by (cases r) (simp_all add: wp_bind)
        qed
      qed
      show ?thesis
        unfolding db_first_def db_find_def db_query_def wp_stmt_ok [OF f1]
        using fatal [OF g1] tail
        by (auto simp: wp_return wp_bind [of "stmt f" for f] wp_stmt_ok [OF f1] split: option.split)
    qed
    done
qed

lemma Atoi_show_nat_large: "2 ^ 63 \<le> n \<Longrightarrow> Atoi (show_nat n) = None"
proof (cases "show_nat n")
  case (Cons c r)
  assume n: "2 ^ 63 \<le> n"
  have "c \<noteq> CHR ''-''" "c \<noteq> CHR ''+''" using show_nat_no_sign [of n] Cons by auto
  then show ?thesis
    using n parse_nat_show_nat [of n] by (simp add: Atoi_def Cons del: parse_nat_show_nat)
qed simp

section \<open>Properties\<close>

text \<open>A CAS that accepts an export, keeps it running for one poll and finishes it.\<close>

definition demo_cas_env :: env where
  "demo_cas_env = demo_env\<lparr>
     ListCloudIntegrationResources := (\<lambda>_ _. Inr
       [\<lparr>cr_ID = ''pkg'', cr_ResourceID = ''R1'', cr_Name = ''Package'', cr_SubType = ''package'', cr_Version = ''1.0.0'',
         cr_Components = [\<lparr>cc_ID = ''G1'', cc_Name = ''Flow'', cc_Exportable = True\<rparr>]\<rparr>]),
     PollOperation := (\<lambda>_ n. Inr (if n = 0 then ''RUNNING'' else ''FINISHED''))\<rparr>"

text \<open>C12: an export always returns when its polls are at least the poll interval apart, which the
  ticker guarantees: the polling loop cannot outlive its deadline, whatever CAS answers.\<close>

theorem exportOneTR_returns:
  assumes "\<And>pid k. casExportPollInterval * k \<le> PollTime env pid k"
  shows "\<exists>r. exportOneTR env tenant dr op requester = Some r"
  using poll_export_ends [OF assms] by (auto simp: exportOneTR_def Let_def split: sum.split)

theorem exportOneTR_returns_witness:
  "\<exists>r. exportOneTR demo_cas_env demo_dev demo_dr (demo_op\<lparr>op_CasArtifactGUID := ''G1''\<rparr>) ''ann'' = Some r"
  by (rule exportOneTR_returns) (simp add: demo_cas_env_def demo_env_def quiet_env_def casExportPollInterval_def)

text \<open>Exactly when an export yields a transport request: the operation has a technical id and a
  cached GUID, CAS accepted the export, every poll up to some n found it unfinished before the
  deadline, poll n, before the deadline too, found it finished, and its configuration names the
  transport request. The two failure answers of CAS end the export with an error.\<close>

theorem exportOneTR_success_iff:
  "exportOneTR env tenant dr op requester = Some (Inr tr) \<longleftrightarrow>
     op_ArtifactTechID op \<noteq> [] \<and> op_CasArtifactGUID op \<noteq> [] \<and>
     (\<exists>pid n. TriggerExport env (export_request tenant dr op requester) = Inr pid \<and>
        list_all (\<lambda>k. PollTime env pid k \<le> casExportTimeout \<and>
          (case PollOperation env pid k of Inl _ \<Rightarrow> False | Inr st \<Rightarrow> st \<notin> {''FINISHED'', ''FAILED''})) [0..<n] \<and>
        PollTime env pid n \<le> casExportTimeout \<and> PollOperation env pid n = Inr ''FINISHED'' \<and>
        finished_export env (op_ArtifactTechID op) pid = Inr tr)"
proof -
  have poll: "poll_export env t pid m = Some (Inr tr) \<longleftrightarrow>
     (\<exists>n\<ge>m. list_all (unfinished env pid) [m..<n] \<and>
        PollTime env pid n \<le> casExportTimeout \<and> PollOperation env pid n = Inr ''FINISHED'' \<and>
        finished_export env t pid = Inr tr)" for t pid m
    using poll_export_success by blast
  show ?thesis
    by (cases "TriggerExport env (export_request tenant dr op requester)")
      (auto simp: exportOneTR_def Let_def poll unfinished_def [abs_def])
qed

text \<open>C13: a generation that meets no database failure returns, with the environment's polls at least the
  interval apart and the results arriving in any order, and touches only the named operations: after
  a fatal error all of them are failed with its text; otherwise each named operation of that request
  and tenant is either pending with its new transport request, and reported as succeeded, or failed
  with its own error, and reported as failed. A named operation of another request or tenant is left
  in TR_GENERATING for good.\<close>

theorem GenerateTransportRequest_outcome:
  assumes "faults w = []" and "op_ids_ok w" and "\<And>os. mset (arrival os) = mset os"
    and "\<And>pid k. casExportPollInterval * k \<le> PollTime env pid k"
    and "run_state (GenerateTransportRequest env arrival tid drID opIDs) w = (r, w')"
  shows "r \<noteq> None \<and>
    list_all2 (\<lambda>x y. op_ID y = op_ID x \<and>
      (if op_ID x \<in> set opIDs then generated opIDs drID tid r x y else y = x)) (db_ops w) (db_ops w')"
  using wp_run [OF GenerateTransportRequest_rows [OF assms(1-4)] assms(5)]
  by (auto simp: rows_rel_def elim!: list_all2_mono)

theorem GenerateTransportRequest_outcome_witness:
  "length (db_ops (snd (run_state (GenerateTransportRequest demo_cas_env rev 1 5 [7]) demo_world))) = 1"
proof -
  have t: "casExportPollInterval * k \<le> PollTime demo_cas_env pid k" for pid k
    by (simp add: demo_cas_env_def demo_env_def quiet_env_def casExportPollInterval_def)
  have "op_ids_ok demo_world" by code_simp
  note all = conjunct2 [OF GenerateTransportRequest_outcome [OF _ this _ t run_split]]
  have "length (db_ops demo_world) =
      length (db_ops (snd (run_state (GenerateTransportRequest demo_cas_env rev 1 5 [7]) demo_world)))"
    by (rule list_all2_lengthD [OF all]) (simp_all add: demo_world_def empty_world_def)
  then show ?thesis by (simp add: demo_world_def)
qed
text \<open>The tenant id of a URL is read back from its decimal form exactly when it is positive and fits
  a signed 64-bit integer; every other number is refused, so no id wraps around.\<close>

theorem parseTenantID_show_nat:
  "parseTenantID (show_nat n) =
     (if 0 < n \<and> n < 2 ^ 63 then Inr n else Inl (400, Errf ''invalid tenant id'' []))"
  by (cases "n < 2 ^ 63") (simp_all add: parseTenantID_def Atoi_show_nat_large)

end
