(* ===== verification/Lifecycles.thy ===== *)
theory Lifecycles
  imports TrGen
begin

text \<open>
  service/tenant_lifecycle.go, service/tenant_cf_identity.go and the tenant handlers of
  handler/cpi_tenant.go: the state machine of a tenant, the only writer of its lifecycle state, and
  what the tenant's own requests write.
\<close>

section \<open>The state machine\<close>

datatype LifecycleEvent =
  EventCfIdentityConfigured | EventBootstrapStarted | EventBootstrapFinished | EventBootstrapFailed

fun event_str :: "LifecycleEvent \<Rightarrow> string" where
  "event_str EventCfIdentityConfigured = ''cf_identity_configured''"
| "event_str EventBootstrapStarted = ''bootstrap_started''"
| "event_str EventBootstrapFinished = ''bootstrap_finished''"
| "event_str EventBootstrapFailed = ''bootstrap_failed''"

definition allowedTransitions ::
  "(TenantLifecycleState \<times> (LifecycleEvent \<times> TenantLifecycleState) list) list" where
  "allowedTransitions =
    [(TenantDraft, [(EventCfIdentityConfigured, TenantConfigured)]),
     (TenantConfigured, [(EventBootstrapStarted, TenantReadying), (EventCfIdentityConfigured, TenantConfigured)]),
     (TenantNotReady, [(EventBootstrapStarted, TenantReadying), (EventCfIdentityConfigured, TenantConfigured)]),
     (TenantReadying, [(EventBootstrapFinished, TenantReady), (EventBootstrapFailed, TenantNotReady)]),
     (TenantReady, [(EventBootstrapStarted, TenantReadying), (EventCfIdentityConfigured, TenantConfigured)])]"

definition ErrTransitionNotAllowed :: gerr where
  "ErrTransitionNotAllowed = Errf ''transition not allowed'' []"

text \<open>errors.Is(err, ErrTransitionNotAllowed).\<close>

fun is_not_allowed :: "gerr \<Rightarrow> bool" where
  "is_not_allowed (Errw f args e) = is_not_allowed e"
| "is_not_allowed e = (e = ErrTransitionNotAllowed)"

definition next_state :: "TenantLifecycleState \<Rightarrow> nat \<Rightarrow> LifecycleEvent \<Rightarrow> gerr + TenantLifecycleState" where
  "next_state st tenantID event =
     (case map_of allowedTransitions st of
        None \<Rightarrow> err (Errf ''TransitionLifecycle: no transitions defined for state %q'' [Str (tenant_state_str st)])
      | Some events \<Rightarrow>
          (case map_of events event of
             None \<Rightarrow> err (Errw ''TransitionLifecycle: event %q is not valid from state %q (tenant %d): %w''
                        [Str (event_str event), Str (tenant_state_str st), Num tenantID] ErrTransitionNotAllowed)
           | Some nextState \<Rightarrow> ok nextState))"

definition transitionLifecycleWithTx :: "nat \<Rightarrow> LifecycleEvent \<Rightarrow> (gerr + unit) prog" where
  "transitionLifecycleWithTx tenantID event =
     onerr (db_first db_tenants (\<lambda>t. tn_ID t = tenantID))
       (Errw ''TransitionLifecycle: fetch tenant %d: %w'' [Num tenantID]) (\<lambda>tenant.
     case next_state (tn_LifecycleState tenant) tenantID event of
       Inl e \<Rightarrow> failwith e
     | Inr nextState \<Rightarrow>
         onerr (db_update db_tenants_update (\<lambda>t. tn_ID t = tenantID) (\<lambda>t. t\<lparr>tn_LifecycleState := nextState\<rparr>))
           (Errw ''TransitionLifecycle: write state %q for tenant %d: %w'' [Str (tenant_state_str nextState), Num tenantID])
           done_with)"

definition TransitionLifecycle :: "nat \<Rightarrow> LifecycleEvent \<Rightarrow> (gerr + unit) prog" where
  "TransitionLifecycle tenantID event = transaction (transitionLifecycleWithTx tenantID event)"

section \<open>The identity of a tenant\<close>

record CfIdentityInput =
  id_CfApiEndpoint :: string
  id_CfOrg :: string
  id_CfSpace :: string

definition CfApiURL :: "CpiTenant \<Rightarrow> string" where
  "CfApiURL t = tn_CfApiEndpoint t"

definition missing_prereqs :: "CpiTenant \<Rightarrow> CpiTenant" where
  "missing_prereqs t = t\<lparr>tn_BlockingReason := [], tn_PirApiStatus := PrereqMissing,
     tn_CasApplicationStatus := PrereqMissing, tn_CasStandardStatus := PrereqMissing,
     tn_CloudIntegrationDestStatus := PrereqMissing, tn_ContentAssemblyDestStatus := PrereqMissing,
     tn_TransportManagementDestStatus := PrereqMissing\<rparr>"

definition identity_reset :: "CfIdentityInput \<Rightarrow> CpiTenant \<Rightarrow> CpiTenant" where
  "identity_reset input t = (missing_prereqs t)\<lparr>tn_CfApiEndpoint := id_CfApiEndpoint input,
     tn_CfOrg := id_CfOrg input, tn_CfSpace := id_CfSpace input,
     tn_TmsNodeRegistrationStatus := PrereqMissing, tn_TmsSourceNodeName := [], tn_TmsSourceNodeID := 0,
     tn_CentralTmsContextID := None, tn_PirApiUrl := [], tn_PirApiDestinationName := [],
     tn_CasEngineDestinationName := []\<rparr>"

text \<open>The unique indices of the table: on the name, and on the endpoint with the organisation.\<close>

definition tenant_clash :: "CpiTenant \<Rightarrow> CpiTenant \<Rightarrow> bool" where
  "tenant_clash t u \<longleftrightarrow> tn_ID t \<noteq> tn_ID u \<and> (tn_Name t = tn_Name u \<or>
     (tn_CfApiEndpoint t = tn_CfApiEndpoint u \<and> tn_CfOrg t = tn_CfOrg u))"

definition unique_violation :: gerr where
  "unique_violation = ExtErr ''duplicate key value violates unique constraint (SQLSTATE 23505)''"

definition isUniqueViolation :: "gerr \<Rightarrow> bool" where
  "isUniqueViolation e \<longleftrightarrow> e = unique_violation"

text \<open>An update of one tenant under the indices.\<close>

definition update_tenant :: "nat \<Rightarrow> (CpiTenant \<Rightarrow> CpiTenant) \<Rightarrow> (gerr + unit) prog" where
  "update_tenant i f = stmt (\<lambda>w.
     if \<exists>t\<in>set (db_tenants w). tn_ID t = i \<and> (\<exists>u\<in>set (db_tenants w). tenant_clash (f t) u)
     then (Inl unique_violation, w)
     else (Inr (), db_tenants_update (upd_where (\<lambda>t. tn_ID t = i) f) w))"

definition save_identity :: "nat \<Rightarrow> CfIdentityInput \<Rightarrow> (gerr + unit) prog" where
  "save_identity tenantID input =
     onerr (db_first db_tenants (\<lambda>t. tn_ID t = tenantID)) id (\<lambda>t.
     if tn_LifecycleState t = TenantReadying then
       failwith (Errf ''bootstrap is currently running; wait for it to complete or call ResetBootstrap first'' [])
     else onerr (update_tenant tenantID (identity_reset input)) id
       (\<lambda>_. transitionLifecycleWithTx tenantID EventCfIdentityConfigured))"

definition check_identity_free :: "nat \<Rightarrow> CfIdentityInput \<Rightarrow> CpiTenant \<Rightarrow> (gerr + unit) prog" where
  "check_identity_free tenantID input tenant =
     (if id_CfApiEndpoint input \<noteq> tn_CfApiEndpoint tenant \<or> id_CfOrg input \<noteq> tn_CfOrg tenant then do {
        r \<leftarrow> db_first db_tenants (\<lambda>t. tn_CfApiEndpoint t = id_CfApiEndpoint input \<and> tn_CfOrg t = id_CfOrg input \<and> tn_ID t \<noteq> tenantID);
        case r of
          Inr conflict \<Rightarrow>
            failwith (Errf ''SaveCfIdentity: CF org %q on %q is already registered as another CPI tenant (id=%d)''
              [Str (id_CfOrg input), Str (id_CfApiEndpoint input), Num (tn_ID conflict)])
        | Inl e \<Rightarrow>
            if \<not> is_not_found e then failwith (Errw ''SaveCfIdentity: check duplicate CF identity: %w'' [] e)
            else done_with ()
      } else done_with ())"

definition check_token :: "env \<Rightarrow> CfIdentityInput \<Rightarrow> string \<Rightarrow> gerr + unit" where
  "check_token env input cfToken =
     (case ExtractUserID env cfToken of
        Inl e \<Rightarrow> err (Errw ''SaveCfIdentity: extract user_id from cfToken: %w'' [] e)
      | Inr userID \<Rightarrow>
     (let client = (id_CfApiEndpoint input, cfToken) in
      case NewCFClient env client of
        Inl e \<Rightarrow> err (Errw ''SaveCfIdentity: create CF client: %w'' [] e)
      | Inr _ \<Rightarrow>
     (case GetSpace env client (id_CfSpace input) of
        Inl e \<Rightarrow> err (Errw ''SaveCfIdentity: CF space %q is not accessible with the provided token: %w'' [Str (id_CfSpace input)] e)
      | Inr _ \<Rightarrow>
     (case HasSpaceDeveloperRole env client (id_CfSpace input) userID of
        Inl e \<Rightarrow> err (Errw ''SaveCfIdentity: role check: %w'' [] e)
      | Inr hasDev \<Rightarrow>
          if \<not> hasDev then
            err (Errf ''SaveCfIdentity: operator does not hold space_developer role in space %q'' [Str (id_CfSpace input)])
          else ok ()))))"

definition SaveCfIdentity :: "env \<Rightarrow> nat \<Rightarrow> CfIdentityInput \<Rightarrow> string \<Rightarrow> (gerr + unit) prog" where
  "SaveCfIdentity env tenantID input cfToken =
     onerr (db_first db_tenants (\<lambda>t. tn_ID t = tenantID)) (Errw ''SaveCfIdentity: fetch tenant %d: %w'' [Num tenantID]) (\<lambda>tenant.
     onerr (check_identity_free tenantID input tenant) id (\<lambda>_.
     case check_token env input cfToken of
       Inl e \<Rightarrow> failwith e
     | Inr _ \<Rightarrow>
         onerr (transaction (save_identity tenantID input)) (Errw ''SaveCfIdentity: reset and configure: %w'' []) done_with))"

section \<open>Handlers\<close>

definition not_found_404 :: "string \<Rightarrow> nat \<Rightarrow> gerr \<Rightarrow> http" where
  "not_found_404 text code e = (if is_not_found e then (404, Errf text []) else (code, e))"

definition HandleSaveCfIdentity :: "env \<Rightarrow> string \<Rightarrow> CfIdentityInput \<Rightarrow> string \<Rightarrow> (http + nat) prog" where
  "HandleSaveCfIdentity env idStr input cfToken =
     (case parseTenantID idStr of
        Inl e \<Rightarrow> failwith e
      | Inr tenantID \<Rightarrow>
          onerr (SaveCfIdentity env tenantID input cfToken) (not_found_404 ''tenant not found'' 500)
            (\<lambda>_. done_with tenantID))"

definition placeholder :: "CpiTenant \<Rightarrow> string \<Rightarrow> CpiTenant" where
  "placeholder input user =
     (missing_prereqs zero_tenant)\<lparr>tn_Name := tn_Name input, tn_Group := tn_Group input,
        tn_CreatedBy := user, tn_UpdatedBy := user, tn_LifecycleState := TenantDraft,
        tn_TmsNodeRegistrationStatus := PrereqMissing\<rparr>"

text \<open>Insertion under the indices of the table and its primary key.\<close>

definition create_tenant :: "CpiTenant \<Rightarrow> (gerr + CpiTenant) prog" where
  "create_tenant t = stmt (\<lambda>w.
     (let row = t\<lparr>tn_ID := next_id w\<rparr>; w1 = w\<lparr>next_id := Suc (next_id w)\<rparr> in
      if (Tenants, tn_ID row) \<in> set (dead w) \<or> (\<exists>u\<in>set (db_tenants w). tenant_clash row u \<or> tn_ID u = tn_ID row)
      then (Inl unique_violation, w1)
      else (Inr row, db_tenants_update (\<lambda>ts. ts @ [row]) w1)))"

definition tenant_conflict :: "string \<Rightarrow> gerr \<Rightarrow> http" where
  "tenant_conflict name e =
     (if isUniqueViolation e then (409, Errf ''tenant name %q already exists'' [Str name]) else (500, e))"

definition UpsertCpiTenant :: "CpiTenant \<Rightarrow> string \<Rightarrow> (http + CpiTenant) prog" where
  "UpsertCpiTenant body user =
     (let input = body\<lparr>tn_UpdatedBy := user\<rparr> in
      if tn_ID input = 0 then
        (if tn_Name input = [] then failwith (400, Errf ''name is required'' [])
         else onerr (create_tenant (placeholder input user)) (tenant_conflict (tn_Name input)) done_with)
      else
        onerr (db_first db_tenants (\<lambda>t. tn_ID t = tn_ID input)) (not_found_404 ''tenant not found'' 500) (\<lambda>existing.
        if tn_CfApiEndpoint input \<noteq> tn_CfApiEndpoint existing \<or> tn_CfOrg input \<noteq> tn_CfOrg existing \<or>
           tn_CfSpace input \<noteq> tn_CfSpace existing then
          failwith (400, Errf ''CF identity fields (cfApiEndpoint, cfOrg, cfSpace) must be updated via PUT /api/v1/cpiTenant/:id/cfIdentity'' [])
        else
          (let saved = input\<lparr>tn_LifecycleState := tn_LifecycleState existing\<rparr> in
           onerr (update_tenant (tn_ID input) (\<lambda>_. saved)) (tenant_conflict (tn_Name input)) (\<lambda>_. done_with saved))))"

definition DeleteCpiTenant :: "string \<Rightarrow> (http + int) prog" where
  "DeleteCpiTenant idStr =
     (case Atoi idStr of
        None \<Rightarrow> failwith (400, Errf ''invalid id'' [])
      | Some i \<Rightarrow>
          onerr (db_delete Tenants db_tenants db_tenants_update tn_ID (\<lambda>t. int (tn_ID t) = i))
            (\<lambda>e. (500, e)) (\<lambda>_. done_with i))"

section \<open>Without failures and with them\<close>

text \<open>The diagram of the states, as the documentation of the package draws it.\<close>

inductive lifecycle_edge :: "TenantLifecycleState \<Rightarrow> LifecycleEvent \<Rightarrow> TenantLifecycleState \<Rightarrow> bool" where
  configure: "st \<in> {TenantDraft, TenantConfigured, TenantNotReady, TenantReady} \<Longrightarrow>
    lifecycle_edge st EventCfIdentityConfigured TenantConfigured"
| start: "st \<in> {TenantConfigured, TenantNotReady, TenantReady} \<Longrightarrow> lifecycle_edge st EventBootstrapStarted TenantReadying"
| finish: "lifecycle_edge TenantReadying EventBootstrapFinished TenantReady"
| fail: "lifecycle_edge TenantReadying EventBootstrapFailed TenantNotReady"

inductive_simps edge_configure: "lifecycle_edge st EventCfIdentityConfigured st'"
inductive_simps edge_start: "lifecycle_edge st EventBootstrapStarted st'"
inductive_simps edge_finish: "lifecycle_edge st EventBootstrapFinished st'"
inductive_simps edge_fail: "lifecycle_edge st EventBootstrapFailed st'"

lemmas edge_simps = edge_configure edge_start edge_finish edge_fail

lemma next_state_edge: "next_state st i ev = Inr st' \<longleftrightarrow> lifecycle_edge st ev st'"
  by (cases st; cases ev) (auto simp: next_state_def allowedTransitions_def edge_simps)

definition tenant_at :: "world \<Rightarrow> nat \<Rightarrow> CpiTenant option" where
  "tenant_at w i = List.find (\<lambda>t. tn_ID t = i) (db_tenants w)"

lemma tenant_at_faults [simp]: "tenant_at (w\<lparr>faults := fs\<rparr>) i = tenant_at w i"
  by (simp add: tenant_at_def)

lemma next_state_none: "next_state st i ev = Inl e \<Longrightarrow> \<not> lifecycle_edge st ev st'"
  using next_state_edge [of st i ev st'] by simp

definition set_state :: "nat \<Rightarrow> TenantLifecycleState \<Rightarrow> world \<Rightarrow> world" where
  "set_state i st = db_tenants_update (upd_where (\<lambda>t. tn_ID t = i) (\<lambda>t. t\<lparr>tn_LifecycleState := st\<rparr>))"

text \<open>An event inside a transaction: it fails with the tables as they were, or follows an edge.\<close>

lemma transition_wp:
  assumes "\<And>e fs. Q (Inl e) (w\<lparr>faults := fs\<rparr>)"
    and "\<And>t st fs. \<lbrakk>tenant_at w i = Some t; lifecycle_edge (tn_LifecycleState t) ev st\<rbrakk> \<Longrightarrow>
           Q (Inr ()) ((set_state i st w)\<lparr>faults := fs\<rparr>)"
  shows "wp (transitionLifecycleWithTx i ev) Q w"
  unfolding transitionLifecycleWithTx_def wp_onerr
proof (rule tenants_table.wp_first; unfold sum.case)
  fix fs r assume r: "List.find (\<lambda>t. tn_ID t = i) (db_tenants w) = Some r"
  show "wp (case next_state (tn_LifecycleState r) i ev of Inl e \<Rightarrow> failwith e
     | Inr nextState \<Rightarrow>
         onerr (db_update db_tenants_update (\<lambda>t. tn_ID t = i) (\<lambda>t. t\<lparr>tn_LifecycleState := nextState\<rparr>))
           (Errw ''TransitionLifecycle: write state %q for tenant %d: %w'' [Str (tenant_state_str nextState), Num i])
           done_with) Q (w\<lparr>faults := fs\<rparr>)"
  proof (cases "next_state (tn_LifecycleState r) i ev")
    case (Inr st)
    show ?thesis
      unfolding Inr sum.case wp_onerr
      by (rule tenants_table.wp_update)
        (use assms r Inr in \<open>simp_all add: wp_return tenant_at_def next_state_edge set_state_def\<close>)
  qed (use assms(1) in \<open>simp add: wp_return\<close>)
qed (rule assms(1))+

lemma transition_exact:
  "wp (TransitionLifecycle i ev) (\<lambda>r w'. case r of
      Inl e \<Rightarrow> \<exists>fs n. w' = w\<lparr>faults := fs, next_id := n\<rparr>
    | Inr _ \<Rightarrow> \<exists>t st fs. tenant_at w i = Some t \<and> lifecycle_edge (tn_LifecycleState t) ev st \<and>
        w' = (set_state i st w)\<lparr>faults := fs\<rparr>) w"
  unfolding TransitionLifecycle_def
proof (rule wp_transaction)
  show "wp (transitionLifecycleWithTx i ev) (\<lambda>r w1. case r of Inl _ \<Rightarrow> True | Inr x \<Rightarrow> \<forall>fs.
      case Inr x of Inl e \<Rightarrow> \<exists>fs' n. w1\<lparr>faults := fs\<rparr> = w\<lparr>faults := fs', next_id := n\<rparr>
      | Inr _ \<Rightarrow> \<exists>t st fs'. tenant_at w i = Some t \<and> lifecycle_edge (tn_LifecycleState t) ev st \<and>
          w1\<lparr>faults := fs\<rparr> = (set_state i st w)\<lparr>faults := fs'\<rparr>) (w\<lparr>faults := fs\<rparr>)" for fs
    by (rule transition_wp) (auto simp: set_state_def)
qed auto

text \<open>Without failures an event whose edge exists succeeds.\<close>

lemma transition_ok:
  assumes f: "faults w = []" and "tenant_at w i = Some t" and "lifecycle_edge (tn_LifecycleState t) ev st"
  shows "run_state (TransitionLifecycle i ev) w = (Inr (), set_state i st w)"
proof -
  have "next_state (tn_LifecycleState t) i ev = Inr st" using assms(3) by (simp add: next_state_edge)
  then have "run_state (transitionLifecycleWithTx i ev) w = (Inr (), set_state i st w)"
    using f assms(2) by (simp add: transitionLifecycleWithTx_def onerr_def State_Monad.bind_def tenant_at_def
        tenants_table.first_ok tenants_table.update_ok set_state_def)
  from transaction_ok [OF f this] show ?thesis
    using f by (simp add: TransitionLifecycle_def set_state_def)
qed

section \<open>Properties\<close>

text \<open>The lifecycle follows the documented diagram: an event succeeds only along an edge from the
  state of the live tenant, it then writes the next state of that tenant and nothing else, and a
  failed event writes nothing; without database failures an event whose edge exists succeeds.\<close>

theorem TransitionLifecycle_refines:
  assumes "run_state (TransitionLifecycle i ev) w = (r, w')"
  shows "(case r of
      Inl e \<Rightarrow> \<exists>fs n. w' = w\<lparr>faults := fs, next_id := n\<rparr>
    | Inr _ \<Rightarrow> \<exists>t st fs. tenant_at w i = Some t \<and> lifecycle_edge (tn_LifecycleState t) ev st \<and>
        w' = (set_state i st w)\<lparr>faults := fs\<rparr>) \<and>
    (faults w = [] \<and> tenant_at w i = Some t \<and> lifecycle_edge (tn_LifecycleState t) ev st \<longrightarrow> r = Inr ())"
proof (intro conjI impI)
  assume a: "faults w = [] \<and> tenant_at w i = Some t \<and> lifecycle_edge (tn_LifecycleState t) ev st"
  then show "r = Inr ()" using transition_ok [of w i t ev st] assms by simp
qed (rule wp_run [OF transition_exact assms])

section \<open>Identities\<close>

lemma update_tenant_wp:
  assumes "\<And>e fs. Q (Inl e) (w\<lparr>faults := fs\<rparr>)"
    and "\<And>fs. \<lbrakk>\<And>t u. \<lbrakk>t \<in> set (db_tenants w); tn_ID t = i; u \<in> set (db_tenants w)\<rbrakk> \<Longrightarrow> \<not> tenant_clash (f t) u\<rbrakk> \<Longrightarrow>
           Q (Inr ()) ((db_tenants_update (upd_where (\<lambda>t. tn_ID t = i) f) w)\<lparr>faults := fs\<rparr>)"
  shows "wp (update_tenant i f) Q w"
  unfolding update_tenant_def by (rule wp_stmt) (use assms in \<open>auto simp: tenants_table.upd_faults\<close>)

definition configured :: "CfIdentityInput \<Rightarrow> CpiTenant \<Rightarrow> CpiTenant" where
  "configured input t = (identity_reset input t)\<lparr>tn_LifecycleState := TenantConfigured\<rparr>"

definition other_owner :: "world \<Rightarrow> nat \<Rightarrow> string \<Rightarrow> string \<Rightarrow> bool" where
  "other_owner w i endpoint org \<longleftrightarrow>
     (\<exists>u\<in>set (db_tenants w). tn_ID u \<noteq> i \<and> tn_CfApiEndpoint u = endpoint \<and> tn_CfOrg u = org)"

lemma identity_reset_id: "tn_ID (identity_reset input t) = tn_ID t"
  by (simp add: identity_reset_def missing_prereqs_def)

lemma upd_where_comp: "(\<And>x. P x \<Longrightarrow> P (f x)) \<Longrightarrow> upd_where P g \<circ> upd_where P f = upd_where P (\<lambda>x. g (f x))"
  by (auto simp: upd_where_def fun_eq_iff)

lemma tenant_at_upd:
  "(\<And>t. tn_ID (f t) = tn_ID t) \<Longrightarrow>
   tenant_at (db_tenants_update (upd_where (\<lambda>t. tn_ID t = i) f) w) i = map_option f (tenant_at w i)"
proof -
  assume f: "\<And>t. tn_ID (f t) = tn_ID t"
  have "List.find (\<lambda>t. tn_ID t = i) (upd_where (\<lambda>t. tn_ID t = i) f ts) =
      map_option f (List.find (\<lambda>t. tn_ID t = i) ts)" for ts
    by (induction ts) (auto simp: upd_where_def f)
  then show ?thesis by (simp add: tenant_at_def)
qed

lemma save_identity_wp:
  "wp (save_identity i input) (\<lambda>r w'. case r of Inl _ \<Rightarrow> True | Inr _ \<Rightarrow>
      (\<exists>t. tenant_at w i = Some t \<and> tn_LifecycleState t \<in> {TenantDraft, TenantConfigured, TenantNotReady, TenantReady}) \<and>
      \<not> other_owner w i (id_CfApiEndpoint input) (id_CfOrg input) \<and>
      (\<exists>fs. w' = (db_tenants_update (upd_where (\<lambda>t. tn_ID t = i) (configured input)) w)\<lparr>faults := fs\<rparr>)) w"
    (is "wp _ ?Q w")
  unfolding save_identity_def wp_onerr
proof (rule tenants_table.wp_first; unfold sum.case)
  fix fs t assume t: "List.find (\<lambda>t. tn_ID t = i) (db_tenants w) = Some t" "t \<in> set (db_tenants w)" "tn_ID t = i"
  show "wp (if tn_LifecycleState t = TenantReadying then
       failwith (Errf ''bootstrap is currently running; wait for it to complete or call ResetBootstrap first'' [])
     else onerr (update_tenant i (identity_reset input)) id
       (\<lambda>_. transitionLifecycleWithTx i EventCfIdentityConfigured)) ?Q (w\<lparr>faults := fs\<rparr>)"
  proof (cases "tn_LifecycleState t = TenantReadying")
    case False
    show ?thesis
      unfolding if_not_P [OF False] wp_onerr
    proof (rule update_tenant_wp; unfold sum.case)
      fix fs2
      let ?w = "(db_tenants_update (upd_where (\<lambda>t. tn_ID t = i) (identity_reset input)) (w\<lparr>faults := fs\<rparr>))\<lparr>faults := fs2\<rparr>"
      assume c: "\<And>t u. \<lbrakk>t \<in> set (db_tenants (w\<lparr>faults := fs\<rparr>)); tn_ID t = i; u \<in> set (db_tenants (w\<lparr>faults := fs\<rparr>))\<rbrakk> \<Longrightarrow>
        \<not> tenant_clash (identity_reset input t) u"
      have o: "\<not> other_owner w i (id_CfApiEndpoint input) (id_CfOrg input)"
        using c [of t] t(2,3) unfolding other_owner_def
        by (auto simp: tenant_clash_def identity_reset_def missing_prereqs_def) metis
      have at: "tenant_at ?w i = Some (identity_reset input t)"
        using t(1) tenant_at_upd [where f = "identity_reset input" and i = i and w = "w\<lparr>faults := fs\<rparr>", OF identity_reset_id] by (simp add: tenant_at_def)
      show "wp (transitionLifecycleWithTx i EventCfIdentityConfigured) ?Q ?w"
      proof (rule transition_wp; unfold sum.case)
        fix t' st fs3 assume "tenant_at ?w i = Some t'" "lifecycle_edge (tn_LifecycleState t') EventCfIdentityConfigured st"
        then have "tn_LifecycleState t \<in> {TenantDraft, TenantConfigured, TenantNotReady, TenantReady}" "st = TenantConfigured"
          using at by (auto simp: edge_simps identity_reset_def missing_prereqs_def)
        moreover have "set_state i TenantConfigured ?w =
            (db_tenants_update (upd_where (\<lambda>t. tn_ID t = i) (configured input)) w)\<lparr>faults := fs2\<rparr>"
          by (simp add: set_state_def upd_where_comp identity_reset_id configured_def [abs_def] tenants_table.upd_faults)
        ultimately show "(\<exists>t. tenant_at w i = Some t \<and> tn_LifecycleState t \<in> {TenantDraft, TenantConfigured, TenantNotReady, TenantReady}) \<and>
            \<not> other_owner w i (id_CfApiEndpoint input) (id_CfOrg input) \<and>
            (\<exists>fs. (set_state i st ?w)\<lparr>faults := fs3\<rparr> =
               (db_tenants_update (upd_where (\<lambda>t. tn_ID t = i) (configured input)) w)\<lparr>faults := fs\<rparr>)"
          using o t(1) by (auto simp: tenant_at_def)
      qed simp
    qed simp
  qed (simp add: wp_return)
qed simp_all

text \<open>C24: saving an identity is atomic: when it fails, the tables are as before. When it succeeds, the
  token was accepted for the new endpoint and space, the tenant exists and is not being bootstrapped,
  no other live tenant owns the endpoint with the organisation, and exactly that tenant's row is
  reset, gets the new identity and is CONFIGURED.\<close>

theorem SaveCfIdentity_atomic:
  assumes "run_state (SaveCfIdentity env i input token) w = (r, w')"
  shows "case r of
      Inl e \<Rightarrow> \<exists>fs n. w' = w\<lparr>faults := fs, next_id := n\<rparr>
    | Inr _ \<Rightarrow> check_token env input token = Inr () \<and>
        (\<exists>t. tenant_at w i = Some t \<and> tn_LifecycleState t \<in> {TenantDraft, TenantConfigured, TenantNotReady, TenantReady}) \<and>
        \<not> other_owner w i (id_CfApiEndpoint input) (id_CfOrg input) \<and>
        (\<exists>fs. w' = (db_tenants_update (upd_where (\<lambda>t. tn_ID t = i) (configured input)) w)\<lparr>faults := fs\<rparr>)"
proof -
  let ?S = "\<lambda>w'. check_token env input token = Inr () \<and>
        (\<exists>t. tenant_at w i = Some t \<and> tn_LifecycleState t \<in> {TenantDraft, TenantConfigured, TenantNotReady, TenantReady}) \<and>
        \<not> other_owner w i (id_CfApiEndpoint input) (id_CfOrg input) \<and>
        (\<exists>fs. w' = (db_tenants_update (upd_where (\<lambda>t. tn_ID t = i) (configured input)) w)\<lparr>faults := fs\<rparr>)"
  let ?E = "\<lambda>(w1 :: world). \<exists>fs n. w1 = w\<lparr>faults := fs, next_id := n\<rparr>"
  let ?Q = "\<lambda>r w'. case r of Inl (e :: gerr) \<Rightarrow> ?E w' | Inr (u :: unit) \<Rightarrow> ?S w'"
  have same: "?E (w\<lparr>faults := fs\<rparr>)" for fs by (intro exI [of _ fs] exI [of _ "next_id w"]) simp
  have save: "wp (transaction (save_identity i input)) ?Q (w\<lparr>faults := fs\<rparr>)"
    if ok: "check_token env input token = Inr ()" for fs
  proof -
    have "wp (save_identity i input) (\<lambda>r w1. case r of Inl _ \<Rightarrow> True | Inr x \<Rightarrow> \<forall>fs. ?S (w1\<lparr>faults := fs\<rparr>)) (w\<lparr>faults := fs\<rparr>)" for fs
      by (rule wp_mono [OF save_identity_wp]) (use ok in \<open>auto simp: other_owner_def split: sum.splits\<close>)
    then show ?thesis by (intro wp_transaction; unfold sum.case) (auto)
  qed
  have free: "wp (check_identity_free i input t) (\<lambda>r w1. \<exists>fs. w1 = w\<lparr>faults := fs\<rparr>) (w\<lparr>faults := fs\<rparr>)" for t fs
    unfolding check_identity_free_def
    by (auto simp: wp_simps intro!: tenants_table.wp_first split: sum.split)
  have "wp (SaveCfIdentity env i input token) ?Q w"
    unfolding SaveCfIdentity_def wp_onerr
  proof (rule tenants_table.wp_first; unfold sum.case)
    fix fs t
    have rest: "wp (case check_token env input token of Inl e \<Rightarrow> failwith e
         | Inr _ \<Rightarrow> onerr (transaction (save_identity i input)) (Errw ''SaveCfIdentity: reset and configure: %w'' []) done_with) ?Q (w\<lparr>faults := fs\<rparr>)" for fs
    proof (cases "check_token env input token")
      case (Inr u)
      then show ?thesis
        unfolding Inr sum.case wp_onerr by (intro wp_mono [OF save]) (auto simp: Inr wp_return split: sum.splits)
    qed (use same in \<open>simp add: wp_return\<close>)
    show "wp (check_identity_free i input t) (\<lambda>r w'. case r of Inl e \<Rightarrow> ?E w'
       | Inr x \<Rightarrow> wp (case check_token env input token of Inl e \<Rightarrow> failwith e
         | Inr _ \<Rightarrow> onerr (transaction (save_identity i input)) (Errw ''SaveCfIdentity: reset and configure: %w'' []) done_with) ?Q w')
       (w\<lparr>faults := fs\<rparr>)"
      by (rule wp_mono [OF free], erule exE, hypsubst, split sum.split) (use rest same in blast)
  qed (use same in auto)
  from wp_run [OF this assms] show ?thesis .
qed

definition demo_identity :: CfIdentityInput where
  "demo_identity = \<lparr>id_CfApiEndpoint = ''cf.eu10'', id_CfOrg = ''org'', id_CfSpace = ''space''\<rparr>"

theorem TransitionLifecycle_refines_witness:
  "\<exists>e w'. run_state (TransitionLifecycle 1 EventBootstrapFinished) demo_world = (Inl e, w') \<and>
     (\<exists>fs n. w' = demo_world\<lparr>faults := fs, next_id := n\<rparr>)"
proof -
  have "isl (fst (run_state (TransitionLifecycle 1 EventBootstrapFinished) demo_world))" by code_simp
  from run_err [OF this] obtain e w' where r: "run_state (TransitionLifecycle 1 EventBootstrapFinished) demo_world = (Inl e, w')"
    by blast
  show ?thesis using r TransitionLifecycle_refines [OF r, THEN conjunct1] by simp
qed

theorem SaveCfIdentity_atomic_witness:
  "\<exists>w'. run_state (SaveCfIdentity demo_env 1 demo_identity ''token'') demo_world = (Inr (), w') \<and>
     check_token demo_env demo_identity ''token'' = Inr ()"
proof -
  have "\<not> isl (fst (run_state (SaveCfIdentity demo_env 1 demo_identity ''token'') demo_world))" by code_simp
  from run_ok [OF this] obtain w' where r: "run_state (SaveCfIdentity demo_env 1 demo_identity ''token'') demo_world = (Inr (), w')"
    by simp
  show ?thesis using r SaveCfIdentity_atomic [OF r] by simp
qed

section \<open>Rows of tenants\<close>

text \<open>Creating a tenant always inserts an empty endpoint and organisation, and the index on the two is
  unique among live rows: while one live tenant has neither, every further creation is refused with
  409 and the message that its name already exists, whatever its name is.\<close>

theorem second_draft_rejected:
  assumes "faults w = []" and "u \<in> set (db_tenants w)" and "tn_CfApiEndpoint u = []" and "tn_CfOrg u = []"
    and "tn_ID u \<noteq> next_id w" and "tn_ID body = 0" and "tn_Name body \<noteq> []"
  shows "\<exists>w'. run_state (UpsertCpiTenant body user) w =
           (Inl (409, Errf ''tenant name %q already exists'' [Str (tn_Name body)]), w') \<and>
         db_tenants w' = db_tenants w"
proof -
  have "tenant_clash ((placeholder body user)\<lparr>tn_ID := next_id w\<rparr>) u" for body
    using assms(3-5) by (simp add: tenant_clash_def placeholder_def missing_prereqs_def zero_tenant_def)
  then have "run_state (create_tenant (placeholder body user)) w = (Inl unique_violation, w\<lparr>next_id := Suc (next_id w)\<rparr>)" for body
    unfolding create_tenant_def run_stmt [OF assms(1)] Let_def using assms(2) by auto
  then show ?thesis
    using assms(6,7) by (simp add: UpsertCpiTenant_def onerr_def State_Monad.bind_def tenant_conflict_def isUniqueViolation_def)
qed

definition drafted :: "(http + CpiTenant) \<times> world" where
  "drafted = run_state (UpsertCpiTenant (zero_tenant\<lparr>tn_Name := ''PROD''\<rparr>) ''ann'') demo_world"

theorem second_draft_rejected_witness:
  "\<exists>w'. run_state (UpsertCpiTenant (zero_tenant\<lparr>tn_Name := ''PROD''\<rparr>) ''ann'') demo_world =
     (Inl (409, Errf ''tenant name %q already exists'' [Str ''PROD'']), w')"
  using second_draft_rejected [of demo_world demo_qa "zero_tenant\<lparr>tn_Name := ''PROD''\<rparr>" "''ann''"]
  by (auto simp: demo_world_def empty_world_def demo_qa_def zero_tenant_def)

lemma UpsertCpiTenant_saves:
  assumes "run_state (UpsertCpiTenant body user) w = (r, w')" and "tn_ID body \<noteq> 0"
  shows "case r of
      Inl e \<Rightarrow> \<exists>fs. w' = w\<lparr>faults := fs\<rparr>
    | Inr saved \<Rightarrow> \<exists>t fs. tenant_at w (tn_ID body) = Some t \<and>
        (tn_CfApiEndpoint t, tn_CfOrg t, tn_CfSpace t) = (tn_CfApiEndpoint body, tn_CfOrg body, tn_CfSpace body) \<and>
        saved = body\<lparr>tn_UpdatedBy := user, tn_LifecycleState := tn_LifecycleState t\<rparr> \<and>
        w' = (db_tenants_update (upd_where (\<lambda>u. tn_ID u = tn_ID body) (\<lambda>_. saved)) w)\<lparr>faults := fs\<rparr>"
proof -
  let ?Q = "\<lambda>r (w' :: world). case r of
      Inl (e :: http) \<Rightarrow> \<exists>fs. w' = w\<lparr>faults := fs\<rparr>
    | Inr saved \<Rightarrow> \<exists>t fs. tenant_at w (tn_ID body) = Some t \<and>
        (tn_CfApiEndpoint t, tn_CfOrg t, tn_CfSpace t) = (tn_CfApiEndpoint body, tn_CfOrg body, tn_CfSpace body) \<and>
        saved = body\<lparr>tn_UpdatedBy := user, tn_LifecycleState := tn_LifecycleState t\<rparr> \<and>
        w' = (db_tenants_update (upd_where (\<lambda>u. tn_ID u = tn_ID body) (\<lambda>_. saved)) w)\<lparr>faults := fs\<rparr>"
  have "wp (UpsertCpiTenant body user) ?Q w"
    unfolding UpsertCpiTenant_def Let_def wp_if wp_onerr
    using assms(2)
    by (auto simp: wp_simps tenant_at_def intro!: tenants_table.wp_first update_tenant_wp) (rule exI, simp)+
  from wp_run [OF this assms(1)] show ?thesis .
qed

text \<open>An update of a tenant keeps its lifecycle state and is refused when it names another identity; but
  it stores every other field as the client sent it, the statuses the bootstrap maintains and the
  TMS node included.\<close>

theorem UpsertCpiTenant_trusts_body:
  assumes "run_state (UpsertCpiTenant body user) w = (r, w')" and "tn_ID body \<noteq> 0"
  shows "case r of
      Inl e \<Rightarrow> \<exists>fs. w' = w\<lparr>faults := fs\<rparr>
    | Inr saved \<Rightarrow> \<exists>t fs. tenant_at w (tn_ID body) = Some t \<and>
        (tn_CfApiEndpoint t, tn_CfOrg t, tn_CfSpace t) = (tn_CfApiEndpoint body, tn_CfOrg body, tn_CfSpace body) \<and>
        saved = body\<lparr>tn_UpdatedBy := user, tn_LifecycleState := tn_LifecycleState t\<rparr> \<and>
        w' = (db_tenants_update (upd_where (\<lambda>u. tn_ID u = tn_ID body) (\<lambda>_. saved)) w)\<lparr>faults := fs\<rparr>"
  using assms by (rule UpsertCpiTenant_saves)

definition promoted :: CpiTenant where
  "promoted = demo_qa\<lparr>tn_TmsNodeRegistrationStatus := PrereqReady, tn_LifecycleState := TenantReady\<rparr>"

definition demo_single :: world where
  "demo_single = demo_world\<lparr>db_tenants := [demo_qa]\<rparr>"

theorem UpsertCpiTenant_trusts_body_witness:
  "\<exists>saved w'. run_state (UpsertCpiTenant promoted ''ann'') demo_single = (Inr saved, w') \<and>
     tn_TmsNodeRegistrationStatus saved = PrereqReady \<and> tn_LifecycleState saved = tn_LifecycleState demo_qa"
proof -
  have "\<not> isl (fst (run_state (UpsertCpiTenant promoted ''ann'') demo_single))" by code_simp
  from run_ok [OF this] obtain saved w' where r: "run_state (UpsertCpiTenant promoted ''ann'') demo_single = (Inr saved, w')"
    by blast
  moreover have "tn_ID promoted \<noteq> 0" by (simp add: promoted_def demo_qa_def)
  ultimately show ?thesis
    using UpsertCpiTenant_trusts_body [OF r]
    by (auto simp: promoted_def demo_qa_def demo_dev_def demo_single_def demo_world_def empty_world_def tenant_at_def)
qed

end
