(* ===== verification/Bootstrap.thy ===== *)
theory Bootstrap
  imports Lifecycles
begin

text \<open>
  service/tenant_inspector.go, service/tenant_bootstrapper.go, db/bootstrap_job.go and
  handler/bootstrap.go: the inspection of a subaccount, the bootstrap of a tenant in its
  synchronous phases and its goroutine, and the credentials of its destinations. The changes made
  in Cloud Foundry and in the Destination Services are recorded in cf_calls; what these services
  answer is the environment's.
\<close>

section \<open>Names\<close>

definition StepCheckCentralTmsContext :: string where "StepCheckCentralTmsContext = ''CHECK_CENTRAL_TMS_CONTEXT''"
definition StepCheckSpaceContext :: string where "StepCheckSpaceContext = ''CHECK_SPACE_CONTEXT''"
definition StepCheckDestinationService :: string where "StepCheckDestinationService = ''CHECK_DESTINATION_SERVICE''"
definition StepCheckPirApi :: string where "StepCheckPirApi = ''CHECK_PIR_API''"
definition StepCheckCasApplication :: string where "StepCheckCasApplication = ''CHECK_CAS_APPLICATION''"
definition StepCheckCasStandard :: string where "StepCheckCasStandard = ''CHECK_CAS_STANDARD''"
definition StepCheckServiceKeys :: string where "StepCheckServiceKeys = ''CHECK_SERVICE_KEYS''"
definition StepCheckDestinations :: string where "StepCheckDestinations = ''CHECK_DESTINATIONS''"
definition StepRegisterTmsNode :: string where "StepRegisterTmsNode = ''REGISTER_TMS_NODE''"

text \<open>The constants of one service instance; an empty key name: no persistent key.\<close>

record Managed =
  mg_offering :: string
  mg_plan :: string
  mg_instanceName :: string
  mg_keyName :: string
  mg_missingCode :: string
  mg_parameters :: broker_params

definition DestinationLite :: Managed where
  "DestinationLite = \<lparr>mg_offering = ''destination'', mg_plan = ''lite'', mg_instanceName = ''cpidelivery-dest-lite-svc'',
     mg_keyName = [], mg_missingCode = ''DESTINATION_SERVICE'', mg_parameters = []\<rparr>"

definition PirApi :: Managed where
  "PirApi = \<lparr>mg_offering = ''it-rt'', mg_plan = ''api'', mg_instanceName = ''cpidelivery-pir-api-svc'',
     mg_keyName = ''cpidelivery-pir-api-key'', mg_missingCode = ''PIR_API'',
     mg_parameters = [(''grant-types'', [''client_credentials'', ''password'']), (''redirect-uris'', []),
       (''roles'', [''AuthGroup_IntegrationDeveloper'', ''WorkspacePackagesTransport''])]\<rparr>"

definition CasApplication :: Managed where
  "CasApplication = \<lparr>mg_offering = ''content-agent'', mg_plan = ''application'', mg_instanceName = ''cpidelivery-cas-app-svc'',
     mg_keyName = ''cpidelivery-cas-app-key'', mg_missingCode = ''CAS_APPLICATION'',
     mg_parameters = [(''roles'', [''Security Operator'', ''Admin'', ''Read'', ''Import'', ''Export''])]\<rparr>"

definition CasStandard :: Managed where
  "CasStandard = \<lparr>mg_offering = ''content-agent'', mg_plan = ''standard'', mg_instanceName = ''cpidelivery-cas-std-svc'',
     mg_keyName = ''cpidelivery-cas-std-key'', mg_missingCode = ''CAS_STANDARD'',
     mg_parameters = [(''roles'', [''Assemble''])]\<rparr>"

section \<open>Inspection\<close>

definition waiting :: "string \<Rightarrow> InspectionResult \<Rightarrow> InspectionResult" where
  "waiting code r = r\<lparr>ir_WaitingUserAction := ir_WaitingUserAction r @ [code]\<rparr>"

definition missing :: "string \<Rightarrow> InspectionResult \<Rightarrow> InspectionResult" where
  "missing code r = r\<lparr>ir_MissingItems := ir_MissingItems r @ [code]\<rparr>"

definition empty_result :: InspectionResult where
  "empty_result =
    \<lparr>ir_OrgGUID = [], ir_SpaceAccessible = False, ir_HasSpaceDeveloperRole = False,
     ir_DestinationServiceInstanceGUID = [], ir_PirApiInstanceGUID = [], ir_CasApplicationInstanceGUID = [],
     ir_CasStandardInstanceGUID = [], ir_ServiceKeyGUIDs = [], ir_DestinationExists = [],
     ir_MissingItems = [], ir_PermissionIssues = [], ir_WaitingUserAction = []\<rparr>"

definition checkSpaceContext ::
  "env \<Rightarrow> CFClient \<Rightarrow> string \<Rightarrow> CpiTenant \<Rightarrow> InspectionResult \<Rightarrow> gerr + InspectionResult" where
  "checkSpaceContext env client userID tenant result =
     (let space = tn_CfSpace tenant in
      if space = [] then ok (missing ''CF_SPACE_NOT_CONFIGURED'' result)
      else case GetSpace env client space of
        Inl e \<Rightarrow>
          if HTTPStatusCode env e = 404 then ok (waiting ''CF_SPACE_NOT_FOUND'' result)
          else if HTTPStatusCode env e \<in> {401, 403} then ok (waiting ''CF_TOKEN_UNAUTHORIZED'' result)
          else err (Errw ''get space %s: %w'' [Str space] e)
      | Inr org \<Rightarrow>
          (let r1 = result\<lparr>ir_SpaceAccessible := True,
                      ir_OrgGUID := (case org of None \<Rightarrow> ir_OrgGUID result | Some g \<Rightarrow> g)\<rparr> in
           case HasSpaceDeveloperRole env client space userID of
             Inl e \<Rightarrow>
               if HTTPStatusCode env e \<in> {401, 403} then ok (waiting ''CF_TOKEN_UNAUTHORIZED'' r1)
               else err (Errw ''roles check: %w'' [] e)
           | Inr hasDev \<Rightarrow> ok (r1\<lparr>ir_HasSpaceDeveloperRole := hasDev\<rparr>)))"

text \<open>Two layers: the entitlement, when the organisation is known, and the instance.\<close>

definition find_instance ::
  "env \<Rightarrow> CFClient \<Rightarrow> string \<Rightarrow> Managed \<Rightarrow> (string \<Rightarrow> InspectionResult \<Rightarrow> InspectionResult) \<Rightarrow>
   InspectionResult \<Rightarrow> gerr + InspectionResult" where
  "find_instance env client spaceGUID mg setGUID result =
     (case GetServiceInstanceByName env client spaceGUID (mg_instanceName mg) of
        Inl e \<Rightarrow> err (Errw ''instance check (name=%s): %w'' [Str (mg_instanceName mg)] e)
      | Inr None \<Rightarrow> ok (missing (mg_missingCode mg @ ''_INSTANCE_MISSING'') result)
      | Inr (Some guid) \<Rightarrow> ok (setGUID guid result))"

definition checkServiceInstance ::
  "env \<Rightarrow> CFClient \<Rightarrow> string \<Rightarrow> string \<Rightarrow> Managed \<Rightarrow> (string \<Rightarrow> InspectionResult \<Rightarrow> InspectionResult) \<Rightarrow>
   InspectionResult \<Rightarrow> gerr + InspectionResult" where
  "checkServiceInstance env client orgGUID spaceGUID mg setGUID result =
     (if orgGUID \<noteq> [] then
        (case IsServicePlanVisible env client orgGUID (mg_offering mg) (mg_plan mg) of
           Inl e \<Rightarrow> err (Errw ''entitlement check (offering=%s, plan=%s): %w'' [Str (mg_offering mg), Str (mg_plan mg)] e)
         | Inr entitled \<Rightarrow>
             if \<not> entitled then ok (waiting (mg_missingCode mg @ ''_ENTITLEMENT_MISSING'') result)
             else find_instance env client spaceGUID mg setGUID result)
      else find_instance env client spaceGUID mg setGUID result)"

definition checkServiceKey ::
  "env \<Rightarrow> CFClient \<Rightarrow> string \<Rightarrow> string \<Rightarrow> InspectionResult \<Rightarrow> gerr + InspectionResult" where
  "checkServiceKey env client instanceGUID label result =
     (if instanceGUID = [] then ok result
      else case GetServiceKey env client instanceGUID of
        Inl e \<Rightarrow> err (Errw ''service key check (%s): %w'' [Str label] e)
      | Inr (Some guid) \<Rightarrow> ok (result\<lparr>ir_ServiceKeyGUIDs := map_put instanceGUID guid (ir_ServiceKeyGUIDs result)\<rparr>)
      | Inr None \<Rightarrow> ok (missing (label @ ''_SERVICE_KEY_MISSING'') result))"

definition andthen :: "gerr + 'a \<Rightarrow> (gerr \<Rightarrow> gerr) \<Rightarrow> ('a \<Rightarrow> gerr + 'b) \<Rightarrow> gerr + 'b" where
  "andthen r wrap k = (case r of Inl e \<Rightarrow> err (wrap e) | Inr x \<Rightarrow> k x)"

definition checkServiceKeys :: "env \<Rightarrow> CFClient \<Rightarrow> InspectionResult \<Rightarrow> gerr + InspectionResult" where
  "checkServiceKeys env client result =
     andthen (checkServiceKey env client (ir_PirApiInstanceGUID result) (mg_missingCode PirApi) result) id (\<lambda>r1.
     andthen (checkServiceKey env client (ir_CasApplicationInstanceGUID r1) (mg_missingCode CasApplication) r1) id (\<lambda>r2.
     checkServiceKey env client (ir_CasStandardInstanceGUID r2) (mg_missingCode CasStandard) r2))"

definition requiredDestinations :: "string list" where
  "requiredDestinations = [''CloudIntegration'', ''ContentAssemblyService'', ''TransportManagementService'']"

definition note_destination :: "string list \<Rightarrow> string \<Rightarrow> InspectionResult \<Rightarrow> InspectionResult" where
  "note_destination existing name result =
     (let r1 = result\<lparr>ir_DestinationExists := map_put name (name \<in> set existing) (ir_DestinationExists result)\<rparr> in
      if name \<notin> set existing then missing (name @ ''_DESTINATION_MISSING'') r1 else r1)"

section \<open>Changes\<close>

definition cf_call :: "CfCall \<Rightarrow> unit prog" where
  "cf_call c = modify (\<lambda>w. w\<lparr>cf_calls := cf_calls w @ [c]\<rparr>)"

definition create_key :: "env \<Rightarrow> CFClient \<Rightarrow> string \<Rightarrow> message \<Rightarrow> (gerr + string) prog" where
  "create_key env client instanceGUID name =
     (case CreateServiceKey env client instanceGUID name of
        Inl e \<Rightarrow> failwith e
      | Inr guid \<Rightarrow> do { _ \<leftarrow> cf_call (CfCreateKey client instanceGUID name guid); done_with guid })"

text \<open>A temporary key with its deferred deletion. The deletion is a best effort: its error, for instance that of
  a canceled context, is dropped.\<close>

definition delete_key :: "env \<Rightarrow> CFClient \<Rightarrow> string \<Rightarrow> unit prog" where
  "delete_key env client keyGUID =
     cf_call (CfDeleteKey client keyGUID (\<not> isl (DeleteServiceKey env client keyGUID)))"

definition with_temp_key ::
  "env \<Rightarrow> CFClient \<Rightarrow> string \<Rightarrow> message \<Rightarrow> (gerr \<Rightarrow> gerr) \<Rightarrow> (string \<Rightarrow> (gerr + 'a) prog) \<Rightarrow> (gerr + 'a) prog" where
  "with_temp_key env client instanceGUID name wrap body =
     onerr (create_key env client instanceGUID name) wrap (\<lambda>keyGUID. do {
       r \<leftarrow> body keyGUID;
       _ \<leftarrow> delete_key env client keyGUID;
       State_Monad.return r
     })"

definition unix_seconds :: "time \<Rightarrow> nat" where
  "unix_seconds t = t div 10 ^ 9"

definition temp_client :: "env \<Rightarrow> CFClient \<Rightarrow> string \<Rightarrow> gerr + creds" where
  "temp_client env client keyGUID =
     andthen (GetServiceKeyCredentials env client keyGUID) (Errw ''get temp service key credentials: %w'' []) (\<lambda>creds.
     andthen (NewDestinationServiceClient env creds) (Errw ''build destination service client: %w'' []) (\<lambda>_. ok creds))"

definition checkDestinations :: "env \<Rightarrow> CFClient \<Rightarrow> InspectionResult \<Rightarrow> (gerr + InspectionResult) prog" where
  "checkDestinations env client result =
     (if ir_DestinationServiceInstanceGUID result = [] then done_with result
      else do {
        now \<leftarrow> gets clock;
        with_temp_key env client (ir_DestinationServiceInstanceGUID result)
          (Errf ''cpidelivery-inspect-%d'' [Num (unix_seconds now)])
          (Errw ''create temp service key for destination check: %w'' []) (\<lambda>keyGUID.
          State_Monad.return
            (andthen (temp_client env client keyGUID) id (\<lambda>creds.
             andthen (ListDestinations env creds) (Errw ''list destinations: %w'' []) (\<lambda>existing.
             ok (fold (note_destination existing) requiredDestinations result)))))
      })"

definition NewTenantInspector :: "env \<Rightarrow> string \<Rightarrow> string \<Rightarrow> gerr + string" where
  "NewTenantInspector env cfAPIURL bearerToken =
     andthen (ExtractUserID env bearerToken) (Errw ''inspector: extract user_id from token: %w'' []) (\<lambda>userID.
     andthen (NewCFClient env (cfAPIURL, bearerToken)) (Errw ''inspector: create CF client: %w'' []) (\<lambda>_. ok userID))"

definition at_step :: "string \<Rightarrow> gerr \<Rightarrow> gerr" where
  "at_step step e = Errw ''inspector: %s: %w'' [Str step] e"

definition checkInstances ::
  "env \<Rightarrow> CFClient \<Rightarrow> CpiTenant \<Rightarrow> InspectionResult \<Rightarrow> gerr + InspectionResult" where
  "checkInstances env client tenant result =
     (let check = checkServiceInstance env client (ir_OrgGUID result) (tn_CfSpace tenant) in
      andthen (check DestinationLite (\<lambda>g r. r\<lparr>ir_DestinationServiceInstanceGUID := g\<rparr>) result)
        (at_step StepCheckDestinationService) (\<lambda>r1.
      andthen (check PirApi (\<lambda>g r. r\<lparr>ir_PirApiInstanceGUID := g\<rparr>) r1) (at_step StepCheckPirApi) (\<lambda>r2.
      andthen (check CasApplication (\<lambda>g r. r\<lparr>ir_CasApplicationInstanceGUID := g\<rparr>) r2)
        (at_step StepCheckCasApplication) (\<lambda>r3.
      andthen (check CasStandard (\<lambda>g r. r\<lparr>ir_CasStandardInstanceGUID := g\<rparr>) r3)
        (at_step StepCheckCasStandard) (\<lambda>r4.
      andthen (checkServiceKeys env client r4) (at_step StepCheckServiceKeys) ok)))))"

definition InspectCfSubaccount ::
  "env \<Rightarrow> CFClient \<Rightarrow> string \<Rightarrow> CpiTenant \<Rightarrow> (gerr + InspectionResult) prog" where
  "InspectCfSubaccount env client userID tenant =
     (case checkSpaceContext env client userID tenant empty_result of
        Inl e \<Rightarrow> failwith (at_step StepCheckSpaceContext e)
      | Inr r0 \<Rightarrow>
          if \<not> ir_SpaceAccessible r0 then done_with (waiting ''CF_SPACE_NOT_ACCESSIBLE'' r0)
          else if \<not> ir_HasSpaceDeveloperRole r0 then
            done_with (r0\<lparr>ir_PermissionIssues := ir_PermissionIssues r0 @ [''OPERATOR_MISSING_SPACE_DEVELOPER_ROLE'']\<rparr>)
          else case checkInstances env client tenant r0 of
            Inl e \<Rightarrow> failwith e
          | Inr r1 \<Rightarrow>
              if ir_DestinationServiceInstanceGUID r1 \<noteq> [] then
                onerr (checkDestinations env client r1) (at_step StepCheckDestinations) done_with
              else done_with r1)"

section \<open>Destinations from credentials\<close>

definition jstr :: "string \<Rightarrow> creds \<Rightarrow> string" where
  "jstr k c = (case map_of c k of Some (JStr s) \<Rightarrow> s | _ \<Rightarrow> [])"

definition jobj :: "string \<Rightarrow> creds \<Rightarrow> creds option" where
  "jobj k c = (case map_of c k of Some (JObj m) \<Rightarrow> Some m | _ \<Rightarrow> None)"

record OAuthFields =
  oa_rawURL :: string
  oa_tokenURL :: string
  oa_clientID :: string
  oa_clientSecret :: string

definition orElse :: "string \<Rightarrow> string \<Rightarrow> string" where
  "orElse a b = (if a = [] then b else a)"

definition flat_fields :: "creds \<Rightarrow> OAuthFields" where
  "flat_fields c = \<lparr>oa_rawURL = orElse (jstr ''url'' c) (jstr ''uri'' c), oa_tokenURL = jstr ''tokenurl'' c,
     oa_clientID = jstr ''clientid'' c, oa_clientSecret = jstr ''clientsecret'' c\<rparr>"

definition uaa_fields :: "creds \<Rightarrow> OAuthFields \<Rightarrow> OAuthFields" where
  "uaa_fields c f =
     (if oa_tokenURL f = [] \<or> oa_clientID f = [] \<or> oa_clientSecret f = [] then
        (case jobj ''uaa'' c of
           None \<Rightarrow> f
         | Some uaa \<Rightarrow> f\<lparr>oa_tokenURL := orElse (oa_tokenURL f) (orElse (jstr ''tokenurl'' uaa) (jstr ''url'' uaa)),
             oa_clientID := orElse (oa_clientID f) (jstr ''clientid'' uaa),
             oa_clientSecret := orElse (oa_clientSecret f) (jstr ''clientsecret'' uaa)\<rparr>)
      else f)"

definition incomplete :: "OAuthFields \<Rightarrow> bool" where
  "incomplete f \<longleftrightarrow> oa_rawURL f = [] \<or> oa_tokenURL f = [] \<or> oa_clientID f = [] \<or> oa_clientSecret f = []"

definition oauth_fields :: "creds \<Rightarrow> OAuthFields \<Rightarrow> OAuthFields" where
  "oauth_fields c f =
     (if incomplete f then
        (case jobj ''oauth'' c of
           None \<Rightarrow> f
         | Some oauth \<Rightarrow> \<lparr>oa_rawURL = orElse (oa_rawURL f) (jstr ''url'' oauth),
             oa_tokenURL = orElse (oa_tokenURL f) (jstr ''tokenurl'' oauth),
             oa_clientID = orElse (oa_clientID f) (jstr ''clientid'' oauth),
             oa_clientSecret = orElse (oa_clientSecret f) (jstr ''clientsecret'' oauth)\<rparr>)
      else f)"

definition NormaliseTokenURL :: "string \<Rightarrow> string" where
  "NormaliseTokenURL u =
     (if HasSuffix u ''/oauth/token'' then u
      else (if \<not> HasSuffix u ''/'' then u @ ''/'' else u) @ ''oauth/token'')"

text \<open>for len(rootURL) > 0 && the last byte is a slash: cut it off.\<close>

definition trim_slashes :: "string \<Rightarrow> string" where
  "trim_slashes u = rev (dropWhile (\<lambda>c. c = CHR ''/'') (rev u))"

definition transportModuleURL :: "string \<Rightarrow> string" where
  "transportModuleURL rootURL = trim_slashes rootURL @ ''/api/1.0/transportmodule/Transport''"

definition show_bool :: "bool \<Rightarrow> string" where
  "show_bool b = (if b then ''true'' else ''false'')"

definition do_not_modify :: "string \<Rightarrow> nat \<Rightarrow> message" where
  "do_not_modify name tenantID =
     Errf ''DO NOT MODIFY. %s for tenant %d. Created by cpi-delivery bootstrap.'' [Str name, Num tenantID]"

definition buildOAuthDestination ::
  "string \<Rightarrow> (string \<Rightarrow> string) option \<Rightarrow> nat \<Rightarrow> creds \<Rightarrow> gerr + Destination" where
  "buildOAuthDestination name urlTransform tenantID c =
     (let f = oauth_fields c (uaa_fields c (flat_fields c)) in
      if incomplete f then
        err (Errf ''build destination %q: incomplete service key credentials (url=%v tokenurl=%v clientid=%v clientsecret=%v)''
          [Str name, Str (show_bool (oa_rawURL f \<noteq> [])), Str (show_bool (oa_tokenURL f \<noteq> [])),
           Str (show_bool (oa_clientID f \<noteq> [])), Str (show_bool (oa_clientSecret f \<noteq> []))])
      else ok
        \<lparr>de_Name = name, de_Description = do_not_modify name tenantID, de_Type = ''HTTP'',
         de_URL = (case urlTransform of None \<Rightarrow> oa_rawURL f | Some g \<Rightarrow> g (oa_rawURL f)),
         de_Authentication = ''OAuth2ClientCredentials'', de_ProxyType = ''Internet'',
         de_TokenServiceURL = NormaliseTokenURL (oa_tokenURL f), de_TokenServiceURLType = ''Dedicated'',
         de_ClientId = oa_clientID f, de_ClientSecret = oa_clientSecret f,
         de_User = [], de_Password = [], de_Port = [], de_SourceSystemId = []\<rparr>)"

section \<open>The applier\<close>

type_synonym actions = "(string \<times> string) list"

definition ensureServiceInstance ::
  "env \<Rightarrow> CFClient \<Rightarrow> string \<Rightarrow> string \<Rightarrow> Managed \<Rightarrow> (gerr + string) prog" where
  "ensureServiceInstance env client orgGUID spaceGUID mg =
     (case GetServiceInstanceByName env client spaceGUID (mg_instanceName mg) of
        Inl e \<Rightarrow> failwith (Errw ''check instance (name=%s): %w'' [Str (mg_instanceName mg)] e)
      | Inr (Some guid) \<Rightarrow> done_with guid
      | Inr None \<Rightarrow>
     (case GetServicePlanGUID env client orgGUID (mg_offering mg) (mg_plan mg) of
        Inl e \<Rightarrow> failwith (Errw ''get plan GUID (offering=%s, plan=%s): %w'' [Str (mg_offering mg), Str (mg_plan mg)] e)
      | Inr planGUID \<Rightarrow>
     (case CreateManagedServiceInstance env client spaceGUID planGUID (mg_instanceName mg) (mg_parameters mg) of
        Inl e \<Rightarrow> failwith (Errw ''create instance %q: %w'' [Str (mg_instanceName mg)] e)
      | Inr guid \<Rightarrow> do {
          _ \<leftarrow> cf_call (CfCreateInstance client spaceGUID planGUID (mg_instanceName mg) (mg_parameters mg));
          done_with guid
        })))"

text \<open>The instance and the key of a service; the result keeps the GUIDs.\<close>

definition ensureInstanceAndKey ::
  "env \<Rightarrow> CFClient \<Rightarrow> string \<Rightarrow> string \<Rightarrow> Managed \<Rightarrow> (InspectionResult \<Rightarrow> string) \<Rightarrow>
   (string \<Rightarrow> InspectionResult \<Rightarrow> InspectionResult) \<Rightarrow> InspectionResult \<Rightarrow> (gerr + InspectionResult \<times> actions) prog" where
  "ensureInstanceAndKey env client orgGUID spaceGUID mg getGUID setGUID result =
     onerr (if getGUID result = [] then
              onerr (ensureServiceInstance env client orgGUID spaceGUID mg) id (\<lambda>guid. done_with (setGUID guid result))
            else done_with result) id (\<lambda>r1.
     if map_of (ir_ServiceKeyGUIDs r1) (getGUID r1) \<noteq> None then done_with (r1, [])
     else onerr (create_key env client (getGUID r1) (Errf (mg_keyName mg) []))
       (Errw ''create service key (%s): %w'' [Str (mg_missingCode mg)]) (\<lambda>keyGUID.
       done_with (r1\<lparr>ir_ServiceKeyGUIDs := map_put (getGUID r1) keyGUID (ir_ServiceKeyGUIDs r1)\<rparr>,
                  [(mg_keyName mg, ''created'')])))"

definition key_credentials ::
  "env \<Rightarrow> CFClient \<Rightarrow> InspectionResult \<Rightarrow> string \<Rightarrow> gerr \<Rightarrow> (gerr \<Rightarrow> gerr) \<Rightarrow> gerr + creds" where
  "key_credentials env client result instanceGUID noKey wrap =
     (case map_of (ir_ServiceKeyGUIDs result) instanceGUID of
        None \<Rightarrow> err noKey
      | Some keyGUID \<Rightarrow> andthen (GetServiceKeyCredentials env client keyGUID) wrap ok)"

definition tms_destination :: "env \<Rightarrow> CpiTenant \<Rightarrow> CentralTmsContext \<Rightarrow> gerr + Destination list" where
  "tms_destination env tenant tmsCtx =
     (if ct_TmsApiDestinationName tmsCtx \<noteq> [] \<and> ProviderDest env then
        andthen (ProviderGetDestination env (ct_TmsApiDestinationName tmsCtx))
          (Errw ''get TMS API destination %q from provider: %w'' [Str (ct_TmsApiDestinationName tmsCtx)]) (\<lambda>tmsDest.
        case tmsDest of
          None \<Rightarrow> err (Errf ''TMS API destination %q not found in provider Destination Service'' [Str (ct_TmsApiDestinationName tmsCtx)])
        | Some dest \<Rightarrow>
            if tn_TmsSourceNodeName tenant = [] then
              err (Errf (''TmsSourceNodeName is empty '' @ em_dash @ '' Apply should have been blocked by checkTmsSourceNode'') [])
            else ok [dest\<lparr>de_Name := ''TransportManagementService'',
              de_Description := Errf ''DO NOT MODIFY. TransportManagementService for tenant %d, sourceSystemId=%s. Created by cpi-delivery bootstrap.''
                [Num (tn_ID tenant), Str (tn_TmsSourceNodeName tenant)],
              de_SourceSystemId := tn_TmsSourceNodeName tenant\<rparr>])
      else ok [])"

text \<open>A destination of an instance, when there is one.\<close>

definition instance_destination ::
  "env \<Rightarrow> CFClient \<Rightarrow> InspectionResult \<Rightarrow> nat \<Rightarrow> string \<Rightarrow> string \<Rightarrow> (string \<Rightarrow> string) option \<Rightarrow> gerr \<Rightarrow> (gerr \<Rightarrow> gerr) \<Rightarrow>
   gerr + Destination list" where
  "instance_destination env client result tenantID instanceGUID name urlTransform noKey wrap =
     (if instanceGUID \<noteq> [] then
        andthen (key_credentials env client result instanceGUID noKey wrap) id (\<lambda>c.
        andthen (buildOAuthDestination name urlTransform tenantID c) id (\<lambda>d. ok [d]))
      else ok [])"

definition buildSubscriberDestinations ::
  "env \<Rightarrow> CFClient \<Rightarrow> InspectionResult \<Rightarrow> CpiTenant \<Rightarrow> CentralTmsContext \<Rightarrow> gerr + Destination list" where
  "buildSubscriberDestinations env client result tenant tmsCtx =
     (let pir = ir_PirApiInstanceGUID result; cas = ir_CasStandardInstanceGUID result in
      andthen (instance_destination env client result (tn_ID tenant) pir ''CloudIntegration'' (Some transportModuleURL)
          (Errf ''no service key GUID for PIR api instance %q'' [Str pir]) (Errw ''get PIR api key credentials: %w'' [])) id (\<lambda>d1.
      andthen (instance_destination env client result (tn_ID tenant) cas ''ContentAssemblyService'' None
          (Errf ''no service key GUID for CAS standard instance %q'' [Str cas]) (Errw ''get CAS standard key credentials: %w'' [])) id (\<lambda>d2.
      andthen (tms_destination env tenant tmsCtx) id (\<lambda>d3. ok (d1 @ d2 @ d3)))))"

definition upsert_subscriber :: "env \<Rightarrow> creds \<Rightarrow> Destination \<Rightarrow> actions \<Rightarrow> (gerr + actions) prog" where
  "upsert_subscriber env c dest acts =
     (case GetDestination env c (de_Name dest) of
        Inl e \<Rightarrow> failwith (Errw ''check destination %q: %w'' [Str (de_Name dest)] e)
      | Inr existing \<Rightarrow>
     (case UpsertDestination env c dest of
        Inl e \<Rightarrow> failwith (Errw ''upsert destination %q: %w'' [Str (de_Name dest)] e)
      | Inr _ \<Rightarrow> do {
          _ \<leftarrow> cf_call (SubscriberUpsert dest);
          done_with (acts @ [(de_Name dest, if existing \<noteq> None then ''updated'' else ''created'')])
        }))"

definition ensureSubscriberDestinations ::
  "env \<Rightarrow> CFClient \<Rightarrow> CpiTenant \<Rightarrow> InspectionResult \<Rightarrow> CentralTmsContext \<Rightarrow> (gerr + actions) prog" where
  "ensureSubscriberDestinations env client tenant result tmsCtx =
     (if ir_DestinationServiceInstanceGUID result = [] then
        failwith (Errf ''destination service instance GUID is empty'' [])
      else do {
        now \<leftarrow> gets clock;
        with_temp_key env client (ir_DestinationServiceInstanceGUID result)
          (Errf ''cpidelivery-bootstrap-%d'' [Num (unix_seconds now)])
          (Errw ''create temp service key for destination bootstrap: %w'' []) (\<lambda>keyGUID.
          case temp_client env client keyGUID of
            Inl e \<Rightarrow> failwith e
          | Inr c \<Rightarrow>
              (case buildSubscriberDestinations env client result tenant tmsCtx of
                 Inl e \<Rightarrow> failwith e
               | Inr dests \<Rightarrow> loopE (upsert_subscriber env c) dests []))
      })"

definition upsert_provider :: "env \<Rightarrow> Destination \<Rightarrow> (gerr + unit) prog" where
  "upsert_provider env dest =
     (case ProviderUpsertDestination env dest of
        Inl e \<Rightarrow> failwith (Errw ''upsert provider dest %q: %w'' [Str (de_Name dest)] e)
      | Inr _ \<Rightarrow> do { _ \<leftarrow> cf_call (ProviderUpsert dest); done_with () })"

definition provider_destination ::
  "env \<Rightarrow> CFClient \<Rightarrow> InspectionResult \<Rightarrow> nat \<Rightarrow> string \<Rightarrow> string \<Rightarrow> string \<Rightarrow> (gerr \<Rightarrow> gerr) \<Rightarrow> gerr + Destination" where
  "provider_destination env client result tenantID instanceGUID name label wrap =
     andthen (key_credentials env client result instanceGUID
         (Errf (''ensureProviderDestinations: no service key GUID for %s instance %q '' @ em_dash @ '' inspect did not resolve a service key'')
            [Str label, Str instanceGUID]) wrap) id
       (buildOAuthDestination name None tenantID)"

text \<open>The two provider-side destinations; the tenant gets their names and the URL of the first.\<close>

definition ensureProviderDestinations ::
  "env \<Rightarrow> CFClient \<Rightarrow> CpiTenant \<Rightarrow> InspectionResult \<Rightarrow> (gerr + CpiTenant \<times> actions) prog" where
  "ensureProviderDestinations env client tenant result =
     (if \<not> ProviderDest env then
        failwith (Errf (''ensureProviderDestinations: ProviderDest is nil '' @ em_dash @ '' provider Destination Service client was not injected at startup'') [])
      else
        (let pirName = ''CPIDELIVERY_PIR_'' @ show_nat (tn_ID tenant);
             casName = ''CPIDELIVERY_CAS_'' @ show_nat (tn_ID tenant);
             pir = ir_PirApiInstanceGUID result; cas = ir_CasApplicationInstanceGUID result in
         if pir = [] then
           failwith (Errf (''ensureProviderDestinations: PIR API service instance not found in inspect result '' @ em_dash @ '' cannot build provider destination'') [])
         else case provider_destination env client result (tn_ID tenant) pir pirName ''PIR''
             (Errw ''get PIR api key credentials for provider dest: %w'' []) of
           Inl e \<Rightarrow> failwith e
         | Inr pirDest \<Rightarrow>
             onerr (upsert_provider env pirDest) id (\<lambda>_.
             if de_URL pirDest = [] then
               failwith (Errf ''ensureProviderDestinations: PIR destination %q has empty URL after credential resolution'' [Str (de_Name pirDest)])
             else if cas = [] then
               failwith (Errf (''ensureProviderDestinations: CAS application service instance not found in inspect result '' @ em_dash @ '' cannot build provider destination'') [])
             else case provider_destination env client result (tn_ID tenant) cas casName ''CAS''
                 (Errw ''get CAS application key credentials for provider dest: %w'' []) of
               Inl e \<Rightarrow> failwith e
             | Inr casDest \<Rightarrow>
                 onerr (upsert_provider env casDest) id (\<lambda>_.
                 done_with (tenant\<lparr>tn_PirApiDestinationName := pirName, tn_CasEngineDestinationName := casName,
                                   tn_PirApiUrl := de_URL pirDest\<rparr>,
                            [(de_Name pirDest, ''upserted''), (de_Name casDest, ''upserted'')])))))"

section \<open>The entry points\<close>

definition getTenantForBootstrap :: "nat \<Rightarrow> (gerr + CpiTenant) prog" where
  "getTenantForBootstrap tenantID =
     onerr (db_first db_tenants (\<lambda>t. tn_ID t = tenantID)) (Errw ''tenant %d not found: %w'' [Num tenantID]) done_with"

definition loadTmsContext :: "(gerr + CentralTmsContext) prog" where
  "loadTmsContext = onerr (db_first db_tmsctx (\<lambda>_. True)) (Errw ''central TMS context not configured: %w'' []) done_with"

definition checkCentralTmsContext :: "InspectionResult \<Rightarrow> InspectionResult prog" where
  "checkCentralTmsContext result = do {
     r \<leftarrow> loadTmsContext;
     State_Monad.return
       (if (case r of Inl _ \<Rightarrow> True | Inr tmsCtx \<Rightarrow> ct_TmsApiDestinationName tmsCtx = []) then
          waiting ''CENTRAL_TMS_NOT_CONFIGURED'' result
        else result)
   }"

definition checkTmsSourceNode :: "CpiTenant \<Rightarrow> InspectionResult \<Rightarrow> InspectionResult" where
  "checkTmsSourceNode tenant result =
     (if tn_TmsSourceNodeName tenant = [] \<or> tn_TmsNodeRegistrationStatus tenant \<noteq> PrereqReady then
        waiting ''TMS_NODE_NOT_REGISTERED'' result
      else result)"

definition PreviewBootstrap :: "env \<Rightarrow> nat \<Rightarrow> string \<Rightarrow> (gerr + nat \<times> InspectionResult) prog" where
  "PreviewBootstrap env tenantID cfToken =
     onerr (getTenantForBootstrap tenantID) id (\<lambda>tenant.
     case NewTenantInspector env (CfApiURL tenant) cfToken of
       Inl e \<Rightarrow> failwith (Errw ''preview: %w'' [] e)
     | Inr userID \<Rightarrow>
         onerr (InspectCfSubaccount env (CfApiURL tenant, cfToken) userID tenant) (Errw ''preview: inspect: %w'' []) (\<lambda>result. do {
           r2 \<leftarrow> checkCentralTmsContext (checkTmsSourceNode tenant result);
           done_with (tn_ID tenant, r2)
         }))"

text \<open>fmt's rendering of a slice of strings.\<close>

definition show_strings :: "string list \<Rightarrow> string" where
  "show_strings xs = ''['' @ (case xs of [] \<Rightarrow> [] | x # ys \<Rightarrow> x @ concat (map (\<lambda>y. '' '' @ y) ys)) @ '']''"

definition rollback :: "nat \<Rightarrow> gerr \<Rightarrow> (gerr + 'a) prog" where
  "rollback tenantID e = do { _ \<leftarrow> TransitionLifecycle tenantID EventBootstrapFailed; failwith e }"

definition new_job :: "nat \<Rightarrow> BootstrapJobType \<Rightarrow> string list \<Rightarrow> time \<Rightarrow> TenantBootstrapJob" where
  "new_job tenantID jobType missingItems now =
    \<lparr>bj_ID = 0, bj_CpiTenantID = tenantID, bj_JobType = jobType, bj_State = JobRunning, bj_CurrentStep = [],
     bj_FailureType = FailureNone, bj_ErrorDetail = no_message, bj_MissingPrerequisites = missingItems,
     bj_CredentialActions = [], bj_StartedAt = now, bj_EndedAt = None\<rparr>"

text \<open>Phase 3: the job and its goroutine.\<close>

definition launch_job ::
  "CpiTenant \<Rightarrow> nat \<Rightarrow> BootstrapJobType \<Rightarrow> string \<Rightarrow> InspectionResult \<Rightarrow> (gerr + nat) prog" where
  "launch_job tenant tenantID jobType cfToken result = do {
     now \<leftarrow> gets clock;
     r \<leftarrow> db_create Jobs db_jobs db_jobs_update bj_ID (\<lambda>n j. j\<lparr>bj_ID := n\<rparr>)
            [new_job tenantID jobType (ir_MissingItems result) now];
     case r of
       Inl e \<Rightarrow> rollback tenantID (Errw ''apply: create job: %w'' [] e)
     | Inr rows \<Rightarrow> do {
         _ \<leftarrow> spawn (TaskBootstrap tenant (bj_ID (hd rows)) cfToken result);
         done_with (bj_ID (hd rows))
       }
   }"

definition launch_if_clean ::
  "CpiTenant \<Rightarrow> nat \<Rightarrow> BootstrapJobType \<Rightarrow> string \<Rightarrow> InspectionResult \<Rightarrow> (gerr + nat) prog" where
  "launch_if_clean tenant tenantID jobType cfToken result =
     (if ir_PermissionIssues result \<noteq> [] then
        rollback tenantID (Errf ''apply: permission issues: %v'' [Str (show_strings (ir_PermissionIssues result))])
      else if ir_WaitingUserAction result \<noteq> [] then
        rollback tenantID (Errf ''apply: waiting user action: %v'' [Str (show_strings (ir_WaitingUserAction result))])
      else launch_job tenant tenantID jobType cfToken result)"

text \<open>Phases 2 and 3: in state readying, every failure rolls back.\<close>

definition inspect_and_launch ::
  "env \<Rightarrow> CpiTenant \<Rightarrow> nat \<Rightarrow> BootstrapJobType \<Rightarrow> string \<Rightarrow> (gerr + nat) prog" where
  "inspect_and_launch env tenant tenantID jobType cfToken =
     (case NewTenantInspector env (CfApiURL tenant) cfToken of
        Inl e \<Rightarrow> rollback tenantID (Errw ''apply: build inspector: %w'' [] e)
      | Inr userID \<Rightarrow> do {
          r \<leftarrow> InspectCfSubaccount env (CfApiURL tenant, cfToken) userID tenant;
          case r of
            Inl e \<Rightarrow> rollback tenantID (Errw ''apply: inspect: %w'' [] e)
          | Inr result \<Rightarrow> do {
              r2 \<leftarrow> checkCentralTmsContext (checkTmsSourceNode tenant result);
              launch_if_clean tenant tenantID jobType cfToken r2
            }
        })"

definition ApplyBootstrap :: "env \<Rightarrow> nat \<Rightarrow> string \<Rightarrow> (gerr + nat) prog" where
  "ApplyBootstrap env tenantID cfToken =
     onerr (getTenantForBootstrap tenantID) id (\<lambda>tenant.
       (let jobType = (if tn_LifecycleState tenant = TenantNotReady then JobTypeRetry else JobTypeApply) in
        onerr (TransitionLifecycle tenantID EventBootstrapStarted) (Errw ''apply: %w'' []) (\<lambda>_. do {
          _ \<leftarrow> db_update db_tenants_update (\<lambda>t. tn_ID t = tenantID) missing_prereqs;
          inspect_and_launch env tenant tenantID jobType cfToken
        })))"

definition GetBootstrapStatus :: "nat \<Rightarrow> (gerr + TenantBootstrapJob) prog" where
  "GetBootstrapStatus tenantID =
     onerr (db_load (\<lambda>w. case List.find (\<lambda>j. bj_CpiTenantID j = tenantID) (rev (db_jobs w)) of
                None \<Rightarrow> Inl RecordNotFound | Some j \<Rightarrow> Inr j))
       (Errw ''bootstrap status: %w'' []) done_with"

definition ResetBootstrap :: "nat \<Rightarrow> (gerr + unit) prog" where
  "ResetBootstrap tenantID =
     onerr (getTenantForBootstrap tenantID) id (\<lambda>tenant.
     if tn_LifecycleState tenant \<noteq> TenantReadying then
       failwith (Errf ''reset: tenant %d is not in readying state (current: %s); nothing to reset''
         [Num tenantID, Str (tenant_state_str (tn_LifecycleState tenant))])
     else do {
       now \<leftarrow> gets clock;
       onerr (db_update db_jobs_update (\<lambda>j. bj_CpiTenantID j = tenantID \<and> bj_State j = JobRunning)
                (\<lambda>j. j\<lparr>bj_State := JobFailed, bj_FailureType := FailureRemoteSystemError, bj_EndedAt := Some now\<rparr>))
         (Errw ''reset: mark job failed: %w'' []) (\<lambda>_.
       onerr (TransitionLifecycle tenantID EventBootstrapFailed) (Errw ''reset: transition lifecycle: %w'' []) done_with)
     })"

section \<open>The goroutine\<close>

definition update_job :: "nat \<Rightarrow> (TenantBootstrapJob \<Rightarrow> TenantBootstrapJob) \<Rightarrow> (gerr + unit) prog" where
  "update_job jobID f = db_update db_jobs_update (\<lambda>j. bj_ID j = jobID) f"

definition fail_job :: "nat \<Rightarrow> nat \<Rightarrow> BootstrapFailureType \<Rightarrow> string \<Rightarrow> gerr \<Rightarrow> unit prog" where
  "fail_job tenantID jobID failureType step reason = do {
     now \<leftarrow> gets clock;
     _ \<leftarrow> transaction
       (onerr (update_job jobID (\<lambda>j. j\<lparr>
            bj_State := (if failureType = FailureWaitingUserAction then JobWaitingUserAction else JobFailed),
            bj_FailureType := failureType, bj_CurrentStep := step, bj_EndedAt := Some now, bj_ErrorDetail := reason\<rparr>))
          (Errw ''update job state: %w'' []) (\<lambda>_. transitionLifecycleWithTx tenantID EventBootstrapFailed));
     _ \<leftarrow> db_update db_tenants_update (\<lambda>t. tn_ID t = tenantID) (\<lambda>t. t\<lparr>tn_BlockingReason := err_text reason\<rparr>);
     State_Monad.return ()
   }"

definition finish_job :: "nat \<Rightarrow> nat \<Rightarrow> unit prog" where
  "finish_job tenantID jobID = do {
     now \<leftarrow> gets clock;
     _ \<leftarrow> transaction
       (onerr (update_job jobID (\<lambda>j. j\<lparr>bj_State := JobFinished, bj_EndedAt := Some now\<rparr>))
          (Errw ''update job state: %w'' []) (\<lambda>_. transitionLifecycleWithTx tenantID EventBootstrapFinished));
     State_Monad.return ()
   }"

definition setStep :: "nat \<Rightarrow> string \<Rightarrow> unit prog" where
  "setStep jobID step = do {
     _ \<leftarrow> update_job jobID (\<lambda>j. j\<lparr>bj_CurrentStep := step\<rparr>);
     State_Monad.return ()
   }"

definition markReady :: "nat \<Rightarrow> (CpiTenant \<Rightarrow> CpiTenant) \<Rightarrow> unit prog" where
  "markReady tenantID field = do {
     _ \<leftarrow> db_update db_tenants_update (\<lambda>t. tn_ID t = tenantID) field;
     State_Monad.return ()
   }"

definition mark_if :: "bool \<Rightarrow> nat \<Rightarrow> (CpiTenant \<Rightarrow> CpiTenant) \<Rightarrow> unit prog" where
  "mark_if b tenantID field = (if b then markReady tenantID field else State_Monad.return ())"

type_synonym failure = "BootstrapFailureType \<times> string \<times> gerr"

definition remote :: "string \<Rightarrow> gerr \<Rightarrow> failure" where
  "remote step e = (FailureRemoteSystemError, step, e)"

text \<open>One of the three CHECK steps with an instance and a key.\<close>

definition ensure_step ::
  "env \<Rightarrow> CFClient \<Rightarrow> CpiTenant \<Rightarrow> nat \<Rightarrow> string \<Rightarrow> Managed \<Rightarrow> (InspectionResult \<Rightarrow> string) \<Rightarrow>
   (string \<Rightarrow> InspectionResult \<Rightarrow> InspectionResult) \<Rightarrow> (CpiTenant \<Rightarrow> CpiTenant) \<Rightarrow>
   InspectionResult \<times> actions \<Rightarrow> (failure + InspectionResult \<times> actions) prog" where
  "ensure_step env client tenant jobID step mg getGUID setGUID field = (\<lambda>(result, acts). do {
     _ \<leftarrow> setStep jobID step;
     onerr (ensureInstanceAndKey env client (ir_OrgGUID result) (tn_CfSpace tenant) mg getGUID setGUID result)
       (remote step) (\<lambda>(r1, new). do {
       _ \<leftarrow> mark_if (getGUID r1 \<noteq> []) (tn_ID tenant) field;
       done_with (r1, acts @ new)
     })
   })"

definition ensure_credentials ::
  "env \<Rightarrow> CFClient \<Rightarrow> CpiTenant \<Rightarrow> nat \<Rightarrow> InspectionResult \<Rightarrow> (failure + InspectionResult \<times> actions) prog" where
  "ensure_credentials env client tenant jobID result =
     onerr (ensure_step env client tenant jobID StepCheckPirApi PirApi ir_PirApiInstanceGUID
              (\<lambda>g r. r\<lparr>ir_PirApiInstanceGUID := g\<rparr>) (\<lambda>t. t\<lparr>tn_PirApiStatus := PrereqReady\<rparr>) (result, [])) id (\<lambda>s1.
     onerr (ensure_step env client tenant jobID StepCheckCasApplication CasApplication ir_CasApplicationInstanceGUID
              (\<lambda>g r. r\<lparr>ir_CasApplicationInstanceGUID := g\<rparr>) (\<lambda>t. t\<lparr>tn_CasApplicationStatus := PrereqReady\<rparr>) s1) id (\<lambda>s2.
     ensure_step env client tenant jobID StepCheckCasStandard CasStandard ir_CasStandardInstanceGUID
              (\<lambda>g r. r\<lparr>ir_CasStandardInstanceGUID := g\<rparr>) (\<lambda>t. t\<lparr>tn_CasStandardStatus := PrereqReady\<rparr>) s2))"

definition ensure_destination_service ::
  "env \<Rightarrow> CFClient \<Rightarrow> CpiTenant \<Rightarrow> nat \<Rightarrow> InspectionResult \<Rightarrow> (failure + InspectionResult) prog" where
  "ensure_destination_service env client tenant jobID result = do {
     _ \<leftarrow> setStep jobID StepCheckDestinationService;
     if ir_DestinationServiceInstanceGUID result = [] then
       onerr (ensureServiceInstance env client (ir_OrgGUID result) (tn_CfSpace tenant) DestinationLite)
         (remote StepCheckDestinationService) (\<lambda>guid. done_with (result\<lparr>ir_DestinationServiceInstanceGUID := guid\<rparr>))
     else done_with result
   }"

text \<open>CHECK_DESTINATIONS, the subscriber's part.\<close>

definition write_subscriber ::
  "env \<Rightarrow> CFClient \<Rightarrow> CpiTenant \<Rightarrow> nat \<Rightarrow> InspectionResult \<Rightarrow> (failure + actions) prog" where
  "write_subscriber env client tenant jobID result = do {
     _ \<leftarrow> setStep jobID StepCheckDestinations;
     onerr loadTmsContext (\<lambda>e. (FailureWaitingUserAction, StepCheckCentralTmsContext,
                                 Errf ''CENTRAL_TMS_NOT_CONFIGURED: %s'' [Verb e])) (\<lambda>tmsCtx.
     onerr (ensureSubscriberDestinations env client tenant result tmsCtx) (remote StepCheckDestinations) (\<lambda>acts. do {
       _ \<leftarrow> mark_if (ir_PirApiInstanceGUID result \<noteq> []) (tn_ID tenant) (\<lambda>t. t\<lparr>tn_CloudIntegrationDestStatus := PrereqReady\<rparr>);
       _ \<leftarrow> mark_if (ir_CasStandardInstanceGUID result \<noteq> []) (tn_ID tenant) (\<lambda>t. t\<lparr>tn_ContentAssemblyDestStatus := PrereqReady\<rparr>);
       _ \<leftarrow> mark_if (ProviderDest env) (tn_ID tenant) (\<lambda>t. t\<lparr>tn_TransportManagementDestStatus := PrereqReady\<rparr>);
       done_with acts
     }))
   }"

definition persist_destinations :: "CpiTenant \<Rightarrow> CpiTenant \<Rightarrow> CpiTenant" where
  "persist_destinations new t = t\<lparr>tn_CasEngineDestinationName := tn_CasEngineDestinationName new,
     tn_PirApiDestinationName := tn_PirApiDestinationName new, tn_PirApiUrl := tn_PirApiUrl new\<rparr>"

definition bootstrap_steps ::
  "env \<Rightarrow> CpiTenant \<Rightarrow> nat \<Rightarrow> string \<Rightarrow> InspectionResult \<Rightarrow> (failure + unit) prog" where
  "bootstrap_steps env tenant jobID cfToken result =
     (let client = (CfApiURL tenant, cfToken) in
      case NewCFClient env client of
        Inl e \<Rightarrow> failwith (remote [] (Errf ''build applier: %s'' [Verb (Errw ''bootstrapApplier: CF client: %w'' [] e)]))
      | Inr _ \<Rightarrow>
     onerr (ensure_credentials env client tenant jobID result) id (\<lambda>(r1, acts1).
     onerr (ensure_destination_service env client tenant jobID r1) id (\<lambda>r2.
     onerr (write_subscriber env client tenant jobID r2) id (\<lambda>acts2.
     if \<not> ProviderDest env then
       failwith (remote StepCheckDestinations
         (Errf (''ProviderDest is nil '' @ em_dash @ '' provider Destination Service client was not injected at startup'') []))
     else
     onerr (ensureProviderDestinations env client tenant r2) (remote StepCheckDestinations) (\<lambda>(t1, acts3). do {
       _ \<leftarrow> update_job jobID (\<lambda>j. j\<lparr>bj_CredentialActions := acts1 @ acts2 @ acts3\<rparr>);
       onerr (db_update db_tenants_update (\<lambda>t. tn_ID t = tn_ID tenant) (persist_destinations t1))
         (\<lambda>e. remote StepCheckDestinations (Errf ''persist destination names: %s'' [Verb e])) (\<lambda>_. do {
         _ \<leftarrow> setStep jobID StepRegisterTmsNode;
         done_with ()
       })
     })))))"

definition runBootstrap :: "env \<Rightarrow> CpiTenant \<Rightarrow> nat \<Rightarrow> string \<Rightarrow> InspectionResult \<Rightarrow> unit prog" where
  "runBootstrap env tenant jobID cfToken result = do {
     r \<leftarrow> bootstrap_steps env tenant jobID cfToken result;
     case r of
       Inl (failureType, step, reason) \<Rightarrow> fail_job (tn_ID tenant) jobID failureType step reason
     | Inr _ \<Rightarrow> finish_job (tn_ID tenant) jobID
   }"

section \<open>Handlers\<close>

definition with_tenant_id :: "string \<Rightarrow> (nat \<Rightarrow> (http + 'a) prog) \<Rightarrow> (http + 'a) prog" where
  "with_tenant_id idStr k = (case parseTenantID idStr of Inl e \<Rightarrow> failwith e | Inr i \<Rightarrow> k i)"

definition HandlePreviewBootstrap :: "env \<Rightarrow> string \<Rightarrow> string \<Rightarrow> (http + nat \<times> InspectionResult) prog" where
  "HandlePreviewBootstrap env idStr cfToken = with_tenant_id idStr (\<lambda>i.
     if cfToken = [] then failwith (400, Errf ''cfToken is required'' [])
     else onerr (PreviewBootstrap env i cfToken) (not_found_404 ''tenant not found'' 500) done_with)"

definition HandleApplyBootstrap :: "env \<Rightarrow> string \<Rightarrow> string \<Rightarrow> (http + nat) prog" where
  "HandleApplyBootstrap env idStr cfToken = with_tenant_id idStr (\<lambda>i.
     if cfToken = [] then failwith (400, Errf ''cfToken is required'' [])
     else onerr (ApplyBootstrap env i cfToken) (not_found_404 ''tenant not found'' 500) done_with)"

definition HandleRetryBootstrap :: "env \<Rightarrow> string \<Rightarrow> string \<Rightarrow> (http + nat) prog" where
  "HandleRetryBootstrap env idStr cfToken = with_tenant_id idStr (\<lambda>i.
     if cfToken = [] then failwith (400, Errf ''cfToken is required'' [])
     else onerr (ApplyBootstrap env i cfToken) (not_found_404 ''tenant not found'' 409) done_with)"

definition HandleGetBootstrapStatus :: "string \<Rightarrow> (http + TenantBootstrapJob) prog" where
  "HandleGetBootstrapStatus idStr = with_tenant_id idStr (\<lambda>i.
     onerr (GetBootstrapStatus i) (not_found_404 ''no bootstrap job found for tenant'' 500) done_with)"

definition HandleResetBootstrap :: "string \<Rightarrow> (http + nat) prog" where
  "HandleResetBootstrap idStr = with_tenant_id idStr (\<lambda>i.
     onerr (ResetBootstrap i) (not_found_404 ''tenant not found'' 409) (\<lambda>_. done_with i))"

end
