(* ===== verification/Settings.thy ===== *)
theory Settings
  imports Bootstrap
begin

text \<open>
  service/tms_node_registrar.go, service/tms_service.go and the handlers of handler/tms_node.go,
  handler/central_tms.go and handler/delivery_rule.go: the registration of a tenant's TMS node, the
  central TMS context and the delivery rules.
\<close>

section \<open>TMS clients\<close>

text \<open>The constructor of the client; its answers are those of the environment.\<close>

definition buildTmsClient :: "env \<Rightarrow> CentralTmsContext \<Rightarrow> gerr + unit" where
  "buildTmsClient env tmsCtx =
     (let name = ct_TmsApiDestinationName tmsCtx in
      if \<not> ProviderDest env then err (Errf ''ProviderDest not injected; cannot resolve TMS credentials'' [])
      else case ProviderGetDestination env name of
        Inl e \<Rightarrow> err (Errw ''get TMS API destination %q: %w'' [Str name] e)
      | Inr None \<Rightarrow> err (Errf ''TMS API destination %q not found in provider Destination Service'' [Str name])
      | Inr (Some dest) \<Rightarrow>
          if de_ClientId dest = [] \<or> de_ClientSecret dest = [] \<or> de_TokenServiceURL dest = [] then
            err (Errf ''TMS API destination %q is missing OAuth credentials (clientId/clientSecret/tokenServiceURL)'' [Str name])
          else NewTmsClient env (de_URL dest) (de_TokenServiceURL dest) (de_ClientId dest) (de_ClientSecret dest))"

definition fetchRoutesForNodeID :: "env \<Rightarrow> CentralTmsContext \<Rightarrow> nat \<Rightarrow> gerr + TransportRoute list" where
  "fetchRoutesForNodeID env tmsCtx nodeID =
     andthen (buildTmsClient env tmsCtx) (Errw ''fetchRoutesForNodeID: build TMS client: %w'' []) (\<lambda>_.
     andthen (GetRoutes env) (Errw ''fetchRoutesForNodeID: get routes: %w'' []) (\<lambda>all.
     ok (filter (\<lambda>r. rt_SourceNodeID r = nodeID \<or> rt_TargetNodeID r = nodeID) all)))"

section \<open>The TMS node of a tenant\<close>

definition ErrNodeNotRegistered :: gerr where
  "ErrNodeNotRegistered = Errf ''routes can only be queried after a TMS node has been registered'' []"

definition ErrRoutesNotConfigured :: gerr where
  "ErrRoutesNotConfigured = Errf ''routes not configured: no routes found for this source node'' []"

definition ErrAlreadyRegistering :: gerr where
  "ErrAlreadyRegistering = Errf ''TMS node is already in registering state; complete Route configuration and call confirm, or wait before re-registering'' []"

definition RegisterTmsNode :: "nat \<Rightarrow> nat \<Rightarrow> string \<Rightarrow> (gerr + unit) prog" where
  "RegisterTmsNode tenantID nodeId nodeName = transaction
     (onerr (db_first db_tenants (\<lambda>t. tn_ID t = tenantID)) id (\<lambda>t.
      if tn_TmsNodeRegistrationStatus t = PrereqRegistering then failwith ErrAlreadyRegistering
      else db_update db_tenants_update (\<lambda>t. tn_ID t = tenantID)
        (\<lambda>t. t\<lparr>tn_TmsNodeRegistrationStatus := PrereqRegistering, tn_TmsSourceNodeName := nodeName,
               tn_TmsSourceNodeID := nodeId\<rparr>)))"

definition ConfirmTmsRoutes :: "env \<Rightarrow> nat \<Rightarrow> nat \<Rightarrow> (gerr + TransportRoute list) prog" where
  "ConfirmTmsRoutes env tenantID nodeID =
     (if nodeID = 0 then failwith (Errf ''ConfirmTmsRoutes: nodeID is required'' [])
      else onerr loadTmsContext (Errw ''ConfirmTmsRoutes: get central TMS context: %w'' []) (\<lambda>tmsCtx.
        case fetchRoutesForNodeID env tmsCtx nodeID of
          Inl e \<Rightarrow> failwith (Errw ''ConfirmTmsRoutes: fetch routes: %w'' [] e)
        | Inr routes \<Rightarrow>
            if routes = [] then failwith ErrRoutesNotConfigured
            else onerr (db_update db_tenants_update (\<lambda>t. tn_ID t = tenantID)
                  (\<lambda>t. t\<lparr>tn_TmsNodeRegistrationStatus := PrereqReady, tn_CentralTmsContextID := Some (ct_ID tmsCtx)\<rparr>))
                (Errw ''ConfirmTmsRoutes: write ready: %w'' []) (\<lambda>_. done_with routes)))"

definition GetCurrentNodeRoutes :: "env \<Rightarrow> nat \<Rightarrow> (gerr + string \<times> TransportRoute list) prog" where
  "GetCurrentNodeRoutes env tenantID =
     onerr (db_first db_tenants (\<lambda>t. tn_ID t = tenantID)) id (\<lambda>tenant.
     if tn_TmsSourceNodeID tenant = 0 then failwith ErrNodeNotRegistered
     else onerr loadTmsContext (Errw ''GetCurrentNodeRoutes: get central TMS context: %w'' []) (\<lambda>tmsCtx.
       case fetchRoutesForNodeID env tmsCtx (tn_TmsSourceNodeID tenant) of
         Inl e \<Rightarrow> failwith (Errw ''GetCurrentNodeRoutes: fetch routes: %w'' [] e)
       | Inr routes \<Rightarrow> done_with (tn_TmsSourceNodeName tenant, routes)))"

definition HandleRegisterTmsNode ::
  "string \<Rightarrow> nat \<Rightarrow> string \<Rightarrow> (http + PrerequisiteStatus \<times> string) prog" where
  "HandleRegisterTmsNode idStr nodeId nodeName = with_tenant_id idStr (\<lambda>i.
     if nodeId = 0 \<or> nodeName = [] then failwith (400, Errf ''nodeId and nodeName are required'' [])
     else onerr (db_first db_tenants (\<lambda>t. tn_ID t = i)) (not_found_404 ''tenant not found'' 500) (\<lambda>tenant.
       if tn_LifecycleState tenant = TenantDraft then
         failwith (400, Errf ''complete CF Connection (Step 1) before registering a TMS node'' [])
       else onerr (RegisterTmsNode i nodeId nodeName) (\<lambda>e. (if e = ErrAlreadyRegistering then 409 else 500, e)) (\<lambda>_.
         onerr (db_first db_tenants (\<lambda>t. tn_ID t = i)) (\<lambda>e. (500, e)) (\<lambda>updated.
         done_with (tn_TmsNodeRegistrationStatus updated, tn_TmsSourceNodeName updated)))))"

definition HandleGetCurrentNodeRoutes :: "env \<Rightarrow> string \<Rightarrow> (http + string \<times> TransportRoute list) prog" where
  "HandleGetCurrentNodeRoutes env idStr = with_tenant_id idStr (\<lambda>i.
     onerr (GetCurrentNodeRoutes env i)
       (\<lambda>e. if is_not_found e then (404, Errf ''tenant not found'' [])
             else if e = ErrNodeNotRegistered then (400, e) else (500, e)) done_with)"

definition HandleConfirmTmsRoutes :: "env \<Rightarrow> string \<Rightarrow> (http + TransportRoute list) prog" where
  "HandleConfirmTmsRoutes env idStr = with_tenant_id idStr (\<lambda>i.
     onerr (db_first db_tenants (\<lambda>t. tn_ID t = i)) (not_found_404 ''tenant not found'' 500) (\<lambda>tenant.
     if tn_TmsNodeRegistrationStatus tenant \<noteq> PrereqRegistering then
       failwith (409, Errf ''confirm requires TmsNodeRegistrationStatus=registering'' [])
     else onerr (ConfirmTmsRoutes env i (tn_TmsSourceNodeID tenant))
       (\<lambda>e. if e = ErrRoutesNotConfigured then
               (400, Errf ''No routes found for this source node. Configure a Route in TMS UI and call confirm again.'' [])
             else not_found_404 ''tenant not found'' 500 e) done_with))"

section \<open>The central TMS context\<close>

text \<open>The row and the endpoint of its destination, when it resolves.\<close>

definition GetCentralTmsContext :: "env \<Rightarrow> (http + CentralTmsContext \<times> string) prog" where
  "GetCentralTmsContext env =
     onerr (db_first db_tmsctx (\<lambda>_. True)) (not_found_404 ''central TMS context not configured'' 500) (\<lambda>tmsCtx.
     done_with (tmsCtx,
       if ct_TmsApiDestinationName tmsCtx \<noteq> [] then
         (case ProviderGetDestination env (ct_TmsApiDestinationName tmsCtx) of
            Inr (Some dest) \<Rightarrow> de_URL dest
          | _ \<Rightarrow> [])
       else []))"

definition UpsertCentralTmsContext :: "CentralTmsContext \<Rightarrow> (http + CentralTmsContext) prog" where
  "UpsertCentralTmsContext input = do {
     r \<leftarrow> db_first db_tmsctx (\<lambda>_. True);
     let save = (\<lambda>c. onerr (db_save TmsCtxs db_tmsctx db_tmsctx_update ct_ID (\<lambda>n c. c\<lparr>ct_ID := n\<rparr>) c)
                   (\<lambda>e. (500, e)) done_with);
     case r of
       Inl e \<Rightarrow> if \<not> is_not_found e then failwith (500, e) else save input
     | Inr existing \<Rightarrow> save (if ct_ID existing \<noteq> 0 then input\<lparr>ct_ID := ct_ID existing\<rparr> else input)
   }"

section \<open>Delivery rules\<close>

definition HandleRuleCheck :: "env \<Rightarrow> ArtifactTenantOperation list \<Rightarrow> nat \<Rightarrow> (http + unit) prog" where
  "HandleRuleCheck env os drID =
     (if drID = 0 then failwith (400, Errf ''missing deliveryRequestID'' [])
      else onerr (QueryDrWithAssociations drID) (\<lambda>e. (500, e)) (\<lambda>acc.
        onerr (GetDeliveryRuleWithAcc (dr_DeliveryRuleID (da_dr acc))) (\<lambda>e. (500, e)) (\<lambda>(rule, included, _).
        loopE (\<lambda>op _. case DeliveryRuleCheck env op rule included of
            Inl e \<Rightarrow> failwith (400, e)
          | Inr _ \<Rightarrow> done_with ()) os ())))"

text \<open>Save under the unique index of the name.\<close>

definition save_rule_unique :: "DeliveryRule \<Rightarrow> (gerr + DeliveryRule) prog" where
  "save_rule_unique rule = do {
     taken \<leftarrow> gets (\<lambda>w. \<exists>r\<in>set (db_rules w). ru_ID r \<noteq> ru_ID rule \<and> ru_Name r = ru_Name rule);
     if taken then onerr (db_query (\<lambda>_. ())) id (\<lambda>_. failwith unique_violation)
     else save_rule rule
   }"

text \<open>The body's tenants are given with the rule; their ids become the associations.\<close>

definition save_rule_tx ::
  "env \<Rightarrow> DeliveryRule \<Rightarrow> CpiTenant list \<Rightarrow> CpiTenant list \<Rightarrow> (gerr + DeliveryRule) prog" where
  "save_rule_tx env rule included excluded =
     (case (case TmsSvc env of Inl e \<Rightarrow> Inl e | Inr _ \<Rightarrow> SourceAndRoute (GetRoutes env) (GetNodes env) included) of
        Inl e \<Rightarrow> failwith (Errf ''failed to determine source tenant and target routes/nodes: %s'' [Verb e])
      | Inr (sourceTenant, targetRoutes, targetNodes) \<Rightarrow>
          onerr (save_rule_unique (rule\<lparr>ru_SourceTenantID := tn_ID sourceTenant, ru_TargetNodes := targetNodes,
                   ru_TargetRoutes := targetRoutes\<rparr>)) id (\<lambda>saved.
          onerr (db_update db_rules_update (\<lambda>r. ru_ID r = ru_ID saved)
                   (\<lambda>r. r\<lparr>ru_IncludedTenants := map tn_ID included\<rparr>)) id (\<lambda>_.
          onerr (db_update db_rules_update (\<lambda>r. ru_ID r = ru_ID saved)
                   (\<lambda>r. r\<lparr>ru_ExcludedTenants := map tn_ID excluded\<rparr>)) id (\<lambda>_.
          done_with saved))))"

definition UpsertDeliveryRule ::
  "env \<Rightarrow> DeliveryRule \<Rightarrow> CpiTenant list \<Rightarrow> CpiTenant list \<Rightarrow> string \<Rightarrow> (http + DeliveryRule) prog" where
  "UpsertDeliveryRule env rule included excluded user =
     (if ru_Name rule = [] then failwith (400, Errf ''rule name cannot be empty'' [])
      else if ru_VersionPattern rule = [] then failwith (400, Errf ''VersionPattern cannot be empty'' [])
      else case CompileVersionPattern (Glob env) (ru_VersionPattern rule) of
        Inl e \<Rightarrow> failwith (400, e)
      | Inr _ \<Rightarrow>
          (let rule1 = rule\<lparr>ru_UpdatedBy := user, ru_CreatedBy := (if ru_ID rule = 0 then user else ru_CreatedBy rule)\<rparr> in
           onerr (transaction (save_rule_tx env rule1 included excluded))
             (\<lambda>e. if isUniqueViolation e then (409, Errf ''delivery rule name %q already exists'' [Str (ru_Name rule)])
                   else (500, e)) done_with))"

definition DeleteDeliveryRule :: "string \<Rightarrow> (http + int) prog" where
  "DeleteDeliveryRule idStr =
     (case Atoi idStr of
        None \<Rightarrow> failwith (400, Errf ''invalid id'' [])
      | Some i \<Rightarrow>
          onerr (db_delete Rules db_rules db_rules_update ru_ID (\<lambda>r. int (ru_ID r) = i)) (\<lambda>e. (500, e)) (\<lambda>_. done_with i))"

end
