(* ===== verification/Machine.thy ===== *)
theory Machine
  imports Cancel GitClaim VersionCompare Settings
begin

text \<open>
  The running service: requests arrive, goroutines run, time passes, statements fail, the process
  restarts. A handler or a goroutine (one round of a sync goroutine) is one step here; the order of
  the steps, the answers of the services and the failures are arbitrary. The invariants are about
  everything the service can do to its state.
\<close>

section \<open>Goroutines\<close>

text \<open>Each program is the body of the goroutine the task stands for. A generation that never returns
  leaves what it wrote so far.\<close>

fun run_task ::
  "env \<Rightarrow> (ArtifactTenantOperation list \<Rightarrow> ArtifactTenantOperation list) \<Rightarrow>
   (PackageSnapshot list \<Rightarrow> PackageSnapshot list) \<Rightarrow> bool \<Rightarrow> task \<Rightarrow> unit prog" where
  "run_task env arrival order ctxDone (TaskNotifyApproval drID mail comment) = notify_approval_task env drID mail comment"
| "run_task env arrival order ctxDone (TaskNotifyApproved drID msg) = notify_approved_task env drID msg"
| "run_task env arrival order ctxDone (TaskNotifyCanceled drID msg) = State_Monad.return ()"
| "run_task env arrival order ctxDone (TaskSync drID user) =
     do { _ \<leftarrow> SyncDeliveryStatus env drID user; State_Monad.return () }"
| "run_task env arrival order ctxDone (TaskImport drID node name trs os user) = import_async env drID node name trs os user"
| "run_task env arrival order ctxDone (TaskDeploy drID tenant os user) = deploy_async env drID tenant os user"
| "run_task env arrival order ctxDone (TaskRunSync drID) = sync_round env drID"
| "run_task env arrival order ctxDone (TaskSyncTick drID) = sync_tick env ctxDone drID"
| "run_task env arrival order ctxDone (TaskSyncExit drID) = FinishSync drID"
| "run_task env arrival order ctxDone (TaskGenTR tenantID drID is) =
     do { _ \<leftarrow> GenerateTransportRequest env arrival tenantID drID is; State_Monad.return () }"
| "run_task env arrival order ctxDone (TaskGitSync tech pkg type tenantID drID) =
     git_sync_task env tech pkg type tenantID drID"
| "run_task env arrival order ctxDone (TaskGitSyncOp tech pkg type tenantID drID opID) =
     git_sync_op_task env tech pkg type tenantID drID opID"
| "run_task env arrival order ctxDone (TaskJira issueKey drID msg status) = State_Monad.return ()"
| "run_task env arrival order ctxDone (TaskCollect rule source included) =
     collectVersionSnapshot env order rule source included"
| "run_task env arrival order ctxDone (TaskBootstrap tenant jobID cfToken result) =
     runBootstrap env tenant jobID cfToken result"

section \<open>Requests\<close>

datatype request =
  ReqCreateDr DeliveryRequest DeliveryRule string
| ReqUpdateDr DeliveryRequest DeliveryRule string
| ReqDeleteDr string
| ReqInsertOps "ArtifactTenantOperation list" nat string
| ReqUpdateOps "OpUpdateItem list" nat string
| ReqDeleteOps "nat list" nat
| ReqApproval "string list" nat string string
| ReqApprove nat string
| ReqImport DeliverOpRequest string
| ReqDeploy DeliverOpRequest string
| ReqSync string string
| ReqCancel nat string string
| ReqGenTR string nat "nat list option"
| ReqGitSync string nat ArtifactType string
| ReqInvalidate string
| ReqTrigger string string
| ReqIncluded "IncludedPackageInput list" string
| ReqCreateFromMismatch string CreateDRFromMismatchRequest string
| ReqAdhoc "nat list"
| ReqUpsertTenant CpiTenant string
| ReqDeleteTenant string
| ReqSaveIdentity string CfIdentityInput string
| ReqPreview string string
| ReqApply string string
| ReqRetry string string
| ReqReset string
| ReqRegisterNode string nat string
| ReqConfirmRoutes string
| ReqCentralTms CentralTmsContext
| ReqUpsertRule DeliveryRule "CpiTenant list" "CpiTenant list" string
| ReqDeleteRule string

definition ignore :: "'a prog \<Rightarrow> unit prog" where
  "ignore m = do { _ \<leftarrow> m; State_Monad.return () }"

text \<open>The routes of the service; the answer to the client is of no consequence here.\<close>

fun serve ::
  "env \<Rightarrow> (ArtifactTenantOperation list \<Rightarrow> ArtifactTenantOperation list) \<Rightarrow>
   (PackageSnapshot list \<Rightarrow> PackageSnapshot list) \<Rightarrow> request \<Rightarrow> unit prog" where
  "serve env arrival order (ReqCreateDr body rule user) = ignore (CreateDr body rule user)"
| "serve env arrival order (ReqUpdateDr body rule user) = ignore (UpdateDr body rule user)"
| "serve env arrival order (ReqDeleteDr raw) = ignore (DeleteDr raw)"
| "serve env arrival order (ReqInsertOps os drID user) = ignore (HandleInsertOps env os drID user)"
| "serve env arrival order (ReqUpdateOps items drID user) = ignore (HandleUpdateOps env items drID user)"
| "serve env arrival order (ReqDeleteOps is drID) = ignore (HandleDeleteOps is drID)"
| "serve env arrival order (ReqApproval approvers drID comment user) = ignore (HandleRequestApproval env approvers drID comment user)"
| "serve env arrival order (ReqApprove drID user) = ignore (HandleApproveDeliveryRequest env drID user)"
| "serve env arrival order (ReqImport req user) = ignore (HandleImportOps env req user)"
| "serve env arrival order (ReqDeploy req user) = ignore (HandleDeployOps req user)"
| "serve env arrival order (ReqSync raw user) = ignore (HandleSyncState env raw user)"
| "serve env arrival order (ReqCancel drID reason user) = ignore (HandleCancelDr env drID reason user)"
| "serve env arrival order (ReqGenTR raw drID is) = ignore (HandleGenTR env arrival raw drID is)"
| "serve env arrival order (ReqGitSync tech tenantID type pkg) = ignore (HandleTriggerGitSync env tech tenantID type pkg)"
| "serve env arrival order (ReqInvalidate raw) = ignore (InvalidateGitSnapshot raw)"
| "serve env arrival order (ReqTrigger raw user) = ignore (TriggerVersionCompareHandler raw user)"
| "serve env arrival order (ReqIncluded inputs user) = ignore (UpdateIncludedPackagesHandler inputs user)"
| "serve env arrival order (ReqCreateFromMismatch raw req user) = ignore (HandleCreateDRFromMismatch env raw req user)"
| "serve env arrival order (ReqAdhoc ids) = ignore (HandleAdhocVersionCompare env order ids)"
| "serve env arrival order (ReqUpsertTenant body user) = ignore (UpsertCpiTenant body user)"
| "serve env arrival order (ReqDeleteTenant raw) = ignore (DeleteCpiTenant raw)"
| "serve env arrival order (ReqSaveIdentity raw input token) = ignore (HandleSaveCfIdentity env raw input token)"
| "serve env arrival order (ReqPreview raw token) = ignore (HandlePreviewBootstrap env raw token)"
| "serve env arrival order (ReqApply raw token) = ignore (HandleApplyBootstrap env raw token)"
| "serve env arrival order (ReqRetry raw token) = ignore (HandleRetryBootstrap env raw token)"
| "serve env arrival order (ReqReset raw) = ignore (HandleResetBootstrap raw)"
| "serve env arrival order (ReqRegisterNode raw nodeId nodeName) = ignore (HandleRegisterTmsNode raw nodeId nodeName)"
| "serve env arrival order (ReqConfirmRoutes raw) = ignore (HandleConfirmTmsRoutes env raw)"
| "serve env arrival order (ReqCentralTms input) = ignore (UpsertCentralTmsContext input)"
| "serve env arrival order (ReqUpsertRule rule included excluded user) =
     ignore (UpsertDeliveryRule env rule included excluded user)"
| "serve env arrival order (ReqDeleteRule raw) = ignore (DeleteDeliveryRule raw)"

text \<open>The requests that administer tenants, the central TMS and rules.\<close>

fun admin :: "request \<Rightarrow> bool" where
  "admin (ReqUpsertTenant body user) = True"
| "admin (ReqDeleteTenant raw) = True"
| "admin (ReqSaveIdentity raw input token) = True"
| "admin (ReqPreview raw token) = True"
| "admin (ReqApply raw token) = True"
| "admin (ReqRetry raw token) = True"
| "admin (ReqReset raw) = True"
| "admin (ReqRegisterNode raw nodeId nodeName) = True"
| "admin (ReqConfirmRoutes raw) = True"
| "admin (ReqCentralTms input) = True"
| "admin (ReqUpsertRule rule included excluded user) = True"
| "admin (ReqDeleteRule raw) = True"
| "admin req = False"

section \<open>Steps\<close>

text \<open>A restart loses the memory of the process, goroutines included, and recovers the syncs.\<close>

definition fresh_process :: "world \<Rightarrow> world" where
  "fresh_process w = w\<lparr>syncLocks := {}, tracker := Some NewSyncTracker, hub := None, spawned := []\<rparr>"

inductive sys_step_if :: "(request \<Rightarrow> bool) \<Rightarrow> world \<Rightarrow> world \<Rightarrow> bool" for allowed where
  request: "\<lbrakk>allowed req; run_state (serve env arrival order req) w = (u, w')\<rbrakk> \<Longrightarrow> sys_step_if allowed w w'"
| goroutine: "\<lbrakk>spawned w = before @ t # after;
     run_state (run_task env arrival order ctxDone t) (w\<lparr>spawned := before @ after\<rparr>) = (u, w')\<rbrakk> \<Longrightarrow> sys_step_if allowed w w'"
| restart: "run_state RecoverActiveSyncs (fresh_process w) = (u, w') \<Longrightarrow> sys_step_if allowed w w'"
| time_passes: "clock w \<le> t \<Longrightarrow> sys_step_if allowed w (w\<lparr>clock := t\<rparr>)"
| failures: "sys_step_if allowed w (w\<lparr>faults := fs\<rparr>)"
| clients: "sys_step_if allowed w (w\<lparr>hub := h\<rparr>)"

abbreviation sys_step :: "world \<Rightarrow> world \<Rightarrow> bool" where
  "sys_step \<equiv> sys_step_if (\<lambda>_. True)"

definition reachable :: "world \<Rightarrow> world \<Rightarrow> bool" where
  "reachable = sys_step\<^sup>*\<^sup>*"

text \<open>Reachable with some requests only.\<close>

definition reachable_if :: "(request \<Rightarrow> bool) \<Rightarrow> world \<Rightarrow> world \<Rightarrow> bool" where
  "reachable_if allowed = (sys_step_if allowed)\<^sup>*\<^sup>*"

inductive_cases sys_stepE [consumes 1, case_names request goroutine restart time_passes failures clients]:
  "sys_step_if allowed w w'"

section \<open>What every program keeps\<close>

text \<open>A relation that ignores all tables, locks and goroutines other than sync goroutines, and that the start
  of a sync goroutine keeps, is kept by every request and every goroutine but the sync goroutines.\<close>

locale svc_frame = ops_frame +
  assumes R_drs: "R w (db_drs_update f1 w)"
    and R_snaps: "R w (db_snaps_update f2 w)"
    and R_dead: "R w (w\<lparr>dead := dead w @ ds\<rparr>)"
    and R_syncLocks: "R w (w\<lparr>syncLocks := l\<rparr>)"
    and R_included: "R w (db_included_update f3 w)"
    and R_adhoc: "R w (w\<lparr>adhocLastRun := la\<rparr>)"
    and R_start: "state_io_rel R (StartDRSync d)"
begin

lemmas keeps = keep_return keep_bind keep_gets keep_onerr keep_loop keep_loopE keep_load keep_query keep_first
  keep_find keep_if keep_sum keep_option keep_prod

lemma keep_drs_update: "state_io_rel R (db_update db_drs_update P f)"
  by (rule keep_update) (rule R_drs)

lemma keep_ops_update: "state_io_rel R (db_update db_ops_update P f)"
  by (rule keep_update) (rule R_ops)

lemma keep_snaps_update: "state_io_rel R (db_update db_snaps_update P f)"
  by (rule keep_update) (rule R_snaps)

lemma keep_delete_drs: "state_io_rel R (db_delete t db_drs db_drs_update key P)"
  by (rule keep_delete) (rule R_trans [OF R_dead R_drs])

lemma keep_delete_ops: "state_io_rel R (db_delete t db_ops db_ops_update key P)"
  by (rule keep_delete) (rule R_trans [OF R_dead R_ops])

lemma keep_create_drs: "state_io_rel R (db_create t db_drs db_drs_update key sk rows)"
  by (rule keep_create) (rule R_trans [OF R_next R_drs], rule R_next)

lemma keep_create_ops: "state_io_rel R (db_create t db_ops db_ops_update key sk rows)"
  by (rule keep_create) (rule R_trans [OF R_next R_ops], rule R_next)

lemmas statements = keep_drs_update keep_ops_update keep_snaps_update keep_delete_drs keep_delete_ops
  keep_create_drs keep_create_ops frame_notify frame_conditions frame_jira frame_query frame_save
  frame_batch_update R_start

lemma svc_queries:
  "state_io_rel R (QueryDrWithAssociations d)" "state_io_rel R (GetDeliveryRuleWithAcc i)"
  "state_io_rel R (queryOpsWithAcco is)" "state_io_rel R (queryTenant i)"
  "state_io_rel R (preDeliverCheck req)"
  unfolding QueryDrWithAssociations_def GetDeliveryRuleWithAcc_def queryOpsWithAcco_def queryTenant_def
    preDeliverCheck_def Let_def
  by (intro keeps)+

lemma svc_determine: "state_io_rel R (DetermineOverallStatus d)"
  unfolding DetermineOverallStatus_def set_status_def Let_def by (intro keeps statements svc_queries)

lemma svc_skipped: "state_io_rel R (record_skipped d s)"
  unfolding record_skipped_def by (intro keeps statements)

lemmas services = svc_queries svc_determine svc_skipped

lemma svc_requests:
  "state_io_rel R (CreateDr body rule u)" "state_io_rel R (UpdateDr body rule u)" "state_io_rel R (DeleteDr raw)"
  unfolding CreateDr_def UpdateDr_def DeleteDr_def CreateDeliveryRequest_def DeleteDeliveryRequest_def
    dr_updates_def Let_def
  by (intro keeps statements services)+

lemma svc_ops:
  "state_io_rel R (HandleUpdateOps env items d u)" "state_io_rel R (HandleDeleteOps is d)"
  unfolding HandleUpdateOps_def HandleDeleteOps_def UpdateTenantOps_def update_op_step_def DeleteTenantOps_def
    delete_op_step_def Let_def
  by (intro keeps statements services)+

end

context svc_frame
begin

lemma keep_ignore: "state_io_rel R m \<Longrightarrow> state_io_rel R (ignore m)"
  unfolding ignore_def by (intro keeps)

lemma keep_spawn_all:
  assumes "\<And>t. t \<in> set ts \<Longrightarrow> plain_task t"
  shows "state_io_rel R (loop (\<lambda>t _. spawn t) ts ())"
  using assms by (induction ts) (auto intro!: keep_return keep_bind frame_spawn)

lemma svc_insert: "state_io_rel R (HandleInsertOps env os d u)"
  unfolding HandleInsertOps_def InsertTenantOps_def Let_def
  by (intro keeps statements services frame_spawn keep_spawn_all)
    (auto simp: git_sync_tasks_def split: if_splits)

lemma svc_approval:
  "state_io_rel R (HandleRequestApproval env as d c u)" "state_io_rel R (HandleApproveDeliveryRequest env d u)"
  unfolding HandleRequestApproval_def RequestApproval_def HandleApproveDeliveryRequest_def Approve_def
    approve_rest_def dr_updates_def Let_def
  by (intro keeps statements services frame_spawn; simp)+

lemma svc_deliver:
  "state_io_rel R (HandleImportOps env req u)" "state_io_rel R (HandleDeployOps req u)"
  "state_io_rel R (import_async env d n nm trs os u)" "state_io_rel R (deploy_async env d tn ps u)"
  unfolding HandleImportOps_def BatchImportTenantOps_def HandleDeployOps_def BatchDeployTenantOps_def
    import_async_def deploy_async_def Let_def
  by (intro keeps statements services frame_spawn; simp)+

lemma svc_sync: "state_io_rel R (SyncDeliveryStatus env d u)"
proof (rule io_of_wp, rule SyncDeliveryStatus_wp)
  fix w
  have "state_io_rel R (sync_locked env d u)"
    unfolding sync_locked_def Let_def by (intro keeps statements services frame_sync_body)
  then show "wp (sync_locked env d u) (\<lambda>r w1. R w (w1\<lparr>syncLocks := syncLocks w\<rparr>))
      (w\<lparr>syncLocks := insert d (syncLocks w)\<rparr>)"
    by (rule wp_rel) (metis R_syncLocks R_trans)
qed (rule R_refl)

lemma svc_handle_sync: "state_io_rel R (HandleSyncState env raw u)"
  unfolding HandleSyncState_def Let_def by (intro keeps svc_sync)

lemma svc_cancel: "state_io_rel R (HandleCancelDr env d rs u)"
  unfolding HandleCancelDr_def CancelDeliveryRequest_def cancel_now_def dr_updates_def Let_def
  by (intro keeps statements services svc_sync frame_spawn; simp)

lemma svc_notify:
  "state_io_rel R (notify_approval_task env d m c)" "state_io_rel R (notify_approved_task env d msg)"
  unfolding notify_approval_task_def notify_approved_task_def by (intro keeps statements)+

lemma svc_poll_results: "state_io_rel R (receive_result d export op s)"
  unfolding receive_result_def set_tr_failed_def write_back_def
  by (cases s; simp only: prod.case) (intro keeps statements)

lemma svc_generate: "state_io_rel R (GenerateTransportRequest env arrival t d is)"
  unfolding GenerateTransportRequest_def set_generating_def acquireTenantForTR_def fatalf_def set_tr_failed_def
    ensureCasGUIDs_def persist_guid_def Let_def
  by (intro keeps statements svc_poll_results)

lemma svc_handle_generate: "state_io_rel R (HandleGenTR env arrival raw d is)"
  unfolding HandleGenTR_def by (intro keeps svc_generate)

lemma svc_create_snapshot: "state_io_rel R (create_snapshot row)"
  unfolding create_snapshot_def
  by (rule keep_stmt) (auto simp: Let_def intro: R_next R_trans [OF R_next R_snaps])

lemma svc_reclaim: "state_io_rel R (reclaim_snapshot req i P now)"
  unfolding reclaim_snapshot_def by (intro keeps keep_stmt) (simp add: R_snaps)

lemma svc_git_sync: "state_io_rel R (TriggerGitSync env a p t i d)"
  unfolding TriggerGitSync_def gitSync_def downloadArtifactZip_def recordNotFoundSnapshot_def push_artifact_def
    claimGitSyncSnapshot_def claim_existing_def completeSnapshot_def Let_def
  by (intro keeps statements svc_create_snapshot svc_reclaim)

lemma svc_git:
  "state_io_rel R (git_sync_task env a p t i d)" "state_io_rel R (git_sync_op_task env a p t i d oi)"
  "state_io_rel R (HandleTriggerGitSync env a i t p)" "state_io_rel R (InvalidateGitSnapshot raw)"
  unfolding git_sync_task_def git_sync_op_task_def writeGitSyncCondition_def HandleTriggerGitSync_def
    InvalidateGitSnapshot_def InvalidateSnapshot_def
  by (intro keeps statements svc_git_sync)+

lemma svc_mismatch: "state_io_rel R (CreateDRFromMismatch env i req u)"
  unfolding CreateDRFromMismatch_def CreateDeliveryRequest_def InsertTenantOps_def Let_def
  by (intro keeps statements services frame_spawn keep_spawn_all)
    (auto simp: git_sync_tasks_def split: if_splits)

lemma svc_included: "state_io_rel R (UpdateIncludedPackages inputs u)"
proof -
  have "state_io_rel R (insert_included u x s)" for x s
    unfolding insert_included_def
    by (intro keeps keep_create_unique) (auto intro: R_next R_trans [OF R_next R_included])
  moreover have "state_io_rel R clear_included"
    unfolding clear_included_def by (rule keep_stmt) (auto intro: R_included)
  ultimately show ?thesis
    unfolding UpdateIncludedPackages_def by (intro keep_transaction keeps R_next)
qed

lemma svc_adhoc: "state_io_rel R (AdhocVersionCompare env order ids)"
  unfolding AdhocVersionCompare_def set_adhocLastRun_def Let_def by (intro keeps keep_modify R_adhoc)

lemma svc_compare:
  "state_io_rel R (HandleCreateDRFromMismatch env raw req u)" "state_io_rel R (UpdateIncludedPackagesHandler inputs u)"
  "state_io_rel R (HandleAdhocVersionCompare env order ids)"
  unfolding HandleCreateDRFromMismatch_def UpdateIncludedPackagesHandler_def HandleAdhocVersionCompare_def
  by (intro keeps svc_mismatch svc_included svc_adhoc)+

lemmas svc_programs = keep_ignore svc_requests svc_ops svc_insert svc_approval svc_deliver svc_handle_sync
  svc_cancel svc_handle_generate svc_git svc_compare

lemma svc_serve: "\<lbrakk>\<And>raw u. req \<noteq> ReqTrigger raw u; \<not> admin req\<rbrakk> \<Longrightarrow> state_io_rel R (serve env arrival order req)"
  by (cases req) (auto simp: svc_programs)

lemma svc_task: "plain_task t \<Longrightarrow> state_io_rel R (run_task env arrival order ctxDone t)"
  by (cases t)
    (auto intro!: keep_return keep_bind svc_notify svc_sync svc_deliver svc_generate svc_git)

lemma svc_recover: "state_io_rel R RecoverActiveSyncs"
  unfolding RecoverActiveSyncs_def by (intro keeps R_start)

end

text \<open>A relation that ignores the snapshots of comparisons and their goroutines too.\<close>

locale compare_frame = svc_frame +
  assumes R_vcsnaps: "R w (db_vcsnaps_update f4 w)"
    and R_collect: "R w (w\<lparr>spawned := spawned w @ [TaskCollect rule source included]\<rparr>)"
begin

lemma cmp_trigger: "state_io_rel R (TriggerVersionCompareHandler raw u)"
proof -
  have claim: "state_io_rel R (claim_run found i u)" for found i
  proof -
    have "state_io_rel R (claim_update i now u)" for now
      unfolding claim_update_def by (rule keep_stmt) (auto simp: Let_def intro: R_vcsnaps)
    moreover have "state_io_rel R (create_vcsnap s)" for s
      unfolding create_vcsnap_def
      by (intro keep_create_unique) (auto intro: R_next R_trans [OF R_next R_vcsnaps])
    ultimately show ?thesis unfolding claim_run_def by (intro keeps)
  qed
  have "state_io_rel R (spawn (TaskCollect rule source included))" for rule source included
    unfolding spawn_def by (intro keep_modify R_collect)
  with claim have "state_io_rel R (TriggerVersionCompare i u)" for i
    unfolding TriggerVersionCompare_def Let_def by (intro keeps)
  then show ?thesis
    unfolding TriggerVersionCompareHandler_def by (intro keeps trigger_status_rel)
qed

lemma cmp_collect: "state_io_rel R (collectVersionSnapshot env order rule source included)"
proof -
  have "state_io_rel R (complete_with i f)" for i f
    unfolding complete_with_def by (intro keeps keep_update R_vcsnaps)
  then show ?thesis
    unfolding collectVersionSnapshot_def completeWithError_def loadIncludedPackageFilter_def Let_def
    by (intro keeps)
qed

lemma cmp_serve: "\<not> admin req \<Longrightarrow> state_io_rel R (serve env arrival order req)"
  by (cases req) (simp_all add: svc_programs cmp_trigger)

lemma cmp_task: "\<lbrakk>sync_task t = None; \<And>tn j k r. t \<noteq> TaskBootstrap tn j k r\<rbrakk> \<Longrightarrow> state_io_rel R (run_task env arrival order ctxDone t)"
  by (cases t) (auto intro!: svc_task cmp_collect simp del: run_task.simps simp add: run_task.simps(14))

end

text \<open>A relation that ignores the tables of the administration, the calls made outside and the goroutines
  of bootstraps.\<close>

locale admin_frame = kept_relation +
  assumes A_next: "R w (w\<lparr>next_id := n\<rparr>)"
    and A_dead: "\<forall>p\<in>set ds. fst p \<in> {Tenants, Rules} \<Longrightarrow> R w (w\<lparr>dead := dead w @ ds\<rparr>)"
    and R_tenants: "R w (db_tenants_update f4 w)"
    and R_jobs: "R w (db_jobs_update f5 w)"
    and R_tmsctx: "R w (db_tmsctx_update f6 w)"
    and R_rules: "R w (db_rules_update f7 w)"
    and R_calls: "R w (w\<lparr>cf_calls := cs\<rparr>)"
    and R_boot: "R w (w\<lparr>spawned := spawned w @ [TaskBootstrap tenant jobID token result]\<rparr>)"
begin

lemmas adm_keeps = keep_return keep_bind keep_gets keep_onerr keep_loop keep_loopE keep_load keep_query keep_first
  keep_find keep_if keep_sum keep_option keep_prod

lemma adm_ignore: "state_io_rel R m \<Longrightarrow> state_io_rel R (ignore m)"
  unfolding ignore_def by (intro adm_keeps)

lemma keep_tenants_update: "state_io_rel R (db_update db_tenants_update P f)"
  by (rule keep_update) (rule R_tenants)

lemma keep_jobs_update: "state_io_rel R (update_job i f)"
  unfolding update_job_def by (rule keep_update) (rule R_jobs)

lemma keep_call: "state_io_rel R (cf_call c)"
  unfolding cf_call_def by (rule keep_modify) (rule R_calls)

lemma adm_transition:
  "state_io_rel R (transitionLifecycleWithTx i ev)" "state_io_rel R (TransitionLifecycle i ev)"
proof -
  show *: "state_io_rel R (transitionLifecycleWithTx i ev)"
    unfolding transitionLifecycleWithTx_def by (intro adm_keeps keep_tenants_update)
  show "state_io_rel R (TransitionLifecycle i ev)"
    unfolding TransitionLifecycle_def by (intro keep_transaction * A_next)
qed

lemma adm_update_tenant: "state_io_rel R (update_tenant i f)"
  unfolding update_tenant_def by (rule keep_stmt) (auto intro: R_refl R_tenants)

lemma adm_tenants:
  "state_io_rel R (UpsertCpiTenant body user)" "state_io_rel R (DeleteCpiTenant raw)"
  "state_io_rel R (HandleSaveCfIdentity env raw input token)"
proof -
  have "state_io_rel R (create_tenant t)" for t
    unfolding create_tenant_def
    by (rule keep_stmt) (auto simp: Let_def intro: A_next R_trans [OF A_next R_tenants])
  then show "state_io_rel R (UpsertCpiTenant body user)"
    unfolding UpsertCpiTenant_def Let_def by (intro adm_keeps adm_update_tenant)
  show "state_io_rel R (DeleteCpiTenant raw)"
    unfolding DeleteCpiTenant_def by (intro adm_keeps keep_delete R_trans [OF A_dead R_tenants]) simp
  show "state_io_rel R (HandleSaveCfIdentity env raw input token)"
    unfolding HandleSaveCfIdentity_def SaveCfIdentity_def check_identity_free_def save_identity_def
    by (intro adm_keeps keep_transaction A_next adm_update_tenant adm_transition)
qed

lemma adm_create_key: "state_io_rel R (create_key env client inst name)"
  unfolding create_key_def by (intro adm_keeps keep_call)

lemma adm_inspect: "state_io_rel R (InspectCfSubaccount env client u t)"
  unfolding InspectCfSubaccount_def checkDestinations_def with_temp_key_def delete_key_def by (intro adm_keeps adm_create_key keep_call)

lemma adm_launch: "state_io_rel R (launch_job t i ty token r)"
proof -
  have "state_io_rel R (spawn (TaskBootstrap t j token r))" for j
    unfolding spawn_def by (intro keep_modify R_boot)
  then show ?thesis
    unfolding launch_job_def rollback_def
    by (intro adm_keeps adm_transition keep_create) (auto intro: A_next R_trans [OF A_next R_jobs])
qed

lemma adm_bootstrap:
  "state_io_rel R (HandlePreviewBootstrap env raw token)" "state_io_rel R (HandleApplyBootstrap env raw token)"
  "state_io_rel R (HandleRetryBootstrap env raw token)" "state_io_rel R (HandleResetBootstrap raw)"
  unfolding HandlePreviewBootstrap_def HandleApplyBootstrap_def HandleRetryBootstrap_def HandleResetBootstrap_def
    with_tenant_id_def PreviewBootstrap_def ApplyBootstrap_def ResetBootstrap_def getTenantForBootstrap_def
    inspect_and_launch_def launch_if_clean_def rollback_def checkCentralTmsContext_def loadTmsContext_def Let_def
  by (intro adm_keeps adm_inspect adm_launch adm_transition keep_tenants_update keep_update R_jobs)+

lemma adm_ensure_instance: "state_io_rel R (ensureServiceInstance env client org space mg)"
  unfolding ensureServiceInstance_def by (intro adm_keeps keep_call)

lemma adm_step: "state_io_rel R (ensure_step env client t j step mg g s f p)"
  unfolding ensure_step_def ensureInstanceAndKey_def setStep_def mark_if_def markReady_def
  by (intro adm_keeps keep_tenants_update keep_jobs_update adm_ensure_instance adm_create_key)

lemma adm_run: "state_io_rel R (runBootstrap env t j token r)"
proof -
  have "state_io_rel R (ensureSubscriberDestinations env client t r c)" for client r c
    unfolding ensureSubscriberDestinations_def upsert_subscriber_def with_temp_key_def delete_key_def
    by (intro adm_keeps keep_call adm_create_key)
  moreover have "state_io_rel R (ensureProviderDestinations env client t r)" for client r
    unfolding ensureProviderDestinations_def upsert_provider_def Let_def by (intro adm_keeps keep_call)
  ultimately show ?thesis
    unfolding runBootstrap_def bootstrap_steps_def ensure_credentials_def ensure_destination_service_def
      write_subscriber_def loadTmsContext_def setStep_def mark_if_def markReady_def fail_job_def finish_job_def Let_def
    by (intro adm_keeps keep_tenants_update keep_jobs_update adm_ensure_instance adm_step adm_transition keep_transaction A_next)
qed

lemma adm_settings:
  "state_io_rel R (HandleRegisterTmsNode raw nodeId nodeName)" "state_io_rel R (HandleConfirmTmsRoutes env raw)"
  "state_io_rel R (UpsertCentralTmsContext input)" "state_io_rel R (UpsertDeliveryRule env rule included excluded user)"
  "state_io_rel R (DeleteDeliveryRule raw)"
proof -
  show "state_io_rel R (HandleRegisterTmsNode raw nodeId nodeName)" "state_io_rel R (HandleConfirmTmsRoutes env raw)"
    unfolding HandleRegisterTmsNode_def HandleConfirmTmsRoutes_def with_tenant_id_def RegisterTmsNode_def
      ConfirmTmsRoutes_def loadTmsContext_def
    by (intro adm_keeps keep_tenants_update keep_transaction A_next)+
  show "state_io_rel R (UpsertCentralTmsContext input)"
    unfolding UpsertCentralTmsContext_def Let_def
    by (intro adm_keeps keep_save R_trans [OF A_next R_tmsctx] R_tmsctx A_next)
  have "state_io_rel R (save_rule_unique r)" for r
    unfolding save_rule_unique_def save_rule_def by (intro adm_keeps keep_save R_trans [OF A_next R_rules] R_rules A_next)
  then show "state_io_rel R (UpsertDeliveryRule env rule included excluded user)"
    unfolding UpsertDeliveryRule_def save_rule_tx_def Let_def
    by (intro adm_keeps keep_transaction A_next keep_update R_rules)
  show "state_io_rel R (DeleteDeliveryRule raw)"
    unfolding DeleteDeliveryRule_def by (intro adm_keeps keep_delete R_trans [OF A_dead R_rules]) simp
qed

lemma adm_serve: "admin req \<Longrightarrow> state_io_rel R (serve env arrival order req)"
  by (cases req) (simp_all add: adm_ignore adm_tenants adm_bootstrap adm_settings)

end

text \<open>A relation that ignores everything but the sync goroutines and their tracker.\<close>

locale full_frame = compare_frame + admin_frame
begin

lemma full_serve: "state_io_rel R (serve env arrival order req)"
  by (cases "admin req") (simp_all add: cmp_serve adm_serve)

lemma full_task: "sync_task t = None \<Longrightarrow> state_io_rel R (run_task env arrival order ctxDone t)"
  by (cases "\<exists>tn j k r. t = TaskBootstrap tn j k r") (auto intro: adm_run cmp_task)

end

section \<open>The sync goroutines and their tracker\<close>

definition sync_count :: "world \<Rightarrow> nat \<Rightarrow> nat" where
  "sync_count w d = length (filter (\<lambda>t. sync_task t = Some d) (spawned w))"

definition tracked :: "world \<Rightarrow> nat \<Rightarrow> bool" where
  "tracked w d \<longleftrightarrow> (case tracker w of None \<Rightarrow> False | Some T \<Rightarrow> d \<in> T)"

text \<open>As many sync goroutines were started as requests became tracked.\<close>

definition balanced :: "world \<Rightarrow> world \<Rightarrow> bool" where
  "balanced w w' \<longleftrightarrow> (tracker w' = None \<longleftrightarrow> tracker w = None) \<and>
     (\<forall>d. sync_count w' d + of_bool (tracked w d) = sync_count w d + of_bool (tracked w' d))"

lemma balanced_trans: "\<lbrakk>balanced u v; balanced v w\<rbrakk> \<Longrightarrow> balanced u w"
proof -
  assume a: "balanced u v" "balanced v w"
  have "sync_count w d + of_bool (tracked u d) = sync_count u d + of_bool (tracked w d)" for d
  proof -
    have "sync_count v d + of_bool (tracked u d) = sync_count u d + of_bool (tracked v d)"
      and "sync_count w d + of_bool (tracked v d) = sync_count v d + of_bool (tracked w d)"
      using a unfolding balanced_def by blast+
    then show ?thesis by linarith
  qed
  then show ?thesis using a by (simp add: balanced_def)
qed

lemma balanced_same: "\<lbrakk>tracker w' = tracker w; \<And>d. sync_count w' d = sync_count w d\<rbrakk> \<Longrightarrow> balanced w w'"
  by (simp add: balanced_def tracked_def)

lemma balanced_start: "state_io_rel balanced (StartDRSync d)"
proof (rule io_of_wp)
  fix w
  show "wp (StartDRSync d) (\<lambda>r w'. balanced w w') w"
  proof (cases "tracker w")
    case None
    then show ?thesis by (simp add: StartDRSync_def wp_simps balanced_same)
  next
    case (Some T)
    have "balanced w (w\<lparr>tracker := Some (insert d T), spawned := spawned w @ [TaskRunSync d]\<rparr>)" if "d \<notin> T"
      using Some that by (simp add: balanced_def tracked_def sync_count_def)
    then show ?thesis using Some
      by (simp add: StartDRSync_def wp_simps TryStart_def balanced_same)
  qed
qed

interpretation sync_bal: full_frame balanced
proof
  show "balanced w w" for w by (rule balanced_same) simp_all
  show "balanced u w" if "balanced u v" "balanced v w" for u v w using that by (rule balanced_trans)
qed (auto intro!: balanced_same balanced_start simp: sync_count_def)

text \<open>The invariant: a request is tracked exactly when one goroutine is at work for it.\<close>

definition syncs_ok :: "world \<Rightarrow> bool" where
  "syncs_ok w \<longleftrightarrow> tracker w \<noteq> None \<and> (\<forall>d. sync_count w d = of_bool (tracked w d))"

lemma balanced_ok: "\<lbrakk>balanced w w'; syncs_ok w\<rbrakk> \<Longrightarrow> syncs_ok w'"
proof -
  assume b: "balanced w w'" and ok: "syncs_ok w"
  have "sync_count w' d = of_bool (tracked w' d)" for d
  proof -
    have "sync_count w' d + of_bool (tracked w d) = sync_count w d + of_bool (tracked w' d)"
      using b unfolding balanced_def by blast
    moreover have "sync_count w d = of_bool (tracked w d)" using ok unfolding syncs_ok_def by blast
    ultimately show ?thesis by simp
  qed
  then show ?thesis using b ok by (simp add: balanced_def syncs_ok_def)
qed

lemma wp_ok: "\<lbrakk>state_io_rel balanced m; syncs_ok w\<rbrakk> \<Longrightarrow> wp m (\<lambda>r w'. syncs_ok w') w"
  by (erule wp_rel) (rule balanced_ok)

lemma sync_count_split:
  assumes "spawned w = before @ t # after"
  shows "sync_count w d = sync_count (w\<lparr>spawned := before @ after\<rparr>) d + of_bool (sync_task t = Some d)"
  using assms by (simp add: sync_count_def)

lemma wp_both:
  assumes "state_io_rel R m" and "state_io_rel S m" and "\<And>r w'. \<lbrakk>R w w'; S w w'\<rbrakk> \<Longrightarrow> Q r w'"
  shows "wp m Q w"
  using wp_of_io [OF assms(1), of w] wp_of_io [OF assms(2), of w] assms(3) by (simp add: wp_run_state)

text \<open>A round starts and ends with the request tracked; its goroutine goes on waiting, or is about to
  leave.\<close>

lemma round_ok:
  assumes v: "tracker v \<noteq> None" "\<And>e. sync_count v e + of_bool (e = d) = of_bool (tracked v e)"
  shows "wp (sync_round env d) (\<lambda>r w'. syncs_ok w') v"
proof -
  have last: "syncs_ok (w\<lparr>spawned := spawned w @ [t]\<rparr>)"
    if "balanced v w" "same_locks v w" "sync_task t = Some d" for w t
  proof -
    have "sync_count w e + of_bool (tracked v e) = sync_count v e + of_bool (tracked w e)" for e
      using that(1) unfolding balanced_def by blast
    moreover have "tracked w e = tracked v e" for e using that(2) by (simp add: same_locks_def tracked_def)
    ultimately have "sync_count w e + of_bool (e = d) = of_bool (tracked w e)" for e
      using v(2) [of e] by simp
    moreover have "tracked (w\<lparr>spawned := ts\<rparr>) e = tracked w e" for e ts by (simp add: tracked_def)
    moreover have "sync_count (w\<lparr>spawned := spawned w @ [t]\<rparr>) e = sync_count w e + of_bool (e = d)" for e
      using that(3) by (auto simp: sync_count_def)
    ultimately show ?thesis using that(2) v(1) by (simp add: syncs_ok_def same_locks_def)
  qed
  show ?thesis
    unfolding sync_round_def wp_bind
  proof (rule wp_both [OF sync_bal.svc_sync locks_sync])
    fix r w1 assume 1: "balanced v w1" "same_locks v w1"
    show "wp (hasActiveOps d) (\<lambda>active. wp (spawn (if active then TaskSyncTick d else TaskSyncExit d)) (\<lambda>r w'. syncs_ok w')) w1"
    proof (rule wp_both [OF sync_bal.frame_query(4) frame_locks.frame_query(4)])
      fix active w2 assume "balanced w1 w2" "same_locks w1 w2"
      then have "balanced v w2" "same_locks v w2" using 1 balanced_trans by (auto simp: same_locks_def)
      then show "wp (spawn (if active then TaskSyncTick d else TaskSyncExit d)) (\<lambda>r w'. syncs_ok w') w2"
        unfolding wp_spawn by (rule last) simp
    qed
  qed
qed

lemma goroutine_ok:
  assumes sp: "spawned w = before @ t # after" and ok: "syncs_ok w"
  shows "wp (run_task env arrival order ctxDone t) (\<lambda>r w'. syncs_ok w') (w\<lparr>spawned := before @ after\<rparr>)"
proof (cases "sync_task t")
  case None
  let ?v = "w\<lparr>spawned := before @ after\<rparr>"
  have "syncs_ok ?v" using ok sync_count_split [OF sp] None by (simp add: syncs_ok_def tracked_def)
  then show ?thesis
    by (rule wp_ok [OF sync_bal.full_task [OF None]])
next
  case (Some d)
  let ?v = "w\<lparr>spawned := before @ after\<rparr>"
  have c: "sync_count ?v e + of_bool (e = d) = of_bool (tracked ?v e)" for e
  proof -
    have "sync_count w e = of_bool (tracked w e)" using ok unfolding syncs_ok_def by blast
    moreover have "tracked ?v e = tracked w e" by (simp add: tracked_def)
    ultimately show ?thesis using sync_count_split [OF sp, of e] Some by (cases "e = d") simp_all
  qed
  have T: "tracker ?v \<noteq> None" using ok by (simp add: syncs_ok_def)
  have exit: "wp (FinishSync d) (\<lambda>r w'. syncs_ok w') ?v"
  proof -
    let ?u = "?v\<lparr>tracker := map_option (Finish d) (tracker ?v)\<rparr>"
    have "tracked ?u e = (tracked ?v e \<and> e \<noteq> d)" for e
      by (auto simp: tracked_def Finish_def split: option.split)
    moreover have "sync_count ?u e = sync_count ?v e" for e by (simp add: sync_count_def)
    ultimately have "sync_count ?u e = of_bool (tracked ?u e)" for e
      using c [of e] by (cases "e = d"; cases "tracked ?v e") auto
    then show ?thesis using T by (simp add: FinishSync_def wp_modify syncs_ok_def)
  qed
  have last: "wp (spawn (TaskSyncExit d)) (\<lambda>r w'. syncs_ok w') ?v"
  proof -
    have "sync_count (?v\<lparr>spawned := spawned ?v @ [TaskSyncExit d]\<rparr>) e = of_bool (tracked ?v e)" for e
      using c [of e] by (auto simp: sync_count_def)
    then show ?thesis using T unfolding wp_spawn by (simp add: syncs_ok_def tracked_def)
  qed
  show ?thesis
    using Some round_ok [OF T c] exit last by (cases t) (simp_all add: sync_tick_def)
qed

lemma step_syncs_ok:
  assumes "sys_step w w'" and ok: "syncs_ok w"
  shows "syncs_ok w'"
  using assms(1)
proof (cases rule: sys_stepE)
  case (request req env arrival order)
  show ?thesis by (rule wp_run [OF wp_ok [OF sync_bal.full_serve ok] request(2)])
next
  case (goroutine before t after env arrival order ctxDone)
  show ?thesis by (rule wp_run [OF goroutine_ok [OF goroutine(1) ok] goroutine(2)])
next
  case restart
  have "syncs_ok (fresh_process w)"
    by (simp add: syncs_ok_def fresh_process_def sync_count_def tracked_def NewSyncTracker_def)
  then show ?thesis by (intro wp_run [OF wp_ok [OF sync_bal.svc_recover] restart])
next
  case (time_passes t)
  then show ?thesis using ok by (simp add: syncs_ok_def sync_count_def tracked_def)
next
  case (failures fs)
  then show ?thesis using ok by (simp add: syncs_ok_def sync_count_def tracked_def)
next
  case (clients h)
  then show ?thesis using ok by (simp add: syncs_ok_def sync_count_def tracked_def)
qed

lemma reachable_ok: "reachable w w' \<Longrightarrow> syncs_ok w \<Longrightarrow> syncs_ok w'"
  unfolding reachable_def by (induction rule: rtranclp_induct) (auto intro: step_syncs_ok)

section \<open>Closed requests\<close>

lemma closed_new_request: "state_io_rel closed_kept (CreateDeliveryRequest dr)"
proof (rule io_of_wp)
  fix w
  show "wp (CreateDeliveryRequest dr) (\<lambda>r w'. closed_kept w w') w"
    unfolding CreateDeliveryRequest_def wp_onerr
  proof (rule drs_table.wp_create; unfold sum.case wp_return)
    show "closed_kept w (w\<lparr>faults := fs, next_id := n\<rparr>)" for fs n
      by (simp add: closed_kept_def closed_in_def live_in_def)
    show "closed_kept w (db_drs_update (\<lambda>rs. rs @ rows) (w\<lparr>faults := fs, next_id := n\<rparr>))"
      if new: "set (map dr_ID rows) \<inter> set (map dr_ID (db_drs w)) = {}" "\<forall>r\<in>set rows. (Drs, dr_ID r) \<notin> set (dead w)"
      for fs n rows
      unfolding closed_kept_def closed_in_def live_in_def
      using new by (auto simp: disjoint_iff)
  qed
qed

lemma closed_create: "state_io_rel closed_kept (CreateDr body rule u)"
  unfolding CreateDr_def by (intro pres_intro closed_new_request same_drs_io [OF same_query(2)])

lemma closed_delete: "state_io_rel closed_kept (DeleteDr raw)"
proof -
  have "state_io_rel closed_kept (DeleteDeliveryRequest i)" for i
  proof (rule io_of_wp)
    fix w
    show "wp (DeleteDeliveryRequest i) (\<lambda>r w'. closed_kept w w') w"
      unfolding DeleteDeliveryRequest_def wp_onerr
    proof (rule drs_table.wp_delete; unfold sum.case wp_return)
      show "closed_kept w (w\<lparr>faults := fs\<rparr>)" for fs by (rule closed.R_faults)
      show "closed_kept w (db_drs_update (filter (\<lambda>r. dr_ID r \<noteq> i)) (w\<lparr>faults := fs,
          dead := dead w @ map (\<lambda>r. (Drs, dr_ID r)) (filter (\<lambda>d. dr_ID d = i) (db_drs w))\<rparr>))" for fs
        unfolding closed_kept_def closed_in_def live_in_def by auto
    qed
  qed
  then show ?thesis unfolding DeleteDr_def by (intro pres_intro)
qed

lemma reads_rule: "state_io_rel reads_only (GetDeliveryRuleWithAcc i)"
  unfolding GetDeliveryRuleWithAcc_def by (intro pres_intro)

lemma closed_update: "state_io_rel closed_kept (UpdateDr body rule u)"
proof (rule io_of_wp)
  fix w
  let ?Q = "\<lambda>r w'. closed_kept w w'"
  have faults: "closed_kept w (w\<lparr>faults := fs\<rparr>)" for fs by (rule closed.R_faults)
  have put: "wp (onerr (dr_updates i d) h (\<lambda>_. do { _ \<leftarrow> NotifyDrUpdated j; done_with x })) ?Q (w\<lparr>faults := fs\<rparr>)"
    if "live_in w i" for i d h j fs and x :: DeliveryRequest
    unfolding dr_updates_def wp_onerr
    by (rule drs_table.wp_update)
      (use closed_kept_update [OF that, of "dr_merge d"] faults in
        \<open>simp_all add: wp_simps closed_kept_def closed_in_def live_in_def\<close>)
  show "wp (UpdateDr body rule u) ?Q w"
    unfolding UpdateDr_def wp_onerr
  proof (rule drs_table.wp_first; unfold sum.case)
    fix fs ex assume ex: "List.find (\<lambda>d. dr_ID d = dr_ID body) (db_drs w) = Some ex"
    show "wp (if dr_AggregateStatus ex \<noteq> AggPending \<and> dr_AggregateStatus ex \<noteq> AggWaitingApprove then
       failwith (400, Errf ''only pending or waiting approval delivery request can be updated'' [])
     else onerr (GetDeliveryRuleWithAcc (ru_ID rule)) (\<lambda>e. (500, e)) (\<lambda>(rule', _, _).
       case (if dr_JiraLink ex \<noteq> dr_JiraLink body then checkJIRA (dr_JiraLink body) rule' else Inr ()) of
         Inl e \<Rightarrow> failwith (400, e)
       | Inr _ \<Rightarrow> do {
           let existing1 = (if dr_JiraLink ex \<noteq> dr_JiraLink body
                            then ex\<lparr>dr_JiraLink := dr_JiraLink body, dr_UpdatedBy := u\<rparr> else ex);
           let (existing2, body1) = (if dr_DeliveryRuleID existing1 \<noteq> ru_ID rule
                            then (existing1\<lparr>dr_DeliveryRuleID := ru_ID rule\<rparr>, body\<lparr>dr_UpdatedBy := u\<rparr>)
                            else (existing1, body));
           let existing3 = existing2\<lparr>dr_Name := dr_Name body\<rparr>;
           onerr (dr_updates (dr_ID existing3) existing3) (\<lambda>e. (500, e)) (\<lambda>_. do {
             _ \<leftarrow> NotifyDrUpdated (dr_ID existing3);
             done_with body1
           })
         })) ?Q (w\<lparr>faults := fs\<rparr>)"
    proof (cases "dr_AggregateStatus ex \<noteq> AggPending \<and> dr_AggregateStatus ex \<noteq> AggWaitingApprove")
      case True
      then show ?thesis using faults by (simp add: wp_return)
    next
      case False
      have live: "live_in w (dr_ID ex)"
        using False find_SomeD [OF ex] unfolding live_in_def by (intro bexI [of _ ex]) auto
      show ?thesis
        unfolding if_not_P [OF False] wp_onerr
        by (rule wp_reads [OF reads_rule])
          (use put [OF live] faults in \<open>auto simp: wp_return Let_def split: sum.split\<close>)
    qed
  qed (use faults in \<open>simp_all add: wp_return\<close>)
qed

lemma same_generate: "state_io_rel same_drs (GenerateTransportRequest env arrival t d is)"
  unfolding GenerateTransportRequest_def set_generating_def acquireTenantForTR_def fatalf_def set_tr_failed_def
    ensureCasGUIDs_def persist_guid_def receive_result_def write_back_def Let_def
  by (intro pres_intro) (simp_all add: same_drs_def)

lemma same_git: "state_io_rel same_drs (TriggerGitSync env a p t i d)"
  unfolding TriggerGitSync_def gitSync_def downloadArtifactZip_def recordNotFoundSnapshot_def push_artifact_def
    claimGitSyncSnapshot_def claim_existing_def completeSnapshot_def create_snapshot_def reclaim_snapshot_def Let_def
  by (intro pres_intro same_drs.keep_stmt) (simp_all add: same_drs_def)

lemma same_others:
  "state_io_rel same_drs (HandleInsertOps env os d u)" "state_io_rel same_drs (HandleUpdateOps env items d u)"
  "state_io_rel same_drs (HandleDeleteOps is d)" "state_io_rel same_drs (HandleGenTR env arrival raw d ids)"
  "state_io_rel same_drs (HandleTriggerGitSync env a i ty p)" "state_io_rel same_drs (InvalidateGitSnapshot raw)"
  "state_io_rel same_drs (notify_approval_task env d m c)" "state_io_rel same_drs (notify_approved_task env d msg)"
  "state_io_rel same_drs (git_sync_task env a p ty i d)" "state_io_rel same_drs (git_sync_op_task env a p ty i d oi)"
  unfolding HandleInsertOps_def HandleUpdateOps_def HandleDeleteOps_def HandleGenTR_def HandleTriggerGitSync_def
    InvalidateGitSnapshot_def InvalidateSnapshot_def notify_approval_task_def notify_approved_task_def
    git_sync_task_def git_sync_op_task_def writeGitSyncCondition_def
  by (intro pres_intro same_generate same_git; simp add: same_drs_def)+

lemma same_compare:
  "state_io_rel same_drs (TriggerVersionCompareHandler raw u)"
  "state_io_rel same_drs (UpdateIncludedPackagesHandler inputs u)"
  "state_io_rel same_drs (HandleAdhocVersionCompare env order is)"
  "state_io_rel same_drs (collectVersionSnapshot env order rule source included)"
  unfolding TriggerVersionCompareHandler_def TriggerVersionCompare_def claim_run_def claim_update_def create_vcsnap_def
    UpdateIncludedPackagesHandler_def UpdateIncludedPackages_def clear_included_def insert_included_def
    HandleAdhocVersionCompare_def AdhocVersionCompare_def set_adhocLastRun_def
    collectVersionSnapshot_def completeWithError_def complete_with_def loadIncludedPackageFilter_def Let_def
  by (intro pres_intro same_drs.keep_stmt same_drs.keep_create_unique same_drs.keep_transaction; simp add: same_drs_def)+

interpretation same_adm: admin_frame same_drs
  by unfold_locales (auto simp: same_drs_def)

lemma closed_mismatch: "state_io_rel closed_kept (HandleCreateDRFromMismatch env raw req u)"
  unfolding HandleCreateDRFromMismatch_def CreateDRFromMismatch_def Let_def
  by (intro pres_intro closed_new_request same_drs_io [OF same_drs_insert] same_drs_io [OF same_query(2)])

lemmas closed_programs =
  closed_create closed_delete closed_update closed_approve closed_handle_cancel closed_handle_deliver closed_import
  closed_deploy closed_handle_sync closed_sync closed_sync_round same_drs_io [OF same_generate]
  same_others [THEN same_drs_io] same_drs_io [OF same_finish] same_compare [THEN same_drs_io] closed_mismatch

lemma closed_ignore: "state_io_rel closed_kept m \<Longrightarrow> state_io_rel closed_kept (ignore m)"
  unfolding ignore_def by (intro pres_intro)

lemma closed_approval:
  "state_io_rel closed_kept (HandleRequestApproval env as d c u)"
  "state_io_rel closed_kept (HandleApproveDeliveryRequest env d u)"
  unfolding HandleRequestApproval_def HandleApproveDeliveryRequest_def by (intro pres_intro)+

lemma closed_serve: "state_io_rel closed_kept (serve env arrival order req)"
proof (cases "admin req")
  case False
  then show ?thesis by (cases req) (simp_all add: closed_ignore closed_programs closed_approval)
qed (rule same_drs_io [OF same_adm.adm_serve])

lemma closed_task: "state_io_rel closed_kept (run_task env arrival order ctxDone t)"
  by (cases t) (auto intro!: pres_intro closed_programs same_drs_io [OF same_adm.adm_run])

lemma step_closed:
  assumes "sys_step w w'" and c: "closed_in w i"
  shows "closed_in w' i"
  using assms(1)
proof (cases rule: sys_stepE)
  case (request req env arrival order)
  have "wp (serve env arrival order req) (\<lambda>r w'. closed_in w' i) w"
    by (rule wp_rel [OF closed_serve]) (use c in \<open>simp add: closed_kept_def\<close>)
  from wp_run [OF this request(2)] show ?thesis .
next
  case (goroutine before t after env arrival order ctxDone)
  have "wp (run_task env arrival order ctxDone t) (\<lambda>r w'. closed_in w' i) (w\<lparr>spawned := before @ after\<rparr>)"
    by (rule wp_rel [OF closed_task]) (use c in \<open>simp add: closed_kept_def closed_in_def live_in_def\<close>)
  from wp_run [OF this goroutine(2)] show ?thesis .
next
  case restart
  have "wp RecoverActiveSyncs (\<lambda>r w'. closed_in w' i) (fresh_process w)"
    by (rule wp_rel [OF same_drs_io [OF same_recover]])
      (use c in \<open>simp add: closed_kept_def closed_in_def live_in_def fresh_process_def\<close>)
  from wp_run [OF this restart] show ?thesis .
qed (use c in \<open>simp_all add: closed_in_def live_in_def\<close>)

section \<open>Recovery\<close>

lemma start_tracks:
  "wp (StartDRSync d) (\<lambda>r w'. tracker w \<noteq> None \<longrightarrow> tracked w' d \<and>
     (\<forall>e. tracked w e \<longrightarrow> tracked w' e) \<and> tracker w' \<noteq> None \<and>
     (\<forall>e. tracked w' e \<longrightarrow> tracked w e \<or> TaskRunSync e \<in> set (spawned w')) \<and>
     set (spawned w) \<subseteq> set (spawned w')) w"
  by (cases "tracker w") (auto simp: StartDRSync_def wp_simps TryStart_def tracked_def)

lemma recover_tracks:
  assumes f: "faults w = []"
  shows "wp RecoverActiveSyncs (\<lambda>r w'. \<forall>d\<in>set (tracked_ids w). tracked w' d \<and> TaskRunSync d \<in> set (spawned w')) (fresh_process w)"
proof -
  let ?I = "\<lambda>seen (u :: unit) w'. tracker w' \<noteq> None \<and> (\<forall>d\<in>set seen. tracked w' d) \<and>
    (\<forall>e. tracked w' e \<longrightarrow> TaskRunSync e \<in> set (spawned w'))"
  have "wp (loop (\<lambda>drID _. StartDRSync drID) ids ())
      (\<lambda>r w'. \<forall>d\<in>set ids. tracked w' d \<and> TaskRunSync d \<in> set (spawned w')) (fresh_process w)" for ids
  proof (rule wp_loop [where I = ?I])
    show "?I [] () (fresh_process w)" by (simp add: fresh_process_def tracked_def NewSyncTracker_def)
    fix x seen s w1 assume "?I seen s w1"
    then show "wp (StartDRSync x) (\<lambda>s'. ?I (seen @ [x]) s') w1"
      by (intro wp_mono [OF start_tracks]) auto
  qed auto
  moreover have "tracked_ids (fresh_process w) = tracked_ids w" by (simp add: tracked_ids_def fresh_process_def)
  moreover have "faults (fresh_process w) = []" using f by (simp add: fresh_process_def)
  ultimately show ?thesis
    unfolding RecoverActiveSyncs_def db_query_def wp_bind by (simp add: wp_stmt_ok)
qed

section \<open>Properties\<close>

text \<open>C17: a canceled or deleted request stays closed for ever: whatever requests, goroutines, restarts and
  failures follow, in any order, no live row of its id has another status than CANCELED.\<close>

theorem closed_forever:
  assumes "reachable w w'" and "closed_in w i"
  shows "closed_in w' i"
  using assms unfolding reachable_def by (induction rule: rtranclp_induct) (auto intro: step_closed)

theorem closed_forever_witness:
  "closed_in (snd (run_state (serve demo_env rev id (ReqApprove 5 ''bob''))
     (snd (run_state (serve demo_env rev id (ReqCancel 5 ''late'' ''ann'')) demo_world)))) 5"
proof -
  let ?w = "snd (run_state (serve demo_env rev id (ReqCancel 5 ''late'' ''ann'')) demo_world)"
  have r: "reachable ?w (snd (run_state (serve demo_env rev id (ReqApprove 5 ''bob'')) ?w))"
    unfolding reachable_def by (rule r_into_rtranclp, rule sys_step_if.request [OF TrueI run_split])
  have "map (\<lambda>d. (dr_AggregateStatus d, dr_ID d)) (db_drs ?w) = [(AggCanceled, 5)]"
    by code_simp
  then have "closed_in ?w 5"
    by (auto simp: closed_in_def live_in_def)
  with r show ?thesis by (rule closed_forever)
qed

text \<open>C18: the sync goroutines and their tracker agree at all times: from a state where they do, every
  state the service reaches has exactly one sync goroutine for each tracked request and none for any
  other; so no request is ever synchronised by two of them, and none is tracked without one, across
  failures and restarts.\<close>

theorem one_sync_goroutine:
  assumes "reachable w w'" and "syncs_ok w"
  shows "\<exists>T. tracker w' = Some T \<and>
    (\<forall>d. length (filter (\<lambda>t. sync_task t = Some d) (spawned w')) = (if d \<in> T then 1 else 0))"
  using reachable_ok [OF assms] by (auto simp: syncs_ok_def sync_count_def tracked_def)

theorem one_sync_goroutine_witness:
  "\<exists>T. tracker (snd (run_state (serve demo_env rev id (ReqDeleteDr ''5'')) demo_world)) = Some T"
proof -
  have "syncs_ok demo_world"
    by (simp add: syncs_ok_def demo_world_def empty_world_def sync_count_def tracked_def NewSyncTracker_def)
  moreover have "reachable demo_world (snd (run_state (serve demo_env rev id (ReqDeleteDr ''5'')) demo_world))"
    unfolding reachable_def by (rule r_into_rtranclp, rule sys_step_if.request [OF TrueI run_split])
  ultimately show ?thesis using one_sync_goroutine by blast
qed

text \<open>C19: after a restart whose query succeeds, every operation in progress of a live request is watched
  again: its request is tracked and a sync goroutine for it waits to run.\<close>

theorem restart_resumes:
  assumes "faults w = []" and "run_state RecoverActiveSyncs (fresh_process w) = (u, w')"
    and "op \<in> set (db_ops w)" and "op_ImportState op = ImportInProgress \<or> op_DeployState op = DeployInProgress"
    and "op_DeliveryRequestID op \<in> dr_ID ` set (db_drs w)"
  shows "TaskRunSync (op_DeliveryRequestID op) \<in> set (spawned w') \<and>
    (\<exists>T. tracker w' = Some T \<and> op_DeliveryRequestID op \<in> T)"
proof -
  have "op_DeliveryRequestID op \<in> set (tracked_ids w)"
    using assms(3-5) by (auto simp: tracked_ids_def active_op_def)
  then show ?thesis
    using wp_run [OF recover_tracks [OF assms(1)] assms(2)] by (auto simp: tracked_def split: option.splits)
qed

theorem restart_resumes_witness:
  "TaskRunSync 5 \<in> set (spawned (snd (run_state RecoverActiveSyncs (fresh_process demo_importing))))"
proof -
  let ?op = "demo_queued\<lparr>op_ImportState := ImportInProgress\<rparr>"
  have "faults demo_importing = []" "?op \<in> set (db_ops demo_importing)"
    "op_DeliveryRequestID ?op \<in> dr_ID ` set (db_drs demo_importing)" and d: "op_DeliveryRequestID ?op = 5"
    by (simp_all add: demo_importing_def demo_delivery_def demo_world_def empty_world_def demo_queued_def demo_op_def
        demo_approved_def demo_dr_def)
  then show ?thesis
    using restart_resumes [OF _ run_split, of demo_importing ?op] unfolding d by simp
qed

text \<open>A request whose sync goroutine has just been started, and an import of a queued operation.\<close>

definition demo_late_env :: env where
  "demo_late_env = demo_env\<lparr>ImportTransportRequest := (\<lambda>_ _. Inr 1)\<rparr>"

definition demo_late :: world where
  "demo_late = demo_delivery\<lparr>tracker := Some {5}, spawned := [TaskRunSync 5]\<rparr>"

definition late_request :: request where
  "late_request = ReqImport \<lparr>do_OpIDs = [8], do_TargetTenant = 2, do_DeliveryRequestID = 5\<rparr> ''ann''"

text \<open>A scheduler: the n-th goroutine runs next.\<close>

definition schedule :: "env \<Rightarrow> nat \<Rightarrow> world \<Rightarrow> world" where
  "schedule env n w =
     snd (run_state (run_task env rev id False (spawned w ! n)) (w\<lparr>spawned := take n (spawned w) @ drop (Suc n) (spawned w)\<rparr>))"

definition receive :: "env \<Rightarrow> request \<Rightarrow> world \<Rightarrow> world" where
  "receive env req w = snd (run_state (serve env rev id req) w)"

lemma schedule_step: "n < length (spawned w) \<Longrightarrow> sys_step w (schedule env n w)"
  unfolding schedule_def by (rule sys_step_if.goroutine [OF id_take_nth_drop run_split])

lemma receive_step: "sys_step w (receive env req w)"
  unfolding receive_def by (rule sys_step_if.request [OF TrueI run_split])

text \<open>Every goroutine named by the list runs, one after the other.\<close>

fun schedules :: "env \<Rightarrow> nat list \<Rightarrow> world \<Rightarrow> world option" where
  "schedules env [] w = Some w"
| "schedules env (n # ns) w = (if n < length (spawned w) then schedules env ns (schedule env n w) else None)"

lemma reachable_refl: "reachable w w"
  by (simp add: reachable_def)

lemma then_reachable: "sys_step a b \<Longrightarrow> reachable b c \<Longrightarrow> reachable a c"
  unfolding reachable_def by (rule converse_rtranclp_into_rtranclp)

lemma schedules_reachable: "schedules env ns w = Some w' \<Longrightarrow> reachable w w'"
proof (induction ns arbitrary: w)
  case (Cons n ns)
  then have "n < length (spawned w)" "reachable (schedule env n w) w'" by (auto split: if_splits)
  then show ?case by (blast intro: then_reachable schedule_step)
qed (simp add: reachable_refl)

definition in_progress_of :: "world \<Rightarrow> (nat \<times> AggregateStatus) list" where
  "in_progress_of w = [(dr_ID d, dr_AggregateStatus d). d \<leftarrow> db_drs w, dr_ApprovedBy d \<noteq> [],
     op \<leftarrow> db_ops w, op_DeliveryRequestID op = dr_ID d, op_ImportState op = ImportInProgress]"

text \<open>C20: a wake-up is lost: a sync goroutine that found nothing in progress stays tracked until its
  deferred Finish, and an import that starts in between does not start another. The state reached has
  an operation in progress of an approved request, and no goroutine of any kind.\<close>

theorem sync_wakeup_lost:
  "\<exists>w w' i. syncs_ok w \<and> reachable w w' \<and> spawned w' = [] \<and> tracker w' = Some {} \<and>
     (i, AggImporting) \<in> set (in_progress_of w')"
proof -
  let ?late = "receive demo_late_env late_request (schedule demo_late_env 0 demo_late)"
  have ok: "syncs_ok demo_late"
    by (simp add: syncs_ok_def demo_late_def sync_count_def tracked_def)
  have first: "reachable demo_late ?late"
    by (rule then_reachable [OF schedule_step then_reachable [OF receive_step reachable_refl]])
      (simp add: demo_late_def)
  have "map_option (\<lambda>w. (spawned w, tracker w, in_progress_of w)) (schedules demo_late_env [1, 0] ?late)
      = Some ([], Some {}, [(5, AggImporting)])" by code_simp
  then obtain w' where w': "schedules demo_late_env [1, 0] ?late = Some w'" "spawned w' = []"
      "tracker w' = Some {}" "in_progress_of w' = [(5, AggImporting)]"
    by (auto simp: map_option_eq_Some)
  have "reachable demo_late w'"
    using first schedules_reachable [OF w'(1)] unfolding reachable_def by (rule rtranclp_trans)
  then show ?thesis using ok w'(2-4) by (metis list.set_intros(1))
qed

end
