(* ===== verification/BootstrapRuns.thy ===== *)
theory BootstrapRuns
  imports Bootstrap "HOL-Library.Multiset"
begin

text \<open>
  What the bootstrap of a tenant guarantees: the destinations built from service keys, the temporary
  keys, the outcome of the synchronous phases and of the goroutine.
\<close>

section \<open>URLs and credentials\<close>

text \<open>What the sources of a credential are, in the order of their precedence: the key itself, the uaa
  object, the oauth object.\<close>

definition first_of :: "string list \<Rightarrow> string" where
  "first_of xs = (case List.find (\<lambda>x. x \<noteq> []) xs of None \<Rightarrow> [] | Some x \<Rightarrow> x)"

definition in_obj :: "string \<Rightarrow> string \<Rightarrow> creds \<Rightarrow> string" where
  "in_obj obj k c = (case jobj obj c of None \<Rightarrow> [] | Some m \<Rightarrow> jstr k m)"

definition resolved :: "creds \<Rightarrow> OAuthFields" where
  "resolved c =
    \<lparr>oa_rawURL = first_of [jstr ''url'' c, jstr ''uri'' c, in_obj ''oauth'' ''url'' c],
     oa_tokenURL = first_of [jstr ''tokenurl'' c, in_obj ''uaa'' ''tokenurl'' c, in_obj ''uaa'' ''url'' c, in_obj ''oauth'' ''tokenurl'' c],
     oa_clientID = first_of [jstr ''clientid'' c, in_obj ''uaa'' ''clientid'' c, in_obj ''oauth'' ''clientid'' c],
     oa_clientSecret = first_of [jstr ''clientsecret'' c, in_obj ''uaa'' ''clientsecret'' c, in_obj ''oauth'' ''clientsecret'' c]\<rparr>"

lemma orElse_first: "orElse a (first_of xs) = first_of (a # xs)"
  by (simp add: orElse_def first_of_def)

lemma first_of_simps: "first_of [] = []" "first_of (x # xs) = orElse x (first_of xs)"
  by (simp_all add: first_of_def orElse_def)

lemma orElse_simps [simp]: "orElse [] x = x" "orElse x [] = x" "x \<noteq> [] \<Longrightarrow> orElse x y = x"
  "orElse (orElse x y) z = orElse x (orElse y z)" "orElse x y = [] \<longleftrightarrow> x = [] \<and> y = []"
  by (auto simp: orElse_def)

lemma fields_resolved: "oauth_fields c (uaa_fields c (flat_fields c)) = resolved c"
proof (cases "jobj ''uaa'' c")
  case None
  show ?thesis
    by (cases "jobj ''oauth'' c")
      (use None in \<open>auto simp: uaa_fields_def oauth_fields_def resolved_def flat_fields_def first_of_simps in_obj_def incomplete_def\<close>)
next
  case (Some u)
  show ?thesis
    by (cases "jobj ''oauth'' c")
      (use Some in \<open>auto simp: uaa_fields_def oauth_fields_def resolved_def flat_fields_def first_of_simps in_obj_def incomplete_def\<close>)
qed

text \<open>A destination is built exactly when each of the four credentials is found in one of its sources,
  which are tried in a fixed order (the key, its uaa object, its oauth object); the staged lookups of
  the code, guarded against overwriting, compute this table. The token URL is normalised: it ends in
  /oauth/token and normalising it again changes nothing.\<close>

theorem buildOAuthDestination_exact:
  "case buildOAuthDestination name f i c of
     Inl e \<Rightarrow> incomplete (resolved c)
   | Inr d \<Rightarrow> \<not> incomplete (resolved c) \<and> de_Name d = name \<and>
       de_ClientId d = oa_clientID (resolved c) \<and> de_ClientSecret d = oa_clientSecret (resolved c) \<and>
       de_URL d = (case f of None \<Rightarrow> oa_rawURL (resolved c) | Some g \<Rightarrow> g (oa_rawURL (resolved c))) \<and>
       (\<exists>p. de_TokenServiceURL d = p @ ''/oauth/token'') \<and>
       NormaliseTokenURL (de_TokenServiceURL d) = de_TokenServiceURL d"
proof -
  have "HasSuffix (NormaliseTokenURL u) ''/oauth/token''" for u
    by (auto simp: NormaliseTokenURL_def has_suffix_iff)
  then show ?thesis
    by (auto simp: buildOAuthDestination_def fields_resolved Let_def NormaliseTokenURL_def [of "NormaliseTokenURL u" for u]
        has_suffix_iff)
qed

section \<open>Cloud Foundry calls\<close>

text \<open>The temporary keys in a list of calls: those without an attempt to delete them, by the client that
  created them; those that still exist; and those of the failed attempts.\<close>

fun temp_name :: "message \<Rightarrow> bool" where
  "temp_name (Errf f args) = (f \<in> {''cpidelivery-inspect-%d'', ''cpidelivery-bootstrap-%d''})"
| "temp_name m = False"

fun open_keys :: "CfCall list \<Rightarrow> (CFClient \<times> string) multiset \<Rightarrow> (CFClient \<times> string) multiset" where
  "open_keys [] ks = ks"
| "open_keys (CfCreateKey client inst name guid # cs) ks =
     open_keys cs (if temp_name name then add_mset (client, guid) ks else ks)"
| "open_keys (CfDeleteKey client guid done # cs) ks = open_keys cs (ks - {#(client, guid)#})"
| "open_keys (c # cs) ks = open_keys cs ks"

fun left_keys :: "CfCall list \<Rightarrow> (CFClient \<times> string) multiset \<Rightarrow> (CFClient \<times> string) multiset" where
  "left_keys [] ks = ks"
| "left_keys (CfCreateKey client inst name guid # cs) ks =
     left_keys cs (if temp_name name then add_mset (client, guid) ks else ks)"
| "left_keys (CfDeleteKey client guid done # cs) ks =
     left_keys cs (if done then ks - {#(client, guid)#} else ks)"
| "left_keys (c # cs) ks = left_keys cs ks"

fun failed_deletions :: "CfCall list \<Rightarrow> (CFClient \<times> string) multiset" where
  "failed_deletions [] = {#}"
| "failed_deletions (CfDeleteKey client guid done # cs) =
     (if done then {#} else {#(client, guid)#}) + failed_deletions cs"
| "failed_deletions (c # cs) = failed_deletions cs"

lemma open_keys_append: "open_keys (as @ bs) ks = open_keys bs (open_keys as ks)"
  by (induction as ks rule: open_keys.induct) auto

lemma left_keys_append: "left_keys (as @ bs) ks = left_keys bs (left_keys as ks)"
  by (induction as ks rule: left_keys.induct) auto

lemma failed_deletions_append: "failed_deletions (as @ bs) = failed_deletions as + failed_deletions bs"
  by (induction as rule: failed_deletions.induct) auto

lemmas keys_append = open_keys_append left_keys_append failed_deletions_append

definition settled :: "CfCall list \<Rightarrow> bool" where
  "settled cs \<longleftrightarrow> (\<forall>ks. open_keys cs ks = ks \<and> left_keys cs ks = ks + failed_deletions cs)"

lemma settled_append: "\<lbrakk>settled as; settled bs\<rbrakk> \<Longrightarrow> settled (as @ bs)"
  by (simp add: settled_def keys_append ac_simps)

definition no_leak :: "world \<Rightarrow> world \<Rightarrow> bool" where
  "no_leak w w' \<longleftrightarrow> (\<exists>cs. cf_calls w' = cf_calls w @ cs \<and> settled cs)"

lemma no_leak_same: "cf_calls w' = cf_calls w \<Longrightarrow> no_leak w w'"
  by (auto simp: no_leak_def settled_def intro: exI [of _ "[]"])

lemma no_leak_add: "settled [c] \<Longrightarrow> no_leak w (w\<lparr>cf_calls := cf_calls w @ [c]\<rparr>)"
  unfolding no_leak_def by (intro exI [of _ "[c]"]) simp

interpretation leak: kept_relation no_leak
proof
  show "no_leak u w" if "no_leak u v" "no_leak v w" for u v w
    using that unfolding no_leak_def by (metis append_assoc settled_append)
qed (simp_all add: no_leak_same)

lemma leak_call: "settled [c] \<Longrightarrow> state_io_rel no_leak (cf_call c)"
  unfolding cf_call_def by (intro leak.keep_modify no_leak_add)

lemma leak_create_key: "\<not> temp_name name \<Longrightarrow> state_io_rel no_leak (create_key env client inst name)"
  unfolding create_key_def by (intro leak.keep_return leak.keep_bind leak_call keep_sum) (simp add: settled_def)

text \<open>The deferred deletion is tried on every path of the body, errors included.\<close>

lemma leak_temp_key:
  assumes "\<And>k. state_io_rel no_leak (body k)" and "temp_name name"
  shows "state_io_rel no_leak (with_temp_key env client inst name wrap body)"
proof (rule io_of_wp)
  fix w
  show "wp (with_temp_key env client inst name wrap body) (\<lambda>r w'. no_leak w w') w"
  proof (cases "CreateServiceKey env client inst name")
    case (Inl e)
    then show ?thesis by (simp add: with_temp_key_def create_key_def wp_simps leak.R_refl)
  next
    case (Inr guid)
    let ?c = "CfCreateKey client inst name guid"
    let ?d = "CfDeleteKey client guid (\<not> isl (DeleteServiceKey env client guid))"
    have key: "settled ([?c] @ cs @ [?d])" if "settled cs" for cs
      using that assms(2) by (auto simp: settled_def keys_append)
    have "wp (body guid) (\<lambda>r w1. no_leak w (w1\<lparr>cf_calls := cf_calls w1 @ [?d]\<rparr>))
        (w\<lparr>cf_calls := cf_calls w @ [?c]\<rparr>)"
    proof (rule wp_mono [OF wp_of_io [OF assms(1)]])
      fix r w1 assume "no_leak (w\<lparr>cf_calls := cf_calls w @ [?c]\<rparr>) w1"
      then obtain cs where cs: "cf_calls w1 = cf_calls w @ [?c] @ cs" "settled cs"
        by (auto simp: no_leak_def)
      then show "no_leak w (w1\<lparr>cf_calls := cf_calls w1 @ [?d]\<rparr>)"
        unfolding no_leak_def by (intro exI [of _ "[?c] @ cs @ [?d]"] conjI key) simp_all
    qed
    then show ?thesis using Inr
      by (simp add: with_temp_key_def delete_key_def create_key_def cf_call_def wp_simps) (erule wp_mono, simp add: wp_simps)
  qed
qed

lemmas leak_keeps = leak.keep_return leak.keep_bind leak.keep_gets leak.keep_onerr leak.keep_loop leak.keep_loopE
  leak.keep_load leak.keep_query leak.keep_first leak.keep_find keep_if keep_sum keep_option keep_prod

lemma leak_update:
  "state_io_rel no_leak (db_update db_tenants_update P f)" "state_io_rel no_leak (db_update db_jobs_update Q g)"
  by (intro leak.keep_update no_leak_same; simp)+

lemma leak_transition:
  "state_io_rel no_leak (transitionLifecycleWithTx i ev)" "state_io_rel no_leak (TransitionLifecycle i ev)"
proof -
  show *: "state_io_rel no_leak (transitionLifecycleWithTx i ev)"
    unfolding transitionLifecycleWithTx_def by (intro leak_keeps leak_update)
  show "state_io_rel no_leak (TransitionLifecycle i ev)"
    unfolding TransitionLifecycle_def by (intro leak.keep_transaction * no_leak_same) simp
qed

lemma leak_rollback: "state_io_rel no_leak (rollback i e)"
  unfolding rollback_def by (intro leak_keeps leak_transition)

lemma leak_inspect: "state_io_rel no_leak (InspectCfSubaccount env client u t)"
  unfolding InspectCfSubaccount_def checkDestinations_def by (intro leak_keeps leak_temp_key) simp

lemma leak_spawn: "state_io_rel no_leak (spawn t)"
  unfolding spawn_def by (intro leak.keep_modify no_leak_same) simp

lemma leak_launch: "state_io_rel no_leak (launch_job t i ty tok r)"
  unfolding launch_job_def
  by (intro leak_keeps leak_rollback leak_spawn leak.keep_create no_leak_same; simp)

lemma leak_apply: "state_io_rel no_leak (ApplyBootstrap env i tok)" "state_io_rel no_leak (PreviewBootstrap env i tok)"
  unfolding ApplyBootstrap_def PreviewBootstrap_def inspect_and_launch_def launch_if_clean_def getTenantForBootstrap_def
    checkCentralTmsContext_def loadTmsContext_def Let_def
  by (intro leak_keeps leak_rollback leak_inspect leak_launch leak_transition leak_update)+

lemma leak_ensure_instance: "state_io_rel no_leak (ensureServiceInstance env client org space mg)"
  unfolding ensureServiceInstance_def by (intro leak_keeps leak_call) (simp add: settled_def)

lemma managed_names [simp]:
  "\<not> temp_name (Errf (mg_keyName PirApi) [])" "\<not> temp_name (Errf (mg_keyName CasApplication) [])"
  "\<not> temp_name (Errf (mg_keyName CasStandard) [])"
  by (simp_all add: PirApi_def CasApplication_def CasStandard_def)

lemma leak_step:
  "\<not> temp_name (Errf (mg_keyName mg) []) \<Longrightarrow> state_io_rel no_leak (ensure_step env client t j step mg g s f p)"
  unfolding ensure_step_def ensureInstanceAndKey_def setStep_def mark_if_def markReady_def update_job_def
  by (intro leak_keeps leak_update leak_ensure_instance leak_create_key)

lemma leak_subscriber: "state_io_rel no_leak (ensureSubscriberDestinations env client t r c)"
  unfolding ensureSubscriberDestinations_def upsert_subscriber_def
  by (intro leak_keeps leak_temp_key leak_call; simp add: settled_def)

lemma leak_provider: "state_io_rel no_leak (ensureProviderDestinations env client t r)"
  unfolding ensureProviderDestinations_def upsert_provider_def Let_def by (intro leak_keeps leak_call; simp add: settled_def)

lemma leak_steps: "state_io_rel no_leak (bootstrap_steps env t j tok r)"
  unfolding bootstrap_steps_def ensure_credentials_def ensure_destination_service_def write_subscriber_def
    loadTmsContext_def setStep_def mark_if_def markReady_def update_job_def Let_def
  by (intro leak_keeps leak_update leak_ensure_instance leak_step leak_subscriber leak_provider managed_names)

lemma leak_run: "state_io_rel no_leak (runBootstrap env t j tok r)"
  unfolding runBootstrap_def fail_job_def finish_job_def update_job_def
  by (intro leak_keeps leak_update leak_steps leak_transition leak.keep_transaction no_leak_same; simp)

section \<open>Claiming a tenant\<close>

definition calls_only :: "world \<Rightarrow> world \<Rightarrow> bool" where
  "calls_only w w' \<longleftrightarrow> (\<exists>cs. w' = w\<lparr>cf_calls := cs\<rparr>)"

lemma calls_only_refl: "calls_only w w"
  by (auto simp: calls_only_def intro: exI [of _ "cf_calls w"])

lemma wp_cf_call: "wp (cf_call c) Q w = Q () (w\<lparr>cf_calls := cf_calls w @ [c]\<rparr>)"
  by (simp add: cf_call_def wp_modify)

text \<open>An inspection makes calls only, and its result names why it stopped.\<close>

definition access :: "InspectionResult \<Rightarrow> bool \<times> bool" where
  "access r = (ir_SpaceAccessible r, ir_HasSpaceDeveloperRole r)"

lemma access_simps [simp]:
  "access (missing c r) = access r" "access (waiting c r) = access r"
  "access (r\<lparr>ir_DestinationServiceInstanceGUID := g\<rparr>) = access r" "access (r\<lparr>ir_PirApiInstanceGUID := g\<rparr>) = access r"
  "access (r\<lparr>ir_CasApplicationInstanceGUID := g\<rparr>) = access r" "access (r\<lparr>ir_CasStandardInstanceGUID := g\<rparr>) = access r"
  "access (r\<lparr>ir_ServiceKeyGUIDs := ks\<rparr>) = access r" "access (r\<lparr>ir_DestinationExists := ds\<rparr>) = access r"
  by (simp_all add: access_def missing_def waiting_def)

lemma andthen_Inr: "andthen r wrap k = Inr y \<longleftrightarrow> (\<exists>x. r = Inr x \<and> k x = Inr y)"
  by (simp add: andthen_def split: sum.split)

lemma access_instance:
  "checkServiceInstance env client org space mg setGUID r = Inr r' \<Longrightarrow> (\<And>g r. access (setGUID g r) = access r) \<Longrightarrow>
   access r' = access r"
  by (auto simp: checkServiceInstance_def find_instance_def split: if_splits sum.splits option.splits)

lemma access_key: "checkServiceKey env client inst label r = Inr r' \<Longrightarrow> access r' = access r"
  by (auto simp: checkServiceKey_def split: if_splits sum.splits option.splits)

lemma access_instances:
  assumes "checkInstances env client tenant r = Inr r'"
  shows "access r' = access r"
  using assms unfolding checkInstances_def Let_def andthen_Inr checkServiceKeys_def
  by (auto dest!: access_key access_instance)

lemma access_destinations: "access (fold (note_destination existing) names result) = access result"
  by (induction names arbitrary: result) (auto simp: note_destination_def Let_def)

lemma checkDestinations_wp:
  "wp (checkDestinations env client result)
     (\<lambda>r w'. calls_only w w' \<and> (\<forall>r1. r = Inr r1 \<longrightarrow> access r1 = access result)) w"
  by (auto simp: checkDestinations_def with_temp_key_def delete_key_def create_key_def wp_simps wp_cf_call calls_only_refl andthen_def
      access_destinations split: sum.split) (auto simp: calls_only_def)

text \<open>An inspection makes calls only; a result that names no issue is one of an accessible space and an
  operator with the role.\<close>

lemma InspectCfSubaccount_wp:
  "wp (InspectCfSubaccount env client u tenant)
     (\<lambda>r w'. calls_only w w' \<and> (\<forall>r1. r = Inr r1 \<longrightarrow>
        access r1 = (True, True) \<or> ir_WaitingUserAction r1 \<noteq> [] \<or> ir_PermissionIssues r1 \<noteq> [])) w"
proof (cases "checkSpaceContext env client u tenant empty_result")
  case (Inr r0)
  have dest: "wp (onerr (checkDestinations env client r1) (at_step StepCheckDestinations) done_with)
      (\<lambda>r w'. calls_only w w' \<and> (\<forall>r1. r = Inr r1 \<longrightarrow>
        access r1 = (True, True) \<or> ir_WaitingUserAction r1 \<noteq> [] \<or> ir_PermissionIssues r1 \<noteq> [])) w"
    if "access r1 = (True, True)" for r1
    unfolding wp_onerr
    by (rule wp_mono [OF checkDestinations_wp]) (use that in \<open>auto simp: wp_return split: sum.splits\<close>)
  have "access r1 = (True, True)" if "checkInstances env client tenant r0 = Inr r1"
      "ir_SpaceAccessible r0" "ir_HasSpaceDeveloperRole r0" for r1
    using access_instances [OF that(1)] that(2,3) by (simp add: access_def)
  with dest show ?thesis
    by (auto simp: InspectCfSubaccount_def Inr wp_simps calls_only_refl waiting_def split: sum.split)
qed (simp add: InspectCfSubaccount_def wp_simps calls_only_refl)

text \<open>What the synchronous phases keep once the tenant is claimed.\<close>

definition claimed :: "world \<Rightarrow> nat \<Rightarrow> world \<Rightarrow> bool" where
  "claimed w i w1 \<longleftrightarrow> spawned w1 = spawned w \<and> db_jobs w1 = db_jobs w \<and> clock w1 = clock w \<and>
     db_tmsctx w1 = db_tmsctx w \<and> map_option tn_LifecycleState (tenant_at w1 i) = Some TenantReadying"

lemma claimed_simps [simp]:
  "claimed w i (w1\<lparr>faults := fs\<rparr>) = claimed w i w1" "claimed w i (w1\<lparr>next_id := n\<rparr>) = claimed w i w1"
  "claimed w i (w1\<lparr>cf_calls := cs\<rparr>) = claimed w i w1" "claimed (w\<lparr>faults := fs\<rparr>) i w1 = claimed w i w1"
  by (simp_all add: claimed_def tenant_at_def)

lemma claimed_reset: "claimed w i w1 \<Longrightarrow> claimed w i (db_tenants_update (upd_where (\<lambda>t. tn_ID t = i) missing_prereqs) w1)"
  by (auto simp: claimed_def tenant_at_upd missing_prereqs_def)

lemma claimed_start:
  "\<lbrakk>tenant_at w i = Some t; st = TenantReadying\<rbrakk> \<Longrightarrow> claimed w i ((set_state i st w)\<lparr>faults := fs\<rparr>)"
  by (simp add: claimed_def set_state_def tenant_at_upd)

definition launched :: "world \<Rightarrow> nat \<Rightarrow> CpiTenant \<Rightarrow> string \<Rightarrow> nat \<Rightarrow> world \<Rightarrow> bool" where
  "launched w i t token job w' \<longleftrightarrow>
     (\<exists>result ctx. access result = (True, True) \<and> ir_PermissionIssues result = [] \<and> ir_WaitingUserAction result = [] \<and>
        tn_TmsSourceNodeName t \<noteq> [] \<and> tn_TmsNodeRegistrationStatus t = PrereqReady \<and>
        ctx \<in> set (db_tmsctx w) \<and> ct_TmsApiDestinationName ctx \<noteq> [] \<and>
        spawned w' = spawned w @ [TaskBootstrap t job token result] \<and>
        db_jobs w' = db_jobs w @ [(new_job i (if tn_LifecycleState t = TenantNotReady then JobTypeRetry else JobTypeApply)
          (ir_MissingItems result) (clock w))\<lparr>bj_ID := job\<rparr>] \<and>
        map_option tn_LifecycleState (tenant_at w' i) = Some TenantReadying)"

lemma rollback_wp:
  assumes "\<And>fs n. Q (Inl e) (w\<lparr>faults := fs, next_id := n\<rparr>)" and "\<And>st fs. Q (Inl e) ((set_state i st w)\<lparr>faults := fs\<rparr>)"
  shows "wp (rollback i e) Q w"
  unfolding rollback_def wp_bind wp_return
  by (rule wp_mono [OF transition_exact]) (use assms in \<open>auto split: sum.splits\<close>)

lemma launch_job_wp:
  assumes c: "claimed w i w1" and t: "ty = (if tn_LifecycleState t = TenantNotReady then JobTypeRetry else JobTypeApply)"
    and r: "access r = (True, True)" "ir_PermissionIssues r = []" "ir_WaitingUserAction r = []"
    and n: "tn_TmsSourceNodeName t \<noteq> []" "tn_TmsNodeRegistrationStatus t = PrereqReady"
    and x: "ctx \<in> set (db_tmsctx w)" "ct_TmsApiDestinationName ctx \<noteq> []"
  shows "wp (launch_job t i ty token r) (\<lambda>res w'. case res of
      Inl e \<Rightarrow> spawned w' = spawned w \<and> db_jobs w' = db_jobs w | Inr job \<Rightarrow> launched w i t token job w') w1"
proof -
  have undo: "wp (rollback i e) (\<lambda>res w'. case res of
      Inl e \<Rightarrow> spawned w' = spawned w \<and> db_jobs w' = db_jobs w | Inr job \<Rightarrow> launched w i t token job w') w2"
    if "claimed w i w2" for w2 e
    by (rule rollback_wp) (use that in \<open>auto simp: claimed_def set_state_def\<close>)
  show ?thesis
    unfolding launch_job_def wp_bind wp_gets
  proof (rule jobs_table.wp_create; unfold sum.case)
    show "wp (rollback i (Errw ''apply: create job: %w'' [] DbErr)) (\<lambda>res w'. case res of
      Inl e \<Rightarrow> spawned w' = spawned w \<and> db_jobs w' = db_jobs w | Inr job \<Rightarrow> launched w i t token job w')
      (w1\<lparr>faults := fs, next_id := n\<rparr>)" for fs n
      by (rule undo) (use c in simp)
    fix fs n rows
    assume "assign_ids bj_ID (\<lambda>n j. j\<lparr>bj_ID := n\<rparr>) (next_id w1) [new_job i ty (ir_MissingItems r) (clock w1)] = (n, rows)"
    then have "rows = [(new_job i ty (ir_MissingItems r) (clock w1))\<lparr>bj_ID := next_id w1\<rparr>]"
      by (auto simp: new_job_def)
    then show "wp (State_Monad.bind (spawn (TaskBootstrap t (bj_ID (hd rows)) token r)) (\<lambda>_. done_with (bj_ID (hd rows))))
      (\<lambda>res w'. case res of
        Inl e \<Rightarrow> spawned w' = spawned w \<and> db_jobs w' = db_jobs w | Inr job \<Rightarrow> launched w i t token job w')
      (db_jobs_update (\<lambda>rs. rs @ rows) (w1\<lparr>faults := fs, next_id := n\<rparr>))"
      using c t r n x unfolding launched_def claimed_def
      by (auto simp: wp_simps wp_spawn tenant_at_def)
  qed
qed

text \<open>What an application ends with: a launched job, or neither job nor goroutine.\<close>

definition apply_post :: "world \<Rightarrow> nat \<Rightarrow> CpiTenant \<Rightarrow> string \<Rightarrow> gerr + nat \<Rightarrow> world \<Rightarrow> bool" where
  "apply_post w i t token r w' =
     (case r of
        Inl e \<Rightarrow> spawned w' = spawned w \<and> db_jobs w' = db_jobs w
      | Inr job \<Rightarrow> launched w i t token job w')"

lemma apply_post_rollback: "claimed w i w1 \<Longrightarrow> wp (rollback i e) (apply_post w i t token) w1"
  by (rule rollback_wp) (auto simp: apply_post_def claimed_def set_state_def)

text \<open>The two checks that follow an inspection.\<close>

definition ready_for :: "world \<Rightarrow> CpiTenant \<Rightarrow> bool" where
  "ready_for w t \<longleftrightarrow> tn_TmsSourceNodeName t \<noteq> [] \<and> tn_TmsNodeRegistrationStatus t = PrereqReady \<and>
     (\<exists>ctx\<in>set (db_tmsctx w). ct_TmsApiDestinationName ctx \<noteq> [])"

lemma tms_checks_wp:
  "wp (checkCentralTmsContext (checkTmsSourceNode t r))
     (\<lambda>r2 w'. (\<exists>fs. w' = w\<lparr>faults := fs\<rparr>) \<and> access r2 = access r \<and> ir_PermissionIssues r2 = ir_PermissionIssues r \<and>
        (ir_WaitingUserAction r2 = [] \<longrightarrow> ir_WaitingUserAction r = [] \<and> ready_for w t)) w"
  unfolding checkCentralTmsContext_def loadTmsContext_def wp_bind wp_onerr wp_return
  by (rule tmsctx_table.wp_first)
    (auto simp: wp_return checkTmsSourceNode_def waiting_def access_def ready_for_def)

lemma launch_if_clean_wp:
  assumes c: "claimed w i w1" and t: "ty = (if tn_LifecycleState t = TenantNotReady then JobTypeRetry else JobTypeApply)"
    and ok: "ir_PermissionIssues r = [] \<and> ir_WaitingUserAction r = [] \<Longrightarrow> access r = (True, True) \<and> ready_for w t"
  shows "wp (launch_if_clean t i ty token r) (apply_post w i t token) w1"
proof (cases "ir_PermissionIssues r = [] \<and> ir_WaitingUserAction r = []")
  case True
  then have "wp (launch_job t i ty token r) (apply_post w i t token) w1"
    using launch_job_wp [OF c t, of r] ok unfolding apply_post_def ready_for_def by blast
  with True show ?thesis by (simp add: launch_if_clean_def)
qed (use apply_post_rollback [OF c] in \<open>auto simp: launch_if_clean_def\<close>)

lemma inspect_and_launch_wp:
  assumes c: "claimed w i w1" and t: "ty = (if tn_LifecycleState t = TenantNotReady then JobTypeRetry else JobTypeApply)"
  shows "wp (inspect_and_launch env t i ty token) (apply_post w i t token) w1"
proof (cases "NewTenantInspector env (CfApiURL t) token")
  case (Inr u)
  show ?thesis
    unfolding inspect_and_launch_def Inr sum.case wp_bind
  proof (rule wp_mono [OF InspectCfSubaccount_wp], elim conjE)
    fix res :: "gerr + InspectionResult" and w2
    assume "calls_only w1 w2" and ok: "\<forall>r1. res = Inr r1 \<longrightarrow>
        access r1 = (True, True) \<or> ir_WaitingUserAction r1 \<noteq> [] \<or> ir_PermissionIssues r1 \<noteq> []"
    then have c2: "claimed w i w2" using c by (auto simp: calls_only_def)
    then have tms: "db_tmsctx w2 = db_tmsctx w" by (simp add: claimed_def)
    have "wp (State_Monad.bind (checkCentralTmsContext (checkTmsSourceNode t r1)) (launch_if_clean t i ty token))
        (apply_post w i t token) w2" if "res = Inr r1" for r1
      unfolding wp_bind
      by (rule wp_mono [OF tms_checks_wp], rule launch_if_clean_wp [OF _ t])
        (use c2 ok that tms in \<open>auto simp: ready_for_def\<close>)
    then show "wp (case res of Inl e \<Rightarrow> rollback i (Errw ''apply: inspect: %w'' [] e)
       | Inr result \<Rightarrow> State_Monad.bind (checkCentralTmsContext (checkTmsSourceNode t result)) (launch_if_clean t i ty token))
      (apply_post w i t token) w2"
      using apply_post_rollback [OF c2] by (auto split: sum.split)
  qed
qed (use apply_post_rollback [OF c] in \<open>simp add: inspect_and_launch_def\<close>)

lemma ApplyBootstrap_wp:
  "wp (ApplyBootstrap env i token) (\<lambda>r w'. case r of
      Inl e \<Rightarrow> spawned w' = spawned w \<and> db_jobs w' = db_jobs w
    | Inr job \<Rightarrow> \<exists>t. tenant_at w i = Some t \<and> tn_LifecycleState t \<in> {TenantConfigured, TenantNotReady, TenantReady} \<and>
        launched w i t token job w') w" (is "wp _ ?Q w")
proof -
  have post: "?Q r w'" if "apply_post w i t token r w'" "tenant_at w i = Some t"
      "tn_LifecycleState t \<in> {TenantConfigured, TenantNotReady, TenantReady}" for r w' t
    using that by (auto simp: apply_post_def split: sum.splits)
  have phases: "wp (State_Monad.bind (db_update db_tenants_update (\<lambda>t. tn_ID t = i) missing_prereqs)
      (\<lambda>_. inspect_and_launch env t i ty token)) (apply_post w i t token) w1"
    if "claimed w i w1" "ty = (if tn_LifecycleState t = TenantNotReady then JobTypeRetry else JobTypeApply)" for w1 t ty
    unfolding wp_bind
    by (rule tenants_table.wp_update; rule inspect_and_launch_wp [OF _ that(2)]) (use that(1) claimed_reset in simp_all)
  show ?thesis
    unfolding ApplyBootstrap_def getTenantForBootstrap_def wp_onerr
  proof (rule tenants_table.wp_first; unfold sum.case wp_return id_apply)
    fix fs t assume t: "List.find (\<lambda>t. tn_ID t = i) (db_tenants w) = Some t"
    show "wp (let jobType = if tn_LifecycleState t = TenantNotReady then JobTypeRetry else JobTypeApply
         in onerr (TransitionLifecycle i EventBootstrapStarted) (Errw ''apply: %w'' []) (\<lambda>_. do {
           _ \<leftarrow> db_update db_tenants_update (\<lambda>t. tn_ID t = i) missing_prereqs;
           inspect_and_launch env t i jobType token
         })) ?Q (w\<lparr>faults := fs\<rparr>)"
      unfolding Let_def wp_onerr
    proof (rule wp_mono [OF transition_exact])
      fix r :: "gerr + unit" and w1 assume a: "case r of
          Inl e \<Rightarrow> \<exists>fs' n. w1 = w\<lparr>faults := fs\<rparr>\<lparr>faults := fs', next_id := n\<rparr>
        | Inr _ \<Rightarrow> \<exists>t st fs'. tenant_at (w\<lparr>faults := fs\<rparr>) i = Some t \<and> lifecycle_edge (tn_LifecycleState t) EventBootstrapStarted st \<and>
            w1 = (set_state i st (w\<lparr>faults := fs\<rparr>))\<lparr>faults := fs'\<rparr>"
      show "case r of Inl e \<Rightarrow> ?Q (Inl (Errw ''apply: %w'' [] e)) w1
        | Inr x \<Rightarrow> wp (State_Monad.bind (db_update db_tenants_update (\<lambda>t. tn_ID t = i) missing_prereqs)
            (\<lambda>_. inspect_and_launch env t i (if tn_LifecycleState t = TenantNotReady then JobTypeRetry else JobTypeApply) token)) ?Q w1"
      proof (cases r)
        case (Inr u)
        obtain t' st fs' where *: "tenant_at (w\<lparr>faults := fs\<rparr>) i = Some t'"
            "lifecycle_edge (tn_LifecycleState t') EventBootstrapStarted st"
            "w1 = (set_state i st (w\<lparr>faults := fs\<rparr>))\<lparr>faults := fs'\<rparr>"
          using a unfolding Inr by auto
        have "claimed w i w1"
          unfolding *(3) using claimed_start [OF *(1), of st] *(2) by (auto simp: edge_simps)
        moreover have "tn_LifecycleState t \<in> {TenantConfigured, TenantNotReady, TenantReady}" "tenant_at w i = Some t"
          using *(1,2) t by (auto simp: edge_simps tenant_at_def)
        ultimately show ?thesis
          unfolding Inr sum.case by (intro wp_mono [OF phases [OF _ refl]] post)
      qed (use a in auto)
    qed
  qed auto
qed

section \<open>Without database failures\<close>

lemma first_tenant_ok:
  "faults w = [] \<Longrightarrow> wp (db_first db_tenants (\<lambda>t. tn_ID t = i)) Q w =
     Q (case tenant_at w i of None \<Rightarrow> Inl RecordNotFound | Some t \<Rightarrow> Inr t) w"
  by (auto simp: wp_def db_first_def run_stmt tenant_at_def split: option.split)

lemma transition_ok_wp:
  "\<lbrakk>faults w = []; tenant_at w i = Some t; lifecycle_edge (tn_LifecycleState t) ev st\<rbrakk> \<Longrightarrow>
   wp (TransitionLifecycle i ev) Q w = Q (Inr ()) (set_state i st w)"
  by (simp add: wp_def transition_ok)

lemma transition_stays:
  assumes "faults w = []" and "\<And>t st. tenant_at w i = Some t \<Longrightarrow> \<not> lifecycle_edge (tn_LifecycleState t) ev st"
  shows "wp (TransitionLifecycle i ev) (\<lambda>r w'. isl r \<and> db_tenants w' = db_tenants w) w"
  by (rule wp_mono [OF transition_exact]) (use assms(2) in \<open>auto split: sum.splits\<close>)

definition held :: "nat \<Rightarrow> world \<Rightarrow> bool" where
  "held i w \<longleftrightarrow> faults w = [] \<and> map_option tn_LifecycleState (tenant_at w i) = Some TenantReadying"

lemma held_reset: "held i w \<Longrightarrow> held i (db_tenants_update (upd_where (\<lambda>t. tn_ID t = i) missing_prereqs) w)"
  by (auto simp: held_def tenant_at_upd missing_prereqs_def)

definition rolled_back :: "nat \<Rightarrow> gerr + nat \<Rightarrow> world \<Rightarrow> bool" where
  "rolled_back i r w' \<longleftrightarrow> (isl r \<longrightarrow> map_option tn_LifecycleState (tenant_at w' i) = Some TenantNotReady)"

lemma rollback_held:
  assumes "held i w"
  shows "wp (rollback i e) (rolled_back i) w"
proof -
  obtain t where "tenant_at w i = Some t" "tn_LifecycleState t = TenantReadying" using assms by (auto simp: held_def)
  moreover have "lifecycle_edge TenantReadying EventBootstrapFailed TenantNotReady" by (simp add: edge_simps)
  ultimately show ?thesis
    using assms by (simp add: rollback_def wp_bind wp_return transition_ok_wp held_def rolled_back_def set_state_def tenant_at_upd)
qed

lemma launch_held:
  assumes "held i w"
  shows "wp (launch_if_clean t i ty token r) (rolled_back i) w"
proof -
  have h: "held i (w\<lparr>next_id := n\<rparr>)" for n using assms by (simp add: held_def tenant_at_def)
  have "wp (launch_job t i ty token r) (rolled_back i) w"
    unfolding launch_job_def wp_bind wp_gets db_create_def
    using assms by (subst wp_stmt_ok)
      (auto simp: held_def new_job_def Let_def wp_simps wp_spawn rolled_back_def intro: rollback_held [OF h])
  then show ?thesis unfolding launch_if_clean_def using rollback_held [OF assms] by simp
qed

lemma inspect_held:
  assumes h: "held i w"
  shows "wp (inspect_and_launch env t i ty token) (rolled_back i) w"
proof (cases "NewTenantInspector env (CfApiURL t) token")
  case (Inr u)
  show ?thesis
    unfolding inspect_and_launch_def Inr sum.case wp_bind
  proof (rule wp_mono [OF InspectCfSubaccount_wp], elim conjE)
    fix res :: "gerr + InspectionResult" and w2
    assume "calls_only w w2"
    then have h2: "held i w2" using h by (auto simp: held_def calls_only_def tenant_at_def)
    have "wp (State_Monad.bind (checkCentralTmsContext r1) (launch_if_clean t i ty token)) (rolled_back i) w2" for r1
      using h2 launch_held [OF h2]
      by (auto simp: checkCentralTmsContext_def loadTmsContext_def wp_simps db_first_def wp_stmt_ok held_def split: option.split)
    then show "wp (case res of Inl e \<Rightarrow> rollback i (Errw ''apply: inspect: %w'' [] e)
       | Inr result \<Rightarrow> State_Monad.bind (checkCentralTmsContext (checkTmsSourceNode t result)) (launch_if_clean t i ty token))
      (rolled_back i) w2"
      using rollback_held [OF h2] by (auto split: sum.split)
  qed
qed (use rollback_held [OF h] in \<open>simp add: inspect_and_launch_def\<close>)

text \<open>A failed application leaves a tenant that could start in NOT_READY, any other as it was.\<close>

lemma ApplyBootstrap_no_faults:
  assumes f: "faults w = []"
  shows "wp (ApplyBootstrap env i token) (\<lambda>r w'. isl r \<longrightarrow> map_option tn_LifecycleState (tenant_at w' i) =
      map_option (\<lambda>t. if tn_LifecycleState t \<in> {TenantConfigured, TenantNotReady, TenantReady} then TenantNotReady
        else tn_LifecycleState t) (tenant_at w i)) w"
proof (cases "tenant_at w i")
  case (Some t)
  show ?thesis
  proof (cases "tn_LifecycleState t \<in> {TenantConfigured, TenantNotReady, TenantReady}")
    case True
    let ?w = "db_tenants_update (upd_where (\<lambda>t. tn_ID t = i) missing_prereqs) (set_state i TenantReadying w)"
    have "held i (set_state i TenantReadying w)" using f Some by (simp add: held_def set_state_def tenant_at_upd)
    then have "held i ?w" by (rule held_reset)
    from inspect_held [OF this] have "wp (inspect_and_launch env t i ty token)
        (\<lambda>r w'. isl r \<longrightarrow> map_option tn_LifecycleState (tenant_at w' i) = Some TenantNotReady) ?w" for ty
      unfolding rolled_back_def .
    moreover have "lifecycle_edge (tn_LifecycleState t) EventBootstrapStarted TenantReadying" using True by (simp add: edge_simps)
    moreover have "faults (set_state i TenantReadying w) = []" using f by (simp add: set_state_def)
    ultimately show ?thesis
      using f Some True unfolding ApplyBootstrap_def getTenantForBootstrap_def Let_def
      by (simp add: wp_onerr wp_return first_tenant_ok transition_ok_wp wp_bind db_update_def wp_stmt_ok)
  next
    case False
    have "wp (TransitionLifecycle i EventBootstrapStarted) (\<lambda>r w'. isl r \<and> db_tenants w' = db_tenants w) w"
      by (rule transition_stays [OF f]) (use Some False in \<open>auto simp: edge_simps\<close>)
    then show ?thesis
      using f Some False unfolding ApplyBootstrap_def getTenantForBootstrap_def Let_def
      by (simp add: wp_onerr wp_return first_tenant_ok)
        (erule wp_mono, auto simp: tenant_at_def isl_def)
  qed
qed (use f in \<open>simp add: ApplyBootstrap_def getTenantForBootstrap_def wp_onerr wp_return first_tenant_ok\<close>)

section \<open>The goroutine's outcome\<close>

text \<open>What the steps of a bootstrap keep: the state of every tenant, all job fields but the step and the
  credential actions, and the other tables.\<close>

definition job_core :: "TenantBootstrapJob \<Rightarrow> TenantBootstrapJob" where
  "job_core j = j\<lparr>bj_CurrentStep := [], bj_CredentialActions := []\<rparr>"

definition tenant_core :: "CpiTenant \<Rightarrow> nat \<times> TenantLifecycleState \<times> string \<times> string \<times> string" where
  "tenant_core t = (tn_ID t, tn_LifecycleState t, tn_CfApiEndpoint t, tn_CfOrg t, tn_CfSpace t)"

definition steps_keep :: "world \<Rightarrow> world \<Rightarrow> bool" where
  "steps_keep w w' \<longleftrightarrow> map tenant_core (db_tenants w') = map tenant_core (db_tenants w) \<and>
     map job_core (db_jobs w') = map job_core (db_jobs w) \<and> spawned w' = spawned w \<and>
     db_tmsctx w' = db_tmsctx w \<and> dead w' = dead w"

interpretation steps: kept_relation steps_keep
  by unfold_locales (auto simp: steps_keep_def)

lemma map_upd_kept: "(\<And>x. P x \<Longrightarrow> g (f x) = g x) \<Longrightarrow> map g (upd_where P f xs) = map g xs"
  by (auto simp: upd_where_def)

lemmas steps_keeps = steps.keep_return steps.keep_bind steps.keep_gets steps.keep_onerr steps.keep_loop steps.keep_loopE
  steps.keep_load steps.keep_query steps.keep_first steps.keep_find keep_if keep_sum keep_option keep_prod

lemma steps_tenants: "(\<And>t. tenant_core (f t) = tenant_core t) \<Longrightarrow> state_io_rel steps_keep (db_update db_tenants_update P f)"
  by (intro steps.keep_update) (simp add: steps_keep_def map_upd_kept)

lemma steps_jobs: "(\<And>j. job_core (f j) = job_core j) \<Longrightarrow> state_io_rel steps_keep (update_job i f)"
  unfolding update_job_def by (intro steps.keep_update) (simp add: steps_keep_def map_upd_kept)

lemma steps_call: "state_io_rel steps_keep (cf_call c)"
  unfolding cf_call_def by (intro steps.keep_modify) (simp add: steps_keep_def)

lemma steps_mark:
  "(\<And>t. tenant_core (f t) = tenant_core t) \<Longrightarrow> state_io_rel steps_keep (mark_if b i f)"
  "state_io_rel steps_keep (setStep j step)"
  unfolding mark_if_def markReady_def setStep_def
  by (intro steps_keeps steps_tenants steps_jobs; simp add: job_core_def)+

lemma steps_key: "state_io_rel steps_keep (create_key env client inst name)"
  unfolding create_key_def by (intro steps_keeps steps_call)

lemma steps_instance: "state_io_rel steps_keep (ensureServiceInstance env client org space mg)"
  unfolding ensureServiceInstance_def by (intro steps_keeps steps_call)

lemma steps_step:
  "(\<And>t. tenant_core (f t) = tenant_core t) \<Longrightarrow> state_io_rel steps_keep (ensure_step env client t j step mg g s f p)"
  unfolding ensure_step_def ensureInstanceAndKey_def by (intro steps_keeps steps_mark steps_instance steps_key)

lemma steps_subscriber: "state_io_rel steps_keep (ensureSubscriberDestinations env client t r c)"
  unfolding ensureSubscriberDestinations_def upsert_subscriber_def with_temp_key_def delete_key_def
  by (intro steps_keeps steps_call steps_key)

lemma steps_provider: "state_io_rel steps_keep (ensureProviderDestinations env client t r)"
  unfolding ensureProviderDestinations_def upsert_provider_def Let_def by (intro steps_keeps steps_call)

lemma steps_all: "state_io_rel steps_keep (bootstrap_steps env t j token r)"
  unfolding bootstrap_steps_def ensure_credentials_def ensure_destination_service_def write_subscriber_def
    loadTmsContext_def Let_def
  by (intro steps_keeps steps_mark steps_instance steps_step steps_subscriber steps_provider steps_tenants steps_jobs;
      simp add: tenant_core_def job_core_def persist_destinations_def)

text \<open>The names of the destinations in the provider's own Destination Service.\<close>

definition routed :: "nat \<Rightarrow> CpiTenant \<Rightarrow> bool" where
  "routed i t \<longleftrightarrow> tn_PirApiDestinationName t = ''CPIDELIVERY_PIR_'' @ show_nat i \<and>
     tn_CasEngineDestinationName t = ''CPIDELIVERY_CAS_'' @ show_nat i \<and> tn_PirApiUrl t \<noteq> []"

lemma provider_routed:
  "wp (ensureProviderDestinations env client t r) (\<lambda>res w'. \<forall>t1 acts. res = Inr (t1, acts) \<longrightarrow> routed (tn_ID t) t1) w"
  by (simp add: ensureProviderDestinations_def upsert_provider_def Let_def wp_simps wp_cf_call routed_def split: sum.split)

lemma provider_keeps_id:
  "wp (ensureProviderDestinations env client t r) (\<lambda>res w'. \<forall>t1 acts. res = Inr (t1, acts) \<longrightarrow> tn_ID t1 = tn_ID t) w"
  by (simp add: ensureProviderDestinations_def upsert_provider_def Let_def wp_simps wp_cf_call split: sum.split)

definition all_routed :: "nat \<Rightarrow> world \<Rightarrow> bool" where
  "all_routed i w \<longleftrightarrow> (\<forall>t\<in>set (db_tenants w). tn_ID t = i \<longrightarrow> routed i t)"

lemma wp_true: "(\<And>r w'. Q r w') \<Longrightarrow> wp m Q w"
  by (simp add: wp_run_state)

lemma all_routed_jobs: "wp (setStep j step) (\<lambda>u w'. all_routed i w') w" if "all_routed i w"
  unfolding setStep_def update_job_def wp_bind wp_return
  by (rule jobs_table.wp_update) (use that in \<open>simp_all add: all_routed_def\<close>)

lemma steps_routed:
  "wp (bootstrap_steps env t j token r) (\<lambda>res w'. isl res \<or> all_routed (tn_ID t) w') w"
proof -
  let ?Q = "\<lambda>res w'. isl res \<or> all_routed (tn_ID t) w'"
  have onerr: "wp (onerr m wrap k) ?Q w" if "\<And>x w. wp (k x) ?Q w" for m :: "('e + 'x) prog" and wrap k w
    unfolding wp_onerr by (rule wp_true) (auto intro: that split: sum.split)
  have last: "wp (onerr (ensureProviderDestinations env client t r2) (remote StepCheckDestinations) (\<lambda>(t1, acts3). do {
       _ \<leftarrow> update_job j (\<lambda>j. j\<lparr>bj_CredentialActions := acts1 @ acts2 @ acts3\<rparr>);
       onerr (db_update db_tenants_update (\<lambda>t'. tn_ID t' = tn_ID t) (persist_destinations t1))
         (\<lambda>e. remote StepCheckDestinations (Errf ''persist destination names: %s'' [Verb e])) (\<lambda>_. do {
         _ \<leftarrow> setStep j StepRegisterTmsNode;
         done_with ()
       })
     })) ?Q w" for client r2 acts1 acts2 w
  proof -
    have persist: "wp (do {
       _ \<leftarrow> update_job j f;
       onerr (db_update db_tenants_update (\<lambda>t'. tn_ID t' = tn_ID t) (persist_destinations t1))
         wrap (\<lambda>_. do { _ \<leftarrow> setStep j StepRegisterTmsNode; done_with () }) }) ?Q w"
      if "routed (tn_ID t) t1" for t1 f w and wrap :: "gerr \<Rightarrow> failure"
      unfolding wp_bind wp_onerr
    proof (rule wp_true, rule tenants_table.wp_update; unfold sum.case wp_bind wp_return)
      fix w' fs
      show "wp (setStep j StepRegisterTmsNode) (\<lambda>x w'. isl (Inr () :: failure + unit) \<or> all_routed (tn_ID t) w')
          ((db_tenants_update (upd_where (\<lambda>t'. tn_ID t' = tn_ID t) (persist_destinations t1)) w')\<lparr>faults := fs\<rparr>)"
        by (rule wp_mono [OF all_routed_jobs])
          (use that in \<open>auto simp: all_routed_def routed_def persist_destinations_def upd_where_def\<close>)
    qed simp
    show ?thesis
      unfolding wp_onerr
      by (rule wp_mono [OF provider_routed]) (auto simp: persist split: sum.split)
  qed
  have failed: "wp (failwith e) ?Q w" for e w by (simp add: wp_return)
  show ?thesis
    unfolding bootstrap_steps_def Let_def
    by (cases "NewCFClient env (CfApiURL t, token)")
      (auto intro!: onerr last failed split: prod.split)
qed

text \<open>The final write of a job, for the outcome of its steps.\<close>

definition ended :: "failure + unit \<Rightarrow> time \<Rightarrow> TenantBootstrapJob \<Rightarrow> TenantBootstrapJob" where
  "ended r now j =
     (case r of
        Inr _ \<Rightarrow> j\<lparr>bj_State := JobFinished, bj_EndedAt := Some now\<rparr>
      | Inl (ty, step, reason) \<Rightarrow>
          j\<lparr>bj_State := (if ty = FailureWaitingUserAction then JobWaitingUserAction else JobFailed),
            bj_FailureType := ty, bj_CurrentStep := step, bj_EndedAt := Some now, bj_ErrorDetail := reason\<rparr>)"

definition end_event :: "failure + unit \<Rightarrow> LifecycleEvent" where
  "end_event r = (case r of Inr _ \<Rightarrow> EventBootstrapFinished | Inl _ \<Rightarrow> EventBootstrapFailed)"

definition end_state :: "failure + unit \<Rightarrow> TenantLifecycleState" where
  "end_state r = (case r of Inr _ \<Rightarrow> TenantReady | Inl _ \<Rightarrow> TenantNotReady)"

text \<open>Both final writes happen, or neither.\<close>

definition final_writes :: "world \<Rightarrow> nat \<Rightarrow> nat \<Rightarrow> failure + unit \<Rightarrow> world \<Rightarrow> bool" where
  "final_writes w i jobID r w' \<longleftrightarrow>
     map_option tn_LifecycleState (tenant_at w i) = Some TenantReadying \<and>
     db_jobs w' = upd_where (\<lambda>j. bj_ID j = jobID) (ended r (clock w)) (db_jobs w) \<and>
     map tn_LifecycleState (db_tenants w') =
       map (\<lambda>t. if tn_ID t = i then end_state r else tn_LifecycleState t) (db_tenants w)"

definition no_writes :: "world \<Rightarrow> world \<Rightarrow> bool" where
  "no_writes w w' \<longleftrightarrow> db_jobs w' = db_jobs w \<and> map tn_LifecycleState (db_tenants w') = map tn_LifecycleState (db_tenants w)"

lemma end_edge: "lifecycle_edge st (end_event r) st' \<longleftrightarrow> st = TenantReadying \<and> st' = end_state r"
  by (auto simp: end_event_def end_state_def edge_simps split: sum.splits)

definition names_of :: "world \<Rightarrow> (nat \<times> string \<times> string \<times> string) list" where
  "names_of w = map (\<lambda>t. (tn_ID t, tn_PirApiDestinationName t, tn_CasEngineDestinationName t, tn_PirApiUrl t)) (db_tenants w)"

lemma all_routed_names:
  "all_routed i w \<longleftrightarrow> (\<forall>(k, pir, cas, url)\<in>set (names_of w). k = i \<longrightarrow>
     pir = ''CPIDELIVERY_PIR_'' @ show_nat i \<and> cas = ''CPIDELIVERY_CAS_'' @ show_nat i \<and> url \<noteq> [])"
  by (auto simp: all_routed_def routed_def names_of_def)

lemma end_transaction:
  fixes i jobID r w
  defines "m \<equiv> transaction (onerr (update_job jobID (ended r (clock w))) (Errw ''update job state: %w'' [])
     (\<lambda>_. transitionLifecycleWithTx i (end_event r)))"
  shows "wp m (\<lambda>_ w'. (final_writes w i jobID r w' \<or> no_writes w w') \<and> names_of w' = names_of w \<and> spawned w' = spawned w) w"
    (is "wp m (\<lambda>_. ?Q) w")
  unfolding m_def
proof (rule wp_transaction)
  show "?Q (w\<lparr>faults := fs, next_id := n\<rparr>)" for fs n by (simp add: no_writes_def names_of_def)
  have body: "wp (onerr (update_job jobID (ended r (clock w))) (Errw ''update job state: %w'' [])
     (\<lambda>_. transitionLifecycleWithTx i (end_event r))) (\<lambda>r w1. case r of Inl _ \<Rightarrow> True | Inr x \<Rightarrow> \<forall>fs. ?Q (w1\<lparr>faults := fs\<rparr>)) (w\<lparr>faults := fs\<rparr>)" for fs
    unfolding wp_onerr update_job_def
  proof (rule jobs_table.wp_update; unfold sum.case)
    fix fs2
    let ?w = "(db_jobs_update (upd_where (\<lambda>j. bj_ID j = jobID) (ended r (clock w))) (w\<lparr>faults := fs\<rparr>))\<lparr>faults := fs2\<rparr>"
    show "wp (transitionLifecycleWithTx i (end_event r)) (\<lambda>r w1. case r of Inl _ \<Rightarrow> True | Inr x \<Rightarrow> \<forall>fs. ?Q (w1\<lparr>faults := fs\<rparr>)) ?w"
    proof (rule transition_wp; unfold sum.case)
      fix t st fs3 assume t: "tenant_at ?w i = Some t" and e: "lifecycle_edge (tn_LifecycleState t) (end_event r) st"
      have "final_writes w i jobID r (((set_state i st ?w)\<lparr>faults := fs3\<rparr>)\<lparr>faults := fs4\<rparr>)" for fs4
        using t e by (auto simp: final_writes_def end_edge set_state_def tenant_at_def upd_where_def)
      then show "\<forall>fs. ?Q (((set_state i st ?w)\<lparr>faults := fs3\<rparr>)\<lparr>faults := fs\<rparr>)"
        by (auto simp: names_of_def set_state_def upd_where_def)
    qed simp
  qed simp
  show "wp (onerr (update_job jobID (ended r (clock w))) (Errw ''update job state: %w'' [])
     (\<lambda>_. transitionLifecycleWithTx i (end_event r))) (\<lambda>r w1. case r of Inl _ \<Rightarrow> True | Inr x \<Rightarrow> \<forall>fs. ?Q (w1\<lparr>faults := fs\<rparr>)) (w\<lparr>faults := fs\<rparr>)" for fs
    by (rule body)
qed

lemma finish_wp:
  "wp (finish_job i jobID) (\<lambda>_ w'. (final_writes w i jobID (Inr ()) w' \<or> no_writes w w') \<and>
     names_of w' = names_of w \<and> spawned w' = spawned w) w"
  unfolding finish_job_def wp_bind wp_gets wp_return
  using end_transaction [of jobID "Inr ()" w i] by (simp add: ended_def [abs_def] end_event_def)

lemma fail_wp:
  "wp (fail_job i jobID ty step reason) (\<lambda>_ w'. (final_writes w i jobID (Inl (ty, step, reason)) w' \<or> no_writes w w') \<and>
     spawned w' = spawned w) w"
  unfolding fail_job_def wp_bind wp_gets wp_return
proof (rule wp_mono [OF end_transaction [of jobID "Inl (ty, step, reason)" w i,
      unfolded ended_def [abs_def] end_event_def sum.case prod.case]])
  fix r w1 assume a: "(final_writes w i jobID (Inl (ty, step, reason)) w1 \<or> no_writes w w1) \<and> names_of w1 = names_of w \<and> spawned w1 = spawned w"
  show "wp (db_update db_tenants_update (\<lambda>t. tn_ID t = i) (\<lambda>t. t\<lparr>tn_BlockingReason := err_text reason\<rparr>))
     (\<lambda>x w'. (final_writes w i jobID (Inl (ty, step, reason)) w' \<or> no_writes w w') \<and> spawned w' = spawned w) w1"
    by (rule tenants_table.wp_update)
      (use a in \<open>auto simp: final_writes_def no_writes_def map_upd_kept\<close>)
qed

text \<open>C26: the goroutine of a bootstrap ends its job and moves its tenant in one transaction: when its steps
  end in w1, the job gets its final state exactly when the tenant, still READYING, becomes READY or
  NOT_READY; otherwise both stay as they are and the tenant stays READYING for a reset. A tenant is made
  READY only with both provider destinations and a non-empty runtime URL in its row. The steps
  themselves change no lifecycle state and no other job.\<close>

theorem runBootstrap_outcome:
  assumes steps: "run_state (bootstrap_steps env t jobID token result) w = (r, w1)"
    and run: "run_state (runBootstrap env t jobID token result) w = (u, w')"
  shows "map tenant_core (db_tenants w1) = map tenant_core (db_tenants w) \<and>
    map job_core (db_jobs w1) = map job_core (db_jobs w) \<and> spawned w' = spawned w \<and>
    (final_writes w1 (tn_ID t) jobID r w' \<or> no_writes w1 w') \<and> (isl r \<or> all_routed (tn_ID t) w')"
proof -
  have kept: "steps_keep w w1" using wp_run [OF wp_of_io [OF steps_all] steps] .
  have routed: "isl r \<or> all_routed (tn_ID t) w1" using wp_run [OF steps_routed steps] .
  have rest: "run_state (case r of Inl (ty, step, reason) \<Rightarrow> fail_job (tn_ID t) jobID ty step reason
      | Inr _ \<Rightarrow> finish_job (tn_ID t) jobID) w1 = (u, w')"
    using run steps by (simp add: runBootstrap_def State_Monad.bind_def)
  have final: "(final_writes w1 (tn_ID t) jobID r w' \<or> no_writes w1 w') \<and> spawned w' = spawned w1 \<and>
      (isl r \<or> names_of w' = names_of w1)"
  proof (cases r)
    case (Inl f)
    obtain ty step reason where "f = (ty, step, reason)" by (rule prod_cases3)
    then show ?thesis using rest wp_run [OF fail_wp] unfolding Inl by auto
  next
    case (Inr x)
    then show ?thesis using rest wp_run [OF finish_wp] unfolding Inr by auto
  qed
  have "all_routed i w'" if "names_of w' = names_of w1" "all_routed i w1" for i
    using that by (simp add: all_routed_names)
  then show ?thesis using kept routed final unfolding steps_keep_def by auto
qed

text \<open>C25: an application of a bootstrap starts a goroutine only for a tenant it has claimed and found ready:
  the tenant was CONFIGURED, NOT_READY or READY and is now READYING, the space is accessible and the
  operator holds the role, nothing waits for the user, the TMS node is registered and the central
  TMS is configured, and exactly one running job and its goroutine are added. In every other case there
  is no new job and no goroutine, and without database failures a claimed tenant is NOT_READY again.\<close>

theorem ApplyBootstrap_outcome:
  assumes "run_state (ApplyBootstrap env i token) w = (r, w')"
  shows "case r of
      Inr job \<Rightarrow> \<exists>t. tenant_at w i = Some t \<and> tn_LifecycleState t \<in> {TenantConfigured, TenantNotReady, TenantReady} \<and>
        launched w i t token job w'
    | Inl e \<Rightarrow> spawned w' = spawned w \<and> db_jobs w' = db_jobs w \<and>
        (faults w = [] \<longrightarrow> map_option tn_LifecycleState (tenant_at w' i) =
           map_option (\<lambda>t. if tn_LifecycleState t \<in> {TenantConfigured, TenantNotReady, TenantReady} then TenantNotReady
             else tn_LifecycleState t) (tenant_at w i))"
  using wp_run [OF ApplyBootstrap_wp assms] wp_run [OF ApplyBootstrap_no_faults assms]
  by (cases r) simp_all

section \<open>A concrete bootstrap\<close>

lemma unix_seconds_code [code]: "unix_seconds t = (if t = 0 then 0 else t div 10 ^ 9)"
  by (simp add: unix_seconds_def)

definition demo_key :: creds where
  "demo_key = [(''url'', JStr ''https://pir''), (''uaa'', JObj [(''url'', JStr ''https://uaa''),
     (''clientid'', JStr ''id''), (''clientsecret'', JStr ''secret'')])]"

definition demo_destination :: Destination where
  "demo_destination =
    \<lparr>de_Name = ''TMS'', de_Description = no_message, de_Type = ''HTTP'', de_URL = ''https://tms'', de_Authentication = [],
     de_ProxyType = [], de_TokenServiceURL = [], de_TokenServiceURLType = [], de_ClientId = [], de_ClientSecret = [],
     de_User = [], de_Password = [], de_Port = [], de_SourceSystemId = []\<rparr>"

definition boot_env :: env where
  "boot_env = quiet_env\<lparr>GetServiceKeyCredentials := (\<lambda>_ _. Inr demo_key),
     ProviderGetDestination := (\<lambda>_. Inr (Some demo_destination))\<rparr>"

definition demo_boot :: CpiTenant where
  "demo_boot = demo_dev\<lparr>tn_CfApiEndpoint := ''cf.eu10'', tn_CfOrg := ''org'', tn_CfSpace := ''space'',
     tn_LifecycleState := TenantConfigured\<rparr>"

definition boot_world :: world where
  "boot_world = empty_world\<lparr>next_id := 100, db_tenants := [demo_boot],
     db_tmsctx := [\<lparr>ct_ID = 1, ct_TmsApiDestinationName = ''TMS'', ct_LastValidatedAt = None\<rparr>]\<rparr>"

theorem ApplyBootstrap_outcome_witness:
  "\<exists>job w' t. run_state (ApplyBootstrap boot_env 1 ''token'') boot_world = (Inr job, w') \<and> launched boot_world 1 t ''token'' job w'"
proof -
  have "\<not> isl (fst (run_state (ApplyBootstrap boot_env 1 ''token'') boot_world))" by code_simp
  from run_ok [OF this] obtain job w' where r: "run_state (ApplyBootstrap boot_env 1 ''token'') boot_world = (Inr job, w')"
    by blast
  show ?thesis using r ApplyBootstrap_outcome [OF r] by auto
qed

definition readying_world :: world where
  "readying_world = boot_world\<lparr>db_tenants := [demo_boot\<lparr>tn_LifecycleState := TenantReadying\<rparr>],
     db_jobs := [(new_job 1 JobTypeApply [] 0)\<lparr>bj_ID := 7\<rparr>]\<rparr>"

theorem runBootstrap_outcome_witness:
  "\<exists>w'. run_state (runBootstrap boot_env demo_boot 7 ''token'' empty_result) readying_world = ((), w') \<and> all_routed 1 w'"
proof -
  let ?s = "run_state (bootstrap_steps boot_env demo_boot 7 ''token'' empty_result) readying_world"
  have "\<not> isl (fst ?s)" by code_simp
  from run_ok [OF this] obtain w1 where s: "?s = (Inr (), w1)" by simp
  obtain w' where r: "run_state (runBootstrap boot_env demo_boot 7 ''token'' empty_result) readying_world = ((), w')"
    by (metis old.unit.exhaust prod.exhaust)
  have "tn_ID demo_boot = 1" by (simp add: demo_boot_def demo_dev_def)
  then show ?thesis using r runBootstrap_outcome [OF s r] by simp
qed

end
