(* ===== verification/TenantRuns.thy ===== *)
theory TenantRuns
  imports Machine BootstrapRuns
begin

text \<open>
  The tenants in the machine of Machine: the diagram of the lifecycle holds between any two states the
  service passes through, every temporary key is followed by an attempt to delete it, and a tenant is bootstrapped by one
  goroutine at a time unless a reset intervenes; what happens when it does.
\<close>

section \<open>Temporary keys\<close>









text \<open>A relation that every program keeps, and that time, failures, clients and restarts keep, holds between
  a state and all states reachable from it.\<close>

locale step_relation = kept_relation +
  assumes S_serve: "state_io_rel R (serve env arrival order req)"
    and S_task: "state_io_rel R (run_task env arrival order ctxDone t)"
    and S_recover: "state_io_rel R RecoverActiveSyncs"
    and S_memory: "R w (w\<lparr>syncLocks := l, tracker := T, hub := h, spawned := ts\<rparr>)"
    and S_spawned: "R w (w\<lparr>spawned := ts\<rparr>)"
    and S_clock: "R w (w\<lparr>clock := t'\<rparr>)"
    and S_hub: "R w (w\<lparr>hub := h\<rparr>)"
begin

lemma step_R:
  assumes "sys_step w w'"
  shows "R w w'"
  using assms
proof (cases rule: sys_stepE)
  case (request req env arrival order)
  show ?thesis by (rule wp_run [OF wp_of_io [OF S_serve] request(2)])
next
  case (goroutine before t after env arrival order ctxDone)
  show ?thesis by (rule R_trans [OF S_spawned wp_run [OF wp_of_io [OF S_task] goroutine(2)]])
next
  case restart
  show ?thesis
    by (rule R_trans [OF S_memory wp_run [OF wp_of_io [OF S_recover] restart [unfolded fresh_process_def]]])
qed (simp_all add: S_clock S_hub R_faults)

lemma reachable_R: "reachable w w' \<Longrightarrow> R w w'"
  unfolding reachable_def by (induction rule: rtranclp_induct) (auto intro: R_refl R_trans step_R)

end




section \<open>The lifecycle across the machine\<close>

text \<open>The diagram restricted to some events.\<close>

definition lifecycle_path :: "LifecycleEvent set \<Rightarrow> TenantLifecycleState \<Rightarrow> TenantLifecycleState \<Rightarrow> bool" where
  "lifecycle_path E = (\<lambda>a b. \<exists>ev\<in>E. lifecycle_edge a ev b)\<^sup>*\<^sup>*"

lemma path_refl [simp]: "lifecycle_path E s s"
  by (simp add: lifecycle_path_def)

lemma path_trans: "\<lbrakk>lifecycle_path E a b; lifecycle_path E b c\<rbrakk> \<Longrightarrow> lifecycle_path E a c"
  unfolding lifecycle_path_def by (rule rtranclp_trans)

lemma path_edge: "\<lbrakk>lifecycle_edge a ev b; ev \<in> E\<rbrakk> \<Longrightarrow> lifecycle_path E a b"
  unfolding lifecycle_path_def by (rule r_into_rtranclp) blast

text \<open>DRAFT is never entered, and READYING is left by its two ends only.\<close>

lemma path_draft: "lifecycle_path E s TenantDraft \<Longrightarrow> s = TenantDraft"
  unfolding lifecycle_path_def
proof (induction rule: converse_rtranclp_induct)
  case (step y z)
  moreover have "\<not> lifecycle_edge y ev TenantDraft" for ev by (auto elim: lifecycle_edge.cases)
  ultimately show ?case by blast
qed simp

lemma path_readying: "lifecycle_path {EventCfIdentityConfigured} TenantReadying s \<Longrightarrow> s = TenantReadying"
  unfolding lifecycle_path_def
proof (induction rule: rtranclp_induct)
  case (step y z)
  moreover have "\<not> lifecycle_edge TenantReadying EventCfIdentityConfigured z" by (simp add: edge_simps)
  ultimately show ?case by blast
qed simp

definition deleted :: "world \<Rightarrow> nat \<Rightarrow> bool" where
  "deleted w i \<longleftrightarrow> tenant_at w i = None \<and> (Tenants, i) \<in> set (dead w)"

fun boot_tenant :: "task \<Rightarrow> nat option" where
  "boot_tenant (TaskBootstrap t jobID token result) = Some (tn_ID t)"
| "boot_tenant _ = None"

definition boots :: "world \<Rightarrow> nat \<Rightarrow> nat" where
  "boots w i = length (filter (\<lambda>t. boot_tenant t = Some i) (spawned w))"

text \<open>The tenant with id i moves along the diagram by events of E i until it is deleted, and then its id is gone
  for good; with B no bootstrap is started or lost.\<close>

definition moves :: "(nat \<Rightarrow> LifecycleEvent set) \<Rightarrow> bool \<Rightarrow> world \<Rightarrow> world \<Rightarrow> bool" where
  "moves E B w w' \<longleftrightarrow> (B \<longrightarrow> boots w' = boots w) \<and> (\<forall>i. (deleted w i \<longrightarrow> deleted w' i) \<and>
     (\<forall>t. tenant_at w i = Some t \<longrightarrow> deleted w' i \<or>
        (\<exists>t'. tenant_at w' i = Some t' \<and> lifecycle_path (E i) (tn_LifecycleState t) (tn_LifecycleState t'))))"

lemma move_same: "\<lbrakk>db_tenants w' = db_tenants w; set (dead w) \<subseteq> set (dead w'); B \<longrightarrow> boots w' = boots w\<rbrakk> \<Longrightarrow> moves E B w w'"
  by (auto simp: moves_def deleted_def tenant_at_def)

lemma move_trans: "\<lbrakk>moves E B u v; moves E B v w\<rbrakk> \<Longrightarrow> moves E B u w"
  unfolding moves_def by (intro conjI, metis, blast intro: path_trans)

lemma boots_simps [simp]: "boots (w\<lparr>spawned := ts @ [t]\<rparr>) i = boots (w\<lparr>spawned := ts\<rparr>) i + of_bool (boot_tenant t = Some i)"
  by (simp add: boots_def)

lemma boots_same: "spawned w' = spawned w \<Longrightarrow> boots w' = boots w"
  by (simp add: boots_def fun_eq_iff)

lemma boots_other: "\<lbrakk>spawned w' = spawned w @ [t]; boot_tenant t = None\<rbrakk> \<Longrightarrow> boots w' = boots w"
  by (simp add: boots_def fun_eq_iff)

lemma plain_boots: "plain_task t \<Longrightarrow> boot_tenant t = None"
  by (cases t) simp_all

lemmas move_keep = move_same [OF _ _ impI [OF boots_same]]

interpretation move: kept_relation "moves E B" for E B
proof
  show "moves E B u w" if "moves E B u v" "moves E B v w" for u v w
    using that by (rule move_trans)
qed (simp_all add: move_keep)

text \<open>An update of the rows of one id that moves them along the diagram.\<close>

lemma move_update:
  assumes "\<And>t. tn_ID t = i \<Longrightarrow> tn_ID (f t) = i"
    and "\<And>t. tenant_at w i = Some t \<Longrightarrow> lifecycle_path (E i) (tn_LifecycleState t) (tn_LifecycleState (f t))"
  shows "moves E B w (db_tenants_update (upd_where (\<lambda>t. tn_ID t = i) f) w)"
proof -
  let ?w = "db_tenants_update (upd_where (\<lambda>t. tn_ID t = i) f) w"
  have at: "tenant_at ?w j = (if j = i then map_option f (tenant_at w i) else tenant_at w j)" for j
  proof -
    have "List.find (\<lambda>t. tn_ID t = j) (upd_where (\<lambda>t. tn_ID t = i) f ts) =
        (if j = i then map_option f (List.find (\<lambda>t. tn_ID t = i) ts) else List.find (\<lambda>t. tn_ID t = j) ts)" for ts
      by (induction ts) (auto simp: upd_where_def assms(1))
    then show ?thesis by (simp add: tenant_at_def)
  qed
  show ?thesis
    unfolding moves_def deleted_def at using assms(2) by (auto intro: boots_same)
qed

lemma move_db_update:
  "(\<And>t. tenant_core (f t) = tenant_core t) \<Longrightarrow> state_io_rel (moves E B) (db_update db_tenants_update (\<lambda>t. tn_ID t = i) f)"
  by (intro move.keep_update move_update) (auto simp: tenant_core_def)

lemma move_transition:
  assumes "ev \<in> E i"
  shows "state_io_rel (moves E B) (transitionLifecycleWithTx i ev)" "state_io_rel (moves E B) (TransitionLifecycle i ev)"
proof -
  show *: "state_io_rel (moves E B) (transitionLifecycleWithTx i ev)"
  proof (rule io_of_wp, rule transition_wp)
    fix w t st fs assume "tenant_at w i = Some t" "lifecycle_edge (tn_LifecycleState t) ev st"
    then have "moves E B w (set_state i st w)"
      unfolding set_state_def by (intro move_update) (use assms in \<open>auto intro: path_edge\<close>)
    then show "moves E B w ((set_state i st w)\<lparr>faults := fs\<rparr>)" by (rule move.R_trans) (rule move.R_faults)
  qed (rule move.R_faults)
  show "state_io_rel (moves E B) (TransitionLifecycle i ev)"
    unfolding TransitionLifecycle_def by (intro move.keep_transaction * move_keep) simp_all
qed

interpretation move_others: compare_frame "moves E B" for E B
proof
  show "state_io_rel (moves E B) (StartDRSync d)" for d
  proof (rule io_of_wp)
    fix w
    show "wp (StartDRSync d) (\<lambda>r w'. moves E B w w') w"
      by (cases "tracker w") (simp_all add: StartDRSync_def wp_simps move_keep move_same boots_other)
  qed
qed (auto intro!: move_same simp: boots_def fun_eq_iff plain_boots published_def split: option.split)

lemmas move_keeps = move.keep_return move.keep_bind move.keep_gets move.keep_onerr move.keep_loop move.keep_loopE
  move.keep_load move.keep_query move.keep_first move.keep_find keep_if keep_sum keep_option keep_prod

lemma move_create: "state_io_rel (moves E B) (create_tenant t)"
proof -
  have "moves E B w (db_tenants_update (\<lambda>ts. ts @ [row]) (w\<lparr>next_id := n\<rparr>))"
    if "(Tenants, tn_ID row) \<notin> set (dead w)" for w row n
  proof -
    have "List.find P (xs @ [row]) = (case List.find P xs of Some t \<Rightarrow> Some t | None \<Rightarrow> if P row then Some row else None)" for P xs
      by (induction xs) auto
    then show ?thesis using that by (auto simp: moves_def deleted_def tenant_at_def intro!: boots_same split: option.splits)
  qed
  then show ?thesis
    unfolding create_tenant_def by (intro move.keep_stmt) (auto simp: Let_def intro: move_keep)
qed

lemma move_upsert: "state_io_rel (moves E B) (UpsertCpiTenant body user)"
proof (cases "tn_ID body = 0")
  case True
  then show ?thesis unfolding UpsertCpiTenant_def Let_def
    by (simp, intro impI conjI move_keeps move_create)
next
  case False
  show ?thesis
  proof (rule io_of_wp)
    fix w
    obtain r w' where run: "run_state (UpsertCpiTenant body user) w = (r, w')" by (rule prod.exhaust)
    have "moves E B w w'"
    proof (cases r)
      case (Inl e)
      then show ?thesis using UpsertCpiTenant_saves [OF run False] move.R_faults by auto
    next
      case (Inr saved)
      then obtain t fs where *: "tenant_at w (tn_ID body) = Some t"
          "saved = body\<lparr>tn_UpdatedBy := user, tn_LifecycleState := tn_LifecycleState t\<rparr>"
          "w' = (db_tenants_update (upd_where (\<lambda>u. tn_ID u = tn_ID body) (\<lambda>_. saved)) w)\<lparr>faults := fs\<rparr>"
        using UpsertCpiTenant_saves [OF run False] by auto
      show ?thesis
        unfolding *(3) by (rule move_trans [OF move_update move.R_faults]) (use * in auto)
    qed
    then show "wp (UpsertCpiTenant body user) (\<lambda>r w'. moves E B w w') w" using run by (simp add: wp_def)
  qed
qed

lemma move_delete: "state_io_rel (moves E B) (DeleteCpiTenant raw)"
proof -
  have "moves E B w (db_tenants_update (filter (\<lambda>t. \<not> P t))
      (w\<lparr>dead := dead w @ map (\<lambda>t. (Tenants, tn_ID t)) (filter P (db_tenants w))\<rparr>))"
    if P: "P = (\<lambda>t. int (tn_ID t) = i)" for w P i
  proof -
    have "List.find (\<lambda>t. tn_ID t = j) (filter (\<lambda>t. \<not> P t) ts) =
        (if int j = i then None else List.find (\<lambda>t. tn_ID t = j) ts)" for j ts
      by (induction ts) (auto simp: P)
    then show ?thesis
      by (auto simp: moves_def deleted_def tenant_at_def P dest!: find_SomeD intro!: boots_same)
  qed
  then show ?thesis
    unfolding DeleteCpiTenant_def db_delete_def by (intro move_keeps move.keep_stmt) simp
qed

lemma move_identity:
  assumes "\<And>i. EventCfIdentityConfigured \<in> E i"
  shows "state_io_rel (moves E B) (HandleSaveCfIdentity env raw input token)"
proof -
  have "state_io_rel (moves E B) (update_tenant i (identity_reset input))" for i
    unfolding update_tenant_def
    by (rule move.keep_stmt)
      (simp add: move.R_refl move_update [where f = "identity_reset input"] identity_reset_def missing_prereqs_def)
  then show ?thesis
    unfolding HandleSaveCfIdentity_def SaveCfIdentity_def check_identity_free_def save_identity_def
    by (intro move_keeps move.keep_transaction move_transition move_keep assms) simp_all
qed

lemma move_call: "state_io_rel (moves E B) (cf_call c)"
  unfolding cf_call_def by (intro move.keep_modify move_keep) simp_all

lemma move_temp_key:
  "(\<And>k. state_io_rel (moves E B) (body k)) \<Longrightarrow> state_io_rel (moves E B) (with_temp_key env client inst name wrap body)"
  unfolding with_temp_key_def delete_key_def create_key_def by (intro move_keeps move_call)

lemma move_rollback: "EventBootstrapFailed \<in> E i \<Longrightarrow> state_io_rel (moves E B) (rollback i e)"
  unfolding rollback_def by (intro move_keeps move_transition)

lemma move_inspect: "state_io_rel (moves E B) (InspectCfSubaccount env client u t)"
  unfolding InspectCfSubaccount_def checkDestinations_def by (intro move_keeps move_temp_key)

lemma move_spawn: "boot_tenant t = None \<or> \<not> B \<Longrightarrow> state_io_rel (moves E B) (spawn t)"
  unfolding spawn_def by (intro move.keep_modify move_same) (auto intro: boots_other)

lemma move_jobs: "state_io_rel (moves E B) (db_update db_jobs_update P f)"
  by (intro move.keep_update move_keep; simp)

lemma move_launch: "EventBootstrapFailed \<in> E i \<Longrightarrow> state_io_rel (moves E False) (launch_job t i ty tok r)"
  unfolding launch_job_def
  by (intro move_keeps move_rollback move_spawn move.keep_create move_keep; simp)

lemma move_core:
  assumes "map tenant_core (db_tenants w') = map tenant_core (db_tenants w)" and "dead w' = dead w"
    and "spawned w' = spawned w"
  shows "moves E B w w'"
proof -
  have "map_option tenant_core (List.find (\<lambda>t. tn_ID t = i) us) = map_option tenant_core (List.find (\<lambda>t. tn_ID t = i) ts)"
    if "map tenant_core us = map tenant_core ts" for i us ts
    using that by (induction us ts rule: list_induct2') (auto simp: tenant_core_def)
  from this [OF assms(1)] have *: "map_option tenant_core (tenant_at w' i) = map_option tenant_core (tenant_at w i)" for i
    by (simp add: tenant_at_def)
  have "deleted w' i \<longleftrightarrow> deleted w i" for i
    using * [of i] assms(2) by (cases "tenant_at w i"; cases "tenant_at w' i") (simp_all add: deleted_def)
  moreover have "\<exists>t'. tenant_at w' i = Some t' \<and> tn_LifecycleState t' = tn_LifecycleState t" if "tenant_at w i = Some t" for i t
    using * [of i] that by (auto simp: tenant_core_def)
  ultimately show ?thesis
    unfolding moves_def using boots_same [OF assms(3)] by fastforce
qed

lemma move_steps: "state_io_rel (moves E B) (bootstrap_steps env t j token r)"
  by (rule io_of_wp, rule wp_mono [OF wp_of_io [OF steps_all]]) (auto simp: steps_keep_def intro: move_core)

lemma move_db_tenants: "(\<And>t. tenant_core (f t) = tenant_core t) \<Longrightarrow> state_io_rel (moves E B) (db_update db_tenants_update P f)"
  by (intro move.keep_update move_core) (simp_all add: map_upd_kept)

lemma move_preview: "state_io_rel (moves E B) (HandlePreviewBootstrap env raw token)"
  unfolding HandlePreviewBootstrap_def PreviewBootstrap_def with_tenant_id_def getTenantForBootstrap_def
    checkCentralTmsContext_def loadTmsContext_def Let_def
  by (intro move_keeps move_inspect)

lemma move_apply: "E i = UNIV \<Longrightarrow> state_io_rel (moves E False) (ApplyBootstrap env i token)"
  unfolding ApplyBootstrap_def inspect_and_launch_def launch_if_clean_def
    getTenantForBootstrap_def checkCentralTmsContext_def loadTmsContext_def Let_def
  by (intro move_keeps move_rollback move_inspect move_launch move_transition move_db_tenants;
      simp add: tenant_core_def missing_prereqs_def)

lemma move_reset: "E i = UNIV \<Longrightarrow> state_io_rel (moves E B) (ResetBootstrap i)"
  unfolding ResetBootstrap_def getTenantForBootstrap_def by (intro move_keeps move_transition move_jobs; simp)

lemma move_run: "E (tn_ID t) = UNIV \<Longrightarrow> state_io_rel (moves E B) (runBootstrap env t j token r)"
  unfolding runBootstrap_def fail_job_def finish_job_def update_job_def
  by (intro move_keeps move_transition move_db_tenants move_jobs move_steps move.keep_transaction move_keep;
      simp add: tenant_core_def)

lemma move_settings:
  "state_io_rel (moves E B) (HandleRegisterTmsNode raw nodeId nodeName)" "state_io_rel (moves E B) (HandleConfirmTmsRoutes env raw)"
  "state_io_rel (moves E B) (UpsertCentralTmsContext input)"
  "state_io_rel (moves E B) (UpsertDeliveryRule env rule included excluded user)" "state_io_rel (moves E B) (DeleteDeliveryRule raw)"
  unfolding HandleRegisterTmsNode_def HandleConfirmTmsRoutes_def with_tenant_id_def RegisterTmsNode_def ConfirmTmsRoutes_def
    loadTmsContext_def UpsertCentralTmsContext_def UpsertDeliveryRule_def save_rule_tx_def save_rule_unique_def save_rule_def
    DeleteDeliveryRule_def Let_def
  by (intro move_keeps move_db_tenants move.keep_transaction move.keep_save move.keep_update move.keep_delete move_keep;
      simp add: tenant_core_def)+

lemma move_handlers:
  assumes "\<And>i. E i = UNIV"
  shows "state_io_rel (moves E False) (HandleApplyBootstrap env raw token)"
    "state_io_rel (moves E False) (HandleRetryBootstrap env raw token)" "state_io_rel (moves E B) (HandleResetBootstrap raw)"
  unfolding HandleApplyBootstrap_def HandleRetryBootstrap_def HandleResetBootstrap_def with_tenant_id_def
  by (intro move_keeps move_apply move_reset assms)+

lemma move_ignore: "state_io_rel (moves E B) m \<Longrightarrow> state_io_rel (moves E B) (ignore m)"
  unfolding ignore_def by (intro move_keeps)

fun bootstraps :: "request \<Rightarrow> bool" where
  "bootstraps (ReqApply raw token) = True"
| "bootstraps (ReqRetry raw token) = True"
| "bootstraps (ReqReset raw) = True"
| "bootstraps _ = False"

lemma move_serve_others:
  assumes "\<And>i. EventCfIdentityConfigured \<in> E i" and "\<not> bootstraps req"
  shows "state_io_rel (moves E B) (serve env arrival order req)"
proof (cases "admin req")
  case True
  then show ?thesis using assms
    by (cases req) (simp_all add: move_ignore move_upsert move_delete move_identity move_preview move_settings)
qed (rule move_others.cmp_serve)

lemma move_serve:
  assumes "\<And>i. E i = UNIV"
  shows "state_io_rel (moves E False) (serve env arrival order req)"
proof (cases "bootstraps req")
  case True
  then show ?thesis using assms by (cases req) (simp_all add: move_ignore move_handlers)
qed (rule move_serve_others, simp add: assms)

lemma move_sync_tasks:
  "state_io_rel (moves E B) (sync_round env d)" "state_io_rel (moves E B) (sync_tick env b d)" "state_io_rel (moves E B) (FinishSync d)"
  unfolding sync_round_def sync_tick_def FinishSync_def
  by (intro move_keeps move_spawn move_others.svc_sync move_others.frame_query move.keep_modify move_keep; simp)+

lemma move_task_others:
  assumes "boot_tenant t = None"
  shows "state_io_rel (moves E B) (run_task env arrival order ctxDone t)"
proof (cases "sync_task t")
  case None
  then show ?thesis using assms by (intro move_others.cmp_task) auto
next
  case (Some d)
  then show ?thesis by (cases t) (simp_all add: move_sync_tasks)
qed

lemma move_task:
  assumes "\<And>i. E i = UNIV"
  shows "state_io_rel (moves E False) (run_task env arrival order ctxDone t)"
proof (cases "boot_tenant t")
  case (Some i)
  then show ?thesis using assms by (cases t) (simp_all add: move_run)
qed (rule move_task_others)

abbreviation tenants_move :: "world \<Rightarrow> world \<Rightarrow> bool" where
  "tenants_move \<equiv> moves (\<lambda>_. UNIV) False"

interpretation move_step: step_relation tenants_move
  by unfold_locales (rule move_serve move_task move_others.svc_recover refl | simp add: move_same)+

text \<open>C28: a tenant only moves along the lifecycle diagram, whatever requests and goroutines run, in any order and
  with any database failures, and a deleted tenant never returns under its id: between any two states of the
  service the diagram has a path, so that no tenant falls back to DRAFT.\<close>

theorem tenant_lifecycle:
  assumes "reachable w w'" and "tenant_at w i = Some t"
  shows "case tenant_at w' i of
      None \<Rightarrow> deleted w' i
    | Some t' \<Rightarrow> lifecycle_path UNIV (tn_LifecycleState t) (tn_LifecycleState t') \<and>
        (tn_LifecycleState t' = TenantDraft \<longrightarrow> tn_LifecycleState t = TenantDraft)"
  using move_step.reachable_R [OF assms(1)] assms(2)
  by (fastforce simp: moves_def deleted_def split: option.split dest: path_draft)


lemma receive_reachable: "reachable w (receive env req w)"
  by (rule then_reachable [OF receive_step reachable_refl])

theorem tenant_lifecycle_witness:
  "\<exists>t'. tenant_at (receive boot_env (ReqApply ''1'' ''token'') boot_world) 1 = Some t' \<and>
     tn_LifecycleState t' = TenantReadying \<and> lifecycle_path UNIV TenantConfigured (tn_LifecycleState t')"
proof -
  let ?w = "receive boot_env (ReqApply ''1'' ''token'') boot_world"
  have "map_option tn_LifecycleState (tenant_at ?w 1) = Some TenantReadying" by code_simp
  then obtain t' where "tenant_at ?w 1 = Some t'" "tn_LifecycleState t' = TenantReadying" by auto
  moreover have "tenant_at boot_world 1 = Some demo_boot"
    by (simp add: tenant_at_def boot_world_def empty_world_def demo_boot_def demo_dev_def)
  moreover have "tn_LifecycleState demo_boot = TenantConfigured" by (simp add: demo_boot_def)
  ultimately show ?thesis using tenant_lifecycle [OF receive_reachable, of boot_world 1 demo_boot boot_env "ReqApply ''1'' ''token''"]
    by simp
qed

section \<open>One bootstrap at a time\<close>

definition readying :: "world \<Rightarrow> nat \<Rightarrow> bool" where
  "readying w i \<longleftrightarrow> map_option tn_LifecycleState (tenant_at w i) = Some TenantReadying"

definition boots_ok :: "world \<Rightarrow> bool" where
  "boots_ok w \<longleftrightarrow> (\<forall>i. boots w i \<le> (if readying w i \<or> deleted w i then 1 else 0))"

text \<open>Moves that end no bootstrap but those of the tenants in X.\<close>

definition ends :: "nat set \<Rightarrow> nat \<Rightarrow> LifecycleEvent set" where
  "ends X i = (if i \<in> X then UNIV else {EventCfIdentityConfigured})"

lemma ends_mem [simp]: "EventCfIdentityConfigured \<in> ends X i" "ends {i} i = UNIV"
  by (simp_all add: ends_def)

lemma ends_keep: "\<lbrakk>moves (ends X) B w w'; i \<notin> X; readying w i \<or> deleted w i\<rbrakk> \<Longrightarrow> readying w' i \<or> deleted w' i"
  by (fastforce simp: moves_def readying_def ends_def dest: spec [of _ i] path_readying)

lemma moves_ok:
  assumes "moves (ends X) B w w'" and "boots_ok w"
    and "\<And>i. i \<in> X \<Longrightarrow> boots w' i \<le> (if readying w' i \<or> deleted w' i then 1 else 0)"
    and "\<And>i. i \<notin> X \<Longrightarrow> boots w' i = boots w i"
  shows "boots_ok w'"
  unfolding boots_ok_def
proof
  fix i
  show "boots w' i \<le> (if readying w' i \<or> deleted w' i then 1 else 0)"
  proof (cases "i \<in> X")
    case False
    have "boots w i \<le> (if readying w i \<or> deleted w i then 1 else 0)" using assms(2) by (simp add: boots_ok_def)
    then show ?thesis
      using ends_keep [OF assms(1) False] assms(4) [OF False] by (cases "readying w i \<or> deleted w i") auto
  qed (rule assms(3))
qed

lemma boots_less:
  assumes "boots_ok w" and "db_tenants w' = db_tenants w" "dead w' = dead w" and "\<And>i. boots w' i \<le> boots w i"
  shows "boots_ok w'"
  unfolding boots_ok_def
proof
  fix i
  have "boots w i \<le> (if readying w i \<or> deleted w i then 1 else 0)" using assms(1) by (simp add: boots_ok_def)
  with assms(4) have "boots w' i \<le> (if readying w i \<or> deleted w i then 1 else 0)" by (rule order_trans)
  then show "boots w' i \<le> (if readying w' i \<or> deleted w' i then 1 else 0)"
    using assms(2,3) by (simp add: readying_def deleted_def tenant_at_def)
qed

text \<open>A tenant that is being bootstrapped is not claimed again.\<close>

lemma apply_readying:
  assumes "readying w i"
  shows "wp (ApplyBootstrap env i token) (\<lambda>r w'. db_tenants w' = db_tenants w \<and> isl r) w"
  unfolding ApplyBootstrap_def getTenantForBootstrap_def wp_onerr
proof (rule tenants_table.wp_first; unfold sum.case wp_return id_apply Let_def wp_onerr)
  fix fs t
  show "wp (TransitionLifecycle i EventBootstrapStarted) (\<lambda>r w'. case r of
      Inl e \<Rightarrow> db_tenants w' = db_tenants w \<and> isl (Inl (Errw ''apply: %w'' [] e) :: gerr + nat)
    | Inr x \<Rightarrow> wp (State_Monad.bind (db_update db_tenants_update (\<lambda>t. tn_ID t = i) missing_prereqs)
        (\<lambda>_. inspect_and_launch env t i (if tn_LifecycleState t = TenantNotReady then JobTypeRetry else JobTypeApply) token))
        (\<lambda>r w'. db_tenants w' = db_tenants w \<and> isl r) w') (w\<lparr>faults := fs\<rparr>)"
    by (rule wp_mono [OF transition_exact]) (use assms in \<open>auto simp: readying_def edge_simps split: sum.splits\<close>)
qed simp_all

lemma apply_ok:
  assumes ok: "boots_ok w" and run: "run_state (ApplyBootstrap env i token) w = (r, w')"
  shows "boots_ok w'"
proof -
  have m: "moves (ends {i}) False w w'"
    by (rule wp_run [OF wp_of_io [OF move_apply] run]) simp
  have b: "boots w i \<le> (if readying w i \<or> deleted w i then 1 else 0)" using ok by (simp add: boots_ok_def)
  have d: "deleted w i \<Longrightarrow> deleted w' i" using m by (simp add: moves_def)
  show ?thesis
  proof (cases r)
    case (Inl e)
    then have s: "spawned w' = spawned w" using wp_run [OF ApplyBootstrap_wp run] by simp
    have "readying w i \<Longrightarrow> readying w' i"
      using wp_run [OF apply_readying run] by (simp add: readying_def tenant_at_def)
    then show ?thesis
      using b d by (intro moves_ok [OF m ok]) (auto simp: boots_same [OF s] split: if_splits)
  next
    case (Inr job)
    then obtain t result where t: "tenant_at w i = Some t" "tn_LifecycleState t \<noteq> TenantReadying" and
      s: "spawned w' = spawned w @ [TaskBootstrap t job token result]" and "readying w' i"
      using wp_run [OF ApplyBootstrap_wp run] by (auto simp: launched_def readying_def)
    moreover have "tn_ID t = i" using t(1) by (auto simp: tenant_at_def dest: find_SomeD)
    moreover have "boots w i = 0" using b t by (simp add: readying_def deleted_def)
    ultimately show ?thesis
      by (intro moves_ok [OF m ok]) (auto simp: boots_def)
  qed
qed

lemma with_tenant_id_ok:
  assumes "\<And>i. state_io_rel (\<lambda>w w'. boots_ok w \<longrightarrow> boots_ok w') (k i)"
  shows "state_io_rel (\<lambda>w w'. boots_ok w \<longrightarrow> boots_ok w') (with_tenant_id raw k)"
  using assms unfolding with_tenant_id_def by (auto simp: state_io_rel_def split: sum.split)

interpretation boots: kept_relation "\<lambda>w w'. boots_ok w \<longrightarrow> boots_ok w'"
  by unfold_locales (auto simp: boots_ok_def boots_def readying_def deleted_def)

lemma ok_apply: "state_io_rel (\<lambda>w w'. boots_ok w \<longrightarrow> boots_ok w') (ApplyBootstrap env i token)"
  unfolding state_io_rel_def using apply_ok surjective_pairing by blast

lemma calm_ok: "state_io_rel (moves (ends {}) True) m \<Longrightarrow> state_io_rel (\<lambda>w w'. boots_ok w \<longrightarrow> boots_ok w') m"
  unfolding state_io_rel_def
proof (intro allI impI)
  fix w assume "\<forall>w. moves (ends {}) True w (snd (run_state m w))" and ok: "boots_ok w"
  then have m: "moves (ends {}) True w (snd (run_state m w))" by blast
  then have "boots (snd (run_state m w)) i = boots w i" for i by (simp add: moves_def)
  then show "boots_ok (snd (run_state m w))"
    by (intro moves_ok [OF m ok]) simp_all
qed

lemma ok_serve:
  assumes "\<And>raw. req \<noteq> ReqReset raw"
  shows "state_io_rel (\<lambda>w w'. boots_ok w \<longrightarrow> boots_ok w') (serve env arrival order req)"
proof (cases "bootstraps req")
  case True
  have "state_io_rel (\<lambda>w w'. boots_ok w \<longrightarrow> boots_ok w') (HandleApplyBootstrap env raw token)"
    "state_io_rel (\<lambda>w w'. boots_ok w \<longrightarrow> boots_ok w') (HandleRetryBootstrap env raw token)" for raw token
    unfolding HandleApplyBootstrap_def HandleRetryBootstrap_def
    by (intro with_tenant_id_ok keep_if boots.keep_onerr boots.keep_return ok_apply)+
  with True show ?thesis
    by (cases req) (use assms in \<open>simp_all add: ignore_def boots.keep_bind boots.keep_return\<close>)
qed (intro calm_ok move_serve_others, simp_all)

text \<open>A goroutine runs with itself taken off the list.\<close>

lemma task_ok:
  assumes ok: "boots_ok w" and s: "spawned w = before @ t # after"
    and run: "run_state (run_task env arrival order ctxDone t) (w\<lparr>spawned := before @ after\<rparr>) = (u, w')"
  shows "boots_ok w'"
proof -
  let ?w = "w\<lparr>spawned := before @ after\<rparr>"
  have b: "boots w i = boots ?w i + of_bool (boot_tenant t = Some i)" for i by (simp add: boots_def s)
  then have ok1: "boots_ok ?w"
    by (intro boots_less [OF ok]) simp_all
  show ?thesis
  proof (cases "boot_tenant t")
    case None
    then show ?thesis using wp_run [OF wp_of_io [OF calm_ok [OF move_task_others [OF None]]] run] ok1 by simp
  next
    case (Some i)
    then obtain tn j k r where t: "t = TaskBootstrap tn j k r" "tn_ID tn = i" by (cases t) auto
    have m: "moves (ends {i}) True ?w w'"
      using run unfolding t(1) by (intro wp_run [OF wp_of_io [OF move_run]]) (simp_all add: t(2))
    have "boots w i \<le> 1" using ok by (auto simp: boots_ok_def dest: spec [of _ i] split: if_splits)
    then have "boots ?w i = 0" using b [of i] Some by simp
    then show ?thesis using m by (intro moves_ok [OF m ok1]) (auto simp: moves_def)
  qed
qed

lemma step_ok:
  assumes "sys_step_if (\<lambda>req. \<forall>raw. req \<noteq> ReqReset raw) w w'" and "boots_ok w"
  shows "boots_ok w'"
  using assms(1)
proof (cases rule: sys_stepE)
  case (request req env arrival order)
  then show ?thesis using wp_run [OF wp_of_io [OF ok_serve] request(2)] assms(2) by blast
next
  case (goroutine before t after env arrival order ctxDone)
  then show ?thesis using task_ok assms(2) by blast
next
  case restart
  have "boots_ok (fresh_process w)" by (simp add: boots_ok_def boots_def fresh_process_def)
  then show ?thesis
    using wp_run [OF wp_of_io [OF calm_ok [OF move_others.svc_recover]] restart] by blast
qed (use assms(2) in \<open>simp_all add: boots_ok_def boots_def readying_def deleted_def tenant_at_def\<close>)

text \<open>C29: as long as no bootstrap is reset, at most one goroutine bootstraps a tenant, and while it does the
  tenant is READYING or has been deleted: over any other requests, in any order, failures and restarts.\<close>

theorem one_bootstrap:
  assumes "reachable_if (\<lambda>req. \<forall>raw. req \<noteq> ReqReset raw) w w'" and "boots_ok w"
  shows "boots w' i \<le> (if readying w' i \<or> deleted w' i then 1 else 0)"
proof -
  have "boots_ok w'"
    using assms unfolding reachable_if_def by (induction rule: rtranclp_induct) (auto intro: step_ok)
  then show ?thesis by (simp add: boots_ok_def)
qed

text \<open>Two applications in a row: the second finds the tenant READYING.\<close>

theorem one_bootstrap_witness:
  "boots (receive boot_env (ReqApply ''1'' ''token'') (receive boot_env (ReqApply ''1'' ''token'') boot_world)) 1 \<le> 1"
proof -
  let ?ok = "\<lambda>req. \<forall>raw. req \<noteq> ReqReset raw"
  have step: "sys_step_if ?ok w (receive boot_env (ReqApply ''1'' ''token'') w)" for w
    unfolding receive_def by (rule sys_step_if.request [OF _ run_split]) simp
  have "reachable_if ?ok boot_world (receive boot_env (ReqApply ''1'' ''token'') (receive boot_env (ReqApply ''1'' ''token'') boot_world))"
    unfolding reachable_if_def by (rule converse_rtranclp_into_rtranclp [OF step r_into_rtranclp [of "sys_step_if ?ok", OF step]])
  moreover have "boots_ok boot_world" by (simp add: boots_ok_def boots_def boot_world_def empty_world_def)
  ultimately have "boots (receive boot_env (ReqApply ''1'' ''token'') (receive boot_env (ReqApply ''1'' ''token'') boot_world)) 1 \<le>
      (if readying (receive boot_env (ReqApply ''1'' ''token'') (receive boot_env (ReqApply ''1'' ''token'') boot_world)) 1 \<or>
         deleted (receive boot_env (ReqApply ''1'' ''token'') (receive boot_env (ReqApply ''1'' ''token'') boot_world)) 1 then 1 else 0)"
    by (rule one_bootstrap)
  then show ?thesis by (simp split: if_splits)
qed

section \<open>A reset\<close>

text \<open>A bootstrap that is applied, reset while its goroutine has not ended, and retried.\<close>

definition reset_world :: world where
  "reset_world = receive boot_env (ReqRetry ''1'' ''token'') (receive boot_env (ReqReset ''1'')
     (receive boot_env (ReqApply ''1'' ''token'') boot_world))"

text \<open>With a database that answers, the end of a bootstrap is written exactly when its tenant is
  READYING, whatever job the end is for.\<close>

lemma end_written:
  assumes f: "faults w = []" and t: "tenant_at w i = Some t" "tn_LifecycleState t = TenantReadying"
  shows "wp (transaction (onerr (update_job jobID (ended r (clock w))) wrap (\<lambda>_. transitionLifecycleWithTx i (end_event r)))) Q w =
    Q (Inr ()) (set_state i (end_state r) (db_jobs_update (upd_where (\<lambda>j. bj_ID j = jobID) (ended r (clock w))) w))"
proof -
  have "next_state TenantReadying i (end_event r) = Inr (end_state r)" by (simp add: next_state_edge end_edge)
  then have "run_state (onerr (update_job jobID (ended r (clock w))) wrap (\<lambda>_. transitionLifecycleWithTx i (end_event r))) w =
      (Inr (), set_state i (end_state r) (db_jobs_update (upd_where (\<lambda>j. bj_ID j = jobID) (ended r (clock w))) w))"
    using f t by (simp add: update_job_def transitionLifecycleWithTx_def onerr_def State_Monad.bind_def tenant_at_def
        jobs_table.update_ok tenants_table.first_ok tenants_table.update_ok set_state_def)
  from transaction_ok [OF f this] show ?thesis using f by (simp add: wp_def set_state_def)
qed

lemma end_refused:
  assumes "map_option tn_LifecycleState (tenant_at w i) \<noteq> Some TenantReadying"
  shows "wp (transaction (onerr (update_job jobID (ended r now)) wrap (\<lambda>_. transitionLifecycleWithTx i (end_event r))))
    (\<lambda>_ w'. db_jobs w' = db_jobs w \<and> db_tenants w' = db_tenants w \<and> spawned w' = spawned w) w"
proof (rule wp_transaction)
  fix fs
  show "wp (onerr (update_job jobID (ended r now)) wrap (\<lambda>_. transitionLifecycleWithTx i (end_event r)))
    (\<lambda>r w1. case r of Inl _ \<Rightarrow> True
      | Inr _ \<Rightarrow> \<forall>fs. db_jobs (w1\<lparr>faults := fs\<rparr>) = db_jobs w \<and> db_tenants (w1\<lparr>faults := fs\<rparr>) = db_tenants w \<and>
          spawned (w1\<lparr>faults := fs\<rparr>) = spawned w) (w\<lparr>faults := fs\<rparr>)"
    unfolding wp_onerr update_job_def
    by (rule jobs_table.wp_update; unfold sum.case; (rule transition_wp)?)
      (use assms in \<open>auto simp: end_edge tenant_at_def\<close>)
qed simp

text \<open>The whole end, for either outcome of the steps; a failure also writes the blocking reason.\<close>

definition bootstrap_end :: "nat \<Rightarrow> nat \<Rightarrow> failure + unit \<Rightarrow> unit prog" where
  "bootstrap_end i jobID r =
     (case r of Inl (ty, step, reason) \<Rightarrow> fail_job i jobID ty step reason | Inr _ \<Rightarrow> finish_job i jobID)"

lemma bootstrap_end_wp:
  assumes "wp (transaction (onerr (update_job jobID (ended r (clock w))) (Errw ''update job state: %w'' [])
       (\<lambda>_. transitionLifecycleWithTx i (end_event r)))) (\<lambda>_ w'. Q w') w"
    and "\<And>w' reason fs. Q w' \<Longrightarrow> Q ((db_tenants_update (upd_where (\<lambda>t. tn_ID t = i) (\<lambda>t. t\<lparr>tn_BlockingReason := reason\<rparr>)) w')\<lparr>faults := fs\<rparr>)"
    and "\<And>w' fs. Q w' \<Longrightarrow> Q (w'\<lparr>faults := fs\<rparr>)"
  shows "wp (bootstrap_end i jobID r) (\<lambda>_ w'. Q w') w"
proof (cases r)
  case (Inl f)
  obtain ty step reason where f: "f = (ty, step, reason)" by (rule prod_cases3)
  show ?thesis
    unfolding bootstrap_end_def Inl f sum.case prod.case fail_job_def wp_bind wp_gets wp_return
    by (rule wp_mono [OF assms(1) [unfolded Inl f ended_def [abs_def] end_event_def sum.case prod.case]],
        rule tenants_table.wp_update) (use assms(2,3) in auto)
next
  case (Inr x)
  show ?thesis
    unfolding bootstrap_end_def Inr sum.case finish_job_def wp_bind wp_gets wp_return
    using assms(1) by (simp add: Inr ended_def [abs_def] end_event_def)
qed

lemma runBootstrap_end:
  "run_state (bootstrap_steps env t jobID token result) w = (r, w1) \<Longrightarrow>
   run_state (runBootstrap env t jobID token result) w = run_state (bootstrap_end (tn_ID t) jobID r) w1"
  by (simp add: runBootstrap_def bootstrap_end_def State_Monad.bind_def)

lemma state_of_cores:
  assumes "map tenant_core ts' = map tenant_core ts"
  shows "map_option tn_LifecycleState (List.find (\<lambda>t. tn_ID t = i) ts') = map_option tn_LifecycleState (List.find (\<lambda>t. tn_ID t = i) ts)"
proof -
  have "map_option tn_LifecycleState (List.find (\<lambda>t. tn_ID t = i) us) =
      map_option (\<lambda>c. fst (snd c)) (List.find (\<lambda>c. fst c = i) (map tenant_core us))" for us
    by (induction us) (simp_all add: tenant_core_def)
  then show ?thesis using assms by simp
qed

lemma core_of_jobs:
  "\<lbrakk>map job_core js' = map job_core js; j \<in> set js\<rbrakk> \<Longrightarrow> \<exists>j'\<in>set js'. job_core j' = job_core j"
proof -
  assume "map job_core js' = map job_core js" "j \<in> set js"
  then have "job_core j \<in> set (map job_core js')" by simp
  then show ?thesis by auto
qed

lemma job_core_sel: "bj_ID (job_core j) = bj_ID j" "bj_State (job_core j) = bj_State j" "bj_EndedAt (job_core j) = bj_EndedAt j"
  by (simp_all add: job_core_def)

lemma job_core_id: "job_core j' = job_core j \<Longrightarrow> bj_ID j' = bj_ID j \<and> bj_State j' = bj_State j \<and> bj_EndedAt j' = bj_EndedAt j"
  by (metis job_core_sel)

lemma tenant_at_jobs: "tenant_at (db_jobs_update f w) i = tenant_at w i"
  by (simp add: tenant_at_def)

text \<open>The end of a bootstrap in a world where its tenant is READYING, with a database that answers.\<close>

lemma bootstrap_ends:
  assumes "faults w = []" and "map_option tn_LifecycleState (tenant_at w i) = Some TenantReadying"
  shows "wp (bootstrap_end i jobID r) (\<lambda>_ w'. map_option tn_LifecycleState (tenant_at w' i) = Some (end_state r) \<and>
      db_jobs w' = upd_where (\<lambda>j. bj_ID j = jobID) (ended r (clock w)) (db_jobs w) \<and> spawned w' = spawned w) w"
proof -
  obtain t where t: "tenant_at w i = Some t" "tn_LifecycleState t = TenantReadying" using assms(2) by auto
  show ?thesis
    by (rule bootstrap_end_wp)
      (use t in \<open>auto simp: end_written [OF assms(1) t] set_state_def tenant_at_upd tenant_at_faults tenant_at_jobs\<close>)
qed

text \<open>And in a world where it is not: nothing but the blocking reason.\<close>

lemma bootstrap_end_refused:
  assumes "map_option tn_LifecycleState (tenant_at w i) \<noteq> Some TenantReadying"
  shows "wp (bootstrap_end i jobID r) (\<lambda>_ w'. map tenant_core (db_tenants w') = map tenant_core (db_tenants w) \<and>
      db_jobs w' = db_jobs w \<and> spawned w' = spawned w) w"
  by (rule bootstrap_end_wp [OF wp_mono [OF end_refused [OF assms]]])
    (auto simp: map_upd_kept tenant_core_def)

lemma ResetBootstrap_refused:
  assumes "map_option tn_LifecycleState (tenant_at w i) \<noteq> Some TenantReadying"
  shows "wp (ResetBootstrap i) (\<lambda>r w'. isl r \<and> (\<exists>fs. w' = w\<lparr>faults := fs\<rparr>)) w"
  unfolding ResetBootstrap_def getTenantForBootstrap_def wp_onerr
  by (rule tenants_table.wp_first) (use assms in \<open>auto simp: wp_simps tenant_at_def\<close>)

text \<open>C30: the end of a bootstrap is tied to its tenant, not to the running job, and a reset does not stop the
  goroutine. So when a bootstrap was reset and retried, the tenant READYING and the job of the retry
  RUNNING, and the goroutine of the old job ends first (its steps done in w1, the database answering),
  the tenant gets the outcome of the old job, READY or NOT_READY, and the old job, which the reset had
  marked FAILED, that outcome as its state. The goroutine of the retry, whatever its own outcome and
  the database, then changes no tenant's state and leaves its job RUNNING, with no goroutine for it;
  and a reset is refused without effect.\<close>

theorem stale_bootstrap:
  assumes retry: "map_option tn_LifecycleState (tenant_at w i) = Some TenantReadying"
      "j \<in> set (db_jobs w)" "bj_ID j = job" "bj_State j = JobRunning"
    and ids: "old \<noteq> job" "tn_ID t1 = i" "tn_ID t2 = i"
    and steps: "run_state (bootstrap_steps env1 t1 old token1 result1) w = (r, w1)" "faults w1 = []"
    and first: "run_state (runBootstrap env1 t1 old token1 result1) w = (u1, w2)"
    and retried: "run_state (runBootstrap env2 t2 job token2 result2) w2 = (u2, w3)"
    and reset: "run_state (ResetBootstrap i) w3 = (e, w4)"
  shows "map_option tn_LifecycleState (tenant_at w2 i) = Some (case r of Inl _ \<Rightarrow> TenantNotReady | Inr _ \<Rightarrow> TenantReady) \<and>
    (\<forall>k\<in>set (db_jobs w2). bj_ID k = old \<longrightarrow> bj_State k = (case r of Inr _ \<Rightarrow> JobFinished
       | Inl (ty, _, _) \<Rightarrow> if ty = FailureWaitingUserAction then JobWaitingUserAction else JobFailed)) \<and>
    map_option tn_LifecycleState (tenant_at w4 i) = map_option tn_LifecycleState (tenant_at w2 i) \<and>
    (\<exists>j'\<in>set (db_jobs w4). bj_ID j' = job \<and> bj_State j' = JobRunning \<and> bj_EndedAt j' = bj_EndedAt j) \<and>
    spawned w4 = spawned w \<and> isl e \<and> (\<exists>fs. w4 = w3\<lparr>faults := fs\<rparr>)"
proof -
  have k1: "steps_keep w w1" using wp_run [OF wp_of_io [OF steps_all] steps(1)] .
  then have "map_option tn_LifecycleState (tenant_at w1 i) = Some TenantReadying"
    using retry(1) state_of_cores [of "db_tenants w1" "db_tenants w" i] by (simp add: steps_keep_def tenant_at_def)
  from wp_run [OF bootstrap_ends [OF steps(2) this]] first
  have e2: "map_option tn_LifecycleState (tenant_at w2 i) = Some (end_state r)"
    "db_jobs w2 = upd_where (\<lambda>j. bj_ID j = old) (ended r (clock w1)) (db_jobs w1)" "spawned w2 = spawned w1"
    unfolding runBootstrap_end [OF steps(1)] ids(2) by blast+
  obtain r2 v where v: "run_state (bootstrap_steps env2 t2 job token2 result2) w2 = (r2, v)" by (rule prod.exhaust)
  have k2: "steps_keep w2 v" using wp_run [OF wp_of_io [OF steps_all] v] .
  then have lv: "map_option tn_LifecycleState (tenant_at v i) = map_option tn_LifecycleState (tenant_at w2 i)"
    using state_of_cores [of "db_tenants v" "db_tenants w2" i] by (simp add: steps_keep_def tenant_at_def)
  have "map_option tn_LifecycleState (tenant_at v i) \<noteq> Some TenantReadying"
    unfolding lv e2(1) by (simp add: end_state_def split: sum.split)
  from wp_run [OF bootstrap_end_refused [OF this]] retried
  have e3: "map tenant_core (db_tenants w3) = map tenant_core (db_tenants v)" "db_jobs w3 = db_jobs v" "spawned w3 = spawned v"
    unfolding runBootstrap_end [OF v] ids(3) by blast+
  have l3: "map_option tn_LifecycleState (tenant_at w3 i) = Some (end_state r)"
    using state_of_cores [OF e3(1), of i] lv e2(1) by (simp add: tenant_at_def)
  have e4: "isl e \<and> (\<exists>fs. w4 = w3\<lparr>faults := fs\<rparr>)"
    by (rule wp_run [OF ResetBootstrap_refused reset]) (simp add: l3 end_state_def split: sum.split)
  obtain j1 where j1: "j1 \<in> set (db_jobs w1)" "job_core j1 = job_core j"
    using k1 retry(2) core_of_jobs [of "db_jobs w1" "db_jobs w" j] by (auto simp: steps_keep_def)
  then have "j1 \<in> set (db_jobs w2)"
    using job_core_id [OF j1(2)] retry(3) ids(1) by (auto simp: e2(2) set_upd_where)
  then obtain j3 where j3: "j3 \<in> set (db_jobs w3)" "job_core j3 = job_core j1"
    using k2 e3(2) core_of_jobs [of "db_jobs v" "db_jobs w2" j1] by (auto simp: steps_keep_def)
  have "job_core j3 = job_core j" using j1(2) j3(2) by simp
  then have "bj_ID j3 = job \<and> bj_State j3 = JobRunning \<and> bj_EndedAt j3 = bj_EndedAt j"
    using retry(3,4) job_core_id [of j3 j] by simp
  then have kept: "\<exists>j'\<in>set (db_jobs w3). bj_ID j' = job \<and> bj_State j' = JobRunning \<and> bj_EndedAt j' = bj_EndedAt j"
    using j3(1) by blast
  have spawns: "spawned w3 = spawned w" using k1 k2 e2(3) e3(3) by (simp add: steps_keep_def)
  have ended: "bj_State k = (case r of Inr _ \<Rightarrow> JobFinished
       | Inl (ty, _, _) \<Rightarrow> if ty = FailureWaitingUserAction then JobWaitingUserAction else JobFailed)"
    if "k \<in> set (db_jobs w2)" "bj_ID k = old" for k
  proof -
    note k = that
    have "k \<in> (\<lambda>x. if bj_ID x = old then ended r (clock w1) x else x) ` set (db_jobs w1)"
      using k(1) unfolding e2(2) set_upd_where .
    then obtain k0 where "k = ended r (clock w1) k0" using k(2) by (auto split: if_splits)
    then show ?thesis by (cases r) (auto simp: ended_def)
  qed
  obtain fs where w4: "w4 = w3\<lparr>faults := fs\<rparr>" and e: "isl e" using e4 by blast
  have st: "end_state r = (case r of Inl _ \<Rightarrow> TenantNotReady | Inr _ \<Rightarrow> TenantReady)"
    by (simp add: end_state_def split: sum.split)
  show ?thesis
    unfolding st [symmetric]
  proof (intro conjI ballI impI)
    show "map_option tn_LifecycleState (tenant_at w4 i) = map_option tn_LifecycleState (tenant_at w2 i)"
      by (simp add: w4 l3 e2(1))
    show "\<exists>j'\<in>set (db_jobs w4). bj_ID j' = job \<and> bj_State j' = JobRunning \<and> bj_EndedAt j' = bj_EndedAt j"
      using kept by (simp add: w4)
    show "\<exists>fs. w4 = w3\<lparr>faults := fs\<rparr>" using w4 by blast
  qed (simp_all add: e2(1) e w4 spawns ended)
qed

text \<open>It happens in reset_world, where job 100 was reset and job 101 is that of the retry.\<close>

theorem stale_bootstrap_witness:
  "\<exists>w. map_option tn_LifecycleState (tenant_at w 1) = Some TenantReady \<and>
     (\<exists>j\<in>set (db_jobs w). bj_ID j = 101 \<and> bj_State j = JobRunning)"
proof -
  let ?j = "db_jobs reset_world ! 1"
  let ?s = "run_state (bootstrap_steps boot_env demo_boot 100 ''token'' empty_result) reset_world"
  have s: "\<not> isl (fst ?s)" "faults (snd ?s) = []" by code_simp+
  from run_ok [OF s(1)] obtain x w1 where "?s = (Inr x, w1)" by blast
  then have r: "?s = (Inr x, w1)" "faults w1 = []" using s(2) by simp_all
  have j: "map_option tn_LifecycleState (tenant_at reset_world 1) = Some TenantReadying" "1 < length (db_jobs reset_world)"
    "bj_ID ?j = 101" "bj_State ?j = JobRunning" by code_simp+
  have i: "tn_ID demo_boot = 1" by (simp add: demo_boot_def demo_dev_def)
  obtain u2 w2 where w2: "run_state (runBootstrap boot_env demo_boot 100 ''token'' empty_result) reset_world = (u2, w2)"
    by (rule prod.exhaust)
  obtain u3 w3 where w3: "run_state (runBootstrap boot_env demo_boot 101 ''token'' empty_result) w2 = (u3, w3)"
    by (rule prod.exhaust)
  obtain e w4 where w4: "run_state (ResetBootstrap 1) w3 = (e, w4)" by (rule prod.exhaust)
  have "?j \<in> set (db_jobs reset_world)" using j(2) by (rule nth_mem)
  from stale_bootstrap [OF j(1) this j(3,4) _ i i r w2 w3 w4] show ?thesis by (intro exI [of _ w4]) auto
qed

end
