(* ===== verification/CompareRuns.thy ===== *)
theory CompareRuns
  imports Machine
begin

text \<open>
  The runs of version comparisons in the machine of Machine: a row of version_compare_snapshots
  with status running is the lock of its rule, taken by TriggerVersionCompare and freed only by the
  goroutine it starts. The invariant, the exclusion it gives, and when a lock is ever freed.
\<close>

section \<open>Locks and their goroutines\<close>

fun collect_rule :: "task \<Rightarrow> nat option" where
  "collect_rule (TaskCollect rule source included) = Some (ru_ID rule)"
| "collect_rule _ = None"

definition collecting :: "world \<Rightarrow> nat \<Rightarrow> nat" where
  "collecting w i = length (filter (\<lambda>t. collect_rule t = Some i) (spawned w))"

definition running :: "world \<Rightarrow> nat \<Rightarrow> bool" where
  "running w i \<longleftrightarrow> (\<exists>s\<in>set (db_vcsnaps w). vs_DeliveryRuleID s = i \<and> vs_Status s = SnapRunning)"

definition one_row :: "world \<Rightarrow> bool" where
  "one_row w \<longleftrightarrow> distinct (map vs_DeliveryRuleID (db_vcsnaps w))"

definition compares_ok :: "world \<Rightarrow> bool" where
  "compares_ok w \<longleftrightarrow> one_row w \<and> collecting w 0 = 0 \<and> (\<forall>i. collecting w i \<le> of_bool (running w i))"

text \<open>What all other programs keep.\<close>

definition vc_same :: "world \<Rightarrow> world \<Rightarrow> bool" where
  "vc_same w w' \<longleftrightarrow> db_vcsnaps w' = db_vcsnaps w \<and> (\<forall>i. collecting w' i = collecting w i)"

lemma plain_collect: "plain_task t \<Longrightarrow> collect_rule t = None"
  by (cases t) auto

lemma vc_start: "state_io_rel vc_same (StartDRSync d)"
proof (rule io_of_wp)
  fix w
  show "wp (StartDRSync d) (\<lambda>r w'. vc_same w w') w"
    by (cases "tracker w") (simp_all add: StartDRSync_def wp_simps vc_same_def collecting_def)
qed

interpretation vc: svc_frame vc_same
  by unfold_locales (rule vc_start | auto simp: vc_same_def collecting_def plain_collect)+

interpretation vc_adm: admin_frame vc_same
  by unfold_locales (auto simp: vc_same_def collecting_def)

lemma vc_same_ok: "vc_same w w' \<Longrightarrow> compares_ok w' = compares_ok w"
  by (simp add: vc_same_def compares_ok_def one_row_def running_def)

lemma vc_same_running: "vc_same w w' \<Longrightarrow> running w' i = running w i \<and> collecting w' i = collecting w i"
  by (simp add: vc_same_def running_def)

section \<open>Taking and freeing the lock\<close>

definition takes :: "nat \<Rightarrow> world \<Rightarrow> world \<Rightarrow> bool" where
  "takes i w w' \<longleftrightarrow> \<not> running w i \<and> one_row w' \<and> (\<forall>j. running w' j = (j = i \<or> running w j)) \<and>
     (\<forall>j. collecting w' j = collecting w j + of_bool (j = i))"

definition frees :: "nat \<Rightarrow> world \<Rightarrow> world \<Rightarrow> bool" where
  "frees i w w' \<longleftrightarrow> one_row w' = one_row w \<and> (\<forall>j. running w' j = (j \<noteq> i \<and> running w j)) \<and>
     (\<forall>j. collecting w' j = collecting w j)"

lemma bex_upd_where: "(\<exists>t\<in>set (upd_where P f xs). Q t) \<longleftrightarrow> (\<exists>t\<in>set xs. Q (if P t then f t else t))"
  by (induction xs) auto

lemma map_upd_where: "(\<And>x. g (f x) = g x) \<Longrightarrow> map g (upd_where P f xs) = map g xs"
  by (induction xs) auto

lemma of_rule_iff: "i \<noteq> 0 \<Longrightarrow> of_rule i s \<longleftrightarrow> vs_DeliveryRuleID s = i"
  by (simp add: of_rule_def)

lemma running_snapshot_sel [simp]:
  "vs_DeliveryRuleID (running_snapshot now user s) = vs_DeliveryRuleID s"
  "vs_Status (running_snapshot now user s) = SnapRunning"
  by (simp_all add: running_snapshot_def)

text \<open>The guarded update takes the lock of the rule, or finds it taken.\<close>

lemma claim_takes:
  assumes one: "one_row w" and i: "i \<noteq> 0" and rule: "ru_ID rule = i"
    and n: "filter (\<lambda>s. of_rule i s \<and> vs_Status s \<noteq> SnapRunning) (db_vcsnaps w) \<noteq> []"
    and w': "db_vcsnaps w' = upd_where (\<lambda>s. of_rule i s \<and> vs_Status s \<noteq> SnapRunning) (running_snapshot now user) (db_vcsnaps w)"
      "spawned w' = spawned w @ [TaskCollect rule source included]"
  shows "takes i w w'"
proof -
  obtain s where s: "s \<in> set (db_vcsnaps w)" "vs_DeliveryRuleID s = i" "vs_Status s \<noteq> SnapRunning"
    using n by (auto simp: of_rule_iff [OF i] filter_empty_conv)
  have free: "\<not> running w i"
  proof
    assume "running w i"
    then obtain t where t: "t \<in> set (db_vcsnaps w)" "vs_DeliveryRuleID t = i" "vs_Status t = SnapRunning"
      by (auto simp: running_def)
    then have "t = s" using one s by (auto simp: one_row_def distinct_map dest: inj_onD)
    with s t show False by simp
  qed
  have run: "running w' j = (j = i \<or> running w j)" for j
  proof -
    have "running w' j \<longleftrightarrow> (\<exists>t\<in>set (db_vcsnaps w). vs_DeliveryRuleID t = j \<and> (vs_DeliveryRuleID t = i \<or> vs_Status t = SnapRunning))"
      unfolding running_def w' bex_upd_where of_rule_iff [OF i] by (rule bex_cong) auto
    also have "\<dots> \<longleftrightarrow> j = i \<or> (\<exists>t\<in>set (db_vcsnaps w). vs_DeliveryRuleID t = j \<and> vs_Status t = SnapRunning)"
      using s(1,2) by blast
    finally show ?thesis by (simp only: running_def)
  qed
  have "one_row w'" using one unfolding one_row_def w' by (simp add: map_upd_where)
  moreover have "collecting w' j = collecting w j + of_bool (j = i)" for j
    by (simp add: collecting_def w' rule)
  ultimately show ?thesis using free run unfolding takes_def by blast
qed

lemma create_takes:
  assumes one: "one_row w" and rule: "ru_ID rule = i"
    and n: "\<forall>s\<in>set (db_vcsnaps w). vs_DeliveryRuleID s \<noteq> i"
    and w': "db_vcsnaps w' = db_vcsnaps w @ [(new_vcsnap i now user)\<lparr>vs_ID := k\<rparr>]"
      "spawned w' = spawned w @ [TaskCollect rule source included]"
  shows "takes i w w'"
proof -
  have "running w' j = (j = i \<or> running w j)" for j
    unfolding running_def w' by (auto simp: new_vcsnap_def)
  moreover have "one_row w'" using one n unfolding one_row_def w' by (auto simp: new_vcsnap_def)
  moreover have "collecting w' j = collecting w j + of_bool (j = i)" for j
    by (simp add: collecting_def w' rule)
  moreover have "\<not> running w i" using n by (auto simp: running_def)
  ultimately show ?thesis unfolding takes_def by blast
qed

text \<open>The claim alone, before the goroutine is started.\<close>

lemma claim_run_wp:
  assumes i: "i \<noteq> 0"
  shows "wp (claim_run found i user) (\<lambda>r w'. spawned w' = spawned w \<and> (if r = Inr TrigRunning
     then (\<exists>now. filter (\<lambda>s. of_rule i s \<and> vs_Status s \<noteq> SnapRunning) (db_vcsnaps w) \<noteq> [] \<and>
             db_vcsnaps w' = upd_where (\<lambda>s. of_rule i s \<and> vs_Status s \<noteq> SnapRunning) (running_snapshot now user) (db_vcsnaps w)) \<or>
          (\<exists>now k. (\<forall>s\<in>set (db_vcsnaps w). vs_DeliveryRuleID s \<noteq> i) \<and>
             db_vcsnaps w' = db_vcsnaps w @ [(new_vcsnap i now user)\<lparr>vs_ID := k\<rparr>])
     else db_vcsnaps w' = db_vcsnaps w)) w"
proof (cases found)
  case None
  show ?thesis
    unfolding claim_run_def wp_bind wp_gets None create_vcsnap_def simp_thms if_False wp_onerr
    by (rule vcsnaps_table.wp_create_unique) (auto simp: wp_return new_vcsnap_def)
next
  case (Some s)
  have keep: "upd_where P f xs = xs" if "filter P xs = []" for P f and xs :: "VersionCompareSnapshot list"
    using that by (induction xs) (auto split: if_splits)
  have n: "Some s \<noteq> None" by simp
  show ?thesis
    unfolding claim_run_def wp_bind wp_gets Some if_P [OF n] claim_update_def wp_onerr
    by (rule wp_stmt) (auto simp: wp_return Let_def keep)
qed

lemma trigger_wp:
  assumes one: "one_row w" and i: "i \<noteq> 0"
  shows "wp (TriggerVersionCompare i user) (\<lambda>r w'. (vc_same w w' \<and> r \<noteq> Inr TrigRunning) \<or> takes i w w') w"
proof -
  let ?Q = "\<lambda>r w'. (vc_same w w' \<and> r \<noteq> Inr TrigRunning) \<or> takes i w w'"
  have same: "vc_same w w1" if "db_vcsnaps w1 = db_vcsnaps w" "spawned w1 = spawned w" for w1
    using that by (simp add: vc_same_def collecting_def)
  have claim: "wp (onerr (claim_run found i user) id (\<lambda>status.
      if status = TrigRunning then do {
        _ \<leftarrow> spawn (TaskCollect rule source included);
        done_with TrigRunning
      } else done_with status)) ?Q w1"
    if rule: "ru_ID rule = i" and w1: "db_vcsnaps w1 = db_vcsnaps w" "spawned w1 = spawned w" for found rule source included w1
    unfolding wp_onerr
  proof (rule wp_mono [OF claim_run_wp [OF i]], goal_cases)
    case (1 r w2)
    show ?case
    proof (cases "r = Inr TrigRunning")
      case True
      have "takes i w (w2\<lparr>spawned := spawned w2 @ [TaskCollect rule source included]\<rparr>)"
        using 1 True w1 by (auto intro: claim_takes [OF one i rule] create_takes [OF one rule])
      then show ?thesis by (simp add: True wp_simps)
    next
      case False
      then have "vc_same w w2" using 1 w1 by (intro same) auto
      then show ?thesis using False by (cases r) (auto simp: wp_return)
    qed
  qed
  show ?thesis
    unfolding TriggerVersionCompare_def wp_onerr
    apply (rule wp_load)
    subgoal by (simp split: option.split)
    subgoal by (simp add: same)
    subgoal for fs
    proof (cases "List.find (\<lambda>r. ru_ID r = i) (db_rules w)")
      case None
      then show ?thesis by (simp add: same)
    next
      case (Some rule)
      then have rule: "ru_ID rule = i" by (auto dest: find_SomeD)
      show ?thesis
        unfolding Some option.case sum.case prod.case wp_if wp_bind Let_def
        by (auto simp: wp_return same intro!: vcsnaps_table.wp_first claim [OF rule] simp: wp_gets)
    qed
    done
qed

lemma collect_wp:
  assumes i: "ru_ID rule \<noteq> 0"
  shows "wp (collectVersionSnapshot env order rule source included)
     (\<lambda>r w'. vc_same w w' \<or> frees (ru_ID rule) w w') w"
proof -
  have upd: "wp (complete_with (ru_ID rule) f) (\<lambda>r w'. vc_same w w' \<or> frees (ru_ID rule) w w') w1"
    if f: "\<And>now s. vs_DeliveryRuleID (f now s) = vs_DeliveryRuleID s" "\<And>now s. vs_Status (f now s) \<noteq> SnapRunning"
      and w1: "db_vcsnaps w1 = db_vcsnaps w" "spawned w1 = spawned w" for f w1
    unfolding complete_with_def wp_bind wp_gets
  proof (rule vcsnaps_table.wp_update)
    fix fs
    show "wp (State_Monad.return ()) (\<lambda>r w'. vc_same w w' \<or> frees (ru_ID rule) w w') (w1\<lparr>faults := fs\<rparr>)"
      using w1 by (simp add: wp_return vc_same_def collecting_def)
    let ?w = "(db_vcsnaps_update (upd_where (of_rule (ru_ID rule)) (f (clock w1))) w1)\<lparr>faults := fs\<rparr>"
    have v: "db_vcsnaps ?w = upd_where (of_rule (ru_ID rule)) (f (clock w1)) (db_vcsnaps w)" "spawned ?w = spawned w"
      using w1 by simp_all
    have "running ?w j \<longleftrightarrow> j \<noteq> ru_ID rule \<and> running w j" for j
    proof -
      have "running ?w j \<longleftrightarrow> (\<exists>t\<in>set (db_vcsnaps w). vs_DeliveryRuleID t = j \<and> vs_DeliveryRuleID t \<noteq> ru_ID rule \<and> vs_Status t = SnapRunning)"
        unfolding running_def v bex_upd_where of_rule_iff [OF i] by (rule bex_cong) (auto simp: f)
      then show ?thesis unfolding running_def by blast
    qed
    moreover have "one_row ?w = one_row w" unfolding one_row_def v by (simp add: map_upd_where f)
    moreover have "collecting ?w j = collecting w j" for j by (simp add: collecting_def v)
    ultimately have "frees (ru_ID rule) w ?w" unfolding frees_def by blast
    then show "wp (State_Monad.return ()) (\<lambda>r w'. vc_same w w' \<or> frees (ru_ID rule) w w') ?w" by (simp add: wp_return)
  qed
  have fails: "wp (completeWithError (ru_ID rule) m) (\<lambda>r w'. vc_same w w' \<or> frees (ru_ID rule) w w') w" for m
    unfolding completeWithError_def by (rule upd) (simp_all add: failed_snapshot_def)
  show ?thesis
    unfolding collectVersionSnapshot_def Let_def
    by (auto simp: wp_simps fails loadIncludedPackageFilter_def completed_snapshot_def split: sum.split
        intro!: included_table.wp_find upd)
qed

section \<open>The invariant\<close>

text \<open>A lock no goroutine will free.\<close>

definition stranded :: "world \<Rightarrow> nat \<Rightarrow> bool" where
  "stranded w i \<longleftrightarrow> running w i \<and> collecting w i = 0"

definition vc_step :: "world \<Rightarrow> world \<Rightarrow> bool" where
  "vc_step w w' \<longleftrightarrow> (compares_ok w \<longrightarrow> compares_ok w' \<and> (\<forall>i. stranded w i \<longrightarrow> stranded w' i))"

lemma vc_same_step: "vc_same w w' \<Longrightarrow> vc_step w w'"
  using vc_same_ok vc_same_running unfolding vc_step_def stranded_def by metis

lemma takes_step: "\<lbrakk>takes i w w'; i \<noteq> 0\<rbrakk> \<Longrightarrow> vc_step w w'"
  unfolding vc_step_def takes_def compares_ok_def stranded_def by auto

lemma vc_sync_tasks:
  "state_io_rel vc_same (sync_round env d)" "state_io_rel vc_same (sync_tick env b d)" "state_io_rel vc_same (FinishSync d)"
proof -
  have sp: "state_io_rel vc_same (spawn (if b then TaskSyncTick d else TaskSyncExit d))" "state_io_rel vc_same (spawn (TaskSyncExit d))" for b
    unfolding spawn_def by (intro vc.keep_modify; simp add: vc_same_def collecting_def)+
  show r: "state_io_rel vc_same (sync_round env d)"
    unfolding sync_round_def by (intro vc.keeps vc.svc_sync vc.frame_query sp)
  show "state_io_rel vc_same (sync_tick env b d)"
    unfolding sync_tick_def by (intro vc.keeps r sp)
  show "state_io_rel vc_same (FinishSync d)"
    unfolding FinishSync_def by (intro vc.keep_modify) (simp add: vc_same_def collecting_def)
qed

lemma vc_task: "collect_rule t = None \<Longrightarrow> state_io_rel vc_same (run_task env arrival order ctxDone t)"
  by (cases "plain_task t", erule vc.svc_task, cases t) (simp_all add: vc_sync_tasks vc_adm.adm_run)

lemma collecting_split:
  "spawned w = before @ t # after \<Longrightarrow>
   collecting w i = collecting (w\<lparr>spawned := before @ after\<rparr>) i + of_bool (collect_rule t = Some i)"
  by (simp add: collecting_def)

lemma goroutine_vc_step:
  assumes sp: "spawned w = before @ t # after"
  shows "wp (run_task env arrival order ctxDone t) (\<lambda>r w'. vc_step w w') (w\<lparr>spawned := before @ after\<rparr>)"
proof (cases "collect_rule t")
  case None
  have "vc_step w w'" if "vc_same (w\<lparr>spawned := before @ after\<rparr>) w'" for w'
    by (rule vc_same_step) (use that collecting_split [OF sp] None in \<open>simp add: vc_same_def\<close>)
  then show ?thesis by (rule wp_rel [OF vc_task [OF None]])
next
  case (Some i)
  then obtain rule source included where t: "t = TaskCollect rule source included" and i: "ru_ID rule = i"
    by (cases t) auto
  let ?v = "w\<lparr>spawned := before @ after\<rparr>"
  have c: "collecting w j = collecting ?v j + of_bool (j = i)" for j
    using collecting_split [OF sp, of j] by (simp add: t i)
  have r: "running ?v j = running w j" "one_row ?v = one_row w" for j by (simp_all add: running_def one_row_def)
  show ?thesis
  proof (cases "compares_ok w")
    case False
    then show ?thesis by (simp add: vc_step_def wp_run_state)
  next
    case True
    then have le: "collecting w j \<le> of_bool (running w j)" and "collecting w 0 = 0" for j by (auto simp: compares_ok_def)
    then have i0: "ru_ID rule \<noteq> 0" using c [of 0] i by (cases "i = 0") auto
    have ri: "running w i" "collecting ?v i = 0" using le [of i] c [of i] by (cases "running w i"; simp)+
    have le': "collecting ?v j \<le> of_bool (j \<noteq> i \<and> running w j)" for j
      using le [of j] c [of j] ri(2) by (cases "j = i") auto
    have z: "collecting ?v 0 = 0" using True c [of 0] by (simp add: compares_ok_def)
    have "vc_step w w'" if "vc_same ?v w' \<or> frees (ru_ID rule) ?v w'" for w'
      unfolding vc_step_def
    proof (intro impI conjI allI)
      have le2: "collecting ?v j \<le> of_bool (running w' j)" "collecting w' j = collecting ?v j" for j
        using that le' [of j] vc_same_running [of ?v w' j] r(1) [of j] unfolding frees_def i
        by (cases "j = i"; cases "running w j"; auto)+
      show "compares_ok w'"
        using that le2 z True r unfolding compares_ok_def frees_def vc_same_def one_row_def by auto
      fix j assume j: "stranded w j"
      then have "j \<noteq> i" using c [of i] by (auto simp: stranded_def)
      then show "stranded w' j"
        using that j c [of j] vc_same_running [of ?v w' j] r(1) [of j] unfolding stranded_def frees_def i by auto
    qed
    then show ?thesis unfolding t run_task.simps by (intro wp_mono [OF collect_wp [OF i0]]) blast
  qed
qed

lemma serve_vc_step: "wp (serve env arrival order req) (\<lambda>r w'. vc_step w w') w"
proof (cases "\<exists>raw u. req = ReqTrigger raw u")
  case False
  then have "state_io_rel vc_same (serve env arrival order req)"
    by (cases "admin req") (auto intro: vc.svc_serve vc_adm.adm_serve)
  then show ?thesis by (rule wp_rel) (rule vc_same_step)
next
  case True
  then obtain raw u where req: "req = ReqTrigger raw u" by blast
  have refl: "vc_step w w" by (rule vc_same_step) (simp add: vc_same_def)
  have "wp (TriggerVersionCompareHandler raw u) (\<lambda>r w'. vc_step w w') w"
  proof (cases "id_param raw")
    case None
    then show ?thesis using refl by (simp add: TriggerVersionCompareHandler_def wp_return)
  next
    case (Some i)
    then have i: "i \<noteq> 0" by (auto simp: id_param_def split: option.splits if_splits)
    show ?thesis
    proof (cases "one_row w")
      case True
      have "wp (TriggerVersionCompare i u) (\<lambda>r w'. vc_step w w') w"
        by (rule wp_mono [OF trigger_wp [OF True i]]) (use i in \<open>auto intro: vc_same_step takes_step\<close>)
      then show ?thesis
        unfolding TriggerVersionCompareHandler_def Some option.case wp_onerr
        by (rule wp_mono) (auto simp: wp_return split: sum.split TriggerStatus.split)
    qed (simp add: vc_step_def compares_ok_def wp_run_state)
  qed
  then show ?thesis unfolding req serve.simps ignore_def wp_bind wp_return .
qed

lemma sys_vc_step:
  assumes "sys_step w w'"
  shows "vc_step w w'"
  using assms
proof (cases rule: sys_stepE)
  case (request req env arrival order)
  then show ?thesis using wp_run [OF serve_vc_step] by blast
next
  case (goroutine before t after env arrival order ctxDone)
  then show ?thesis using wp_run [OF goroutine_vc_step [OF goroutine(1)]] by blast
next
  case restart
  have f: "collecting (fresh_process w) i = 0" "running (fresh_process w) i = running w i"
    "one_row (fresh_process w) = one_row w" for i
    by (simp_all add: fresh_process_def collecting_def running_def one_row_def)
  have s: "vc_same (fresh_process w) w'" by (rule wp_run [OF wp_of_io [OF vc.svc_recover] restart])
  have "one_row w' = one_row w" using s f(3) by (simp add: vc_same_def one_row_def)
  moreover have "running w' i = running w i" "collecting w' i = 0" for i
    using vc_same_running [OF s, of i] f(1,2) by simp_all
  ultimately show ?thesis unfolding vc_step_def stranded_def by (simp add: compares_ok_def)
qed (auto intro!: vc_same_step simp: vc_same_def collecting_def)

lemma reachable_vc_step: "reachable w w' \<Longrightarrow> vc_step w w'"
  unfolding reachable_def
proof (induction rule: rtranclp_induct)
  case base
  then show ?case by (simp add: vc_step_def)
next
  case (step w1 w2)
  then show ?case using sys_vc_step [OF step(2)] unfolding vc_step_def by blast
qed

section \<open>Properties\<close>

lemma reachable_compares:
  "\<lbrakk>reachable w w'; compares_ok w\<rbrakk> \<Longrightarrow> compares_ok w' \<and> (\<forall>i. stranded w i \<longrightarrow> stranded w' i)"
  using reachable_vc_step unfolding vc_step_def by blast

text \<open>C21: at most one goroutine collects for a delivery rule at any time, and while it does the snapshot of
  the rule is marked as running: over any requests, in any order, failures and restarts.\<close>

theorem one_collection_per_rule:
  assumes "reachable w w'" and "compares_ok w"
  shows "\<forall>i. length (filter (\<lambda>t. collect_rule t = Some i) (spawned w')) \<le>
     (if \<exists>s\<in>set (db_vcsnaps w'). vs_DeliveryRuleID s = i \<and> vs_Status s = SnapRunning then 1 else 0)"
  using reachable_compares [OF assms] unfolding compares_ok_def collecting_def running_def by (simp add: of_bool_def)

text \<open>Two triggers of the same rule, one after the other.\<close>

definition demo_triggered :: world where
  "demo_triggered = receive demo_env (ReqTrigger ''3'' ''bob'') (receive demo_env (ReqTrigger ''3'' ''ann'') demo_world)"

theorem one_collection_per_rule_witness:
  "length (filter (\<lambda>t. collect_rule t = Some 3) (spawned demo_triggered)) \<le> 1"
proof -
  have "reachable demo_world demo_triggered"
    unfolding demo_triggered_def 
    by (rule then_reachable [OF receive_step then_reachable [OF receive_step reachable_refl]])
  moreover have "compares_ok demo_world"
    by (simp add: compares_ok_def one_row_def collecting_def demo_world_def empty_world_def)
  ultimately have "\<forall>i. length (filter (\<lambda>t. collect_rule t = Some i) (spawned demo_triggered)) \<le>
     (if \<exists>s\<in>set (db_vcsnaps demo_triggered). vs_DeliveryRuleID s = i \<and> vs_Status s = SnapRunning then 1 else 0)"
    by (rule one_collection_per_rule)
  then show ?thesis by (rule allE [of _ 3]) (simp split: if_splits)
qed

lemma collect_done:
  assumes f: "faults w = []" and i: "ru_ID rule \<noteq> 0"
  shows "wp (collectVersionSnapshot env order rule source included) (\<lambda>r w'. \<not> running w' (ru_ID rule)) w"
proof -
  have upd: "wp (complete_with (ru_ID rule) g) (\<lambda>r w'. \<not> running w' (ru_ID rule)) w"
    if g: "\<And>now s. vs_Status (g now s) \<noteq> SnapRunning" "\<And>now s. vs_DeliveryRuleID (g now s) = vs_DeliveryRuleID s" for g
    unfolding complete_with_def wp_bind wp_gets db_update_def wp_stmt_ok [OF f] prod.case wp_return
    by (simp add: running_def bex_upd_where of_rule_iff [OF i] g)
  have fails: "wp (completeWithError (ru_ID rule) m) (\<lambda>r w'. \<not> running w' (ru_ID rule)) w" for m
    unfolding completeWithError_def by (rule upd) (simp_all add: failed_snapshot_def)
  show ?thesis
    unfolding collectVersionSnapshot_def Let_def loadIncludedPackageFilter_def db_find_def db_query_def
    by (auto simp: wp_simps wp_stmt_ok [OF f] fails completed_snapshot_def split: sum.split intro!: upd)
qed

text \<open>A running comparison ends only through its goroutine: from any state the service can free the lock of
  a rule if and only if a goroutine that collects for it is alive. No request, restart or lapse of
  time does it.\<close>

theorem running_until_collected:
  assumes "compares_ok w" and "running w i"
  shows "(\<exists>w'. reachable w w' \<and> \<not> running w' i) \<longleftrightarrow>
    (\<exists>rule source included. TaskCollect rule source included \<in> set (spawned w) \<and> ru_ID rule = i)"
proof
  assume "\<exists>w'. reachable w w' \<and> \<not> running w' i"
  then obtain w' where w': "reachable w w'" "\<not> running w' i" by blast
  have "\<not> stranded w i" using reachable_compares [OF w'(1) assms(1)] w'(2) unfolding stranded_def by blast
  then have "\<exists>t\<in>set (spawned w). collect_rule t = Some i"
    using assms(2) by (auto simp: stranded_def collecting_def filter_empty_conv)
  then obtain t where t: "t \<in> set (spawned w)" "collect_rule t = Some i" ..
  from t(2) obtain rule source included where "t = TaskCollect rule source included" "ru_ID rule = i" by (cases t) auto
  with t(1) show "\<exists>rule source included. TaskCollect rule source included \<in> set (spawned w) \<and> ru_ID rule = i"
    by blast
next
  assume "\<exists>rule source included. TaskCollect rule source included \<in> set (spawned w) \<and> ru_ID rule = i"
  then obtain rule source included before after where
    sp: "spawned w = before @ TaskCollect rule source included # after" and i: "ru_ID rule = i"
    by (metis split_list)
  have "collecting w i \<noteq> 0" by (simp add: collecting_def sp i)
  moreover have "collecting w 0 = 0" using assms(1) unfolding compares_ok_def by blast
  ultimately have "i \<noteq> 0" by metis
  let ?t = "run_task undefined rev id False (TaskCollect rule source included)"
  obtain u w' where run: "run_state ?t (w\<lparr>faults := [], spawned := before @ after\<rparr>) = (u, w')" by (rule prod.exhaust)
  have "sys_step w (w\<lparr>faults := []\<rparr>)" by (rule sys_step_if.failures)
  moreover have "sys_step (w\<lparr>faults := []\<rparr>) w'"
    by (rule sys_step_if.goroutine [of _ before _ after, OF _ run]) (simp add: sp)
  ultimately have "reachable w w'" by (rule then_reachable [OF _ then_reachable [OF _ reachable_refl]])
  moreover have "wp ?t (\<lambda>r w'. \<not> running w' (ru_ID rule)) (w\<lparr>faults := [], spawned := before @ after\<rparr>)"
    unfolding run_task.simps by (rule collect_done) (use \<open>i \<noteq> 0\<close> i in simp_all)
  then have "\<not> running w' i" unfolding i by (rule wp_run) (rule run)
  ultimately show "\<exists>w'. reachable w w' \<and> \<not> running w' i" by blast
qed

definition demo_running :: world where
  "demo_running = demo_world\<lparr>db_vcsnaps := [(new_vcsnap 3 0 ''ann'')\<lparr>vs_ID := 9\<rparr>]\<rparr>"

lemma demo_running_ok: "compares_ok demo_running" "running demo_running 3" "collecting demo_running i = 0"
  by (simp_all add: compares_ok_def one_row_def collecting_def running_def demo_running_def demo_world_def empty_world_def new_vcsnap_def)

theorem running_until_collected_witness:
  "\<not> (\<exists>w'. reachable demo_running w' \<and> \<not> running w' 3)"
  unfolding running_until_collected [OF demo_running_ok(1,2)]
  by (simp add: demo_running_def demo_world_def empty_world_def)

text \<open>C22: a restart while a comparison runs blocks its rule for ever: whatever happens afterwards, the
  snapshot stays running, and every trigger of the rule is answered without starting a comparison.\<close>

theorem restart_blocks_comparison:
  assumes "compares_ok w" and "running w i" and "0 < i"
    and "run_state RecoverActiveSyncs (fresh_process w) = (u, w1)"
    and "reachable w1 w2" and "run_state (TriggerVersionCompare i user) w2 = (r, w3)"
  shows "running w3 i \<and> r \<noteq> Inr TrigRunning"
proof -
  have c: "collecting (fresh_process w) i = 0" "running (fresh_process w) i = running w i" "compares_ok (fresh_process w)" for i
    using assms(1) by (simp_all add: fresh_process_def collecting_def running_def compares_ok_def one_row_def)
  have "vc_same (fresh_process w) w1" by (rule wp_run [OF wp_of_io [OF vc.svc_recover] assms(4)])
  then have "compares_ok w1" "stranded w1 i"
    using c(3) vc_same_ok vc_same_running [of "fresh_process w" w1 i] c(1,2) [of i] assms(2) by (auto simp: stranded_def)
  then have ok: "compares_ok w2" "stranded w2 i" using reachable_compares [OF assms(5)] by blast+
  then have "(vc_same w2 w3 \<and> r \<noteq> Inr TrigRunning) \<or> takes i w2 w3"
    using wp_run [OF trigger_wp assms(6)] assms(3) by (simp add: compares_ok_def)
  then show ?thesis using ok(2) vc_same_running [of w2 w3 i] by (auto simp: stranded_def takes_def)
qed

theorem restart_blocks_comparison_witness:
  "fst (run_state (TriggerVersionCompare 3 ''bob'')
     (snd (run_state RecoverActiveSyncs (fresh_process demo_running)))) \<noteq> Inr TrigRunning"
proof -
  have "(0 :: nat) < 3" by simp
  from restart_blocks_comparison [OF demo_running_ok(1,2) this run_split reachable_refl run_split]
  show ?thesis by blast
qed

end
