(* ===== verification/OneTime.thy ===== *)
theory OneTime
  imports Main
begin

text \<open>
  Stores of one-time tokens: the contract that the login states (pkg/auth/oauth2.go) and the states of the
  GitHub App flow (pkg/github/manifest.go) share. A token is accepted at most as often as it was issued.
\<close>

datatype 'p token_op = IssueToken string 'p nat | TakeToken string nat

text \<open>How often a sequence of operations accepts a token, and how often it issues it.\<close>

fun accepted :: "(string \<Rightarrow> 'p \<Rightarrow> nat \<Rightarrow> 'm \<Rightarrow> 'm) \<Rightarrow> (string \<Rightarrow> nat \<Rightarrow> 'm \<Rightarrow> 'p option \<times> 'm) \<Rightarrow> 'p token_op list \<Rightarrow> 'm \<Rightarrow> string \<Rightarrow> nat" where
  "accepted iss tk [] m k = 0"
| "accepted iss tk (IssueToken j p t # ops) m k = accepted iss tk ops (iss j p t m) k"
| "accepted iss tk (TakeToken j t # ops) m k =
     (case tk j t m of (r, m') \<Rightarrow> (if j = k \<and> r \<noteq> None then 1 else 0) + accepted iss tk ops m' k)"

fun issued :: "'p token_op list \<Rightarrow> string \<Rightarrow> nat" where
  "issued [] k = 0"
| "issued (IssueToken j p t # ops) k = (if j = k then 1 else 0) + issued ops k"
| "issued (TakeToken j t # ops) k = issued ops k"

locale one_time =
  fixes held :: "'m \<Rightarrow> string \<Rightarrow> bool"
    and issue :: "string \<Rightarrow> 'p \<Rightarrow> nat \<Rightarrow> 'm \<Rightarrow> 'm"
    and take_token :: "string \<Rightarrow> nat \<Rightarrow> 'm \<Rightarrow> 'p option \<times> 'm"
  assumes take_held: "take_token k t m = (Some p, m') \<Longrightarrow> held m k"
    and take_gone: "take_token k t m = (Some p, m') \<Longrightarrow> \<not> held m' k"
    and take_only: "take_token k t m = (r, m') \<Longrightarrow> held m' j \<Longrightarrow> held m j"
    and issue_only: "held (issue k p t m) j \<Longrightarrow> j = k \<or> held m j"
begin

lemma accepted_at_most_issued: "accepted issue take_token ops m k \<le> issued ops k + (if held m k then 1 else 0)"
proof (induction ops arbitrary: m)
  case (Cons op ops)
  show ?case
  proof (cases op)
    case (IssueToken j p t)
    then show ?thesis using Cons.IH [of "issue j p t m"] issue_only [of j p t m k] by (auto split: if_splits)
  next
    case (TakeToken j t)
    obtain r m' where t: "take_token j t m = (r, m')" by fastforce
    show ?thesis
    proof (cases "j = k \<and> r \<noteq> None")
      case True
      then obtain p where "take_token k t m = (Some p, m')" using t by auto
      then show ?thesis using TakeToken True t Cons.IH [of m'] take_held take_gone by fastforce
    next
      case False
      then show ?thesis using TakeToken t Cons.IH [of m'] take_only [OF t, of k] by (auto split: if_splits)
    qed
  qed
qed simp

end

end
