(* ===== verification/Auth.thy ===== *)
theory Auth
  imports Env OneTime
begin

text \<open>
  pkg/auth (session.go, oauth2.go, middleware.go, config.go), RequireScope of main.go and the browser routes of
  handler/userapi.go, handler/logout.go and handler/static.go: who may call the service. The HMAC of
  the process, the JWT library, the key servers and the token endpoint are parameters.
\<close>

section \<open>The surroundings\<close>

record UserGroup =
  ug_Value :: string
  ug_Display :: string
  ug_Type :: string

record UserInfoResponse =
  ui_FirstName :: string
  ui_LastName :: string
  ui_Email :: string
  ui_Name :: string
  ui_Groups :: "UserGroup list"

record SessionData =
  sd_AccessToken :: string
  sd_RefreshToken :: string
  sd_TokenExpiry :: time
  sd_UserInfo :: "UserInfoResponse option"
  sd_CreatedAt :: "time option"

record UaaClaims =
  cl_Subject :: string
  cl_UserName :: string
  cl_Scope :: "string list"
  cl_ExpiresAt :: "time option"
  cl_Origin :: string

text \<open>The header fields of a token, empty when absent.\<close>

record JwtHeader =
  hd_jku :: string
  hd_kid :: string

text \<open>A public key, encoded.\<close>

type_synonym JwtKey = string

record OauthToken =
  ot_AccessToken :: string
  ot_RefreshToken :: string
  ot_Expiry :: time

record OAuthConfig =
  oc_ClientID :: string
  oc_ClientSecret :: string
  oc_AuthURL :: string

definition AuthorizeURL :: "OAuthConfig \<Rightarrow> string" where
  "AuthorizeURL c = oc_AuthURL c @ ''/oauth/authorize''"

definition LogoutURL :: "OAuthConfig \<Rightarrow> string" where
  "LogoutURL c = oc_AuthURL c @ ''/logout.do''"

text \<open>What a call of the userinfo endpoint ends with.\<close>

datatype UserInfoAnswer =
  UiFailed gerr
| UiStatus nat string
| UiNotJson
| UiJson "(string \<times> jval) list"

text \<open>Sign is the hex HMAC-SHA256 under the key of the process; Parse is jwt.ParseWithClaims with its key
  function at a time; Jwks is jwk.Fetch followed by LookupKeyID and Raw; Payload decodes base64 and
  JSON; Exchange is the code exchange of oauth2 with its redirect URI; UserInfo is the request to the
  userinfo endpoint with a token.\<close>

record auth_env =
  Sign :: "string \<Rightarrow> string"
  MaxAge :: time
  Config :: OAuthConfig
  Parse :: "string \<Rightarrow> (JwtHeader \<Rightarrow> gerr + JwtKey) \<Rightarrow> time \<Rightarrow> gerr + UaaClaims \<times> bool"
  Jwks :: "string \<Rightarrow> gerr + (string \<Rightarrow> (gerr + JwtKey) option)"
  Payload :: "string \<Rightarrow> gerr + UaaClaims"
  Exchange :: "string \<Rightarrow> string \<Rightarrow> gerr + OauthToken"
  UserInfo :: "string \<Rightarrow> UserInfoAnswer"

section \<open>Sessions\<close>

type_synonym sessions = "string \<rightharpoonup> SessionData"

definition expired :: "auth_env \<Rightarrow> time \<Rightarrow> SessionData \<Rightarrow> bool" where
  "expired env now d \<longleftrightarrow> MaxAge env > 0 \<and> now - (case sd_CreatedAt d of None \<Rightarrow> 0 | Some t \<Rightarrow> t) > MaxAge env"

text \<open>Create with the identifier that the generator draws.\<close>

definition Create :: "auth_env \<Rightarrow> string \<Rightarrow> time \<Rightarrow> SessionData \<Rightarrow> sessions \<Rightarrow> string \<times> sessions" where
  "Create env fresh now d S =
     (let d1 = (if sd_CreatedAt d = None then d\<lparr>sd_CreatedAt := Some now\<rparr> else d) in
      (fresh @ ''.'' @ Sign env fresh, S(fresh \<mapsto> d1)))"

definition verify :: "auth_env \<Rightarrow> string \<Rightarrow> string option" where
  "verify env cookieValue =
     (case CutLast (CHR ''.'') cookieValue of
        None \<Rightarrow> None
      | Some (i, sig) \<Rightarrow> if sig = Sign env i then Some i else None)"

definition Get :: "auth_env \<Rightarrow> string \<Rightarrow> time \<Rightarrow> sessions \<Rightarrow> SessionData option \<times> sessions" where
  "Get env cookieValue now S =
     (case verify env cookieValue of
        None \<Rightarrow> (None, S)
      | Some i \<Rightarrow>
          (case S i of
             None \<Rightarrow> (None, S)
           | Some d \<Rightarrow> if expired env now d then (None, S(i := None)) else (Some d, S)))"

definition Delete :: "auth_env \<Rightarrow> string \<Rightarrow> sessions \<Rightarrow> sessions" where
  "Delete env cookieValue S = (case verify env cookieValue of None \<Rightarrow> S | Some i \<Rightarrow> S(i := None))"

definition clean_sessions :: "auth_env \<Rightarrow> time \<Rightarrow> sessions \<Rightarrow> sessions" where
  "clean_sessions env now S = (\<lambda>i. case S i of None \<Rightarrow> None | Some d \<Rightarrow> if expired env now d then None else Some d)"

section \<open>Login states\<close>

definition stateTTL :: time where "stateTTL = 5 * 60 * 10 ^ 9"

record StateEntry =
  se_createdAt :: time
  se_redirectURI :: string

type_synonym states = "string \<rightharpoonup> StateEntry"

definition Generate :: "string \<Rightarrow> string \<Rightarrow> time \<Rightarrow> states \<Rightarrow> string \<times> states" where
  "Generate fresh redirectURI now S = (fresh, S(fresh \<mapsto> \<lparr>se_createdAt = now, se_redirectURI = redirectURI\<rparr>))"

definition Validate :: "string \<Rightarrow> time \<Rightarrow> states \<Rightarrow> string option \<times> states" where
  "Validate state now S =
     (case S state of
        None \<Rightarrow> (None, S)
      | Some e \<Rightarrow> (if now - se_createdAt e > stateTTL then None else Some (se_redirectURI e), S(state := None)))"

definition clean_states :: "time \<Rightarrow> states \<Rightarrow> states" where
  "clean_states now S = (\<lambda>s. case S s of None \<Rightarrow> None | Some e \<Rightarrow> if now - se_createdAt e > stateTTL then None else Some e)"

section \<open>Authentication of a request\<close>

record http_request =
  rq_Authorization :: string
  rq_Cookie :: "string option"
  rq_Path :: string
  rq_Host :: string
  rq_ForwardedProto :: string

datatype access =
  Granted UaaClaims string
| Denied nat gerr
| Redirected string

definition keyFromJKU :: "auth_env \<Rightarrow> string \<Rightarrow> string \<Rightarrow> gerr + JwtKey" where
  "keyFromJKU env jku kid =
     (case Jwks env jku of
        Inl e \<Rightarrow> err e
      | Inr keys \<Rightarrow>
          (case keys kid of
             None \<Rightarrow> err (Errf ''kid %s not found in JWKS'' [Str kid])
           | Some r \<Rightarrow> r))"

definition token_key :: "auth_env \<Rightarrow> JwtHeader \<Rightarrow> gerr + JwtKey" where
  "token_key env h =
     (if hd_jku h = [] \<or> hd_kid h = [] then err (Errf ''missing jku or kid in token header'' [])
      else keyFromJKU env (hd_jku h) (hd_kid h))"

definition parseClaimsFromToken :: "auth_env \<Rightarrow> string \<Rightarrow> gerr + UaaClaims" where
  "parseClaimsFromToken env tokenStr =
     (case Split (CHR ''.'') tokenStr of
        [h, payload, s] \<Rightarrow> Payload env payload
      | _ \<Rightarrow> err (Errf ''invalid token format'' []))"

definition bearer_access :: "auth_env \<Rightarrow> time \<Rightarrow> string \<Rightarrow> access" where
  "bearer_access env now tokenStr =
     (case Parse env tokenStr (token_key env) now of
        Inl e \<Rightarrow> Denied 403 (Errf ''invalid token: %s'' [Verb e])
      | Inr (claims, valid) \<Rightarrow>
          if \<not> valid then Denied 403 (Errf ''invalid token'' [])
          else if (case cl_ExpiresAt claims of None \<Rightarrow> False | Some x \<Rightarrow> x < now) then Denied 401 (Errf ''token has expired'' [])
          else Granted claims tokenStr)"

definition session_access :: "auth_env \<Rightarrow> time \<Rightarrow> http_request \<Rightarrow> sessions \<Rightarrow> (SessionData option \<times> sessions)" where
  "session_access env now rq S =
     (case rq_Cookie rq of
        None \<Rightarrow> (None, S)
      | Some v \<Rightarrow> if v = [] then (None, S) else Get env v now S)"

definition Middleware :: "auth_env \<Rightarrow> time \<Rightarrow> http_request \<Rightarrow> sessions \<Rightarrow> access \<times> sessions" where
  "Middleware env now rq S =
     (if HasPrefix (rq_Authorization rq) ''Bearer '' then
        (bearer_access env now (TrimPrefix (rq_Authorization rq) ''Bearer ''), S)
      else
        (case session_access env now rq S of
           (None, S1) \<Rightarrow> (Denied 401 (Errf ''authentication required'' []), S1)
         | (Some d, S1) \<Rightarrow>
             ((case parseClaimsFromToken env (sd_AccessToken d) of
                 Inl e \<Rightarrow> Denied 401 (Errf ''invalid session token'' [])
               | Inr claims \<Rightarrow> Granted claims (sd_AccessToken d)), S1)))"

definition SessionMiddleware :: "auth_env \<Rightarrow> string \<Rightarrow> time \<Rightarrow> http_request \<Rightarrow> sessions \<Rightarrow> access \<times> sessions" where
  "SessionMiddleware env loginPath now rq S =
     (let login = Redirected (loginPath @ ''?redirect='' @ QueryEscape (rq_Path rq)) in
      case session_access env now rq S of
        (None, S1) \<Rightarrow> (login, S1)
      | (Some d, S1) \<Rightarrow>
          ((case parseClaimsFromToken env (sd_AccessToken d) of
              Inl e \<Rightarrow> login
            | Inr claims \<Rightarrow> Granted claims (sd_AccessToken d)), S1))"

text \<open>The gate of the static files: a session is enough.\<close>

definition static_gate :: "auth_env \<Rightarrow> string \<Rightarrow> time \<Rightarrow> http_request \<Rightarrow> sessions \<Rightarrow> string option \<times> sessions" where
  "static_gate env loginPath now rq S =
     (case session_access env now rq S of
        (None, S1) \<Rightarrow> (Some (loginPath @ ''?redirect='' @ QueryEscape (rq_Path rq)), S1)
      | (Some d, S1) \<Rightarrow> (None, S1))"

text \<open>RequireScope behind a middleware that let the request pass, with claims or without.\<close>

definition RequireScope :: "string \<Rightarrow> UaaClaims option \<Rightarrow> (nat \<times> gerr) option" where
  "RequireScope requiredScope claims =
     (case claims of
        None \<Rightarrow> Some (403, Errf ''No authentication claims found in request'' [])
      | Some c \<Rightarrow>
          if \<exists>s\<in>set (cl_Scope c). HasSuffix s (''.'' @ requiredScope) then None
          else Some (403, Errf ''User '%s' does not have the required scope '%s'. Contact your administrator to assign the appropriate Role Collection.''
                 [Str (cl_UserName c), Str requiredScope]))"

definition api_access :: "auth_env \<Rightarrow> string \<Rightarrow> time \<Rightarrow> http_request \<Rightarrow> sessions \<Rightarrow> access \<times> sessions" where
  "api_access env requiredScope now rq S =
     (case Middleware env now rq S of
        (Granted claims token, S1) \<Rightarrow>
          ((case RequireScope requiredScope (Some claims) of
              None \<Rightarrow> Granted claims token
            | Some (code, e) \<Rightarrow> Denied code e), S1)
      | (a, S1) \<Rightarrow> (a, S1))"

text \<open>The scopes of the caller without the name of the application.\<close>

definition GetCurrentUserScopes :: "UaaClaims option \<Rightarrow> (nat \<times> gerr) + string list \<times> string" where
  "GetCurrentUserScopes claims =
     (case claims of
        None \<Rightarrow> Inl (403, Errf ''no authentication claims found'' [])
      | Some c \<Rightarrow> Inr (map (\<lambda>s. case Cut (CHR ''.'') s of None \<Rightarrow> s | Some (a, b) \<Rightarrow> b) (cl_Scope c), cl_Origin c))"

section \<open>The handlers of the browser\<close>

record auth_state =
  as_states :: states
  as_sessions :: sessions
  as_clock :: time

definition buildCallbackURL :: "http_request \<Rightarrow> string" where
  "buildCallbackURL rq =
     (let scheme = (if rq_ForwardedProto rq = [] then ''http'' else rq_ForwardedProto rq) in
      scheme @ ''://'' @ rq_Host rq @ ''/login/callback'')"

definition LoginHandler ::
  "auth_env \<Rightarrow> http_request \<Rightarrow> string \<Rightarrow> string \<Rightarrow> auth_state \<Rightarrow> string \<times> auth_state" where
  "LoginHandler env rq redirect fresh st =
     (let (state, S) = Generate fresh (if redirect = [] then ''/'' else redirect) (as_clock st) (as_states st) in
      (AuthorizeURL (Config env) @ ''?response_type=code'' @ ''&client_id='' @ oc_ClientID (Config env) @
         ''&redirect_uri='' @ buildCallbackURL rq @ ''&state='' @ state,
       st\<lparr>as_states := S\<rparr>))"

text \<open>The cookie that is set and the address the browser is sent to.\<close>

definition CallbackHandler ::
  "auth_env \<Rightarrow> http_request \<Rightarrow> string \<Rightarrow> string \<Rightarrow> string \<Rightarrow> auth_state \<Rightarrow> (nat \<times> gerr + string \<times> string) \<times> auth_state" where
  "CallbackHandler env rq code state fresh st =
     (case Validate state (as_clock st) (as_states st) of
        (None, S) \<Rightarrow> (Inl (400, Errf ''CSRF state mismatch or expired'' []), st\<lparr>as_states := S\<rparr>)
      | (Some originalURI, S) \<Rightarrow>
          (case Exchange env code (buildCallbackURL rq) of
             Inl e \<Rightarrow> (Inl (502, Errf ''failed to exchange authorization code'' []), st\<lparr>as_states := S\<rparr>)
           | Inr token \<Rightarrow>
               (let (cookie, Ss) = Create env fresh (as_clock st)
                      \<lparr>sd_AccessToken = ot_AccessToken token, sd_RefreshToken = ot_RefreshToken token,
                       sd_TokenExpiry = ot_Expiry token, sd_UserInfo = None, sd_CreatedAt = Some (as_clock st)\<rparr>
                      (as_sessions st) in
                (Inr (cookie, if originalURI = [] then ''/'' else originalURI),
                 st\<lparr>as_states := S, as_sessions := Ss\<rparr>))))"

definition HandleLogout :: "auth_env \<Rightarrow> http_request \<Rightarrow> auth_state \<Rightarrow> string \<times> auth_state" where
  "HandleLogout env rq st =
     (let S = (case rq_Cookie rq of
                 None \<Rightarrow> as_sessions st
               | Some v \<Rightarrow> if v = [] then as_sessions st else Delete env v (as_sessions st));
          scheme = (if rq_ForwardedProto rq = [] then ''http'' else rq_ForwardedProto rq) in
      (LogoutURL (Config env) @ ''?redirect='' @ scheme @ ''://'' @ rq_Host rq, st\<lparr>as_sessions := S\<rparr>))"

section \<open>The current user\<close>

definition getString :: "(string \<times> jval) list \<Rightarrow> string \<Rightarrow> string" where
  "getString m key = (case map_of m key of Some (JStr v) \<Rightarrow> v | _ \<Rightarrow> [])"

definition role_groups :: "(string \<times> jval) list \<Rightarrow> UserGroup list" where
  "role_groups raw =
     (case map_of raw ''xs.system.attributes'' of
        Some (JObj groups) \<Rightarrow>
          (case map_of groups ''xs.rolecollections'' of
             Some (JArr roleCollections) \<Rightarrow>
               concat (map (\<lambda>rc. case rc of JStr name \<Rightarrow> [\<lparr>ug_Value = name, ug_Display = name, ug_Type = ''DIRECT''\<rparr>] | _ \<Rightarrow> [])
                 roleCollections)
           | _ \<Rightarrow> [])
      | _ \<Rightarrow> [])"

definition user_info :: "(string \<times> jval) list \<Rightarrow> UserInfoResponse" where
  "user_info raw =
    \<lparr>ui_FirstName = getString raw ''given_name'', ui_LastName = getString raw ''family_name'',
     ui_Email = getString raw ''email'', ui_Name = getString raw ''user_name'', ui_Groups = role_groups raw\<rparr>"

text \<open>The answer is cached in the session that the cookie then leads to.\<close>

definition cache_user :: "auth_env \<Rightarrow> string \<Rightarrow> time \<Rightarrow> UserInfoResponse \<Rightarrow> sessions \<Rightarrow> sessions" where
  "cache_user env cookieValue now u S =
     (case (verify env cookieValue, Get env cookieValue now S) of
        (Some i, Some d, S1) \<Rightarrow> S1(i \<mapsto> d\<lparr>sd_UserInfo := Some u\<rparr>)
      | (_, _, S1) \<Rightarrow> S1)"

text \<open>Behind SessionMiddleware.\<close>

definition HandleCurrentUser ::
  "auth_env \<Rightarrow> access \<Rightarrow> http_request \<Rightarrow> time \<Rightarrow> sessions \<Rightarrow> (nat \<times> gerr + UserInfoResponse) \<times> sessions" where
  "HandleCurrentUser env acc rq now S =
     (case acc of
        Granted claims token \<Rightarrow>
          (let cookieValue = (case rq_Cookie rq of None \<Rightarrow> [] | Some v \<Rightarrow> v);
               (found, S1) = Get env cookieValue now S in
           case (case found of None \<Rightarrow> None | Some d \<Rightarrow> sd_UserInfo d) of
             Some u \<Rightarrow> (Inr u, S1)
           | None \<Rightarrow>
               (case UserInfo env token of
                  UiFailed e \<Rightarrow> (Inl (502, Errf ''failed to call userinfo endpoint: %s'' [Verb e]), S1)
                | UiStatus code body \<Rightarrow> (Inl (502, Errf ''userinfo returned %d: %s'' [Num code, Str body]), S1)
                | UiNotJson \<Rightarrow> (Inl (500, Errf ''failed to decode userinfo response'' []), S1)
                | UiJson raw \<Rightarrow> (Inr (user_info raw), cache_user env cookieValue now (user_info raw) S1)))
      | _ \<Rightarrow> (Inl (401, Errf ''authentication required'' []), S))"

definition current_user :: "auth_env \<Rightarrow> string \<Rightarrow> time \<Rightarrow> http_request \<Rightarrow> sessions \<Rightarrow>
   (string + (nat \<times> gerr + UserInfoResponse)) \<times> sessions" where
  "current_user env loginPath now rq S =
     (case SessionMiddleware env loginPath now rq S of
        (Redirected to, S1) \<Rightarrow> (Inl to, S1)
      | (acc, S1) \<Rightarrow> (case HandleCurrentUser env acc rq now S1 of (r, S2) \<Rightarrow> (Inr r, S2)))"

section \<open>Runs of the process\<close>

datatype auth_op =
  OpLogin http_request string string                  \<comment> \<open>redirect and the state drawn\<close>
| OpCallback http_request string string string        \<comment> \<open>code, state and the session id drawn\<close>
| OpLogout http_request
| OpApi http_request string                           \<comment> \<open>any route of the API with its scope\<close>
| OpBrowse http_request                               \<comment> \<open>the static files\<close>
| OpCurrentUser http_request
| OpCleanSessions
| OpCleanStates
| OpTime time

text \<open>What the runs are judged by: a state was issued, a session was created with it, a session was deleted.\<close>

datatype auth_event =
  Issued string string time
| Opened string string string time
| Closed string

text \<open>GET /logout is behind SessionMiddleware.\<close>

fun auth_do :: "auth_env \<Rightarrow> auth_op \<Rightarrow> auth_state \<Rightarrow> auth_event list \<times> auth_state" where
  "auth_do env (OpLogin rq redirect fresh) st =
     ([Issued fresh (if redirect = [] then ''/'' else redirect) (as_clock st)], snd (LoginHandler env rq redirect fresh st))"
| "auth_do env (OpCallback rq code state fresh) st =
     (case CallbackHandler env rq code state fresh st of
        (Inl e, st1) \<Rightarrow> ([], st1)
      | (Inr r, st1) \<Rightarrow>
          ([Opened state fresh (case Exchange env code (buildCallbackURL rq) of Inr t \<Rightarrow> ot_AccessToken t | Inl e \<Rightarrow> []) (as_clock st)], st1))"
| "auth_do env (OpLogout rq) st =
     (case SessionMiddleware env ''/auth/login'' (as_clock st) rq (as_sessions st) of
        (Granted c t, S1) \<Rightarrow>
          ((case rq_Cookie rq of None \<Rightarrow> [] | Some v \<Rightarrow> (case verify env v of None \<Rightarrow> [] | Some i \<Rightarrow> [Closed i])),
           snd (HandleLogout env rq (st\<lparr>as_sessions := S1\<rparr>)))
      | (a, S1) \<Rightarrow> ([], st\<lparr>as_sessions := S1\<rparr>))"
| "auth_do env (OpApi rq scope) st = ([], st\<lparr>as_sessions := snd (api_access env scope (as_clock st) rq (as_sessions st))\<rparr>)"
| "auth_do env (OpBrowse rq) st =
     ([], st\<lparr>as_sessions := snd (static_gate env ''/auth/login'' (as_clock st) rq (as_sessions st))\<rparr>)"
| "auth_do env (OpCurrentUser rq) st =
     ([], st\<lparr>as_sessions := snd (current_user env ''/auth/login'' (as_clock st) rq (as_sessions st))\<rparr>)"
| "auth_do env OpCleanSessions st = ([], st\<lparr>as_sessions := clean_sessions env (as_clock st) (as_sessions st)\<rparr>)"
| "auth_do env OpCleanStates st = ([], st\<lparr>as_states := clean_states (as_clock st) (as_states st)\<rparr>)"
| "auth_do env (OpTime t) st = ([], st\<lparr>as_clock := max (as_clock st) t\<rparr>)"

text \<open>The process starts with empty stores.\<close>

inductive auth_run :: "auth_env \<Rightarrow> auth_event list \<Rightarrow> auth_state \<Rightarrow> bool" for env where
  start: "auth_run env [] \<lparr>as_states = Map.empty, as_sessions = Map.empty, as_clock = t\<rparr>"
| step: "\<lbrakk>auth_run env evs st; auth_do env op st = (new, st')\<rbrakk> \<Longrightarrow> auth_run env (evs @ new) st'"



lemma stateTTL_code [code]: "stateTTL = 300000000000"
  by (simp add: stateTTL_def)

section \<open>Login states are one-time tokens\<close>

interpretation login_states: one_time "\<lambda>S k. S k \<noteq> None" "\<lambda>k p t S. snd (Generate k p t S)" Validate
proof
  show "S k \<noteq> None" if "Validate k t S = (Some p, S')" for k t S p S'
    using that by (auto simp: Validate_def split: option.splits)
  show "\<not> S' k \<noteq> None" if "Validate k t S = (Some p, S')" for k t S p S'
    using that by (auto simp: Validate_def split: option.splits)
  show "S j \<noteq> None" if "Validate k t S = (r, S')" "S' j \<noteq> None" for k t S r S' j
    using that by (auto simp: Validate_def split: option.splits if_splits)
  show "j = k \<or> S j \<noteq> None" if "snd (Generate k p t S) j \<noteq> None" for k p t S j
    using that by (auto simp: Generate_def split: if_splits)
qed

lemma login_state_once: "accepted (\<lambda>k p t S. snd (Generate k p t S)) Validate ops Map.empty k \<le> issued ops k"
  using login_states.accepted_at_most_issued [of ops Map.empty k] by simp

section \<open>What the stores keep\<close>

lemma Get_some:
  "Get env v now S = (Some d, S') \<longleftrightarrow>
     (\<exists>i. verify env v = Some i \<and> S i = Some d \<and> \<not> expired env now d \<and> S' = S)"
  by (auto simp: Get_def split: option.splits if_splits)

lemma verify_some: "verify env v = Some i \<Longrightarrow> v = i @ ''.'' @ Sign env i"
  by (auto simp: verify_def split: option.splits if_splits dest: CutLast_SomeD)

lemma verify_signed: "CHR ''.'' \<notin> set (Sign env i) \<Longrightarrow> verify env (i @ ''.'' @ Sign env i) = Some i"
  by (simp add: verify_def CutLast_append)

text \<open>Sessions are dropped or get a cached user, and nothing else.\<close>

definition fewer :: "sessions \<Rightarrow> sessions \<Rightarrow> bool" where
  "fewer S S' \<longleftrightarrow> (\<forall>i d'. S' i = Some d' \<longrightarrow> (\<exists>d. S i = Some d \<and> sd_AccessToken d = sd_AccessToken d' \<and>
     sd_CreatedAt d = sd_CreatedAt d'))"

lemma fewer_refl [simp]: "fewer S S"
  by (simp add: fewer_def)

lemma fewer_drop [simp]: "fewer S (S(i := None))"
  by (simp add: fewer_def)

lemma fewer_trans: "\<lbrakk>fewer S T; fewer T U\<rbrakk> \<Longrightarrow> fewer S U"
  unfolding fewer_def by metis

lemma fewer_Get: "Get env v now S = (r, S') \<Longrightarrow> fewer S S'"
  by (auto simp: Get_def split: option.splits if_splits)

lemma fewer_session: "session_access env now rq S = (r, S') \<Longrightarrow> fewer S S'"
  by (auto simp: session_access_def dest: fewer_Get split: option.splits if_splits)

lemma fewer_middleware:
  "Middleware env now rq S = (a, S') \<Longrightarrow> fewer S S'" "SessionMiddleware env l now rq S = (a, S') \<Longrightarrow> fewer S S'"
  "static_gate env l now rq S = (b, S') \<Longrightarrow> fewer S S'"
  by (auto simp: Middleware_def SessionMiddleware_def static_gate_def Let_def dest: fewer_session
      split: option.splits if_splits prod.splits)

lemma fewer_api: "api_access env scope now rq S = (a, S') \<Longrightarrow> fewer S S'"
  by (auto simp: api_access_def dest: fewer_middleware split: prod.splits access.splits)

lemma fewer_cache: "fewer S (cache_user env v now u S)"
proof -
  obtain r S1 where g: "Get env v now S = (r, S1)" by (rule prod.exhaust)
  then show ?thesis using fewer_Get [OF g]
    by (auto simp: cache_user_def Get_some fewer_def split: option.splits)
qed

lemma fewer_handle: "fewer S (snd (HandleCurrentUser env acc rq now S))"
proof -
  let ?v = "case rq_Cookie rq of None \<Rightarrow> [] | Some v \<Rightarrow> v"
  obtain r S1 where g: "Get env ?v now S = (r, S1)" by (rule prod.exhaust)
  have "fewer S S1" "fewer S (cache_user env v now u S1)" for u v
    using fewer_Get [OF g] fewer_trans [OF _ fewer_cache] by blast+
  then show ?thesis
    by (simp add: HandleCurrentUser_def g split: access.split option.split UserInfoAnswer.split)
qed

lemma fewer_current:
  assumes "current_user env l now rq S = (r, S')"
  shows "fewer S S'"
proof -
  obtain acc S1 where 1: "SessionMiddleware env l now rq S = (acc, S1)" by (rule prod.exhaust)
  have "S' = S1 \<or> S' = snd (HandleCurrentUser env acc rq now S1)"
    using assms by (auto simp: current_user_def 1 split: access.splits prod.splits)
  then show ?thesis using fewer_middleware(2) [OF 1] fewer_trans [OF _ fewer_handle] by blast
qed

section \<open>Provenance\<close>

definition issued_for :: "auth_event list \<Rightarrow> string \<Rightarrow> string \<Rightarrow> time \<Rightarrow> bool" where
  "issued_for evs s redirect t \<longleftrightarrow>
     (\<exists>before mid. evs = before @ Issued s redirect t # mid \<and> (\<forall>i tok u. Opened s i tok u \<notin> set mid))"

definition opened_for :: "auth_event list \<Rightarrow> string \<Rightarrow> string \<Rightarrow> time \<Rightarrow> bool" where
  "opened_for evs i token t \<longleftrightarrow>
     (\<exists>before after state redirect t0. evs = before @ Opened state i token t # after \<and> Closed i \<notin> set after \<and>
        issued_for before state redirect t0 \<and> t0 \<le> t \<and> t \<le> t0 + stateTTL)"

lemma issued_snoc: "\<lbrakk>issued_for evs s r t; \<forall>i tok u. Opened s i tok u \<notin> set new\<rbrakk> \<Longrightarrow> issued_for (evs @ new) s r t"
proof -
  assume "issued_for evs s r t" and new: "\<forall>i tok u. Opened s i tok u \<notin> set new"
  then obtain before mid where "evs = before @ Issued s r t # mid" "\<forall>i tok u. Opened s i tok u \<notin> set mid"
    unfolding issued_for_def by blast
  with new show ?thesis
    unfolding issued_for_def by (intro exI [of _ before] exI [of _ "mid @ new"]) simp
qed

lemma issued_last [simp]: "issued_for (evs @ [Issued s r t]) s r t"
  unfolding issued_for_def by (intro exI [of _ evs] exI [of _ "[]"]) simp

lemma opened_snoc: "\<lbrakk>opened_for evs i tok t; Closed i \<notin> set new\<rbrakk> \<Longrightarrow> opened_for (evs @ new) i tok t"
proof -
  assume "opened_for evs i tok t" and new: "Closed i \<notin> set new"
  then obtain before after state redirect t0 where "evs = before @ Opened state i tok t # after" "Closed i \<notin> set after"
      "issued_for before state redirect t0" "t0 \<le> t" "t \<le> t0 + stateTTL"
    unfolding opened_for_def by blast
  with new show ?thesis
    unfolding opened_for_def by (intro exI [of _ before] exI [of _ "after @ new"] exI [of _ state] exI [of _ redirect] exI [of _ t0]) simp
qed

lemma session_snoc:
  "\<lbrakk>\<exists>t\<le>now. c = Some t \<and> opened_for evs i tok t; Closed i \<notin> set new\<rbrakk> \<Longrightarrow>
   \<exists>t\<le>now. c = Some t \<and> opened_for (evs @ new) i tok t"
  using opened_snoc by blast

definition accounted :: "auth_event list \<Rightarrow> auth_state \<Rightarrow> bool" where
  "accounted evs st \<longleftrightarrow>
     (\<forall>s e. as_states st s = Some e \<longrightarrow> se_createdAt e \<le> as_clock st \<and> issued_for evs s (se_redirectURI e) (se_createdAt e)) \<and>
     (\<forall>i d. as_sessions st i = Some d \<longrightarrow> (\<exists>t \<le> as_clock st. sd_CreatedAt d = Some t \<and> opened_for evs i (sd_AccessToken d) t))"

lemma accounted_fewer: "\<lbrakk>accounted evs st; fewer (as_sessions st) S\<rbrakk> \<Longrightarrow> accounted evs (st\<lparr>as_sessions := S\<rparr>)"
proof -
  assume a: "accounted evs st" and f: "fewer (as_sessions st) S"
  have "\<exists>t\<le>as_clock st. sd_CreatedAt d' = Some t \<and> opened_for evs i (sd_AccessToken d') t" if s: "S i = Some d'" for i d'
  proof -
    obtain d where "as_sessions st i = Some d" "sd_AccessToken d = sd_AccessToken d'" "sd_CreatedAt d = sd_CreatedAt d'"
      using f s unfolding fewer_def by blast
    then show ?thesis using a unfolding accounted_def by metis
  qed
  then show ?thesis using a by (simp add: accounted_def)
qed

lemma do_accounted:
  assumes a: "accounted evs st" and run: "auth_do env op st = (new, st')"
  shows "accounted (evs @ new) st'"
proof (cases op)
  case (OpLogin rq redirect fresh)
  then show ?thesis
    using a run unfolding accounted_def
    by (auto simp: LoginHandler_def Generate_def Let_def issued_snoc intro: session_snoc split: if_splits)
next
  case (OpCallback rq code state fresh)
  show ?thesis
  proof (cases "as_states st state")
    case None
    then show ?thesis using a run OpCallback by (simp add: CallbackHandler_def Validate_def)
  next
    case (Some e)
    then have e: "se_createdAt e \<le> as_clock st" "issued_for evs state (se_redirectURI e) (se_createdAt e)"
      using a by (auto simp: accounted_def)
    have used: "accounted evs (st\<lparr>as_states := (as_states st)(state := None)\<rparr>)"
      using a by (simp add: accounted_def)
    show ?thesis
    proof (cases "as_clock st - se_createdAt e > stateTTL \<or> isl (Exchange env code (buildCallbackURL rq))")
      case True
      then show ?thesis using used run OpCallback Some
        by (auto simp: CallbackHandler_def Validate_def isl_def split: if_splits)
    next
      case False
      then obtain token where t: "Exchange env code (buildCallbackURL rq) = Inr token" by (auto simp: isl_def split: sum.splits) (metis sum.exhaust)
      have "opened_for (evs @ [Opened state fresh (ot_AccessToken token) (as_clock st)]) fresh (ot_AccessToken token) (as_clock st)"
        unfolding opened_for_def using e False by (intro exI [of _ evs] exI [of _ "[]"] exI conjI) (auto intro: e(2))
      moreover have "\<exists>t\<le>as_clock st. sd_CreatedAt d = Some t \<and>
          opened_for (evs @ [Opened state fresh (ot_AccessToken token) (as_clock st)]) i (sd_AccessToken d) t"
        if "as_sessions st i = Some d" for i d
        using a that by (intro session_snoc) (auto simp: accounted_def)
      ultimately show ?thesis
        using used run OpCallback Some False t unfolding accounted_def
        by (auto simp: CallbackHandler_def Validate_def Create_def Let_def issued_snoc split: if_splits)
    qed
  qed
next
  case (OpLogout rq)
  obtain acc S1 where m: "SessionMiddleware env ''/auth/login'' (as_clock st) rq (as_sessions st) = (acc, S1)" by (rule prod.exhaust)
  then have a1: "accounted evs (st\<lparr>as_sessions := S1\<rparr>)" using a by (intro accounted_fewer fewer_middleware(2))
  have "\<exists>t\<le>as_clock st. sd_CreatedAt d = Some t \<and> opened_for (evs @ [Closed i]) j (sd_AccessToken d) t"
    if "S1 j = Some d" "j \<noteq> i" for i j d
    using a1 that by (intro session_snoc) (auto simp: accounted_def)
  then have gone: "accounted (evs @ [Closed i]) (st\<lparr>as_sessions := S1(i := None)\<rparr>)" for i
    using a1 unfolding accounted_def by (auto simp: issued_snoc)
  have "verify env [] = None" by (simp add: verify_def CutLast_def)
  then show ?thesis
    using run OpLogout m a1 gone
    by (auto simp: HandleLogout_def Delete_def split: access.splits option.splits if_splits)
next
  case (OpApi rq scope)
  then show ?thesis using a run by (auto intro: accounted_fewer fewer_api [OF prod.collapse [symmetric]])
next
  case (OpBrowse rq)
  then show ?thesis using a run by (auto intro: accounted_fewer fewer_middleware(3) [OF prod.collapse [symmetric]])
next
  case (OpCurrentUser rq)
  then show ?thesis using a run by (auto intro: accounted_fewer fewer_current [OF prod.collapse [symmetric]])
next
  case OpCleanSessions
  have "fewer S (clean_sessions env now S)" for now S
    by (auto simp: fewer_def clean_sessions_def split: option.splits if_splits)
  then show ?thesis using a run OpCleanSessions by (auto intro: accounted_fewer)
next
  case OpCleanStates
  then show ?thesis using a run
    by (auto simp: accounted_def clean_states_def split: option.splits if_splits)
next
  case (OpTime t)
  then show ?thesis using a run unfolding accounted_def by (fastforce simp: le_max_iff_disj)
qed

lemma run_accounted: "auth_run env evs st \<Longrightarrow> accounted evs st"
  by (induction rule: auth_run.induct) (auto simp: accounted_def [of "[]"] intro: do_accounted)

section \<open>Properties\<close>

text \<open>A bearer token that the library accepts under the key the token names.\<close>

definition bearer_granted :: "auth_env \<Rightarrow> time \<Rightarrow> http_request \<Rightarrow> UaaClaims \<Rightarrow> string \<Rightarrow> bool" where
  "bearer_granted env now rq claims token \<longleftrightarrow>
     rq_Authorization rq = ''Bearer '' @ token \<and> Parse env token (token_key env) now = Inr (claims, True) \<and>
     (case cl_ExpiresAt claims of None \<Rightarrow> True | Some x \<Rightarrow> now \<le> x)"

text \<open>C31: the API is open only to a caller with a scope that ends in the required one, and only to the bearer
  of a token the library accepts or to a browser whose session can be accounted for: its signed cookie
  names a session that a login opened, with a state issued at most five minutes before and used for
  nothing else in between, no older than the maximal age and not logged out since, and the claims are
  those of the token exchanged then. This holds in every run of the process, for any requests.\<close>

theorem api_access_provenance:
  assumes run: "auth_run env evs st"
    and granted: "api_access env scope (as_clock st) rq (as_sessions st) = (Granted claims token, S')"
  shows "(\<exists>s\<in>set (cl_Scope claims). HasSuffix s (''.'' @ scope)) \<and>
    (bearer_granted env (as_clock st) rq claims token \<or>
     (\<exists>i state redirect t0 t1 before mid after.
        rq_Cookie rq = Some (i @ ''.'' @ Sign env i) \<and> parseClaimsFromToken env token = Inr claims \<and>
        evs = before @ Issued state redirect t0 # mid @ Opened state i token t1 # after \<and>
        (\<forall>j tok t. Opened state j tok t \<notin> set mid) \<and> Closed i \<notin> set after \<and>
        t0 \<le> t1 \<and> t1 \<le> t0 + stateTTL \<and> (MaxAge env > 0 \<longrightarrow> as_clock st \<le> t1 + MaxAge env)))"
proof -
  have m: "Middleware env (as_clock st) rq (as_sessions st) = (Granted claims token, S')"
    and scope: "\<exists>s\<in>set (cl_Scope claims). HasSuffix s (''.'' @ scope)"
    using granted by (auto simp: api_access_def RequireScope_def split: prod.splits access.splits option.splits if_splits)
  show ?thesis
  proof (cases "HasPrefix (rq_Authorization rq) ''Bearer ''")
    case True
    then obtain tok where "rq_Authorization rq = ''Bearer '' @ tok" by (auto simp: HasPrefix_iff)
    then have "bearer_granted env (as_clock st) rq claims token"
      using m by (auto simp: Middleware_def bearer_access_def bearer_granted_def TrimPrefix_def HasPrefix_def
          split: sum.splits if_splits option.splits)
    with scope show ?thesis by blast
  next
    case False
    then obtain d where "session_access env (as_clock st) rq (as_sessions st) = (Some d, S')" and
        token: "token = sd_AccessToken d" "parseClaimsFromToken env token = Inr claims"
      using m by (auto simp: Middleware_def split: prod.splits option.splits sum.splits)
    from this(1) obtain v i where "rq_Cookie rq = Some v" "verify env v = Some i" and i: "as_sessions st i = Some d"
        "\<not> expired env (as_clock st) d"
      by (auto simp: session_access_def Get_some split: option.splits if_splits)
    then have cookie: "rq_Cookie rq = Some (i @ ''.'' @ Sign env i)" using verify_some by blast
    obtain t1 where t1: "t1 \<le> as_clock st" "sd_CreatedAt d = Some t1" "opened_for evs i token t1"
      using run_accounted [OF run] i(1) unfolding accounted_def token(1) by blast
    then obtain before1 after state redirect t0 where o: "evs = before1 @ Opened state i token t1 # after"
        "Closed i \<notin> set after" "issued_for before1 state redirect t0" "t0 \<le> t1" "t1 \<le> t0 + stateTTL"
      unfolding opened_for_def by blast
    from o(3) obtain before mid where s: "before1 = before @ Issued state redirect t0 # mid" "\<forall>j tok t. Opened state j tok t \<notin> set mid"
      unfolding issued_for_def by blast
    have "MaxAge env > 0 \<longrightarrow> as_clock st \<le> t1 + MaxAge env" using i(2) t1(2) by (auto simp: expired_def)
    then show ?thesis
      using o s by (intro conjI [OF scope] disjI2 exI [of _ i] exI [of _ state] exI [of _ redirect] exI [of _ t0] exI [of _ t1]
        exI [of _ before] exI [of _ mid] exI [of _ after] conjI cookie token(2)) simp_all
  qed
qed

text \<open>A login, and some time later.\<close>

definition demo_claims :: UaaClaims where
  "demo_claims = \<lparr>cl_Subject = ''u1'', cl_UserName = ''ann'', cl_Scope = [''app!t1.DeliveryRequest.Read''],
     cl_ExpiresAt = None, cl_Origin = ''sap''\<rparr>"

definition demo_auth :: auth_env where
  "demo_auth = \<lparr>Sign = (\<lambda>i. ''5f''), MaxAge = 100,
     Config = \<lparr>oc_ClientID = ''app'', oc_ClientSecret = ''secret'', oc_AuthURL = ''https://uaa''\<rparr>,
     Parse = (\<lambda>tok kf now. case kf \<lparr>hd_jku = ''https://evil/jwks'', hd_kid = ''k''\<rparr> of Inl e \<Rightarrow> Inl e
       | Inr key \<Rightarrow> if key = ''evil key'' then Inr (demo_claims, True) else Inl (Errf ''signature is invalid'' [])),
     Jwks = (\<lambda>url. if url = ''https://evil/jwks'' then Inr (\<lambda>kid. Some (Inr ''evil key'')) else Inl (Errf ''no such host'' [])),
     Payload = (\<lambda>p. Inr demo_claims),
     Exchange = (\<lambda>code url. Inr \<lparr>ot_AccessToken = ''h.p.s'', ot_RefreshToken = ''r'', ot_Expiry = 0\<rparr>),
     UserInfo = (\<lambda>token. UiNotJson)\<rparr>"

definition demo_rq :: http_request where
  "demo_rq = \<lparr>rq_Authorization = [], rq_Cookie = Some ''sid.5f'', rq_Path = ''/'', rq_Host = ''app'', rq_ForwardedProto = ''https''\<rparr>"

definition logged_in :: auth_state where
  "logged_in = snd (auth_do demo_auth (OpTime 50) (snd (auth_do demo_auth (OpCallback demo_rq ''code'' ''st'' ''sid'')
     (snd (auth_do demo_auth (OpLogin demo_rq [] ''st'') \<lparr>as_states = Map.empty, as_sessions = Map.empty, as_clock = 0\<rparr>)))))"

lemma auth_step: "\<lbrakk>auth_run env evs st; fst (auth_do env op st) = new\<rbrakk> \<Longrightarrow> auth_run env (evs @ new) (snd (auth_do env op st))"
  by (rule auth_run.step) (simp_all add: prod_eq_iff)

lemmas demo_simps = auth_do.simps LoginHandler_def Generate_def CallbackHandler_def Validate_def Create_def buildCallbackURL_def
  api_access_def Middleware_def session_access_def Get_def verify_def CutLast_def expired_def parseClaimsFromToken_def
  Split_def RequireScope_def HasPrefix_def HasSuffix_def demo_auth_def demo_rq_def demo_claims_def stateTTL_code

lemma demo_run: "auth_run demo_auth [Issued ''st'' ''/'' 0, Opened ''st'' ''sid'' ''h.p.s'' 0] logged_in"
proof -
  let ?s0 = "\<lparr>as_states = Map.empty, as_sessions = Map.empty, as_clock = 0\<rparr>"
  let ?s1 = "snd (auth_do demo_auth (OpLogin demo_rq [] ''st'') ?s0)"
  let ?s2 = "snd (auth_do demo_auth (OpCallback demo_rq ''code'' ''st'' ''sid'') ?s1)"
  have "fst (auth_do demo_auth (OpLogin demo_rq [] ''st'') ?s0) = [Issued ''st'' ''/'' 0]"
    "fst (auth_do demo_auth (OpCallback demo_rq ''code'' ''st'' ''sid'') ?s1) = [Opened ''st'' ''sid'' ''h.p.s'' 0]"
    "fst (auth_do demo_auth (OpTime 50) ?s2) = []"
    by (simp_all add: demo_simps)
  note steps = auth_step [OF auth_step [OF auth_step [OF auth_run.start this(1)] this(2)] this(3)]
  show ?thesis
    unfolding logged_in_def using steps by simp
qed

lemma demo_granted: "api_access demo_auth ''DeliveryRequest.Read'' (as_clock logged_in) demo_rq (as_sessions logged_in) =
    (Granted demo_claims ''h.p.s'', snd (api_access demo_auth ''DeliveryRequest.Read'' (as_clock logged_in) demo_rq (as_sessions logged_in)))"
proof -
  have "fst (api_access demo_auth ''DeliveryRequest.Read'' (as_clock logged_in) demo_rq (as_sessions logged_in)) =
      Granted demo_claims ''h.p.s''" by (simp add: logged_in_def demo_simps)
  then show ?thesis by (metis prod.collapse)
qed

theorem api_access_provenance_witness:
  "\<exists>before mid after state redirect t0 t1. [Issued ''st'' ''/'' 0, Opened ''st'' ''sid'' ''h.p.s'' 0] =
     before @ Issued state redirect t0 # mid @ Opened state ''sid'' ''h.p.s'' t1 # after"
proof -
  have "\<not> bearer_granted demo_auth t demo_rq c tok" for t c tok
    by (simp add: bearer_granted_def demo_rq_def)
  moreover have "i = ''sid''" if "rq_Cookie demo_rq = Some (i @ ''.'' @ Sign demo_auth i)" for i
    using that by (simp add: demo_rq_def demo_auth_def)
  ultimately show ?thesis
    using api_access_provenance [OF demo_run demo_granted] by blast
qed

text \<open>C32: a login succeeds once: when the callback comes within five minutes with the state of the login and the
  code is exchanged, the browser is sent to the very address the login was asked for, whatever it is,
  and gets a cookie; the cookie leads to the exchanged token until the maximal age, even when the token
  itself has expired before, and neither after that nor after a logout. The same state is refused a
  second time.\<close>

theorem login_roundtrip:
  assumes login: "LoginHandler env rq redirect state st = (url, st1)"
    and later: "as_states st2 state = as_states st1 state" "as_clock st2 \<le> as_clock st + stateTTL"
    and code: "Exchange env code (buildCallbackURL rq2) = Inr token"
    and hex: "CHR ''.'' \<notin> set (Sign env sid)"
    and callback: "CallbackHandler env rq2 code state sid st2 = (r, st3)"
  defines "cookie \<equiv> sid @ ''.'' @ Sign env sid"
  shows "r = Inr (cookie, if redirect = [] then ''/'' else redirect) \<and>
    map_option sd_AccessToken (fst (Get env cookie now (as_sessions st3))) =
      (if MaxAge env = 0 \<or> now \<le> as_clock st2 + MaxAge env then Some (ot_AccessToken token) else None) \<and>
    fst (Get env cookie now (as_sessions (snd (HandleLogout env (rq\<lparr>rq_Cookie := Some cookie\<rparr>) st3)))) = None \<and>
    isl (fst (CallbackHandler env rq3 code' state sid' (st3\<lparr>as_clock := t\<rparr>)))"
proof -
  let ?to = "if redirect = [] then ''/'' else redirect"
  let ?d = "\<lparr>sd_AccessToken = ot_AccessToken token, sd_RefreshToken = ot_RefreshToken token,
    sd_TokenExpiry = ot_Expiry token, sd_UserInfo = None, sd_CreatedAt = Some (as_clock st2)\<rparr>"
  have "as_states st2 state = Some \<lparr>se_createdAt = as_clock st, se_redirectURI = ?to\<rparr>"
    using login later(1) by (auto simp: LoginHandler_def Generate_def Let_def)
  then have r: "r = Inr (cookie, ?to)" and st3: "st3 = st2\<lparr>as_states := (as_states st2)(state := None),
      as_sessions := (as_sessions st2)(sid \<mapsto> ?d)\<rparr>"
    using callback later(2) code by (auto simp: CallbackHandler_def Validate_def Create_def Let_def cookie_def split: if_splits)
  have "verify env cookie = Some sid" unfolding cookie_def by (rule verify_signed [OF hex])
  then show ?thesis
    using r unfolding st3
    by (auto simp: Get_def expired_def HandleLogout_def Delete_def CallbackHandler_def Validate_def Let_def cookie_def)
qed

theorem login_roundtrip_witness:
  "\<exists>cookie to. fst (CallbackHandler demo_auth demo_rq ''code'' ''st'' ''sid''
     (snd (LoginHandler demo_auth demo_rq ''https://evil'' ''st'' logged_in))) = Inr (cookie, to) \<and> to = ''https://evil''"
proof -
  let ?st1 = "snd (LoginHandler demo_auth demo_rq ''https://evil'' ''st'' logged_in)"
  have "as_clock ?st1 \<le> as_clock logged_in + stateTTL"
    by (simp add: LoginHandler_def Generate_def Let_def)
  then show ?thesis
    using login_roundtrip [OF prod.collapse [symmetric] refl _ _ _ prod.collapse [symmetric],
        of demo_auth demo_rq "''https://evil''" "''st''" logged_in "''code''" demo_rq
          "\<lparr>ot_AccessToken = ''h.p.s'', ot_RefreshToken = ''r'', ot_Expiry = 0\<rparr>" "''sid''"]
    by (simp add: demo_auth_def)
qed

text \<open>C33: the bearer of a token chooses the key it is checked with: the API accepts every token that the library
  accepts under a key published at an address the token itself names, with whatever claims and scopes
  it carries. Neither the address nor the issuer is compared with the configuration of the service, and
  of a scope only the end counts.\<close>

theorem bearer_any_issuer:
  assumes library: "\<And>kf. kf hdr = Inr key \<Longrightarrow> Parse env token kf now = Inr (claims, True)"
    and published: "Jwks env (hd_jku hdr) = Inr keys" "keys (hd_kid hdr) = Some (Inr key)" "hd_jku hdr \<noteq> []" "hd_kid hdr \<noteq> []"
    and claims: "s \<in> set (cl_Scope claims)" "HasSuffix s (''.'' @ scope)" "cl_ExpiresAt claims = None"
    and bearer: "rq_Authorization rq = ''Bearer '' @ token"
  shows "api_access env scope now rq S = (Granted claims token, S)"
proof -
  have "token_key env hdr = Inr key" using published by (simp add: token_key_def keyFromJKU_def)
  then have "Parse env token (token_key env) now = Inr (claims, True)" by (rule library)
  then show ?thesis
    using claims bearer by (auto simp: api_access_def Middleware_def bearer_access_def RequireScope_def TrimPrefix_def HasPrefix_def)
qed

theorem bearer_any_issuer_witness:
  "api_access demo_auth ''DeliveryRequest.Read'' 0 (demo_rq\<lparr>rq_Authorization := ''Bearer forged''\<rparr>) Map.empty =
     (Granted demo_claims ''forged'', Map.empty)"
  by (rule bearer_any_issuer [where hdr = "\<lparr>hd_jku = ''https://evil/jwks'', hd_kid = ''k''\<rparr>" and key = "''evil key''" and
        keys = "\<lambda>kid. Some (Inr ''evil key'')" and s = "''app!t1.DeliveryRequest.Read''"])
    (simp_all add: demo_auth_def demo_claims_def demo_rq_def HasSuffix_def)

end
