(* ===== verification/RemoteCall.thy ===== *)
theory RemoteCall
  imports Env World
begin

text \<open>
  pkg/env/remotecall.go, the client of every remote system, and the connectivity checks of
  service/system_config.go. The network is a parameter: what the n-th call of the token endpoint and of
  the API answers, and whether the caller gives up during the n-th wait.
\<close>

section \<open>The client\<close>

record HttpClient =
  hc_AccessToken :: string
  hc_ApiURL :: string
  hc_ClientId :: string
  hc_ClientSecret :: string
  hc_AuthUrl :: string
  hc_TokenExp :: time

record OauthResp =
  or_AccessToken :: string
  or_ExpiresIn :: int

text \<open>An answer of the token endpoint: no connection, or a status and a body that is JSON or not.\<close>

datatype TokenAnswer =
  TokenFailed gerr
| TokenAnswered nat "gerr + OauthResp"

record network =
  TokenCall :: "nat \<Rightarrow> TokenAnswer"
  ApiCall :: "nat \<Rightarrow> string \<Rightarrow> gerr + string \<times> nat"
  GivesUp :: "nat \<Rightarrow> bool"

text \<open>The client with the calls made so far: token requests, the bearer token and the answer of each request,
  the waits in nanoseconds.\<close>

record call_state =
  cs_client :: HttpClient
  cs_clock :: time
  cs_fetches :: nat
  cs_sent :: "(string \<times> (gerr + string \<times> nat)) list"
  cs_waits :: "time list"

definition NewClient :: "string \<Rightarrow> string \<Rightarrow> string \<Rightarrow> string \<Rightarrow> gerr + HttpClient" where
  "NewClient clientID clientSecret authUrl apiUrl =
     ok \<lparr>hc_AccessToken = [], hc_ApiURL = apiUrl, hc_ClientId = clientID, hc_ClientSecret = clientSecret,
       hc_AuthUrl = (if HasSuffix authUrl ''/oauth/token'' then authUrl else authUrl @ ''/oauth/token''), hc_TokenExp = 0\<rparr>"

definition fetchToken :: "network \<Rightarrow> call_state \<Rightarrow> (gerr + unit) \<times> call_state" where
  "fetchToken net c =
     (let c1 = c\<lparr>cs_fetches := Suc (cs_fetches c)\<rparr> in
      case TokenCall net (cs_fetches c) of
        TokenFailed e \<Rightarrow> (Inl e, c1)
      | TokenAnswered status (Inl e) \<Rightarrow> (Inl e, c1)
      | TokenAnswered status (Inr resp) \<Rightarrow>
          (Inr (), c1\<lparr>cs_client := (cs_client c)\<lparr>hc_AccessToken := or_AccessToken resp,
             hc_TokenExp := nat (int (cs_clock c) + (or_ExpiresIn resp - 30) * 10 ^ 9)\<rparr>\<rparr>))"

definition doRequest :: "network \<Rightarrow> call_state \<Rightarrow> (gerr + string \<times> nat) \<times> call_state" where
  "doRequest net c =
     (let token = hc_AccessToken (cs_client c); answer = ApiCall net (length (cs_sent c)) token in
      (answer, c\<lparr>cs_sent := cs_sent c @ [(token, answer)]\<rparr>))"

text \<open>The loop over attempt = 0, 1; its argument is what is left of the two.\<close>

fun retry429 :: "network \<Rightarrow> nat \<Rightarrow> string \<times> nat \<Rightarrow> call_state \<Rightarrow> (gerr + string \<times> nat) \<times> call_state" where
  "retry429 net 0 answer c = (Inr answer, c)"
| "retry429 net (Suc left) answer c =
     (if snd answer \<noteq> 429 then (Inr answer, c)
      else if GivesUp net (length (cs_waits c)) then (Inl (Errf ''context canceled'' []), c)
      else
        (let wait = (2 - left) * 10 ^ 9;
             c1 = c\<lparr>cs_waits := cs_waits c @ [wait], cs_clock := cs_clock c + wait\<rparr> in
         case doRequest net c1 of
           (Inl e, c2) \<Rightarrow> (Inl e, c2)
         | (Inr answer2, c2) \<Rightarrow> retry429 net left answer2 c2))"

definition refresh_if_needed :: "network \<Rightarrow> call_state \<Rightarrow> (gerr + unit) \<times> call_state" where
  "refresh_if_needed net c =
     (if hc_AccessToken (cs_client c) = [] \<or> hc_TokenExp (cs_client c) < cs_clock c then fetchToken net c else (Inr (), c))"

definition retry401 :: "network \<Rightarrow> string \<times> nat \<Rightarrow> call_state \<Rightarrow> (gerr + string \<times> nat) \<times> call_state" where
  "retry401 net answer c =
     (if snd answer \<noteq> 401 then (Inr answer, c)
      else
        (case fetchToken net c of
           (Inl e, c1) \<Rightarrow> (Inl e, c1)
         | (Inr _, c1) \<Rightarrow> doRequest net c1))"

text \<open>HttpClient.Do; the log lines are left out.\<close>

definition Do :: "network \<Rightarrow> call_state \<Rightarrow> (gerr + string) \<times> call_state" where
  "Do net c0 =
     (case refresh_if_needed net c0 of
        (Inl e, c1) \<Rightarrow> (Inl (Errw ''proactive token refresh: %w'' [] e), c1)
      | (Inr _, c1) \<Rightarrow>
     (case doRequest net c1 of
        (Inl e, c2) \<Rightarrow> (Inl e, c2)
      | (Inr answer, c2) \<Rightarrow>
     (case retry401 net answer c2 of
        (Inl e, c3) \<Rightarrow> (Inl e, c3)
      | (Inr answer3, c3) \<Rightarrow>
     (case retry429 net 2 answer3 c3 of
        (Inl e, c4) \<Rightarrow> (Inl e, c4)
      | (Inr (body, status), c4) \<Rightarrow>
          if status < 200 \<or> 300 \<le> status then (Inl (HttpResponseError status body), c4) else (Inr body, c4)))))"

section \<open>Connectivity\<close>

record ConnectivityStatus =
  cn_Name :: string
  cn_Type :: string
  cn_Status :: string
  cn_Message :: message

definition checkDestinationAuth :: "env \<Rightarrow> string \<Rightarrow> string \<Rightarrow> string \<Rightarrow> ConnectivityStatus" where
  "checkDestinationAuth env name typeName destName =
     (let result = (\<lambda>status m. \<lparr>cn_Name = name, cn_Type = typeName, cn_Status = status, cn_Message = m\<rparr>) in
      if destName = [] then result ''error'' (Errf ''no destination configured'' [])
      else case ProviderGetDestination env destName of
        Inl e \<Rightarrow> result ''error'' (Errf ''destination '%s' not found: %s'' [Str destName, Verb e])
      | Inr None \<Rightarrow> result ''error'' (Errf ''destination '%s' not found'' [Str destName])
      | Inr (Some dest) \<Rightarrow>
          (case NewClient (de_ClientId dest) (de_ClientSecret dest) (de_TokenServiceURL dest) (de_URL dest) of
             Inl e \<Rightarrow> result ''error'' (Errf ''destination '%s' found but token fetch failed: %s'' [Str destName, Verb e])
           | Inr _ \<Rightarrow> result ''ok'' (Errf ''destination '%s' resolved and authenticated'' [Str destName])))"

definition tenant_checks :: "env \<Rightarrow> CpiTenant list \<Rightarrow> ConnectivityStatus list" where
  "tenant_checks env tenants = map (\<lambda>t. checkDestinationAuth env (tn_Name t) ''cpi_tenant'' (tn_PirApiDestinationName t)) tenants"

text \<open>A failed query leaves the list of tenants empty.\<close>

definition CheckTenants :: "env \<Rightarrow> ConnectivityStatus list prog" where
  "CheckTenants env = do {
     r \<leftarrow> db_find db_tenants (\<lambda>_. True);
     State_Monad.return (tenant_checks env (case r of Inl e \<Rightarrow> [] | Inr tenants \<Rightarrow> tenants))
   }"

definition CheckDatabase :: "ConnectivityStatus prog" where
  "CheckDatabase = do {
     r \<leftarrow> db_query (\<lambda>_. ());
     State_Monad.return (case r of
       Inl e \<Rightarrow> \<lparr>cn_Name = ''Database'', cn_Type = ''database'', cn_Status = ''error'', cn_Message = e\<rparr>
     | Inr _ \<Rightarrow> \<lparr>cn_Name = ''Database'', cn_Type = ''database'', cn_Status = ''ok'', cn_Message = no_message\<rparr>)
   }"

definition CheckTMS :: "env \<Rightarrow> ConnectivityStatus prog" where
  "CheckTMS env =
     (let result = (\<lambda>status m. \<lparr>cn_Name = ''TMS'', cn_Type = ''tms'', cn_Status = status, cn_Message = m\<rparr>) in
      case (case TmsSvc env of Inl e \<Rightarrow> Inl e | Inr _ \<Rightarrow> GetNodes env) of
        Inl e \<Rightarrow> State_Monad.return (result ''error'' e)
      | Inr _ \<Rightarrow> do {
          now \<leftarrow> gets clock;
          _ \<leftarrow> db_update db_tmsctx_update (\<lambda>_. True) (\<lambda>c. c\<lparr>ct_LastValidatedAt := Some now\<rparr>);
          State_Monad.return (result ''ok'' no_message)
        })"



section \<open>Bounds\<close>

text \<open>What a part of a call adds: requests with the client's token at that time, and waits.\<close>

definition adds :: "call_state \<Rightarrow> (string \<times> (gerr + string \<times> nat)) list \<Rightarrow> nat \<Rightarrow> time list \<Rightarrow> call_state \<Rightarrow> bool" where
  "adds c new k waits c' \<longleftrightarrow> cs_sent c' = cs_sent c @ new \<and> cs_fetches c' = cs_fetches c + k \<and>
     cs_waits c' = cs_waits c @ waits \<and> cs_clock c' = cs_clock c + sum_list waits"

lemma adds_trans: "\<lbrakk>adds a new k ws b; adds b new' k' ws' c\<rbrakk> \<Longrightarrow> adds a (new @ new') (k + k') (ws @ ws') c"
  by (simp add: adds_def)

lemma adds_refl: "adds c [] 0 [] c"
  by (simp add: adds_def)

lemma fetch_adds: "fetchToken net c = (r, c') \<Longrightarrow> adds c [] 1 [] c'"
  by (auto simp: fetchToken_def adds_def Let_def split: TokenAnswer.splits sum.splits)

lemma refresh_adds: "refresh_if_needed net c = (r, c') \<Longrightarrow> \<exists>k\<le>1. adds c [] k [] c'"
  using fetch_adds adds_refl by (fastforce simp: refresh_if_needed_def split: if_splits)

lemma request_adds: "doRequest net c = (r, c') \<Longrightarrow> adds c [(hc_AccessToken (cs_client c), r)] 0 [] c' \<and> cs_client c' = cs_client c"
  by (auto simp: doRequest_def adds_def Let_def)

text \<open>The last answer among the new ones, or the one before.\<close>

definition last_answer :: "string \<times> nat \<Rightarrow> (string \<times> (gerr + string \<times> nat)) list \<Rightarrow> gerr + string \<times> nat" where
  "last_answer a new = (if new = [] then Inr a else snd (last new))"

abbreviation canceled :: "gerr + 'a" where
  "canceled \<equiv> Inl (Errf ''context canceled'' [])"

lemma retry429_adds:
  assumes "retry429 net 2 a c = (r, c')"
  shows "\<exists>new. adds c new 0 (take (length new) [10 ^ 9, 2 * 10 ^ 9]) c' \<and> length new \<le> 2 \<and>
    (\<forall>x\<in>set new. fst x = hc_AccessToken (cs_client c)) \<and>
    (r = last_answer a new \<and> (\<forall>b. r = Inr (b, 429) \<longrightarrow> length new = 2) \<or>
     r = canceled \<and> (\<exists>b. last_answer a new = Inr (b, 429)))"
proof -
  let ?P = "\<lambda>new r c'. adds c new 0 (take (length new) [10 ^ 9, 2 * 10 ^ 9]) c' \<and> length new \<le> 2 \<and>
    (\<forall>x\<in>set new. fst x = hc_AccessToken (cs_client c)) \<and>
    (r = last_answer a new \<and> (\<forall>b. r = Inr (b, 429) \<longrightarrow> length new = 2) \<or>
     r = canceled \<and> (\<exists>b. last_answer a new = Inr (b, 429)))"
  let ?tok = "hc_AccessToken (cs_client c)"
  let ?c1 = "c\<lparr>cs_waits := cs_waits c @ [10 ^ 9], cs_clock := cs_clock c + 10 ^ 9\<rparr>"
  let ?a1 = "ApiCall net (length (cs_sent c)) ?tok"
  let ?c2 = "?c1\<lparr>cs_sent := cs_sent c @ [(?tok, ?a1)]\<rparr>"
  show ?thesis
  proof (cases "snd a \<noteq> 429 \<or> GivesUp net (length (cs_waits c)) \<or> (\<exists>e. ?a1 = Inl e)")
    case True
    then have "?P [] r c' \<or> ?P [(?tok, ?a1)] r c'"
      using assms by (cases a) (auto simp: numeral_2_eq_2 doRequest_def Let_def adds_def last_answer_def split: if_splits)
    then show ?thesis by blast
  next
    case False
    then obtain a2 where a2: "?a1 = Inr a2" by (cases ?a1) auto
    let ?a3 = "ApiCall net (Suc (length (cs_sent c))) ?tok"
    have "?P [(?tok, ?a1)] r c' \<or> ?P [(?tok, ?a1), (?tok, ?a3)] r c'"
      using assms False a2
      by (cases a; cases a2; cases ?a3)
        (auto simp: numeral_2_eq_2 doRequest_def Let_def adds_def last_answer_def split: if_splits)
    then show ?thesis by blast
  qed
qed

lemma retry401_adds:
  assumes "retry401 net a c = (r, c')"
  shows "\<exists>new k. adds c new k [] c' \<and> length new \<le> 1 \<and> k \<le> 1 \<and>
    (r = last_answer a new \<or> new = [] \<and> snd a = 401 \<and> isl r)"
proof (cases "snd a = 401")
  case True
  obtain f c1 where 1: "fetchToken net c = (f, c1)" by (rule prod.exhaust)
  note fetched = fetch_adds [OF 1]
  show ?thesis
  proof (cases f)
    case (Inl e)
    then show ?thesis using assms True 1 fetched
      by (intro exI [of _ "[]"] exI [of _ 1]) (auto simp: retry401_def)
  next
    case (Inr u)
    then have "doRequest net c1 = (r, c')" using assms True 1 by (simp add: retry401_def)
    then have "adds c [(hc_AccessToken (cs_client c1), r)] 1 [] c'"
      using adds_trans [OF fetched conjunct1 [OF request_adds]] by simp
    then show ?thesis by (intro exI [of _ "[(hc_AccessToken (cs_client c1), r)]"] exI [of _ 1]) (simp add: last_answer_def)
  qed
next
  case False
  then show ?thesis using assms adds_refl by (intro exI [of _ "[]"] exI [of _ 0]) (simp add: retry401_def last_answer_def)
qed

text \<open>The outcome of a call, read off the answers it got.\<close>

definition succeeded :: "(string \<times> (gerr + string \<times> nat)) list \<Rightarrow> string \<Rightarrow> bool" where
  "succeeded new body \<longleftrightarrow> new \<noteq> [] \<and> (\<exists>status. snd (last new) = Inr (body, status) \<and> 200 \<le> status \<and> status < 300)"

definition first_answer :: "network \<Rightarrow> call_state \<Rightarrow> (gerr + string \<times> nat) \<times> call_state" where
  "first_answer net c =
     (case refresh_if_needed net c of
        (Inl e, c1) \<Rightarrow> (Inl (Errw ''proactive token refresh: %w'' [] e), c1)
      | (Inr _, c1) \<Rightarrow>
          (case doRequest net c1 of
             (Inl e, c2) \<Rightarrow> (Inl e, c2)
           | (Inr answer, c2) \<Rightarrow> retry401 net answer c2))"

lemma Do_first:
  "Do net c = (case first_answer net c of
     (Inl e, c3) \<Rightarrow> (Inl e, c3)
   | (Inr a, c3) \<Rightarrow>
       (case retry429 net 2 a c3 of
          (Inl e, c4) \<Rightarrow> (Inl e, c4)
        | (Inr (body, status), c4) \<Rightarrow>
            if status < 200 \<or> 300 \<le> status then (Inl (HttpResponseError status body), c4) else (Inr body, c4)))"
  by (auto simp: Do_def first_answer_def split: prod.split sum.split)

lemma first_adds:
  assumes "first_answer net c = (b, c')"
  shows "\<exists>new k. adds c new k [] c' \<and> length new \<le> 2 \<and> k \<le> 2 \<and>
    (\<forall>a. b = Inr a \<longrightarrow> new \<noteq> [] \<and> snd (last new) = Inr a) \<and> (\<forall>e body. b = Inl e \<longrightarrow> \<not> succeeded new body)"
proof -
  obtain f c1 where 1: "refresh_if_needed net c = (f, c1)" by (rule prod.exhaust)
  obtain k1 where k1: "adds c [] k1 [] c1" "k1 \<le> 1" using refresh_adds [OF 1] by blast
  show ?thesis
  proof (cases f)
    case (Inl e)
    with assms 1 k1 show ?thesis
      by (intro exI [of _ "[]"] exI [of _ k1]) (auto simp: first_answer_def succeeded_def)
  next
    case (Inr u)
    note f = Inr
    obtain a c2 where 2: "doRequest net c1 = (a, c2)" by (rule prod.exhaust)
    let ?x = "(hc_AccessToken (cs_client c1), a)"
    have a2: "adds c [?x] k1 [] c2" using adds_trans [OF k1(1) conjunct1 [OF request_adds [OF 2]]] by simp
    show ?thesis
    proof (cases a)
      case (Inl e)
      with assms 1 2 f a2 k1(2) show ?thesis
        by (intro exI [of _ "[?x]"] exI [of _ k1]) (auto simp: first_answer_def succeeded_def)
    next
      case (Inr ans)
      with assms 1 2 f have "retry401 net ans c2 = (b, c')" by (simp add: first_answer_def)
      then obtain n k where n: "adds c2 n k [] c'" "length n \<le> 1" "k \<le> 1"
          "b = last_answer ans n \<or> n = [] \<and> snd ans = 401 \<and> isl b"
        using retry401_adds by blast
      have "adds c ([?x] @ n) (k1 + k) [] c'" using adds_trans [OF a2 n(1)] by simp
      then show ?thesis
        using n(2-4) k1(2) Inr by (intro exI [of _ "[?x] @ n"] exI [of _ "k1 + k"]) (auto simp: last_answer_def succeeded_def)
    qed
  qed
qed

text \<open>C34: a remote call is bounded and truthful, whatever the remote system answers: it sends at most four
  requests (one more after a 401, two more after 429s), fetches at most two tokens and waits one second
  and then two, three in all; and it returns a body exactly when the last answer it got carries that body
  with a status of the 2xx range.\<close>

theorem Do_bounded:
  assumes "Do net c = (r, c')"
  shows "\<exists>new k waits. cs_sent c' = cs_sent c @ new \<and> length new \<le> 4 \<and>
    cs_fetches c' = cs_fetches c + k \<and> k \<le> 2 \<and>
    cs_waits c' = cs_waits c @ waits \<and> waits \<in> {[], [10 ^ 9], [10 ^ 9, 2 * 10 ^ 9]} \<and> cs_clock c' = cs_clock c + sum_list waits \<and>
    (\<forall>body. r = Inr body \<longleftrightarrow> succeeded new body)"
proof -
  obtain b c3 where b: "first_answer net c = (b, c3)" by (rule prod.exhaust)
  obtain n k where n: "adds c n k [] c3" "length n \<le> 2" "k \<le> 2" "\<And>a. b = Inr a \<Longrightarrow> n \<noteq> [] \<and> snd (last n) = Inr a"
      "\<And>e body. b = Inl e \<Longrightarrow> \<not> succeeded n body"
    using first_adds [OF b] by blast
  show ?thesis
  proof (cases b)
    case (Inl e)
    with assms b n show ?thesis
      by (intro exI [of _ n] exI [of _ k] exI [of _ "[]"]) (auto simp: Do_first adds_def)
  next
    case (Inr a)
    obtain d c4 where d: "retry429 net 2 a c3 = (d, c4)" by (rule prod.exhaust)
    obtain m where m: "adds c3 m 0 (take (length m) [10 ^ 9, 2 * 10 ^ 9]) c4" "length m \<le> 2"
        "d = last_answer a m \<or> d = canceled \<and> (\<exists>b. last_answer a m = Inr (b, 429))"
      using retry429_adds [OF d] by blast
    have r: "(r, c') = (case d of Inl e \<Rightarrow> (Inl e, c4)
        | Inr (body, status) \<Rightarrow> if status < 200 \<or> 300 \<le> status then (Inl (HttpResponseError status body), c4) else (Inr body, c4))"
      using assms b d Inr by (simp add: Do_first split: sum.splits)
    have "snd (last (n @ m)) = last_answer a m" using n(4) [OF Inr] by (auto simp: last_answer_def)
    then have "r = Inr body \<longleftrightarrow> succeeded (n @ m) body" for body
      using r m(3) n(4) [OF Inr] by (cases "last_answer a m") (auto simp: succeeded_def split: if_splits)
    moreover have "take (length m) [10 ^ 9, 2 * 10 ^ 9] \<in> {[], [10 ^ 9], [10 ^ 9, 2 * 10 ^ 9 :: nat]}"
      using m(2) by (cases m; cases "tl m") auto
    moreover have "c' = c4" using r by (auto split: sum.splits if_splits)
    ultimately show ?thesis
      using adds_trans [OF n(1) m(1)] n(2,3) m(2)
      by (intro exI [of _ "n @ m"] exI [of _ k] exI [of _ "take (length m) [10 ^ 9, 2 * 10 ^ 9]"]) (simp add: adds_def)
  qed
qed

text \<open>A token that is refused, then two refusals for the rate, then an answer.\<close>

definition demo_network :: network where
  "demo_network = \<lparr>TokenCall = (\<lambda>n. TokenAnswered 200 (Inr \<lparr>or_AccessToken = ''t'', or_ExpiresIn = 3600\<rparr>)),
     ApiCall = (\<lambda>n token. Inr ([''unauthorized'', ''slow'', ''slow'', ''ok''] ! n, [401, 429, 429, 200] ! n)),
     GivesUp = (\<lambda>n. False)\<rparr>"

definition demo_call :: call_state where
  "demo_call = \<lparr>cs_client = \<lparr>hc_AccessToken = [], hc_ApiURL = ''https://api'', hc_ClientId = ''id'', hc_ClientSecret = ''secret'',
     hc_AuthUrl = ''https://uaa/oauth/token'', hc_TokenExp = 0\<rparr>, cs_clock = 1, cs_fetches = 0, cs_sent = [], cs_waits = []\<rparr>"

theorem Do_bounded_witness:
  "fst (Do demo_network demo_call) = Inr ''ok'' \<and> length (cs_sent (snd (Do demo_network demo_call))) \<le> 4 \<and>
   cs_waits (snd (Do demo_network demo_call)) = [10 ^ 9, 2 * 10 ^ 9]"
proof -
  have run: "fst (Do demo_network demo_call) = Inr ''ok''" "cs_waits (snd (Do demo_network demo_call)) = [10 ^ 9, 2 * 10 ^ 9]"
    by (simp_all add: Do_def refresh_if_needed_def fetchToken_def doRequest_def retry401_def demo_network_def demo_call_def
        numeral_2_eq_2 Let_def)
  then show ?thesis
    using Do_bounded [OF prod.collapse [symmetric], of demo_network demo_call] by (auto simp: demo_call_def)
qed

text \<open>The connectivity check of the tenants never authenticates: it reports a tenant as resolved and
  authenticated exactly when the provider knows the destination of its row, whatever credentials that
  destination holds, since building a client requests no token.\<close>

theorem connectivity_without_login:
  "map cn_Status (tenant_checks env tenants) = map (\<lambda>t.
     if tn_PirApiDestinationName t \<noteq> [] \<and> (\<exists>dest. ProviderGetDestination env (tn_PirApiDestinationName t) = Inr (Some dest))
     then ''ok'' else ''error'') tenants"
  by (auto simp: tenant_checks_def checkDestinationAuth_def NewClient_def Let_def split: sum.split option.split)

end
