(* ===== verification/History.thy ===== *)
theory History
  imports World "HOL-Library.Word"
begin

text \<open>
  service/operations_history.go: the filtered, ordered and paged list of operations. The rows of the join are
  given; ILIKE, the parsing of dates and the collation of the database are parameters, and so is the
  order in which it finds rows, on which the order of rows with equal keys depends. Go's int has 64
  bits.
\<close>

section \<open>Rows and filters\<close>

text \<open>A row of the join of operations with tenants, requests and, where there is one, rules.\<close>

record history_row =
  hr_op :: ArtifactTenantOperation
  hr_CreatedAt :: time
  hr_UpdatedAt :: time
  hr_TenantName :: string
  hr_DeliveryRuleID :: nat
  hr_DeliveryRequestName :: string
  hr_DeliveryRuleName :: string

record OperationsHistoryFilter =
  fl_TenantIDs :: "nat list"
  fl_ArtifactName :: string
  fl_ArtifactTypes :: "string list"
  fl_PackageID :: string
  fl_RequestStates :: "string list"
  fl_ImportStates :: "string list"
  fl_DeployStates :: "string list"
  fl_DeliveryRuleID :: "nat option"
  fl_DeliveryRequestName :: string
  fl_CreatedBy :: string
  fl_DateFrom :: string
  fl_DateTo :: string
  fl_HasError :: "bool option"
  fl_SortBy :: string
  fl_SortDir :: string
  fl_Page :: int
  fl_PageSize :: int

record history_db =
  hd_rows :: "history_row list"                       \<comment> \<open>in the order the database finds them\<close>
  hd_ILike :: "string \<Rightarrow> string \<Rightarrow> bool"                 \<comment> \<open>value and pattern\<close>
  hd_ParseRFC3339 :: "string \<Rightarrow> time option"
  hd_Collate :: "string \<Rightarrow> string \<Rightarrow> bool"               \<comment> \<open>the order of text\<close>
  hd_CountFails :: bool
  hd_ScanFails :: bool

definition in_list :: "'a list \<Rightarrow> 'a \<Rightarrow> bool" where
  "in_list xs x \<longleftrightarrow> xs = [] \<or> x \<in> set xs"

definition like_name :: "history_db \<Rightarrow> string \<Rightarrow> string \<Rightarrow> bool" where
  "like_name d name x \<longleftrightarrow> name = [] \<or> hd_ILike d x (''%'' @ name @ ''%'')"

definition history_where :: "history_db \<Rightarrow> OperationsHistoryFilter \<Rightarrow> history_row \<Rightarrow> bool" where
  "history_where d fl r \<longleftrightarrow>
     (let op = hr_op r in
      in_list (fl_TenantIDs fl) (op_TenantID op) \<and>
      like_name d (fl_ArtifactName fl) (op_ArtifactName op) \<and>
      in_list (fl_ArtifactTypes fl) (op_ArtifactType op) \<and>
      (fl_PackageID fl = [] \<or> op_PackageID op = fl_PackageID fl) \<and>
      in_list (fl_RequestStates fl) (request_str (op_RequestState op)) \<and>
      in_list (fl_ImportStates fl) (import_str (op_ImportState op)) \<and>
      in_list (fl_DeployStates fl) (deploy_str (op_DeployState op)) \<and>
      (case fl_DeliveryRuleID fl of None \<Rightarrow> True | Some i \<Rightarrow> hr_DeliveryRuleID r = i) \<and>
      like_name d (fl_DeliveryRequestName fl) (hr_DeliveryRequestName r) \<and>
      (fl_CreatedBy fl = [] \<or> op_CreatedBy op = fl_CreatedBy fl) \<and>
      (fl_DateFrom fl = [] \<or> (case hd_ParseRFC3339 d (fl_DateFrom fl) of None \<Rightarrow> True | Some t \<Rightarrow> t \<le> hr_UpdatedAt r)) \<and>
      (fl_DateTo fl = [] \<or> (case hd_ParseRFC3339 d (fl_DateTo fl) of None \<Rightarrow> True | Some t \<Rightarrow> hr_UpdatedAt r \<le> t)) \<and>
      (fl_HasError fl = Some True \<longrightarrow> op_LastError op \<noteq> []))"

section \<open>Order and pages\<close>

definition allowedSortColumn :: "string \<Rightarrow> string" where
  "allowedSortColumn col =
     (case map_of [(''created_at'', ''artifact_tenant_operations.created_at''),
                   (''updated_at'', ''artifact_tenant_operations.updated_at''),
                   (''artifact_name'', ''artifact_tenant_operations.artifact_name''),
                   (''tenant_name'', ''cpi_tenants.name'')] col of
        Some mapped \<Rightarrow> mapped
      | None \<Rightarrow> ''artifact_tenant_operations.updated_at'')"

text \<open>The meaning of ORDER BY a column.\<close>

definition column_le :: "history_db \<Rightarrow> string \<Rightarrow> history_row \<Rightarrow> history_row \<Rightarrow> bool" where
  "column_le d col r s \<longleftrightarrow>
     (if col = ''artifact_tenant_operations.created_at'' then hr_CreatedAt r \<le> hr_CreatedAt s
      else if col = ''artifact_tenant_operations.artifact_name'' then hd_Collate d (op_ArtifactName (hr_op r)) (op_ArtifactName (hr_op s))
      else if col = ''cpi_tenants.name'' then hd_Collate d (hr_TenantName r) (hr_TenantName s)
      else hr_UpdatedAt r \<le> hr_UpdatedAt s)"

definition sort_le :: "history_db \<Rightarrow> OperationsHistoryFilter \<Rightarrow> history_row \<Rightarrow> history_row \<Rightarrow> bool" where
  "sort_le d fl r s =
     (let col = allowedSortColumn (fl_SortBy fl) in
      if EqualFold (fl_SortDir fl) ''asc'' then column_le d col r s else column_le d col s r)"

fun insert_by :: "('a \<Rightarrow> 'a \<Rightarrow> bool) \<Rightarrow> 'a \<Rightarrow> 'a list \<Rightarrow> 'a list" where
  "insert_by le x [] = [x]"
| "insert_by le x (y # ys) = (if le x y then x # y # ys else y # insert_by le x ys)"

definition order_by :: "('a \<Rightarrow> 'a \<Rightarrow> bool) \<Rightarrow> 'a list \<Rightarrow> 'a list" where
  "order_by le xs = foldr (insert_by le) xs []"

definition normalizePagination :: "int \<Rightarrow> int \<Rightarrow> int \<times> int" where
  "normalizePagination page pageSize =
     (if page < 1 then 1 else page, if pageSize < 1 \<or> pageSize > 100 then 20 else pageSize)"

text \<open>(page - 1) * pageSize in Go's int; GORM writes an OFFSET for a positive value only.\<close>

definition page_offset :: "int \<Rightarrow> int \<Rightarrow> int" where
  "page_offset page pageSize = sint (word_of_int (page - 1) * word_of_int pageSize :: 64 word)"

definition select_page :: "int \<Rightarrow> int \<Rightarrow> 'a list \<Rightarrow> 'a list" where
  "select_page offset limit rows = take (nat limit) (if offset > 0 then drop (nat offset) rows else rows)"

record OperationsHistoryItem =
  it_ID :: nat
  it_ArtifactTechID :: string
  it_ArtifactName :: string
  it_ArtifactVersion :: string
  it_ArtifactType :: string
  it_PackageID :: string
  it_TenantID :: nat
  it_TenantName :: string
  it_DeliveryRequestID :: nat
  it_DeliveryRequestName :: string
  it_DeliveryRuleName :: string
  it_TransportRequestNumber :: string
  it_RequestState :: string
  it_ImportState :: string
  it_DeployState :: string
  it_SkipDeploy :: bool
  it_LastError :: string
  it_CreatedBy :: string
  it_UpdatedBy :: string
  it_CreatedAt :: time
  it_UpdatedAt :: time

definition history_item :: "history_row \<Rightarrow> OperationsHistoryItem" where
  "history_item r = (let op = hr_op r in
    \<lparr>it_ID = op_ID op, it_ArtifactTechID = op_ArtifactTechID op, it_ArtifactName = op_ArtifactName op,
     it_ArtifactVersion = op_ArtifactVersion op, it_ArtifactType = op_ArtifactType op, it_PackageID = op_PackageID op,
     it_TenantID = op_TenantID op, it_TenantName = hr_TenantName r, it_DeliveryRequestID = op_DeliveryRequestID op,
     it_DeliveryRequestName = hr_DeliveryRequestName r, it_DeliveryRuleName = hr_DeliveryRuleName r,
     it_TransportRequestNumber = op_TransportRequestNumber op, it_RequestState = request_str (op_RequestState op),
     it_ImportState = import_str (op_ImportState op), it_DeployState = deploy_str (op_DeployState op),
     it_SkipDeploy = op_SkipDeploy op, it_LastError = op_LastError op, it_CreatedBy = op_CreatedBy op,
     it_UpdatedBy = op_UpdatedBy op, it_CreatedAt = hr_CreatedAt r, it_UpdatedAt = hr_UpdatedAt r\<rparr>)"

record OperationsHistoryResponse =
  or_Data :: "OperationsHistoryItem list"
  or_Total :: nat
  or_Page :: int
  or_PageSize :: int

definition QueryOperationsHistory :: "history_db \<Rightarrow> OperationsHistoryFilter \<Rightarrow> gerr + OperationsHistoryResponse" where
  "QueryOperationsHistory d fl =
     (let query = filter (history_where d fl) (hd_rows d) in
      if hd_CountFails d then err (Errw ''failed to count operations: %w'' [] DbErr)
      else
        (let (page, pageSize) = normalizePagination (fl_Page fl) (fl_PageSize fl) in
         if hd_ScanFails d then err (Errw ''failed to query operations history: %w'' [] DbErr)
         else ok \<lparr>or_Data = map history_item
                    (select_page (page_offset page pageSize) pageSize (order_by (sort_le d fl) query)),
                  or_Total = length query, or_Page = page, or_PageSize = pageSize\<rparr>))"

section \<open>The values to filter by\<close>

record FiltersResponse =
  fr_Tenants :: "(nat \<times> string) list"
  fr_ArtifactTypes :: "string list"
  fr_DeliveryRules :: "(nat \<times> string) list"
  fr_Operators :: "string list"

text \<open>Pluck leaves the list empty when its statement fails.\<close>

definition pluck :: "(world \<Rightarrow> string list) \<Rightarrow> string list prog" where
  "pluck f = do { r \<leftarrow> db_query f; State_Monad.return (case r of Inl e \<Rightarrow> [] | Inr xs \<Rightarrow> xs) }"

definition GetOperationsHistoryFilters :: "(gerr + FiltersResponse) prog" where
  "GetOperationsHistoryFilters =
     onerr (db_find db_tenants (\<lambda>_. True)) (Errw ''failed to load tenants: %w'' []) (\<lambda>tenants. do {
       types \<leftarrow> pluck (\<lambda>w. remdups (filter (\<lambda>t. t \<noteq> []) (map op_ArtifactType (db_ops w))));
       onerr (db_find db_rules ru_Active) (Errw ''failed to load delivery rules: %w'' []) (\<lambda>rules. do {
         operators \<leftarrow> pluck (\<lambda>w. remdups (filter (\<lambda>u. u \<noteq> []) (map op_CreatedBy (db_ops w))));
         done_with \<lparr>fr_Tenants = map (\<lambda>t. (tn_ID t, tn_Name t)) tenants, fr_ArtifactTypes = types,
           fr_DeliveryRules = map (\<lambda>r. (ru_ID r, ru_Name r)) rules, fr_Operators = operators\<rparr>
       })
     })"

definition GetOperationConditions :: "nat \<Rightarrow> (gerr + Condition list) prog" where
  "GetOperationConditions opID =
     onerr (db_query (\<lambda>w. rev (filter (\<lambda>c. co_ArtifactTenantOperationID c = opID) (db_conds w))))
       (Errw ''failed to query conditions for op %d: %w'' [Num opID]) done_with"

definition HandleOperationConditions :: "string \<Rightarrow> (nat \<times> gerr + Condition list) prog" where
  "HandleOperationConditions raw =
     (case ParseUint raw of
        None \<Rightarrow> failwith (400, Errf ''invalid operation ID'' [])
      | Some i \<Rightarrow> onerr (GetOperationConditions i) (\<lambda>e. (500, e)) done_with)"



section \<open>Ordering\<close>

lemma mset_insert_by [simp]: "mset (insert_by le x ys) = add_mset x (mset ys)"
  by (induction ys) auto

lemma mset_order_by [simp]: "mset (order_by le xs) = mset xs"
  by (induction xs) (auto simp: order_by_def)

lemma length_order_by [simp]: "length (order_by le xs) = length xs"
  using mset_order_by [of le xs] mset_eq_length by blast

definition total_preorder :: "('a \<Rightarrow> 'a \<Rightarrow> bool) \<Rightarrow> bool" where
  "total_preorder le \<longleftrightarrow> (\<forall>x y z. le x y \<longrightarrow> le y z \<longrightarrow> le x z) \<and> (\<forall>x y. le x y \<or> le y x)"

lemma sorted_insert_by:
  assumes "total_preorder le" and "sorted_wrt le ys"
  shows "sorted_wrt le (insert_by le x ys)"
proof -
  have s: "set (insert_by le x zs) = insert x (set zs)" for zs by (induction zs) auto
  have trans: "le a b \<Longrightarrow> le b c \<Longrightarrow> le a c" and total: "le a b \<or> le b a" for a b c
    using assms(1) unfolding total_preorder_def by blast+
  show ?thesis
    using assms(2)
  proof (induction ys)
    case (Cons y ys)
    then show ?case using trans total [of x y] by (auto simp: s)
  qed simp
qed

lemma sorted_order_by: "total_preorder le \<Longrightarrow> sorted_wrt le (order_by le xs)"
  by (induction xs) (auto simp: order_by_def sorted_insert_by)

text \<open>Where no two different elements are equal in the order, the sorted list does not depend on the list that is
  sorted but on its elements.\<close>

lemma sorted_wrt_unique:
  assumes "sorted_wrt le xs" and "sorted_wrt le ys" and "mset xs = mset ys"
    and "\<And>x y. \<lbrakk>x \<in> set xs; y \<in> set xs; le x y; le y x\<rbrakk> \<Longrightarrow> x = y"
  shows "xs = ys"
  using assms
proof (induction xs arbitrary: ys)
  case (Cons x xs)
  obtain y zs where ys: "ys = y # zs" using Cons.prems(3) by (cases ys) auto
  have sets: "insert x (set xs) = insert y (set zs)" using mset_eq_setD [OF Cons.prems(3)] by (simp add: ys)
  have "x = y"
  proof (rule ccontr)
    assume "x \<noteq> y"
    then have "le x y" "le y x" using Cons.prems(1,2) sets by (auto simp: ys)
    with Cons.prems(4) sets \<open>x \<noteq> y\<close> show False by auto
  qed
  moreover from this have "xs = zs" using Cons.prems by (intro Cons.IH) (simp_all add: ys)
  ultimately show ?case by (simp add: ys)
qed simp

lemma order_by_unique:
  assumes "total_preorder le" and "mset xs = mset ys"
    and "\<And>x y. \<lbrakk>x \<in> set xs; y \<in> set xs; le x y; le y x\<rbrakk> \<Longrightarrow> x = y"
  shows "order_by le xs = order_by le ys"
proof (rule sorted_wrt_unique)
  have "set (order_by le xs) = set xs" by (rule mset_eq_setD) simp
  then show "x = y" if "x \<in> set (order_by le xs)" "y \<in> set (order_by le xs)" "le x y" "le y x" for x y
    using assms(3) that by simp
qed (simp_all add: sorted_order_by assms(1,2))

section \<open>Pages\<close>

lemma page_offset_exact:
  assumes "0 \<le> (page - 1) * n" "(page - 1) * n < 2 ^ 63"
  shows "page_offset page n = (page - 1) * n"
proof -
  have "page_offset page n = sint (word_of_int ((page - 1) * n) :: 64 word)"
    unfolding page_offset_def wi_hom_mult ..
  also have "\<dots> = signed_take_bit 63 ((page - 1) * n)" unfolding sint_sbintrunc' by simp
  also have "\<dots> = (page - 1) * n" using assms by (intro signed_take_bit_int_eq_self) simp_all
  finally show ?thesis .
qed

lemma pages_cover:
  "concat (map (\<lambda>p. take n (drop (p * n) xs)) [0..<k]) = take (k * n) xs"
proof (induction k)
  case (Suc k)
  then show ?case using take_add [of "k * n" n xs] by (simp add: add.commute [of n])
qed simp

lemma where_page [simp]: "history_where d (fl\<lparr>fl_Page := p, fl_PageSize := n\<rparr>) = history_where d fl"
  "history_where d (fl\<lparr>fl_Page := p\<rparr>) = history_where d fl"
  by (simp_all add: history_where_def fun_eq_iff)

lemma sort_page [simp]: "sort_le d (fl\<lparr>fl_Page := p, fl_PageSize := n\<rparr>) = sort_le d fl"
  "sort_le d (fl\<lparr>fl_Page := p\<rparr>) = sort_le d fl"
  by (simp_all add: sort_le_def fun_eq_iff)

definition page_data :: "history_db \<Rightarrow> OperationsHistoryFilter \<Rightarrow> nat \<Rightarrow> OperationsHistoryItem list" where
  "page_data d fl p = (case QueryOperationsHistory d (fl\<lparr>fl_Page := int p\<rparr>) of Inr r \<Rightarrow> or_Data r | Inl e \<Rightarrow> [])"

lemma page_data_nth:
  assumes "\<not> hd_CountFails d" "\<not> hd_ScanFails d" "1 \<le> fl_PageSize fl" "fl_PageSize fl \<le> 100"
    and "1 \<le> p" "int p * fl_PageSize fl < 2 ^ 63"
  shows "page_data d fl p = map history_item (take (nat (fl_PageSize fl)) (drop ((p - 1) * nat (fl_PageSize fl))
    (order_by (sort_le d fl) (filter (history_where d fl) (hd_rows d)))))"
proof -
  let ?n = "fl_PageSize fl"
  have "(int p - 1) * ?n \<le> int p * ?n" using assms(3) by (intro mult_right_mono) simp_all
  then have "(int p - 1) * ?n < 2 ^ 63" using assms(6) by linarith
  then have "page_offset (int p) ?n = (int p - 1) * ?n"
    using assms(3,5) by (intro page_offset_exact mult_nonneg_nonneg) simp_all
  moreover have "nat ((int p - 1) * ?n) = (p - 1) * nat ?n"
    using assms(3,5) by (simp add: nat_mult_distrib nat_diff_distrib)
  ultimately show ?thesis
    using assms by (auto simp: page_data_def QueryOperationsHistory_def normalizePagination_def select_page_def Let_def not_less)
qed

lemma where_found [simp]: "history_where (d\<lparr>hd_rows := rs\<rparr>) = history_where d"
  by (simp add: history_where_def like_name_def fun_eq_iff cong: option.case_cong)

lemma sort_found [simp]: "sort_le (d\<lparr>hd_rows := rs\<rparr>) = sort_le d"
  by (simp add: sort_le_def column_le_def fun_eq_iff)

text \<open>C35: the pages of a query, put together, are the rows that match the filter, none missing and none twice, in
  the order asked for, provided that no two different matching rows have the same key in the column
  sorted by: as long as the database answers and the rows do not change, it may find them in another
  order for each page. (history_ties: with equal keys a row can be on two pages, and another on none.)\<close>

theorem history_pages:
  assumes answers: "\<not> hd_CountFails d" "\<not> hd_ScanFails d" and size: "1 \<le> fl_PageSize fl" "fl_PageSize fl \<le> 100"
    and order: "total_preorder (sort_le d fl)"
    and keys: "\<And>r s. \<lbrakk>r \<in> set (filter (history_where d fl) (hd_rows d)); s \<in> set (filter (history_where d fl) (hd_rows d));
      sort_le d fl r s; sort_le d fl s r\<rbrakk> \<Longrightarrow> r = s"
    and found: "\<And>p. mset (found p) = mset (hd_rows d)"
    and pages: "length (filter (history_where d fl) (hd_rows d)) \<le> k * nat (fl_PageSize fl)" "int k * fl_PageSize fl < 2 ^ 63"
  shows "\<exists>rows. concat (map (\<lambda>p. page_data (d\<lparr>hd_rows := found p\<rparr>) fl p) [1..<Suc k]) = map history_item rows \<and>
    mset rows = mset (filter (history_where d fl) (hd_rows d)) \<and> sorted_wrt (sort_le d fl) rows"
proof -
  let ?n = "nat (fl_PageSize fl)" and ?m = "filter (history_where d fl) (hd_rows d)"
  let ?rows = "order_by (sort_le d fl) ?m"
  have same: "order_by (sort_le d fl) (filter (history_where d fl) (found p)) = ?rows" for p
    by (rule order_by_unique [OF order, symmetric]) (use keys found in \<open>simp_all add: mset_filter\<close>)
  have "page_data (d\<lparr>hd_rows := found (Suc p)\<rparr>) fl (Suc p) = map history_item (take ?n (drop (p * ?n) ?rows))" if "p < k" for p
  proof -
    have "int (Suc p) * fl_PageSize fl \<le> int k * fl_PageSize fl" using that size by (intro mult_right_mono) simp_all
    then show ?thesis
      using page_data_nth [OF _ _ size, of "d\<lparr>hd_rows := found (Suc p)\<rparr>" "Suc p"] answers pages(2) by (simp add: same)
  qed
  then have "map (\<lambda>p. page_data (d\<lparr>hd_rows := found p\<rparr>) fl p) [1..<Suc k] =
      map (\<lambda>p. map history_item (take ?n (drop (p * ?n) ?rows))) [0..<k]"
    unfolding One_nat_def map_Suc_upt [symmetric] by simp
  then have "concat (map (\<lambda>p. page_data (d\<lparr>hd_rows := found p\<rparr>) fl p) [1..<Suc k]) =
      map history_item (concat (map (\<lambda>p. take ?n (drop (p * ?n) ?rows)) [0..<k]))"
    by (simp add: map_concat comp_def)
  also have "\<dots> = map history_item ?rows" unfolding pages_cover using pages(1) by simp
  finally show ?thesis using sorted_order_by [OF order] by (intro exI [of _ ?rows]) simp
qed

text \<open>Beyond that the offset wraps around: a page far behind the last one shows the first one again.\<close>

theorem history_offset_wraps:
  "QueryOperationsHistory d (fl\<lparr>fl_Page := 92233720368547760, fl_PageSize := 100\<rparr>) =
     map_sum id (\<lambda>r. r\<lparr>or_Page := 92233720368547760\<rparr>) (QueryOperationsHistory d (fl\<lparr>fl_Page := 1, fl_PageSize := 100\<rparr>))"
proof -
  have "page_offset 92233720368547760 100 \<le> 0" "page_offset 1 100 \<le> 0" by (simp_all add: page_offset_def)
  then show ?thesis
    by (simp add: QueryOperationsHistory_def normalizePagination_def select_page_def Let_def)
qed

definition demo_history :: "ArtifactTenantOperation \<Rightarrow> history_row" where
  "demo_history op = \<lparr>hr_op = op, hr_CreatedAt = 0, hr_UpdatedAt = 7, hr_TenantName = ''qa'', hr_DeliveryRuleID = 3,
     hr_DeliveryRequestName = ''rel'', hr_DeliveryRuleName = ''rule''\<rparr>"

definition demo_hdb :: "history_row list \<Rightarrow> history_db" where
  "demo_hdb rows = \<lparr>hd_rows = rows, hd_ILike = (\<lambda>v p. True), hd_ParseRFC3339 = (\<lambda>s. None), hd_Collate = (\<lambda>a b. True),
     hd_CountFails = False, hd_ScanFails = False\<rparr>"

definition demo_filter :: OperationsHistoryFilter where
  "demo_filter = \<lparr>fl_TenantIDs = [], fl_ArtifactName = [], fl_ArtifactTypes = [], fl_PackageID = [], fl_RequestStates = [],
     fl_ImportStates = [], fl_DeployStates = [], fl_DeliveryRuleID = None, fl_DeliveryRequestName = [], fl_CreatedBy = [],
     fl_DateFrom = [], fl_DateTo = [], fl_HasError = None, fl_SortBy = [], fl_SortDir = [], fl_Page = 1, fl_PageSize = 1\<rparr>"

lemma demo_order: "sort_le d demo_filter r s \<longleftrightarrow> hr_UpdatedAt s \<le> hr_UpdatedAt r"
  by (simp add: sort_le_def demo_filter_def allowedSortColumn_def column_le_def EqualFold_def ToUpper_def)

lemma demo_where: "history_where d demo_filter r"
  by (simp add: history_where_def demo_filter_def in_list_def like_name_def)

text \<open>Two operations on two pages, found in one order for the first and in the other for the second.\<close>

theorem history_pages_witness:
  "\<forall>a b. \<exists>rows. concat (map (\<lambda>p. page_data (demo_hdb (if p = 1 then [demo_history a, (demo_history b)\<lparr>hr_UpdatedAt := 8\<rparr>]
        else [(demo_history b)\<lparr>hr_UpdatedAt := 8\<rparr>, demo_history a])) demo_filter p) [1..<Suc 2]) = map history_item rows \<and>
     mset rows = {#demo_history a, (demo_history b)\<lparr>hr_UpdatedAt := 8\<rparr>#}"
proof (intro allI)
  fix a b
  let ?a = "demo_history a" and ?b = "(demo_history b)\<lparr>hr_UpdatedAt := 8\<rparr>"
  let ?found = "\<lambda>p :: nat. if p = 1 then [?a, ?b] else [?b, ?a]"
  have pre: "total_preorder (sort_le (demo_hdb [?a, ?b]) demo_filter)"
    by (auto simp: total_preorder_def demo_order)
  have f: "filter (history_where (demo_hdb [?a, ?b]) demo_filter) (hd_rows (demo_hdb [?a, ?b])) = [?a, ?b]"
    by (simp add: demo_hdb_def demo_where)
  have n: "fl_PageSize demo_filter = 1" "\<not> hd_CountFails (demo_hdb rs)" "\<not> hd_ScanFails (demo_hdb rs)"
    "(demo_hdb rs)\<lparr>hd_rows := rs'\<rparr> = demo_hdb rs'" "hd_rows (demo_hdb rs) = rs" for rs rs'
    by (simp_all add: demo_filter_def demo_hdb_def)
  have t: "hr_UpdatedAt ?a = 7" by (simp add: demo_history_def)
  have keys: "r = s" if "r \<in> set [?a, ?b]" "s \<in> set [?a, ?b]" "sort_le (demo_hdb [?a, ?b]) demo_filter r s"
      "sort_le (demo_hdb [?a, ?b]) demo_filter s r" for r s
    using that t by (auto simp: demo_order)
  have "mset (?found p) = mset (hd_rows (demo_hdb [?a, ?b]))" for p by (simp add: n)
  from history_pages [of "demo_hdb [?a, ?b]" demo_filter ?found 2, OF n(2,3) _ _ pre, unfolded f, OF _ _ keys this]
  show "\<exists>rows. concat (map (\<lambda>p. page_data (demo_hdb (?found p)) demo_filter p) [1..<Suc 2]) = map history_item rows \<and>
      mset rows = {#?a, ?b#}"
    unfolding n by auto
qed

text \<open>Two operations updated at the same time, found in one order for the first page and in the other for the
  second: one is on both pages.\<close>

lemma demo_page:
  assumes "p \<in> {1, 2}"
  shows "page_data (demo_hdb [demo_history c, demo_history e]) demo_filter p =
    map history_item (take 1 (drop (p - 1) [demo_history c, demo_history e]))"
proof -
  have rows: "order_by (sort_le d demo_filter) [demo_history c, demo_history e] = [demo_history c, demo_history e]" for d
    by (simp add: order_by_def demo_order) (simp add: demo_history_def)
  have f: "filter (history_where d demo_filter) rs = rs" for d rs by (simp add: demo_where)
  have n: "fl_PageSize demo_filter = 1" "\<not> hd_CountFails (demo_hdb rs)" "\<not> hd_ScanFails (demo_hdb rs)" "hd_rows (demo_hdb rs) = rs" for rs
    by (simp_all add: demo_filter_def demo_hdb_def)
  have "1 \<le> p" "int p < 2 ^ 63" using assms by auto
  then show ?thesis
    using page_data_nth [of "demo_hdb [demo_history c, demo_history e]" demo_filter p]
    unfolding n f rows by (simp add: n)
qed

theorem history_ties:
  "page_data (demo_hdb [demo_history a, demo_history b]) demo_filter 1 = [history_item (demo_history a)] \<and>
   page_data (demo_hdb [demo_history b, demo_history a]) demo_filter 2 = [history_item (demo_history a)]"
  using demo_page [of 1 a b] demo_page [of 2 b a] by simp

end
