(* ===== verification/GoBytes.thy ===== *)
theory GoBytes
  imports GoStd
begin

text \<open>
  encoding/base64 (StdEncoding) and path of the standard library: what the Git integration uses of them, with
  the round trip of the encoding and the join of clean paths. A byte is a char.
\<close>

section \<open>encoding/base64\<close>

definition b64_alphabet :: string where
  "b64_alphabet = ''ABCDEFGHIJKLMNOPQRSTUVWXYZabcdefghijklmnopqrstuvwxyz0123456789+/''"

definition b64_char :: "nat \<Rightarrow> char" where
  "b64_char n = b64_alphabet ! (n mod 64)"

definition b64_val :: "char \<Rightarrow> nat option" where
  "b64_val c = (let n = of_char c :: nat in
     if 65 \<le> n \<and> n \<le> 90 then Some (n - 65)
     else if 97 \<le> n \<and> n \<le> 122 then Some (n - 71)
     else if 48 \<le> n \<and> n \<le> 57 then Some (n + 4)
     else if n = 43 then Some 62 else if n = 47 then Some 63 else None)"

text \<open>Three bytes make four characters; the last group is padded.\<close>

fun EncodeToString :: "string \<Rightarrow> string" where
  "EncodeToString [] = []"
| "EncodeToString [c] =
     (let a = of_char c :: nat in [b64_char (a div 4), b64_char (a mod 4 * 16), CHR ''='', CHR ''=''])"
| "EncodeToString [c, d] =
     (let a = of_char c :: nat; b = of_char d in
      [b64_char (a div 4), b64_char (a mod 4 * 16 + b div 16), b64_char (b mod 16 * 4), CHR ''=''])"
| "EncodeToString (c # d # e # s) =
     (let a = of_char c :: nat; b = of_char d; f = of_char e in
      b64_char (a div 4) # b64_char (a mod 4 * 16 + b div 16) # b64_char (b mod 16 * 4 + f div 64) # b64_char (f mod 64) #
      EncodeToString s)"

text \<open>Bits left over in the last character are dropped, as the decoder is not strict.\<close>

fun b64_groups :: "string \<Rightarrow> string option" where
  "b64_groups [] = Some []"
| "b64_groups (c1 # c2 # c3 # c4 # s) =
     (case (b64_val c1, b64_val c2) of
        (Some x, Some y) \<Rightarrow>
          if c3 = CHR ''='' then (if c4 = CHR ''='' \<and> s = [] then Some [char_of (x * 4 + y div 16)] else None)
          else (case b64_val c3 of
             None \<Rightarrow> None
           | Some z \<Rightarrow>
               if c4 = CHR ''='' then
                 (if s = [] then Some [char_of (x * 4 + y div 16), char_of (y mod 16 * 16 + z div 4)] else None)
               else (case b64_val c4 of
                  None \<Rightarrow> None
                | Some u \<Rightarrow>
                    map_option (\<lambda>t. char_of (x * 4 + y div 16) # char_of (y mod 16 * 16 + z div 4) # char_of (z mod 4 * 64 + u) # t)
                      (b64_groups s)))
      | _ \<Rightarrow> None)"
| "b64_groups _ = None"

text \<open>Line breaks are skipped anywhere.\<close>

definition DecodeString :: "string \<Rightarrow> string option" where
  "DecodeString s = b64_groups (filter (\<lambda>c. c \<notin> {CHR 0x0A, CHR 0x0D}) s)"

lemma b64_alphabet_values: "map b64_val b64_alphabet = map Some [0..<64]"
  by (simp add: b64_alphabet_def b64_val_def upt_rec)

lemma b64_length: "length b64_alphabet = 64"
  by (simp add: b64_alphabet_def)

lemma b64_val_char [simp]: "n < 64 \<Longrightarrow> b64_val (b64_char n) = Some n"
proof -
  assume n: "n < 64"
  then have "map b64_val b64_alphabet ! n = Some n" unfolding b64_alphabet_values by simp
  with n show ?thesis by (simp add: b64_char_def b64_length)
qed

lemma b64_plain [simp]: "b64_char n \<noteq> CHR ''=''" "b64_char n \<noteq> CHR 0x0A" "b64_char n \<noteq> CHR 0x0D"
proof -
  have "b64_char n \<in> set b64_alphabet" unfolding b64_char_def by (intro nth_mem) (simp add: b64_length)
  moreover have "CHR ''='' \<notin> set b64_alphabet" "CHR 0x0A \<notin> set b64_alphabet" "CHR 0x0D \<notin> set b64_alphabet"
    by (simp_all add: b64_alphabet_def)
  ultimately show "b64_char n \<noteq> CHR ''=''" "b64_char n \<noteq> CHR 0x0A" "b64_char n \<noteq> CHR 0x0D" by auto
qed

lemma byte_less: "(of_char c :: nat) < 256"
  using of_char_mod_256 [of c] by (metis mod_less_divisor zero_less_numeral)

lemma digit_pair: "y < n \<Longrightarrow> (x * n + y) div n = x" "y < n \<Longrightarrow> (x * n + y) mod n = y" for x y n :: nat
  by simp_all

lemma b64_bits:
  assumes "a < 256" "b < 256" "f < (256::nat)"
  shows "a div 4 < 64" "a mod 4 * 16 < 64" "a mod 4 * 16 + b div 16 < 64" "b mod 16 * 4 < 64"
    "b mod 16 * 4 + f div 64 < 64" "f mod 64 < 64"
    "a div 4 * 4 + (a mod 4 * 16 + b div 16) div 16 = a" "a div 4 * 4 + (a mod 4 * 16) div 16 = a"
    "(a mod 4 * 16 + b div 16) mod 16 * 16 + (b mod 16 * 4 + f div 64) div 4 = b"
    "(a mod 4 * 16 + b div 16) mod 16 * 16 + (b mod 16 * 4) div 4 = b"
    "(b mod 16 * 4 + f div 64) mod 4 * 64 + f mod 64 = f"
proof -
  have m: "a mod 4 < 4" "b mod 16 < 16" "f mod 64 < 64" by simp_all
  have d: "a div 4 < 64" "b div 16 < 16" "f div 64 < 4" using assms by (simp_all add: div_less_iff_less_mult)
  show "a div 4 < 64" "f mod 64 < 64" using m d by simp_all
  show "a mod 4 * 16 < 64" "a mod 4 * 16 + b div 16 < 64" "b mod 16 * 4 < 64" "b mod 16 * 4 + f div 64 < 64"
    using m d by linarith+
  show "a div 4 * 4 + (a mod 4 * 16 + b div 16) div 16 = a" unfolding digit_pair(1) [OF d(2)] by simp
  show "a div 4 * 4 + (a mod 4 * 16) div 16 = a" by simp
  show "(a mod 4 * 16 + b div 16) mod 16 * 16 + (b mod 16 * 4 + f div 64) div 4 = b"
    unfolding digit_pair(1) [OF d(3)] digit_pair(2) [OF d(2)] by simp
  show "(a mod 4 * 16 + b div 16) mod 16 * 16 + (b mod 16 * 4) div 4 = b" unfolding digit_pair(2) [OF d(2)] by simp
  show "(b mod 16 * 4 + f div 64) mod 4 * 64 + f mod 64 = f" unfolding digit_pair(2) [OF d(3)] by simp
qed

lemma b64_groups_encode: "b64_groups (EncodeToString s) = Some s"
proof (induction s rule: EncodeToString.induct)
  case (2 c)
  then show ?case using b64_bits [OF byte_less [of c] byte_less byte_less] by (simp add: Let_def)
next
  case (3 c d)
  then show ?case using b64_bits [OF byte_less [of c] byte_less [of d] byte_less] by (simp add: Let_def)
next
  case (4 c d e s)
  then show ?case using b64_bits [OF byte_less [of c] byte_less [of d] byte_less [of e]] by (simp add: Let_def)
qed simp

lemma encode_one_line: "set (EncodeToString s) \<inter> {CHR 0x0A, CHR 0x0D} = {}"
  by (induction s rule: EncodeToString.induct) (auto simp: Let_def)

lemma Decode_Encode: "DecodeString (EncodeToString s) = Some s"
proof -
  have "filter (\<lambda>c. c \<notin> {CHR 0x0A, CHR 0x0D}) (EncodeToString s) = EncodeToString s"
    using encode_one_line [of s] by (auto simp: filter_id_conv)
  then show ?thesis unfolding DecodeString_def using b64_groups_encode by simp
qed

text \<open>As GitHub sends it: with a line break every now and then.\<close>

lemma Decode_wrapped: "filter (\<lambda>c. c \<notin> {CHR 0x0A, CHR 0x0D}) t = EncodeToString s \<Longrightarrow> DecodeString t = Some s"
  by (simp add: DecodeString_def b64_groups_encode)

section \<open>path\<close>

fun clean_part :: "bool \<Rightarrow> string \<Rightarrow> string list \<Rightarrow> string list" where
  "clean_part rooted p out =
     (if p = [] \<or> p = ''.'' then out
      else if p = ''..'' then
        (case out of
           [] \<Rightarrow> if rooted then [] else [''..'']
         | q # rest \<Rightarrow> if q = ''..'' then ''..'' # out else rest)
      else p # out)"

fun join_slash :: "string list \<Rightarrow> string" where
  "join_slash [] = []"
| "join_slash [p] = p"
| "join_slash (p # ps) = p @ ''/'' @ join_slash ps"

text \<open>path.Clean and path.Join of two elements.\<close>

definition Clean :: "string \<Rightarrow> string" where
  "Clean s =
     (let rooted = HasPrefix s ''/'';
          body = join_slash (rev (fold (clean_part rooted) (Split (CHR ''/'') s) [])) in
      if rooted then ''/'' @ body else if body = [] then ''.'' else body)"

definition Join :: "string \<Rightarrow> string \<Rightarrow> string" where
  "Join a b = (if a = [] \<and> b = [] then [] else if a = [] then Clean b else if b = [] then Clean a else Clean (a @ ''/'' @ b))"

lemma SplitN_enough: "length s < n \<Longrightarrow> length s < m \<Longrightarrow> SplitN n sep s = SplitN m sep s"
proof (induction n arbitrary: m s)
  case (Suc n)
  from Suc.prems obtain m' where m: "m = Suc m'" by (cases m) auto
  show ?case
  proof (cases n)
    case 0
    with Suc.prems have "s = []" by simp
    then show ?thesis using 0 m by (cases m') auto
  next
    case (Suc n')
    show ?thesis
    proof (cases m')
      case 0
      with Suc.prems m have "s = []" by simp
      then show ?thesis using \<open>n = Suc n'\<close> m 0 by simp
    next
      case (Suc m'')
      show ?thesis
      proof (cases "Cut sep s")
        case None
        then show ?thesis using \<open>n = Suc n'\<close> m \<open>m' = Suc m''\<close> by simp
      next
        case (Some ab)
        then obtain a b where ab: "Cut sep s = Some (a, b)" by (cases ab) auto
        then have "length b < length s" by (auto dest: Cut_SomeD)
        then have "SplitN n sep b = SplitN m' sep b" using Suc.prems m by (intro Suc.IH) auto
        then show ?thesis using ab \<open>n = Suc n'\<close> m \<open>m' = Suc m''\<close> by simp
      qed
    qed
  qed
qed simp

lemma Split_Nil [simp]: "Split sep [] = [[]]"
  by (simp add: Split_def)

lemma Split_no_sep: "sep \<notin> set s \<Longrightarrow> Split sep s = [s]"
  by (cases s) (auto simp: Split_def Cut_None_iff split: option.splits dest: Cut_SomeD)

lemma Split_Cons_sep: "sep \<notin> set a \<Longrightarrow> Split sep (a @ sep # b) = a # Split sep b"
  using SplitN_enough [of b "Suc (length a + length b)" "Suc (length b)" sep] by (simp add: Split_def Cut_append)

lemma Split_append: "Split sep (a @ sep # b) = Split sep a @ Split sep b"
proof (induction "length a" arbitrary: a rule: less_induct)
  case less
  show ?case
  proof (cases "sep \<in> set a")
    case False
    then show ?thesis by (simp add: Split_Cons_sep Split_no_sep)
  next
    case True
    then obtain x y where a: "a = x @ sep # y" "sep \<notin> set x" by (meson split_list_first)
    then have "Split sep (y @ sep # b) = Split sep y @ Split sep b" using less by simp
    then show ?thesis using a Split_Cons_sep [of sep x "y @ sep # b"] by (simp add: Split_Cons_sep)
  qed
qed

lemma Split_not_Nil [simp]: "Split sep s \<noteq> []"
  by (simp add: Split_def)

lemma join_slash_Cons: "ps \<noteq> [] \<Longrightarrow> join_slash (p # ps) = p @ ''/'' @ join_slash ps"
  by (cases ps) auto

lemma join_Split: "join_slash (Split (CHR ''/'') s) = s"
proof (induction "length s" arbitrary: s rule: less_induct)
  case less
  show ?case
  proof (cases "CHR ''/'' \<in> set s")
    case False
    then show ?thesis by (simp add: Split_no_sep)
  next
    case True
    then obtain x y where s: "s = x @ CHR ''/'' # y" "CHR ''/'' \<notin> set x" by (meson split_list_first)
    then have "join_slash (Split (CHR ''/'') y) = y" using less by simp
    then show ?thesis using s by (simp add: Split_Cons_sep join_slash_Cons)
  qed
qed

text \<open>A clean relative path: no empty part, no . and no .. in it.\<close>

definition plain_path :: "string \<Rightarrow> bool" where
  "plain_path s \<longleftrightarrow> (\<forall>p\<in>set (Split (CHR ''/'') s). p \<noteq> [] \<and> p \<noteq> ''.'' \<and> p \<noteq> ''..'')"

lemma plain_path_append: "plain_path (a @ ''/'' @ b) \<longleftrightarrow> plain_path a \<and> plain_path b"
  by (auto simp: plain_path_def Split_append)

lemma plain_not_Nil: "plain_path s \<Longrightarrow> s \<noteq> []"
proof
  assume "plain_path s" "s = []"
  then have "\<forall>p\<in>{[]}. p \<noteq> ([] :: string)" unfolding plain_path_def by simp
  then show False by simp
qed

lemma fold_plain:
  "\<forall>p\<in>set ps. p \<noteq> [] \<and> p \<noteq> ''.'' \<and> p \<noteq> ''..'' \<Longrightarrow> fold (clean_part rooted) ps out = rev ps @ out"
  by (induction ps arbitrary: out) auto

lemma Clean_plain: "plain_path s \<Longrightarrow> Clean s = s"
proof -
  assume s: "plain_path s"
  then have ne: "s \<noteq> []" by (rule plain_not_Nil)
  have "\<not> HasPrefix s ''/''"
  proof
    assume "HasPrefix s ''/''"
    then obtain t where "s = CHR ''/'' # t" by (auto simp: HasPrefix_iff)
    then have "Split (CHR ''/'') s = [] # Split (CHR ''/'') t" using Split_append [of "CHR ''/''" "[]" t] by simp
    then show False using s by (auto simp: plain_path_def)
  qed
  moreover have "fold (clean_part False) (Split (CHR ''/'') s) [] = rev (Split (CHR ''/'') s)"
    using fold_plain [of "Split (CHR ''/'') s" False "[]"] s unfolding plain_path_def by simp
  ultimately show ?thesis using ne unfolding Clean_def by (simp add: join_Split del: clean_part.simps)
qed

lemma Join_plain: "plain_path a \<Longrightarrow> plain_path b \<Longrightarrow> Join a b = a @ ''/'' @ b"
  using plain_path_append [of a b] plain_not_Nil [of a] plain_not_Nil [of b] Clean_plain [of "a @ ''/'' @ b"]
  by (simp add: Join_def)

end
