(* ===== verification/GitHub.thy ===== *)
theory GitHub
  imports Env GoBytes
begin

text \<open>
  pkg/github/github_client.go: the Git client over the REST API of GitHub. The calls of go-github are
  parameters over a state of the remote repository, in which other clients may act between and during
  the calls of this one. What the client relies on is stated by git_laws: Git objects never change, and each
  call returns or stores what the API documents.
\<close>

section \<open>Addresses\<close>

definition isPublicGitHubHost :: "string \<Rightarrow> bool" where
  "isPublicGitHubHost host \<longleftrightarrow> host \<in> {''github.com'', ''www.github.com'', ''api.github.com''}"

text \<open>UrlHost is the host of a URL that url.Parse accepts, empty otherwise.\<close>

definition resolveGitHubBaseURLs :: "(string \<Rightarrow> string) \<Rightarrow> string \<Rightarrow> bool \<times> string \<times> string" where
  "resolveGitHubBaseURLs UrlHost raw0 =
     (let raw = TrimSpace raw0 in
      if raw = [] then (False, [], [])
      else
        (let raw1 = (if Contains raw ''://'' then raw else ''https://'' @ raw);
             host = ToLower (TrimSpace (UrlHost raw1)) in
         if host = [] \<or> isPublicGitHubHost host then (False, [], [])
         else (True, ''https://'' @ host @ ''/api/v3'', ''https://'' @ host @ ''/api/uploads'')))"

section \<open>The client\<close>

definition AuthMethodPAT :: string where "AuthMethodPAT = ''pat''"
definition AuthMethodGitHubApp :: string where "AuthMethodGitHubApp = ''github_app''"

record AuthConfig =
  au_Method :: string
  au_AppID :: int
  au_InstallationID :: int

datatype gh_auth =
  PatToken string
| AppInstallation int int string "string option"    \<comment> \<open>app, installation, key, base URL\<close>
| AppJwt int string "string option"                 \<comment> \<open>the App itself: app, key, base URL\<close>

record GoGitHubClient =
  cl_auth :: gh_auth
  cl_enterprise :: "(string \<times> string) option"
  cl_owner :: string
  cl_repo :: string

text \<open>The host of a URL, the transport that ghinstallation makes of a key, and go-github's NewClient.\<close>

record gh_library =
  UrlHost :: "string \<Rightarrow> string"
  AppKey :: "int \<Rightarrow> string \<Rightarrow> gerr + unit"
  NewClient :: "gh_auth option \<Rightarrow> (string \<times> string) option \<Rightarrow> gerr + unit"

definition newGoGitHubClient ::
  "gh_library \<Rightarrow> (string \<Rightarrow> gerr + Destination option) \<Rightarrow> string \<Rightarrow> string \<Rightarrow> string \<Rightarrow> AuthConfig \<Rightarrow> gerr + GoGitHubClient" where
  "newGoGitHubClient lib resolver destName owner repo auth =
     (case resolver destName of
        Inl e \<Rightarrow> err (Errw ''github destination %s not found: %w'' [Str destName] e)
      | Inr None \<Rightarrow> err (Errf ''github destination %s not found'' [Str destName])
      | Inr (Some dest) \<Rightarrow>
          (let (isGHES, apiBaseURL, uploadURL) = resolveGitHubBaseURLs (UrlHost lib) (de_URL dest);
               enterprise = (if isGHES then Some (apiBaseURL, uploadURL) else None);
               finish = (\<lambda>tr. case NewClient lib (Some tr) enterprise of
                  Inl e \<Rightarrow> err (Errw ''failed to create github client: %w'' [] e)
                | Inr _ \<Rightarrow> ok \<lparr>cl_auth = tr, cl_enterprise = enterprise, cl_owner = owner, cl_repo = repo\<rparr>) in
           if au_Method auth = AuthMethodGitHubApp then
             (if de_Password dest = [] then err (Errf ''github destination %s has no password (base64 app private key)'' [Str destName])
              else case DecodeString (de_Password dest) of
                None \<Rightarrow> err (Errw ''decode github app private key from destination %s: %w'' [Str destName] (ExtErr ''illegal base64 data''))
              | Some keyPEM \<Rightarrow>
                  (case AppKey lib (au_AppID auth) keyPEM of
                     Inl e \<Rightarrow> err (Errw ''create github app transport: %w'' [] e)
                   | Inr _ \<Rightarrow> finish (AppInstallation (au_AppID auth) (au_InstallationID auth) keyPEM
                                (if isGHES then Some apiBaseURL else None))))
           else if de_Password dest = [] then err (Errf ''github destination %s has no password (PAT token)'' [Str destName])
           else finish (PatToken (de_Password dest))))"

section \<open>The REST API\<close>

text \<open>An error of go-github with the status of the response, where there was one.\<close>

datatype gh_error = GhErr (status: "nat option") (cause: gerr)

record TreeEntry =
  te_Path :: string
  te_Mode :: string
  te_Type :: string
  te_SHA :: string

type_synonym ('g, 'a) gh = "('g, gh_error + 'a) state"

text \<open>The calls, bound to the owner and the repository of the client. GetCommit answers the tree of a commit; GetTree is
  recursive and says whether it was truncated; GetBlob answers an encoding and the content; a list
  call takes a page and answers the next one, 0 after the last.\<close>

record 'g github_api =
  GetRef :: "string \<Rightarrow> ('g, string) gh"
  GetCommit :: "string \<Rightarrow> ('g, string) gh"
  CreateBlob :: "string \<Rightarrow> string \<Rightarrow> ('g, string) gh"                        \<comment> \<open>content and encoding\<close>
  CreateTree :: "string \<Rightarrow> TreeEntry list \<Rightarrow> ('g, string) gh"
  CreateCommit :: "string \<Rightarrow> string \<Rightarrow> string list \<Rightarrow> ('g, string) gh"     \<comment> \<open>message, tree and parents\<close>
  UpdateRef :: "string \<Rightarrow> string \<Rightarrow> ('g, unit) gh"
  CreateRef :: "string \<Rightarrow> string \<Rightarrow> ('g, unit) gh"
  CreateFile :: "string \<Rightarrow> string \<Rightarrow> string \<Rightarrow> ('g, unit) gh"             \<comment> \<open>path, message and content\<close>
  GetTree :: "string \<Rightarrow> ('g, TreeEntry list \<times> bool) gh"
  GetBlob :: "string \<Rightarrow> ('g, string \<times> string) gh"
  GetUser :: "('g, string) gh"
  ListOrgs :: "nat \<Rightarrow> ('g, string list \<times> nat) gh"
  ListUserRepos :: "nat \<Rightarrow> ('g, (string \<times> string \<times> bool) list \<times> nat) gh"
  ListOrgRepos :: "string \<Rightarrow> nat \<Rightarrow> ('g, (string \<times> string \<times> bool) list \<times> nat) gh"
  ListAppRepos :: "nat \<Rightarrow> ('g, (string \<times> string \<times> bool) list \<times> nat) gh"

text \<open>if err != nil return wrap(err)\<close>

definition call :: "('g, 'e + 'a) state \<Rightarrow> ('e \<Rightarrow> 'f) \<Rightarrow> ('a \<Rightarrow> ('g, 'f + 'b) state) \<Rightarrow> ('g, 'f + 'b) state" where
  "call m wrap k = do { r \<leftarrow> m; case r of Inl e \<Rightarrow> State_Monad.return (Inl (wrap e)) | Inr x \<Rightarrow> k x }"

section \<open>Tags and branches\<close>

definition bootstrapEmptyRepo :: "'g github_api \<Rightarrow> string \<Rightarrow> ('g, gerr + unit) state" where
  "bootstrapEmptyRepo api repo = do {
     r \<leftarrow> CreateFile api ''README.md'' ''init: bootstrap empty repository'' (''# '' @ repo @ [CHR 0x0A]);
     State_Monad.return (case r of
       Inr _ \<Rightarrow> ok ()
     | Inl e \<Rightarrow> if status e = Some 422 then ok () else err (Errw ''create initial README.md: %w'' [] (cause e)))
   }"

definition TagExists :: "'g github_api \<Rightarrow> string \<Rightarrow> string \<Rightarrow> ('g, gerr + string option) state" where
  "TagExists api repo tag = do {
     r \<leftarrow> GetRef api (''tags/'' @ tag);
     case r of
       Inr sha \<Rightarrow> State_Monad.return (ok (Some sha))
     | Inl e \<Rightarrow>
         if status e = Some 409 then
           call (bootstrapEmptyRepo api repo) (Errw ''bootstrap empty repo: %w'' []) (\<lambda>_. State_Monad.return (ok None))
         else if status e = Some 404 then State_Monad.return (ok None)
         else State_Monad.return (err (Errw ''TagExists(%s): %w'' [Str tag] (cause e)))
   }"

text \<open>The SHA-1 of the empty tree, as the source states it.\<close>

definition emptyTreeSHA :: string where
  "emptyTreeSHA = ''4b825dc642cb6eb9a060e54bf8d69288fbee4904''"

definition ensureBranch :: "'g github_api \<Rightarrow> string \<Rightarrow> ('g, gerr + unit) state" where
  "ensureBranch api branch = do {
     r \<leftarrow> GetRef api (''heads/'' @ branch);
     case r of
       Inr _ \<Rightarrow> State_Monad.return (ok ())
     | Inl e \<Rightarrow>
         if status e \<noteq> Some 404 then State_Monad.return (err (Errw ''check branch %s: %w'' [Str branch] (cause e)))
         else call (CreateCommit api (''init: '' @ branch) emptyTreeSHA [])
                (\<lambda>e. Errw ''create orphan commit for %s: %w'' [Str branch] (cause e)) (\<lambda>initCommit. do {
           r2 \<leftarrow> CreateRef api (''refs/heads/'' @ branch) initCommit;
           State_Monad.return (case r2 of
             Inr _ \<Rightarrow> ok ()
           | Inl e2 \<Rightarrow> if status e2 = Some 422 then ok () else err (Errw ''create branch %s: %w'' [Str branch] (cause e2)))
         })
   }"

definition CreateTag :: "'g github_api \<Rightarrow> string \<Rightarrow> string \<Rightarrow> ('g, gerr + unit) state" where
  "CreateTag api tag commitSHA =
     call (CreateRef api (''refs/tags/'' @ tag) commitSHA) (\<lambda>e. Errw ''CreateTag(%s): %w'' [Str tag] (cause e))
       (\<lambda>_. State_Monad.return (ok ()))"

section \<open>Commits\<close>

definition commitMaxRetries :: nat where "commitMaxRetries = 3"

datatype commit_error = RefConflict string gerr | CommitError gerr

text \<open>The blobs of the files, in the order in which the map is iterated.\<close>

fun create_blobs :: "'g github_api \<Rightarrow> string \<Rightarrow> FileMap \<Rightarrow> TreeEntry list \<Rightarrow> ('g, gerr + TreeEntry list) state" where
  "create_blobs api treePath [] entries = State_Monad.return (ok entries)"
| "create_blobs api treePath ((relPath, content) # files) entries =
     call (CreateBlob api (EncodeToString content) ''base64'')
       (\<lambda>e. Errw ''create blob for %s: %w'' [Str relPath] (cause e)) (\<lambda>sha.
     create_blobs api treePath files
       (entries @ [\<lparr>te_Path = Join treePath relPath, te_Mode = ''100644'', te_Type = ''blob'', te_SHA = sha\<rparr>]))"

text \<open>Steps 5 to 7: an unchanged tree makes no commit; otherwise the new commit becomes the tip of the branch.\<close>

definition push_commit ::
  "'g github_api \<Rightarrow> string \<Rightarrow> string \<Rightarrow> string \<Rightarrow> string \<Rightarrow> string \<Rightarrow> ('g, commit_error + string) state" where
  "push_commit api branch message parentSHA baseTreeSHA newTree =
     (if newTree = baseTreeSHA then State_Monad.return (Inr parentSHA)
      else
        call (CreateCommit api message newTree [parentSHA]) (\<lambda>e. CommitError (Errw ''create commit: %w'' [] (cause e))) (\<lambda>newCommit.
        call (UpdateRef api (''heads/'' @ branch) newCommit)
          (\<lambda>e. if status e = Some 422 then RefConflict branch (cause e)
               else CommitError (Errw ''update ref %s: %w'' [Str branch] (cause e)))
          (\<lambda>_. State_Monad.return (Inr newCommit))))"

definition commitOnce ::
  "'g github_api \<Rightarrow> string \<Rightarrow> string \<Rightarrow> FileMap \<Rightarrow> string \<Rightarrow> ('g, commit_error + string) state" where
  "commitOnce api branch treePath files message =
     call (GetRef api (''heads/'' @ branch)) (\<lambda>e. CommitError (Errw ''get branch ref %s: %w'' [Str branch] (cause e))) (\<lambda>parentSHA.
     call (GetCommit api parentSHA) (\<lambda>e. CommitError (Errw ''get parent commit: %w'' [] (cause e))) (\<lambda>baseTreeSHA.
     call (create_blobs api treePath files []) CommitError (\<lambda>entries.
     call (CreateTree api baseTreeSHA entries) (\<lambda>e. CommitError (Errw ''create tree: %w'' [] (cause e))) (\<lambda>newTree.
     push_commit api branch message parentSHA baseTreeSHA newTree))))"

definition ref_conflict :: "string \<Rightarrow> gerr \<Rightarrow> gerr" where
  "ref_conflict branch e = Errf ''ref conflict on %s: %v'' [Str branch, Verb e]"

text \<open>The loop with what is left of its attempts; order n is the order of the map in attempt n.\<close>

fun commit_loop ::
  "'g github_api \<Rightarrow> (nat \<Rightarrow> FileMap \<Rightarrow> FileMap) \<Rightarrow> string \<Rightarrow> string \<Rightarrow> FileMap \<Rightarrow> string \<Rightarrow> nat \<Rightarrow> gerr \<Rightarrow> ('g, gerr + string) state" where
  "commit_loop api order branch treePath files message 0 lastErr =
     State_Monad.return (err (Errw ''commit failed after %d retries (branch tip conflict): %w'' [Num commitMaxRetries] lastErr))"
| "commit_loop api order branch treePath files message (Suc left) lastErr = do {
     r \<leftarrow> commitOnce api branch treePath (order (commitMaxRetries - Suc left) files) message;
     case r of
       Inr sha \<Rightarrow> State_Monad.return (ok sha)
     | Inl (CommitError e) \<Rightarrow> State_Monad.return (err e)
     | Inl (RefConflict br e) \<Rightarrow> commit_loop api order branch treePath files message left (ref_conflict br e)
   }"

definition Commit ::
  "'g github_api \<Rightarrow> (nat \<Rightarrow> FileMap \<Rightarrow> FileMap) \<Rightarrow> string \<Rightarrow> string \<Rightarrow> FileMap \<Rightarrow> string \<Rightarrow> ('g, gerr + string) state" where
  "Commit api order branch treePath files message =
     call (ensureBranch api branch) id
       (\<lambda>_. commit_loop api order branch treePath files message commitMaxRetries (Errf '''' []))"

section \<open>Reading\<close>

definition blob_content :: "string \<Rightarrow> string \<Rightarrow> string \<Rightarrow> gerr + string" where
  "blob_content entryPath encoding content =
     (if encoding = ''base64'' then
        (case DecodeString content of
           None \<Rightarrow> err (Errw ''decode blob %s: %w'' [Str entryPath] (ExtErr ''illegal base64 data''))
         | Some bytes \<Rightarrow> ok bytes)
      else if encoding = ''utf-8'' \<or> encoding = [] then ok content
      else err (Errf ''unsupported blob encoding %s for %s'' [Str encoding, Str entryPath]))"

fun read_entries :: "'g github_api \<Rightarrow> string \<Rightarrow> TreeEntry list \<Rightarrow> FileMap \<Rightarrow> ('g, gerr + FileMap) state" where
  "read_entries api prfx [] files = State_Monad.return (ok files)"
| "read_entries api prfx (entry # entries) files =
     (if \<not> HasPrefix (te_Path entry) prfx \<or> te_Type entry \<noteq> ''blob'' then read_entries api prfx entries files
      else
        call (GetBlob api (te_SHA entry)) (\<lambda>e. Errw ''get blob %s: %w'' [Str (te_Path entry)] (cause e)) (\<lambda>(encoding, content).
        case blob_content (te_Path entry) encoding content of
          Inl e \<Rightarrow> State_Monad.return (err e)
        | Inr bytes \<Rightarrow> read_entries api prfx entries (map_put (TrimPrefix (te_Path entry) prfx) bytes files)))"

definition ReadTree :: "'g github_api \<Rightarrow> string \<Rightarrow> string \<Rightarrow> ('g, gerr + FileMap) state" where
  "ReadTree api commitSHA treePath =
     call (GetTree api commitSHA) (\<lambda>e. Errw ''get tree at %s: %w'' [Str commitSHA] (cause e))
       (\<lambda>(entries, truncated). read_entries api (treePath @ ''/'') entries [])"

section \<open>Discovery\<close>

text \<open>The loop over the pages, which ends when an answer names no next page.\<close>

partial_function (option) all_pages ::
  "(nat \<Rightarrow> 'g \<Rightarrow> (gh_error + 'a list \<times> nat) \<times> 'g) \<Rightarrow> nat \<Rightarrow> 'a list \<Rightarrow> 'g \<Rightarrow> ((gh_error + 'a list) \<times> 'g) option" where
  "all_pages list_page page acc g =
     (case list_page page g of
        (Inl e, g1) \<Rightarrow> Some (Inl e, g1)
      | (Inr (xs, next), g1) \<Rightarrow>
          if next = 0 then Some (Inr (acc @ xs), g1) else all_pages list_page next (acc @ xs) g1)"

definition wrap_pages :: "(gh_error \<Rightarrow> gerr) \<Rightarrow> ((gh_error + 'a list) \<times> 'g) option \<Rightarrow> ((gerr + 'a list) \<times> 'g) option" where
  "wrap_pages wrap = map_option (map_prod (map_sum wrap id) id)"

definition ListOwners :: "'g github_api \<Rightarrow> 'g \<Rightarrow> ((gerr + (string \<times> string) list) \<times> 'g) option" where
  "ListOwners api g =
     (case run_state (GetUser api) g of
        (Inl e, g1) \<Rightarrow> Some (err (Errw ''get authenticated user: %w'' [] (cause e)), g1)
      | (Inr user, g1) \<Rightarrow>
          map_option (map_prod (map_sum id (\<lambda>orgs. (user, ''User'') # map (\<lambda>org. (org, ''Organization'')) orgs)) id)
            (wrap_pages (\<lambda>e. Errw ''list organizations: %w'' [] (cause e))
               (all_pages (\<lambda>page. run_state (ListOrgs api page)) 0 [] g1)))"

definition ListRepos :: "'g github_api \<Rightarrow> string \<Rightarrow> string \<Rightarrow> 'g \<Rightarrow> ((gerr + (string \<times> string \<times> bool) list) \<times> 'g) option" where
  "ListRepos api owner ownerType g =
     (if ownerType = ''User'' then
        wrap_pages (\<lambda>e. Errw ''list user repos: %w'' [] (cause e)) (all_pages (\<lambda>page. run_state (ListUserRepos api page)) 0 [] g)
      else
        wrap_pages (\<lambda>e. Errw ''list org %s repos: %w'' [Str owner] (cause e))
          (all_pages (\<lambda>page. run_state (ListOrgRepos api owner page)) 0 [] g))"

definition ListAccessibleRepos :: "'g github_api \<Rightarrow> 'g \<Rightarrow> ((gerr + (string \<times> string \<times> bool) list) \<times> 'g) option" where
  "ListAccessibleRepos api g =
     wrap_pages (\<lambda>e. Errw ''list installation repos: %w'' [] (cause e)) (all_pages (\<lambda>page. run_state (ListAppRepos api page)) 0 [] g)"



section \<open>What the API documents\<close>

text \<open>The objects of the repository and the values each branch has had, in a state.\<close>

record 'g git_view =
  gv_blob :: "'g \<Rightarrow> string \<Rightarrow> string option"
  gv_tree :: "'g \<Rightarrow> string \<Rightarrow> (string \<Rightarrow> string option) option"     \<comment> \<open>the blobs of the paths\<close>
  gv_commit :: "'g \<Rightarrow> string \<Rightarrow> string option"                  \<comment> \<open>the tree\<close>
  gv_parents :: "'g \<Rightarrow> string \<Rightarrow> string list option"            \<comment> \<open>of a commit\<close>
  gv_tips :: "'g \<Rightarrow> string \<Rightarrow> string set"

definition grows :: "'g git_view \<Rightarrow> 'g \<Rightarrow> 'g \<Rightarrow> bool" where
  "grows v g g' \<longleftrightarrow> gv_blob v g \<subseteq>\<^sub>m gv_blob v g' \<and> gv_tree v g \<subseteq>\<^sub>m gv_tree v g' \<and> gv_commit v g \<subseteq>\<^sub>m gv_commit v g' \<and>
     gv_parents v g \<subseteq>\<^sub>m gv_parents v g' \<and> (\<forall>r. gv_tips v g r \<subseteq> gv_tips v g' r)"

text \<open>From a state with P a program only adds objects, and when it succeeds its result is related to them.\<close>

definition ensures :: "'g git_view \<Rightarrow> ('g \<Rightarrow> bool) \<Rightarrow> ('g, 'e + 'a) state \<Rightarrow> ('a \<Rightarrow> 'g \<Rightarrow> bool) \<Rightarrow> bool" where
  "ensures v P m Q \<longleftrightarrow>
     (\<forall>g. P g \<longrightarrow> (case run_state m g of (r, g') \<Rightarrow> grows v g g' \<and> (case r of Inl e \<Rightarrow> True | Inr x \<Rightarrow> Q x g')))"

abbreviation always :: "'g \<Rightarrow> bool" where "always \<equiv> \<lambda>_. True"

text \<open>No path names a directory that another one lies in.\<close>

definition no_clash :: "string set \<Rightarrow> string set \<Rightarrow> bool" where
  "no_clash P Q \<longleftrightarrow> (\<forall>p\<in>P. \<forall>q\<in>Q. \<not> HasPrefix p (q @ ''/'') \<and> \<not> HasPrefix q (p @ ''/''))"

definition overlay :: "(string \<Rightarrow> string option) \<Rightarrow> TreeEntry list \<Rightarrow> string \<Rightarrow> string option" where
  "overlay m entries = m ++ map_of (rev (map (\<lambda>en. (te_Path en, te_SHA en)) entries))"

definition blobs_of :: "TreeEntry list \<Rightarrow> string \<Rightarrow> string option" where
  "blobs_of entries = map_of (map (\<lambda>en. (te_Path en, te_SHA en)) (filter (\<lambda>en. te_Type en = ''blob'') entries))"

text \<open>A reading of a tree that was not truncated lists its blobs, once each. A content comes in base64, broken
  into lines, or as it is.\<close>

definition git_laws :: "'g github_api \<Rightarrow> 'g git_view \<Rightarrow> bool" where
  "git_laws api v \<longleftrightarrow>
     (\<forall>r. ensures v always (GetRef api r) (\<lambda>sha g. sha \<in> gv_tips v g r)) \<and>
     (\<forall>c. ensures v always (GetCommit api c) (\<lambda>t g. gv_commit v g c = Some t)) \<and>
     (\<forall>content. ensures v always (CreateBlob api (EncodeToString content) ''base64'') (\<lambda>b g. gv_blob v g b = Some content)) \<and>
     (\<forall>base entries. ensures v always (CreateTree api base entries) (\<lambda>t g. \<exists>m. gv_tree v g base = Some m \<and>
        (no_clash (dom m) (te_Path ` set entries) \<longrightarrow> gv_tree v g t = Some (overlay m entries)))) \<and>
     (\<forall>msg t ps. ensures v always (CreateCommit api msg t ps) (\<lambda>c g. gv_commit v g c = Some t \<and> gv_parents v g c = Some ps)) \<and>
     (\<forall>r c. ensures v always (UpdateRef api r c) (\<lambda>_ g. c \<in> gv_tips v g r)) \<and>
     (\<forall>r c. ensures v always (CreateRef api r c) (\<lambda>_ g. True)) \<and>
     (\<forall>c. ensures v always (GetTree api c) (\<lambda>(entries, truncated) g. \<not> truncated \<longrightarrow>
        (\<exists>t. gv_commit v g c = Some t \<and> gv_tree v g t = Some (blobs_of entries)) \<and>
        distinct (map te_Path (filter (\<lambda>en. te_Type en = ''blob'') entries)))) \<and>
     (\<forall>b. ensures v always (GetBlob api b) (\<lambda>(encoding, content) g. \<exists>bytes. gv_blob v g b = Some bytes \<and>
        (encoding = ''base64'' \<longrightarrow> filter (\<lambda>c. c \<notin> {CHR 0x0A, CHR 0x0D}) content = EncodeToString bytes) \<and>
        (encoding = ''utf-8'' \<or> encoding = [] \<longrightarrow> content = bytes)))"

text \<open>The content of a path at a commit.\<close>

definition file_at :: "'g git_view \<Rightarrow> 'g \<Rightarrow> string \<Rightarrow> string \<Rightarrow> string option" where
  "file_at v g c p =
     Option.bind (gv_commit v g c) (\<lambda>t. Option.bind (gv_tree v g t) (\<lambda>m. Option.bind (m p) (gv_blob v g)))"

definition paths_at :: "'g git_view \<Rightarrow> 'g \<Rightarrow> string \<Rightarrow> string set" where
  "paths_at v g c = (case Option.bind (gv_commit v g c) (gv_tree v g) of None \<Rightarrow> {} | Some m \<Rightarrow> dom m)"

section \<open>Calls\<close>

lemma grows_refl [simp]: "grows v g g"
  by (simp add: grows_def)

lemma grows_trans: "grows v g g1 \<Longrightarrow> grows v g1 g2 \<Longrightarrow> grows v g g2"
  unfolding grows_def by (meson map_le_trans order_trans)

lemma map_le_Some: "m \<subseteq>\<^sub>m m' \<Longrightarrow> m x = Some y \<Longrightarrow> m' x = Some y"
  by (metis domI map_le_def)

lemma growsD:
  assumes "grows v g g'"
  shows "gv_blob v g b = Some s \<Longrightarrow> gv_blob v g' b = Some s" "gv_tree v g t = Some m \<Longrightarrow> gv_tree v g' t = Some m"
    "gv_commit v g c = Some t \<Longrightarrow> gv_commit v g' c = Some t" "gv_parents v g c = Some ps \<Longrightarrow> gv_parents v g' c = Some ps" "x \<in> gv_tips v g r \<Longrightarrow> x \<in> gv_tips v g' r"
  using assms by (auto simp: grows_def intro: map_le_Some)

lemma ensuresD:
  assumes "ensures v P m Q" "P g" "run_state m g = (r, g')"
  shows "grows v g g'" "r = Inr x \<Longrightarrow> Q x g'"
  using assms by (auto simp: ensures_def dest!: spec [of _ g])

lemma git_lawsD:
  assumes "git_laws api v"
  shows "ensures v always (GetRef api r) (\<lambda>sha g. sha \<in> gv_tips v g r)"
    "ensures v always (GetCommit api c) (\<lambda>t g. gv_commit v g c = Some t)"
    "ensures v always (CreateBlob api (EncodeToString content) ''base64'') (\<lambda>b g. gv_blob v g b = Some content)"
    "ensures v always (CreateTree api base entries) (\<lambda>t g. \<exists>m. gv_tree v g base = Some m \<and>
        (no_clash (dom m) (te_Path ` set entries) \<longrightarrow> gv_tree v g t = Some (overlay m entries)))"
    "ensures v always (CreateCommit api msg t ps) (\<lambda>c g. gv_commit v g c = Some t \<and> gv_parents v g c = Some ps)"
    "ensures v always (UpdateRef api r c) (\<lambda>_ g. c \<in> gv_tips v g r)"
    "ensures v always (CreateRef api r c) (\<lambda>_ g. True)"
    "ensures v always (GetTree api c) (\<lambda>(entries, truncated) g. \<not> truncated \<longrightarrow>
        (\<exists>t. gv_commit v g c = Some t \<and> gv_tree v g t = Some (blobs_of entries)) \<and>
        distinct (map te_Path (filter (\<lambda>en. te_Type en = ''blob'') entries)))"
    "ensures v always (GetBlob api b) (\<lambda>(encoding, body) g. \<exists>bytes. gv_blob v g b = Some bytes \<and>
        (encoding = ''base64'' \<longrightarrow> filter (\<lambda>c. c \<notin> {CHR 0x0A, CHR 0x0D}) body = EncodeToString bytes) \<and>
        (encoding = ''utf-8'' \<or> encoding = [] \<longrightarrow> body = bytes))"
  using assms unfolding git_laws_def by auto

lemma run_call:
  "run_state (call m wrap k) g =
     (case run_state m g of (Inl e, g1) \<Rightarrow> (Inl (wrap e), g1) | (Inr x, g1) \<Rightarrow> run_state (k x) g1)"
  by (auto simp: call_def run_state_bind split: prod.split sum.split)

text \<open>What holds of a state and stays when objects are added.\<close>

definition stable :: "'g git_view \<Rightarrow> ('g \<Rightarrow> bool) \<Rightarrow> bool" where
  "stable v P \<longleftrightarrow> (\<forall>g g'. P g \<longrightarrow> grows v g g' \<longrightarrow> P g')"

lemma stableI: "(\<And>g g'. P g \<Longrightarrow> grows v g g' \<Longrightarrow> P g') \<Longrightarrow> stable v P"
  by (auto simp: stable_def)

lemma stable_always [simp]: "stable v always"
  by (simp add: stable_def)

lemma stable_conj: "stable v P \<Longrightarrow> stable v Q \<Longrightarrow> stable v (\<lambda>g. P g \<and> Q g)"
  by (auto simp: stable_def)

text \<open>A call with the rest of the program: what held before still holds after it.\<close>

lemma ensures_call:
  assumes "ensures v always m Q" and "stable v P" and "\<And>x. ensures v (\<lambda>g. P g \<and> Q x g) (k x) R"
  shows "ensures v P (call m wrap k) R"
  unfolding ensures_def
proof (intro allI impI)
  fix g assume P: "P g"
  obtain r g1 where m: "run_state m g = (r, g1)" by (cases "run_state m g")
  have g1: "grows v g g1" and Q: "r = Inr x \<Longrightarrow> Q x g1" for x using ensuresD [OF assms(1) TrueI m] by auto
  then have P1: "P g1" using P assms(2) by (auto simp: stable_def)
  show "case run_state (call m wrap k) g of (r, g') \<Rightarrow> grows v g g' \<and> (case r of Inl e \<Rightarrow> True | Inr x \<Rightarrow> R x g')"
  proof (cases r)
    case (Inl e)
    then show ?thesis using m g1 by (simp add: run_call)
  next
    case (Inr x)
    obtain s g2 where k: "run_state (k x) g1 = (s, g2)" by (cases "run_state (k x) g1")
    have "grows v g1 g2" "s = Inr y \<Longrightarrow> R y g2" for y
      using ensuresD [OF assms(3) _ k] P1 Q [OF Inr] by auto
    then show ?thesis using m k Inr grows_trans [OF g1] by (auto simp: run_call split: sum.split)
  qed
qed

lemma ensures_return: "(\<And>g. P g \<Longrightarrow> Q x g) \<Longrightarrow> ensures v P (State_Monad.return (Inr x)) Q"
  by (simp add: ensures_def State_Monad.return_def)

lemma ensures_error: "ensures v P (State_Monad.return (Inl e)) Q"
  by (simp add: ensures_def State_Monad.return_def)

lemma ensures_weaken: "ensures v P m Q \<Longrightarrow> (\<And>g. P' g \<Longrightarrow> P g) \<Longrightarrow> (\<And>x g. Q x g \<Longrightarrow> Q' x g) \<Longrightarrow> ensures v P' m Q'"
  unfolding ensures_def by (fastforce split: prod.splits sum.splits)

text \<open>A call whose error is looked at.\<close>

lemma ensures_bind:
  assumes "ensures v always m Q" and "\<And>r. ensures v always (k r) R"
  shows "ensures v always (m \<bind> k) R"
  unfolding ensures_def
proof (intro allI impI)
  fix g
  obtain r g1 where m: "run_state m g = (r, g1)" by (cases "run_state m g")
  obtain s g2 where k: "run_state (k r) g1 = (s, g2)" by (cases "run_state (k r) g1")
  show "case run_state (m \<bind> k) g of (r, g') \<Rightarrow> grows v g g' \<and> (case r of Inl e \<Rightarrow> True | Inr x \<Rightarrow> R x g')"
    using m k ensuresD [OF assms(1) TrueI m] ensuresD [OF assms(2) TrueI k] grows_trans
    by (auto simp: run_state_bind split: sum.split)
qed

lemma ensures_any: "ensures v P m Q \<Longrightarrow> ensures v P m (\<lambda>_ _. True)"
  by (erule ensures_weaken) simp_all

section \<open>What a commit stores\<close>

lemma ensureBranch_adds:
  assumes "git_laws api v"
  shows "ensures v always (ensureBranch api branch) (\<lambda>_ _. True)"
  unfolding ensureBranch_def
proof (rule ensures_bind [OF git_lawsD(1) [OF assms]])
  fix r :: "gh_error + string"
  have "ensures v P (CreateRef api a b \<bind> (\<lambda>r2. State_Monad.return (f r2))) (\<lambda>_ _. True)" for P a b and f :: "gh_error + unit \<Rightarrow> gerr + unit"
  proof (rule ensures_weaken [OF ensures_bind [OF git_lawsD(7) [OF assms]]])
    show "ensures v always (State_Monad.return (f r2)) (\<lambda>_ _. True)" for r2
      by (simp add: ensures_def State_Monad.return_def split: sum.split)
  qed simp_all
  then show "ensures v always
    (case r of
       Inr _ \<Rightarrow> State_Monad.return (ok ())
     | Inl e \<Rightarrow>
         if status e \<noteq> Some 404 then State_Monad.return (err (Errw ''check branch %s: %w'' [Str branch] (cause e)))
         else call (CreateCommit api (''init: '' @ branch) emptyTreeSHA [])
                (\<lambda>e. Errw ''create orphan commit for %s: %w'' [Str branch] (cause e)) (\<lambda>initCommit. do {
           r2 \<leftarrow> CreateRef api (''refs/heads/'' @ branch) initCommit;
           State_Monad.return (case r2 of
             Inr _ \<Rightarrow> ok ()
           | Inl e2 \<Rightarrow> if status e2 = Some 422 then ok () else err (Errw ''create branch %s: %w'' [Str branch] (cause e2)))
         })) (\<lambda>_ _. True)"
    by (auto split: sum.split intro!: ensures_return ensures_error ensures_call [OF git_lawsD(5) [OF assms]])
qed

definition stored :: "'g git_view \<Rightarrow> string \<Rightarrow> 'g \<Rightarrow> string \<times> string \<Rightarrow> TreeEntry \<Rightarrow> bool" where
  "stored v treePath g f en \<longleftrightarrow>
     te_Path en = Join treePath (fst f) \<and> te_Type en = ''blob'' \<and> gv_blob v g (te_SHA en) = Some (snd f)"

lemma stored_grows: "list_all2 (stored v tp g) files es \<Longrightarrow> grows v g g' \<Longrightarrow> list_all2 (stored v tp g') files es"
  by (erule list_all2_mono) (auto simp: stored_def dest: growsD)

lemma create_blobs_stored:
  assumes "git_laws api v"
  shows "ensures v (\<lambda>g. list_all2 (stored v tp g) done acc) (create_blobs api tp files acc)
    (\<lambda>entries g. list_all2 (stored v tp g) (done @ files) entries)"
proof (induction files arbitrary: acc "done")
  case Nil
  then show ?case by (auto intro: ensures_return)
next
  case (Cons f files)
  obtain rel content where f: "f = (rel, content)" by (cases f)
  show ?case unfolding f create_blobs.simps
  proof (rule ensures_call [OF git_lawsD(3) [OF assms]])
    fix sha
    let ?en = "\<lparr>te_Path = Join tp rel, te_Mode = ''100644'', te_Type = ''blob'', te_SHA = sha\<rparr>"
    have "list_all2 (stored v tp g) (done @ [(rel, content)]) (acc @ [?en])"
      if "list_all2 (stored v tp g) done acc \<and> gv_blob v g sha = Some content" for g
      using that by (auto intro!: list_all2_appendI simp: stored_def)
    then show "ensures v (\<lambda>g. list_all2 (stored v tp g) done acc \<and> gv_blob v g sha = Some content)
        (create_blobs api tp files (acc @ [?en])) (\<lambda>entries g. list_all2 (stored v tp g) (done @ (rel, content) # files) entries)"
      using Cons.IH [of "done @ [(rel, content)]" "acc @ [?en]"] by (elim ensures_weaken) simp_all
  qed (auto intro: stableI stored_grows)
qed

definition committed :: "'g git_view \<Rightarrow> string \<Rightarrow> string \<Rightarrow> TreeEntry list \<Rightarrow> string \<Rightarrow> string \<Rightarrow> 'g \<Rightarrow> bool" where
  "committed v branch tip entries base t g \<longleftrightarrow>
     tip \<in> gv_tips v g (''heads/'' @ branch) \<and> gv_commit v g tip = Some base \<and>
     (\<exists>m. gv_tree v g base = Some m \<and> (no_clash (dom m) (te_Path ` set entries) \<longrightarrow> gv_tree v g t = Some (overlay m entries)))"

lemma committed_stable: "stable v (committed v branch tip entries base t)"
proof (rule stableI)
  fix g g' assume "committed v branch tip entries base t g" and g: "grows v g g'"
  then show "committed v branch tip entries base t g'"
    unfolding committed_def using growsD [OF g] by blast
qed

lemma committedD: "committed v branch tip entries base t g \<Longrightarrow> gv_commit v g tip = Some base \<and> tip \<in> gv_tips v g (''heads/'' @ branch)"
  by (auto simp: committed_def)

text \<open>The files are stored, and the commit sha has the tree of the commit tip with them; it is tip itself, when
  the tree was that of tip, or a commit whose only parent is tip.\<close>

definition pushed :: "'g git_view \<Rightarrow> string \<Rightarrow> string \<Rightarrow> FileMap \<Rightarrow> string \<Rightarrow> string \<Rightarrow> 'g \<Rightarrow> bool" where
  "pushed v branch tp files tip sha g \<longleftrightarrow>
     (\<exists>base t entries. list_all2 (stored v tp g) files entries \<and> committed v branch tip entries base t g \<and>
        gv_commit v g sha = Some t \<and> sha \<in> gv_tips v g (''heads/'' @ branch) \<and>
        (sha = tip \<or> gv_parents v g sha = Some [tip]))"

lemma pushedI:
  "\<lbrakk>list_all2 (stored v tp g) files entries; committed v branch tip entries base t g; gv_commit v g sha = Some t;
    sha \<in> gv_tips v g (''heads/'' @ branch); sha = tip \<or> gv_parents v g sha = Some [tip]\<rbrakk> \<Longrightarrow>
   pushed v branch tp files tip sha g"
  unfolding pushed_def by blast

lemma pushed_stable: "stable v (pushed v branch tp files tip sha)"
proof (rule stableI)
  fix g g' assume "pushed v branch tp files tip sha g" and g: "grows v g g'"
  then obtain base t entries where "list_all2 (stored v tp g) files entries" "committed v branch tip entries base t g"
    "gv_commit v g sha = Some t" "sha \<in> gv_tips v g (''heads/'' @ branch)" "sha = tip \<or> gv_parents v g sha = Some [tip]"
    unfolding pushed_def by blast
  then show "pushed v branch tp files tip sha g'"
    using committed_stable [of v branch tip entries base t] g growsD [OF g] stored_grows [OF _ g]
    by (intro pushedI [of v tp g' files entries branch tip base t sha]) (auto simp: stable_def)
qed

lemma push_commit_pushed:
  assumes "git_laws api v"
  shows "ensures v (\<lambda>g. list_all2 (stored v tp g) files entries \<and> committed v branch tip entries base t g)
    (push_commit api branch msg tip base t) (\<lambda>sha. pushed v branch tp files tip sha)"
proof (cases "t = base")
  case True
  have "pushed v branch tp files tip tip g"
    if "list_all2 (stored v tp g) files entries" "committed v branch tip entries base t g" for g
    using that committedD [OF that(2)] True unfolding pushed_def by blast
  then show ?thesis using True by (auto simp: push_commit_def intro: ensures_return)
next
  case False
  have s: "stable v (\<lambda>g. list_all2 (stored v tp g) files entries \<and> committed v branch tip entries base t g)"
    by (intro stable_conj committed_stable stableI) (rule stored_grows)
  have c: "stable v (\<lambda>g. gv_commit v g c = Some t \<and> gv_parents v g c = Some [tip])" for c
    by (auto intro!: stableI dest: growsD)
  show ?thesis using False unfolding push_commit_def
    by (auto intro!: ensures_call [OF git_lawsD(5) [OF assms] s] ensures_call [OF git_lawsD(6) [OF assms] stable_conj [OF s c]]
        ensures_return elim!: pushedI)
qed

text \<open>The attempt from the reading of the branch on.\<close>

definition commit_on ::
  "'g github_api \<Rightarrow> string \<Rightarrow> string \<Rightarrow> FileMap \<Rightarrow> string \<Rightarrow> string \<Rightarrow> ('g, commit_error + string) state" where
  "commit_on api branch treePath files message parentSHA =
     call (GetCommit api parentSHA) (\<lambda>e. CommitError (Errw ''get parent commit: %w'' [] (cause e))) (\<lambda>baseTreeSHA.
     call (create_blobs api treePath files []) CommitError (\<lambda>entries.
     call (CreateTree api baseTreeSHA entries) (\<lambda>e. CommitError (Errw ''create tree: %w'' [] (cause e))) (\<lambda>newTree.
     push_commit api branch message parentSHA baseTreeSHA newTree)))"

lemma commitOnce_on:
  "commitOnce api branch tp files msg =
     call (GetRef api (''heads/'' @ branch)) (\<lambda>e. CommitError (Errw ''get branch ref %s: %w'' [Str branch] (cause e)))
       (commit_on api branch tp files msg)"
  unfolding commitOnce_def commit_on_def ..

lemma commit_on_pushed:
  assumes "git_laws api v"
  shows "ensures v (\<lambda>g. tip \<in> gv_tips v g (''heads/'' @ branch)) (commit_on api branch tp files msg tip)
    (\<lambda>sha. pushed v branch tp files tip sha)"
  unfolding commit_on_def
proof (rule ensures_call [OF git_lawsD(2) [OF assms]], goal_cases)
  case 1
  then show ?case by (auto intro: stableI growsD)
next
  case (2 base)
  let ?P = "\<lambda>g. tip \<in> gv_tips v g (''heads/'' @ branch) \<and> gv_commit v g tip = Some base"
  have P: "stable v ?P" by (auto intro!: stableI dest: growsD)
  have b: "ensures v always (create_blobs api tp files []) (\<lambda>entries g. list_all2 (stored v tp g) files entries)"
    using create_blobs_stored [OF assms, of tp "[]" "[]" files] by simp
  show ?case
  proof (rule ensures_call [OF b P], rule ensures_call [OF git_lawsD(4) [OF assms]], goal_cases)
    case (1 entries)
    show ?case by (intro stable_conj [OF P] stableI) (rule stored_grows)
  next
    case (2 entries t)
    show ?case by (rule ensures_weaken [OF push_commit_pushed [OF assms, of tp files entries branch tip base t]])
        (auto simp: committed_def)
  qed
qed

text \<open>An attempt commits on the value of the branch that it reads first, whatever happens to the branch afterwards.\<close>

lemma commitOnce_pushed:
  assumes l: "git_laws api v" and run: "run_state (commitOnce api branch tp files msg) g = (Inr sha, g1)"
  shows "\<exists>tip g0. run_state (GetRef api (''heads/'' @ branch)) g = (Inr tip, g0) \<and> pushed v branch tp files tip sha g1"
proof -
  obtain r g0 where ref: "run_state (GetRef api (''heads/'' @ branch)) g = (r, g0)" by fastforce
  with run obtain tip where r: "r = Inr tip" by (cases r) (auto simp: commitOnce_on run_call)
  have "tip \<in> gv_tips v g0 (''heads/'' @ branch)" using ensuresD(2) [OF git_lawsD(1) [OF l] TrueI ref r] .
  moreover have "run_state (commit_on api branch tp files msg tip) g0 = (Inr sha, g1)"
    using run ref r by (simp add: commitOnce_on run_call)
  ultimately have "pushed v branch tp files tip sha g1" using ensuresD(2) [OF commit_on_pushed [OF l]] by blast
  then show ?thesis using ref r by blast
qed

lemma commitOnce_adds:
  assumes "git_laws api v"
  shows "ensures v always (commitOnce api branch tp files msg) (\<lambda>_ _. True)"
  unfolding commitOnce_on
  by (rule ensures_call [OF git_lawsD(1) [OF assms] stable_always])
    (rule ensures_weaken [OF commit_on_pushed [OF assms]], auto)

text \<open>A commit that succeeds is that of its last attempt.\<close>

lemma commit_loop_last:
  assumes l: "git_laws api v"
  shows "run_state (commit_loop api order branch tp files msg left e) g = (Inr sha, g1) \<Longrightarrow>
    \<exists>n ga. grows v g ga \<and> run_state (commitOnce api branch tp (order n files) msg) ga = (Inr sha, g1)"
proof (induction left arbitrary: e g)
  case (Suc left)
  let ?n = "commitMaxRetries - Suc left"
  obtain r g2 where m: "run_state (commitOnce api branch tp (order ?n files) msg) g = (r, g2)" by fastforce
  have add: "grows v g g2" using ensuresD(1) [OF commitOnce_adds [OF l] TrueI m] .
  show ?case
  proof (cases r)
    case (Inr x)
    then have "run_state (commitOnce api branch tp (order ?n files) msg) g = (Inr sha, g1)"
      using Suc.prems m by (simp add: run_state_bind State_Monad.return_def)
    then show ?thesis by (intro exI [of _ ?n] exI [of _ g]) simp
  next
    case (Inl ce)
    then obtain br c where "ce = RefConflict br c"
      using Suc.prems m by (cases ce) (auto simp: run_state_bind State_Monad.return_def)
    then have "run_state (commit_loop api order branch tp files msg left (ref_conflict br c)) g2 = (Inr sha, g1)"
      using Suc.prems m Inl by (simp add: run_state_bind)
    from Suc.IH [OF this] obtain n ga where
      "grows v g2 ga" "run_state (commitOnce api branch tp (order n files) msg) ga = (Inr sha, g1)" by (elim exE conjE)
    then show ?thesis using grows_trans [OF add] by (intro exI [of _ n] exI [of _ ga]) simp
  qed
qed (simp add: State_Monad.return_def)

lemma Commit_last:
  assumes l: "git_laws api v" and run: "run_state (Commit api order branch tp files msg) g = (Inr sha, g1)"
  shows "\<exists>n ga. grows v g ga \<and> run_state (commitOnce api branch tp (order n files) msg) ga = (Inr sha, g1)"
proof -
  obtain r g0 where e: "run_state (ensureBranch api branch) g = (r, g0)" by fastforce
  have add: "grows v g g0" using ensuresD(1) [OF ensureBranch_adds [OF l] TrueI e] .
  have "run_state (commit_loop api order branch tp files msg commitMaxRetries (Errf '''' [])) g0 = (Inr sha, g1)"
    using run e by (cases r) (auto simp: Commit_def run_call)
  from commit_loop_last [OF l this] obtain n ga where
    "grows v g0 ga" "run_state (commitOnce api branch tp (order n files) msg) ga = (Inr sha, g1)" by (elim exE conjE)
  then show ?thesis using grows_trans [OF add] by (intro exI [of _ n] exI [of _ ga]) simp
qed

section \<open>What a reading finds\<close>

definition read_so_far :: "'g git_view \<Rightarrow> string \<Rightarrow> TreeEntry list \<Rightarrow> FileMap \<Rightarrow> 'g \<Rightarrow> bool" where
  "read_so_far v prfx done files g \<longleftrightarrow>
     (\<forall>rel. case blobs_of done (prfx @ rel) of
        None \<Rightarrow> map_of files rel = None
      | Some b \<Rightarrow> map_of files rel = gv_blob v g b \<and> gv_blob v g b \<noteq> None)"

lemma read_so_far_stable: "stable v (read_so_far v prfx done files)"
proof (rule stableI)
  fix g g' assume r: "read_so_far v prfx done files g" and g: "grows v g g'"
  show "read_so_far v prfx done files g'"
    unfolding read_so_far_def
  proof
    fix rel
    show "case blobs_of done (prfx @ rel) of
        None \<Rightarrow> map_of files rel = None
      | Some b \<Rightarrow> map_of files rel = gv_blob v g' b \<and> gv_blob v g' b \<noteq> None"
      using r [unfolded read_so_far_def, rule_format, of rel] growsD(1) [OF g] by (auto split: option.splits)
  qed
qed

lemma blobs_of_snoc:
  "blobs_of (done @ [en]) p = (case blobs_of done p of Some b \<Rightarrow> Some b | None \<Rightarrow> if te_Type en = ''blob'' \<and> te_Path en = p then Some (te_SHA en) else None)"
  by (auto simp: blobs_of_def map_add_def split: option.splits)

lemma blobs_of_new: "te_Path en \<notin> te_Path ` set (filter (\<lambda>en. te_Type en = ''blob'') done) \<Longrightarrow> blobs_of done (te_Path en) = None"
  by (force simp: blobs_of_def map_of_eq_None_iff)

lemma blobs_of_skip:
  "\<not> HasPrefix (te_Path en) prfx \<or> te_Type en \<noteq> ''blob'' \<Longrightarrow> blobs_of (done @ [en]) (prfx @ rel) = blobs_of done (prfx @ rel)"
  by (auto simp: blobs_of_snoc HasPrefix_def split: option.splits)

lemma read_so_far_skip:
  "\<not> HasPrefix (te_Path en) prfx \<or> te_Type en \<noteq> ''blob'' \<Longrightarrow> read_so_far v prfx (done @ [en]) files g = read_so_far v prfx done files g"
  unfolding read_so_far_def by (simp only: blobs_of_skip)

lemma read_so_far_put:
  assumes new: "te_Path en \<notin> te_Path ` set (filter (\<lambda>en. te_Type en = ''blob'') done)" and en: "te_Type en = ''blob''" "te_Path en = prfx @ rel"
    and bytes: "gv_blob v g (te_SHA en) = Some bytes" and r: "read_so_far v prfx done files g"
  shows "read_so_far v prfx (done @ [en]) (map_put rel bytes files) g"
  unfolding read_so_far_def
proof
  fix rel'
  have "case blobs_of done (prfx @ rel') of
        None \<Rightarrow> map_of files rel' = None
      | Some b \<Rightarrow> map_of files rel' = gv_blob v g b \<and> gv_blob v g b \<noteq> None"
    using r unfolding read_so_far_def by (rule spec)
  then show "case blobs_of (done @ [en]) (prfx @ rel') of
        None \<Rightarrow> map_of (map_put rel bytes files) rel' = None
      | Some b \<Rightarrow> map_of (map_put rel bytes files) rel' = gv_blob v g b \<and> gv_blob v g b \<noteq> None"
    using en bytes blobs_of_new [OF new] by (auto simp: blobs_of_snoc map_of_map_put split: option.splits)
qed

lemma blob_content_bytes:
  assumes "encoding = ''base64'' \<Longrightarrow> filter (\<lambda>c. c \<notin> {CHR 0x0A, CHR 0x0D}) body = EncodeToString bytes"
    and "encoding = ''utf-8'' \<or> encoding = [] \<Longrightarrow> body = bytes" and "blob_content p encoding body = Inr x"
  shows "x = bytes"
  using assms Decode_wrapped [of body bytes] by (auto simp: blob_content_def split: if_splits option.splits)

lemma read_entries_all:
  assumes l: "git_laws api v"
  shows "distinct (map te_Path (filter (\<lambda>en. te_Type en = ''blob'') (done @ es))) \<Longrightarrow>
    ensures v (read_so_far v prfx done files) (read_entries api prfx es files) (read_so_far v prfx (done @ es))"
proof (induction es arbitrary: "done" files)
  case Nil
  then show ?case by (auto intro: ensures_return)
next
  case (Cons en es)
  have d: "distinct (map te_Path (filter (\<lambda>en. te_Type en = ''blob'') ((done @ [en]) @ es)))" using Cons.prems by simp
  note IH = Cons.IH [OF d, unfolded append_assoc append_Cons append_Nil]
  show ?case
  proof (cases "\<not> HasPrefix (te_Path en) prfx \<or> te_Type en \<noteq> ''blob''")
    case True
    then show ?thesis using IH [of files] by (simp add: read_so_far_skip)
  next
    case False
    then obtain rel where rel: "te_Path en = prfx @ rel" and blob: "te_Type en = ''blob''" by (auto simp: HasPrefix_iff)
    have new: "te_Path en \<notin> te_Path ` set (filter (\<lambda>en. te_Type en = ''blob'') done)" using Cons.prems blob by auto
    let ?Q = "\<lambda>encoding body g. \<exists>bytes. gv_blob v g (te_SHA en) = Some bytes \<and>
        (encoding = ''base64'' \<longrightarrow> filter (\<lambda>c. c \<notin> {CHR 0x0A, CHR 0x0D}) body = EncodeToString bytes) \<and>
        (encoding = ''utf-8'' \<or> encoding = [] \<longrightarrow> body = bytes)"
    have step: "ensures v (\<lambda>g. read_so_far v prfx done files g \<and> ?Q encoding body g)
      (case blob_content (te_Path en) encoding body of
          Inl e \<Rightarrow> State_Monad.return (err e)
        | Inr bytes \<Rightarrow> read_entries api prfx es (map_put (TrimPrefix (te_Path en) prfx) bytes files))
      (read_so_far v prfx (done @ en # es))" for encoding body
    proof (cases "blob_content (te_Path en) encoding body")
      case (Inl e)
      then show ?thesis by (simp add: ensures_error)
    next
      case (Inr bytes)
      have "read_so_far v prfx (done @ [en]) (map_put rel bytes files) g"
        if "read_so_far v prfx done files g" "?Q encoding body g" for g
        using that blob_content_bytes [OF _ _ Inr] by (intro read_so_far_put [OF new blob rel]) auto
      then have "ensures v (\<lambda>g. read_so_far v prfx done files g \<and> ?Q encoding body g)
          (read_entries api prfx es (map_put rel bytes files)) (read_so_far v prfx (done @ en # es))"
        by (intro ensures_weaken [OF IH]) blast+
      then show ?thesis using Inr rel by (simp add: TrimPrefix_def)
    qed
    have "ensures v (read_so_far v prfx done files)
      (call (GetBlob api (te_SHA en)) (\<lambda>e. Errw ''get blob %s: %w'' [Str (te_Path en)] (cause e)) (\<lambda>(encoding, content).
        case blob_content (te_Path en) encoding content of
          Inl e \<Rightarrow> State_Monad.return (err e)
        | Inr bytes \<Rightarrow> read_entries api prfx es (map_put (TrimPrefix (te_Path en) prfx) bytes files)))
      (read_so_far v prfx (done @ en # es))"
    proof (rule ensures_call [OF git_lawsD(9) [OF l] read_so_far_stable])
      fix x :: "string \<times> string"
      show "ensures v (\<lambda>g. read_so_far v prfx done files g \<and> (case x of (encoding, body) \<Rightarrow> ?Q encoding body) g)
        (case x of (encoding, content) \<Rightarrow> case blob_content (te_Path en) encoding content of
            Inl e \<Rightarrow> State_Monad.return (err e)
          | Inr bytes \<Rightarrow> read_entries api prfx es (map_put (TrimPrefix (te_Path en) prfx) bytes files))
        (read_so_far v prfx (done @ en # es))"
        using step [of "fst x" "snd x"] by (simp only: case_prod_beta)
    qed
    then show ?thesis using False by simp
  qed
qed

text \<open>No answer of GetTree is truncated; GitHub truncates one of more than 100000 entries or 7 MB.\<close>

definition untruncated :: "'g github_api \<Rightarrow> bool" where
  "untruncated api \<longleftrightarrow> (\<forall>c g entries truncated g'. run_state (GetTree api c) g = (Inr (entries, truncated), g') \<longrightarrow> \<not> truncated)"

lemma ReadTree_reads:
  assumes l: "git_laws api v" and u: "untruncated api" and run: "run_state (ReadTree api c tp) g = (Inr fm, g')"
  shows "grows v g g'" "map_of fm rel = file_at v g' c (tp @ ''/'' @ rel)"
proof -
  obtain r g1 where t: "run_state (GetTree api c) g = (r, g1)" by fastforce
  with run obtain entries tr where r: "r = Inr (entries, tr)" by (cases r) (auto simp: ReadTree_def run_call)
  note tree = ensuresD [OF git_lawsD(8) [OF l] TrueI t]
  have "\<not> tr" using u t r unfolding untruncated_def by blast
  then have "(\<exists>t. gv_commit v g1 c = Some t \<and> gv_tree v g1 t = Some (blobs_of entries)) \<and>
      distinct (map te_Path (filter (\<lambda>en. te_Type en = ''blob'') entries))"
    using tree(2) [OF r] by simp
  then obtain t where c: "gv_commit v g1 c = Some t" "gv_tree v g1 t = Some (blobs_of entries)"
    and d: "distinct (map te_Path (filter (\<lambda>en. te_Type en = ''blob'') entries))" by blast
  have read: "run_state (read_entries api (tp @ ''/'') entries []) g1 = (Inr fm, g')"
    using run t r by (simp add: ReadTree_def run_call)
  have empty: "read_so_far v (tp @ ''/'') [] [] g1" by (simp add: read_so_far_def blobs_of_def)
  have g1: "grows v g1 g'" and rd: "read_so_far v (tp @ ''/'') entries fm g'"
    using ensuresD [OF read_entries_all [OF l, of "[]" entries] empty read] d by simp_all
  show "grows v g g'" using tree(1) g1 by (rule grows_trans)
  have "case blobs_of entries ((tp @ ''/'') @ rel) of None \<Rightarrow> map_of fm rel = None | Some b \<Rightarrow> map_of fm rel = gv_blob v g' b \<and> gv_blob v g' b \<noteq> None"
    using rd unfolding read_so_far_def by (rule spec)
  then show "map_of fm rel = file_at v g' c (tp @ ''/'' @ rel)"
    using growsD [OF g1] c by (auto simp: file_at_def split: option.splits)
qed

text \<open>The new tree at the path of a file and elsewhere.\<close>

lemma overlay_stored:
  assumes "list_all2 (stored v tp g) fs entries" and "plain_path tp" "\<forall>f\<in>set fs. plain_path (fst f)" "distinct (map fst fs)"
  shows "te_Path ` set entries = (\<lambda>f. tp @ ''/'' @ fst f) ` set fs"
    "(rel, content) \<in> set fs \<Longrightarrow> Option.bind (overlay m entries (tp @ ''/'' @ rel)) (gv_blob v g) = Some content"
    "rel \<notin> fst ` set fs \<Longrightarrow> overlay m entries (tp @ ''/'' @ rel) = m (tp @ ''/'' @ rel)"
proof -
  have path: "te_Path en = tp @ ''/'' @ fst f" "gv_blob v g (te_SHA en) = Some (snd f)" if "(f, en) \<in> set (zip fs entries)" for f en
  proof -
    have "stored v tp g f en" using that assms(1) by (auto simp: list_all2_iff)
    moreover have "plain_path (fst f)" using that assms(3) by (auto dest: set_zip_leftD)
    ultimately show "te_Path en = tp @ ''/'' @ fst f" "gv_blob v g (te_SHA en) = Some (snd f)"
      using Join_plain [OF assms(2)] by (simp_all add: stored_def)
  qed
  have len: "length fs = length entries" using assms(1) by (rule list_all2_lengthD)
  have paths: "map te_Path entries = map (\<lambda>f. tp @ ''/'' @ fst f) fs"
  proof (rule nth_equalityI)
    show "map te_Path entries ! i = map (\<lambda>f. tp @ ''/'' @ fst f) fs ! i" if "i < length (map te_Path entries)" for i
    proof -
      have "(fs ! i, entries ! i) \<in> set (zip fs entries)" using that len by (force simp: set_zip)
      then show ?thesis using path(1) that len by simp
    qed
  qed (simp add: len)
  then show img: "te_Path ` set entries = (\<lambda>f. tp @ ''/'' @ fst f) ` set fs" by (metis list.set_map)
  have "distinct (map te_Path entries)"
    unfolding paths using distinct_map [of "\<lambda>x. tp @ ''/'' @ x" "map fst fs"] assms(4) by (simp add: comp_def inj_on_def)
  then have d: "distinct (map fst (rev (map (\<lambda>en. (te_Path en, te_SHA en)) entries)))" by (simp add: comp_def flip: rev_map)
  show "Option.bind (overlay m entries (tp @ ''/'' @ rel)) (gv_blob v g) = Some content" if f: "(rel, content) \<in> set fs"
  proof -
    from f len obtain en where en: "((rel, content), en) \<in> set (zip fs entries)"
      by (metis in_set_impl_in_set_zip1)
    then have "(te_Path en, te_SHA en) \<in> set (rev (map (\<lambda>en. (te_Path en, te_SHA en)) entries))" by (auto dest: set_zip_rightD)
    then have "map_of (rev (map (\<lambda>en. (te_Path en, te_SHA en)) entries)) (te_Path en) = Some (te_SHA en)"
      using d map_of_is_SomeI by fast
    then show ?thesis using path [OF en] by (simp add: overlay_def map_add_def)
  qed
  show "overlay m entries (tp @ ''/'' @ rel) = m (tp @ ''/'' @ rel)" if "rel \<notin> fst ` set fs"
  proof -
    have "tp @ ''/'' @ rel \<notin> te_Path ` set entries" unfolding img using that by auto
    then have "map_of (rev (map (\<lambda>en. (te_Path en, te_SHA en)) entries)) (tp @ ''/'' @ rel) = None"
      by (auto simp: map_of_eq_None_iff)
    then show ?thesis by (simp add: overlay_def map_add_def)
  qed
qed

lemma pushed_files:
  assumes p: "pushed v branch tp fs tip sha g" and "plain_path tp" "\<forall>f\<in>set fs. plain_path (fst f)" "distinct (map fst fs)"
    and clash: "\<And>c. c \<in> gv_tips v g (''heads/'' @ branch) \<Longrightarrow> no_clash (paths_at v g c) ((\<lambda>f. tp @ ''/'' @ fst f) ` set fs)"
  shows "file_at v g sha (tp @ ''/'' @ rel) =
     (case map_of fs rel of Some content \<Rightarrow> Some content | None \<Rightarrow> file_at v g tip (tp @ ''/'' @ rel))"
proof -
  from p obtain base t entries where st: "list_all2 (stored v tp g) fs entries" and c: "committed v branch tip entries base t g"
    and sha: "gv_commit v g sha = Some t" unfolding pushed_def by blast
  from c obtain m where tip: "tip \<in> gv_tips v g (''heads/'' @ branch)" "gv_commit v g tip = Some base" "gv_tree v g base = Some m"
    and tree: "no_clash (dom m) (te_Path ` set entries) \<longrightarrow> gv_tree v g t = Some (overlay m entries)" unfolding committed_def by blast
  note o = overlay_stored [OF st assms(2-4)]
  have "paths_at v g tip = dom m" using tip by (simp add: paths_at_def)
  with clash [OF tip(1)] tree have t: "gv_tree v g t = Some (overlay m entries)" by (simp add: o(1))
  show ?thesis
  proof (cases "map_of fs rel")
    case None
    then have "rel \<notin> fst ` set fs" by (simp add: map_of_eq_None_iff)
    then show ?thesis using t sha tip o(3) [of rel m] None by (simp add: file_at_def)
  next
    case (Some content)
    then have "(rel, content) \<in> set fs" by (rule map_of_SomeD)
    then show ?thesis using t sha o(2) [of rel content m] Some by (simp add: file_at_def)
  qed
qed

section \<open>Pages\<close>

lemma all_pages_returns:
  assumes "\<And>p g xs n g'. list_page p g = (Inr (xs, n), g') \<Longrightarrow> n = 0 \<or> (p < n \<and> n \<le> lastPage)"
  shows "\<exists>r. all_pages list_page p acc g = Some r"
proof (induction "Suc lastPage - p" arbitrary: p acc g rule: less_induct)
  case less
  obtain r g1 where r: "list_page p g = (r, g1)" by fastforce
  show ?case
  proof (cases r)
    case (Inl e)
    then show ?thesis using r by (simp add: all_pages.simps [of _ p])
  next
    case (Inr a)
    then obtain xs n where a: "r = Inr (xs, n)" by (cases a) auto
    show ?thesis
    proof (cases "n = 0")
      case True
      then show ?thesis using r a by (simp add: all_pages.simps [of _ p])
    next
      case False
      have "n = 0 \<or> (p < n \<and> n \<le> lastPage)" using assms r unfolding a by blast
      with False have "p < n" "n \<le> lastPage" by auto
      then show ?thesis using less [of n "acc @ xs" g1] r a False by (simp add: all_pages.simps [of _ p])
    qed
  qed
qed

text \<open>C37: the lists of GitHub end: the loops over pages have no bound of their own, but as long as every answer names
  a later page, up to a last one, or none, the owners and the repositories are returned.\<close>

theorem discovery_returns:
  assumes "\<And>p g xs n g'. run_state (ListOrgs api p) g = (Inr (xs, n), g') \<Longrightarrow> n = 0 \<or> (p < n \<and> n \<le> lastPage)"
    and "\<And>p g xs n g'. run_state (ListUserRepos api p) g = (Inr (xs, n), g') \<Longrightarrow> n = 0 \<or> (p < n \<and> n \<le> lastPage)"
    and "\<And>p g xs n g'. run_state (ListOrgRepos api owner p) g = (Inr (xs, n), g') \<Longrightarrow> n = 0 \<or> (p < n \<and> n \<le> lastPage)"
    and "\<And>p g xs n g'. run_state (ListAppRepos api p) g = (Inr (xs, n), g') \<Longrightarrow> n = 0 \<or> (p < n \<and> n \<le> lastPage)"
  shows "ListOwners api g \<noteq> None \<and> ListRepos api owner ownerType g \<noteq> None \<and> ListAccessibleRepos api g \<noteq> None"
proof -
  have "ListOwners api g \<noteq> None"
    using all_pages_returns [of "\<lambda>p. run_state (ListOrgs api p)" lastPage 0 "[]"] assms(1)
    by (fastforce simp: ListOwners_def wrap_pages_def split: prod.split sum.split)
  moreover have "ListRepos api owner ownerType g \<noteq> None"
    using all_pages_returns [of "\<lambda>p. run_state (ListUserRepos api p)" lastPage 0 "[]" g] assms(2)
      all_pages_returns [of "\<lambda>p. run_state (ListOrgRepos api owner p)" lastPage 0 "[]" g] assms(3)
    by (fastforce simp: ListRepos_def wrap_pages_def)
  moreover have "ListAccessibleRepos api g \<noteq> None"
    using all_pages_returns [of "\<lambda>p. run_state (ListAppRepos api p)" lastPage 0 "[]" g] assms(4)
    by (fastforce simp: ListAccessibleRepos_def wrap_pages_def)
  ultimately show ?thesis by simp
qed

section \<open>Commit and read back\<close>

text \<open>C36: what Code Compare shows of a commit. Commit returns the commit of its last attempt, from ga on; let tip be
  the commit that this attempt found at the branch. Then the returned commit is tip itself or has tip as its
  only parent, and when ReadTree later reads the directory of the artifact at it, whatever others have done
  during and after the commit, every pushed file has the pushed content and every other file of the
  directory is that of tip: what others had committed before is kept, and a file that the new version of the
  artifact no longer has stays in it. (No pushed file is a directory at the branch or the other way round.)\<close>

theorem commit_read_back:
  assumes l: "git_laws api v" and u: "untruncated api"
    and commit: "run_state (Commit api order branch tp files msg) g = (Inr sha, g1)"
    and later: "grows v g1 g2" and read: "run_state (ReadTree api sha tp) g2 = (Inr fm, g3)"
    and files: "plain_path tp" "\<forall>f\<in>set files. plain_path (fst f)" "distinct (map fst files)" "\<And>n. mset (order n files) = mset files"
    and clash: "\<And>c. c \<in> gv_tips v g3 (''heads/'' @ branch) \<Longrightarrow> no_clash (paths_at v g3 c) ((\<lambda>f. tp @ ''/'' @ fst f) ` set files)"
  shows "\<exists>n ga tip gb. grows v g ga \<and> run_state (commitOnce api branch tp (order n files) msg) ga = (Inr sha, g1) \<and>
    run_state (GetRef api (''heads/'' @ branch)) ga = (Inr tip, gb) \<and>
    {tip, sha} \<subseteq> gv_tips v g3 (''heads/'' @ branch) \<and> (sha = tip \<or> gv_parents v g3 sha = Some [tip]) \<and>
    (\<forall>rel. map_of fm rel =
       (case map_of files rel of Some content \<Rightarrow> Some content | None \<Rightarrow> file_at v g3 tip (tp @ ''/'' @ rel)))"
proof -
  obtain n ga where ga: "grows v g ga" "run_state (commitOnce api branch tp (order n files) msg) ga = (Inr sha, g1)"
    using Commit_last [OF l commit] by (elim exE conjE)
  obtain tip gb where tip: "run_state (GetRef api (''heads/'' @ branch)) ga = (Inr tip, gb)"
    and p: "pushed v branch tp (order n files) tip sha g1" using commitOnce_pushed [OF l ga(2)] by blast
  have "grows v g1 g3" using later ReadTree_reads(1) [OF l u read] by (rule grows_trans)
  then have p3: "pushed v branch tp (order n files) tip sha g3"
    using p pushed_stable [of v branch tp "order n files" tip sha] unfolding stable_def by blast
  have set: "set (order n files) = set files" using files(4) [of n] by (rule mset_eq_setD)
  have dist: "distinct (map fst (order n files))" using files(3,4) by (metis mset_map mset_eq_imp_distinct_iff)
  have same: "map_of (order n files) = map_of files" using set dist files(3)
    by (intro ext) (metis map_of_eq_Some_iff option.exhaust)
  have "{tip, sha} \<subseteq> gv_tips v g3 (''heads/'' @ branch)" "sha = tip \<or> gv_parents v g3 sha = Some [tip]"
    using p3 by (auto simp: pushed_def committed_def)
  moreover have "map_of fm rel =
       (case map_of files rel of Some content \<Rightarrow> Some content | None \<Rightarrow> file_at v g3 tip (tp @ ''/'' @ rel))" for rel
    using pushed_files [OF p3 files(1) _ dist, unfolded set same, OF files(2) clash] ReadTree_reads(2) [OF l u read] by simp
  ultimately show ?thesis using ga tip by (intro exI [of _ n] exI [of _ ga] exI [of _ tip] exI [of _ gb]) simp
qed

section \<open>A repository\<close>

text \<open>A concrete store of objects and branches that meets the laws; an id is the place of an object, in unary.\<close>

datatype git_object = OBlob string | OTree "(string \<times> string) list" | OCommit string "string list"

record git_store =
  st_objects :: "git_object list"
  st_refs :: "(string \<times> string) list"     \<comment> \<open>the latest first\<close>

definition object_at :: "git_store \<Rightarrow> string \<Rightarrow> git_object option" where
  "object_at g i = (if length i < length (st_objects g) \<and> i = replicate (length i) (CHR ''1'') then Some (st_objects g ! length i) else None)"

definition put_object :: "git_object \<Rightarrow> git_store \<Rightarrow> (gh_error + string) \<times> git_store" where
  "put_object ob g = (Inr (replicate (length (st_objects g)) (CHR ''1'')), g\<lparr>st_objects := st_objects g @ [ob]\<rparr>)"

definition not_there :: "gh_error + 'a" where
  "not_there = Inl (GhErr (Some 404) (ExtErr ''Not Found''))"

definition tree_entries :: "(string \<times> string) list \<Rightarrow> TreeEntry list" where
  "tree_entries m = map (\<lambda>p. \<lparr>te_Path = p, te_Mode = ''100644'', te_Type = ''blob'', te_SHA = the (map_of m p)\<rparr>) (remdups (map fst m))"

definition store_api :: "git_store github_api" where
  "store_api =
    \<lparr>GetRef = (\<lambda>r. State (\<lambda>g. (case map_of (st_refs g) r of None \<Rightarrow> not_there | Some c \<Rightarrow> Inr c, g))),
     GetCommit = (\<lambda>c. State (\<lambda>g. (case object_at g c of Some (OCommit t ps) \<Rightarrow> Inr t | _ \<Rightarrow> not_there, g))),
     CreateBlob = (\<lambda>content encoding. State (\<lambda>g. case DecodeString content of Some b \<Rightarrow> put_object (OBlob b) g | None \<Rightarrow> (not_there, g))),
     CreateTree = (\<lambda>base entries. State (\<lambda>g. case object_at g base of
        Some (OTree m) \<Rightarrow> put_object (OTree (rev (map (\<lambda>en. (te_Path en, te_SHA en)) entries) @ m)) g | _ \<Rightarrow> (not_there, g))),
     CreateCommit = (\<lambda>msg t ps. State (put_object (OCommit t ps))),
     UpdateRef = (\<lambda>r c. State (\<lambda>g. (Inr (), g\<lparr>st_refs := (r, c) # st_refs g\<rparr>))),
     CreateRef = (\<lambda>r c. State (\<lambda>g. (Inr (), g\<lparr>st_refs := (r, c) # st_refs g\<rparr>))),
     CreateFile = (\<lambda>path msg content. State (\<lambda>g. (Inr (), g))),
     GetTree = (\<lambda>c. State (\<lambda>g. (case object_at g c of
        Some (OCommit t ps) \<Rightarrow> (case object_at g t of Some (OTree m) \<Rightarrow> Inr (tree_entries m, False) | _ \<Rightarrow> not_there) | _ \<Rightarrow> not_there, g))),
     GetBlob = (\<lambda>b. State (\<lambda>g. (case object_at g b of Some (OBlob s) \<Rightarrow> Inr (''base64'', EncodeToString s) | _ \<Rightarrow> not_there, g))),
     GetUser = State (\<lambda>g. (Inr ''me'', g)), ListOrgs = (\<lambda>p. State (\<lambda>g. (Inr ([''org''], if p < 2 then 2 else 0), g))),
     ListUserRepos = (\<lambda>p. State (\<lambda>g. (Inr ([], 0), g))), ListOrgRepos = (\<lambda>owner p. State (\<lambda>g. (Inr ([], 0), g))),
     ListAppRepos = (\<lambda>p. State (\<lambda>g. (Inr ([], 0), g)))\<rparr>"

definition store_view :: "git_store git_view" where
  "store_view =
    \<lparr>gv_blob = (\<lambda>g i. case object_at g i of Some (OBlob s) \<Rightarrow> Some s | _ \<Rightarrow> None),
     gv_tree = (\<lambda>g i. case object_at g i of Some (OTree m) \<Rightarrow> Some (map_of m) | _ \<Rightarrow> None),
     gv_commit = (\<lambda>g i. case object_at g i of Some (OCommit t ps) \<Rightarrow> Some t | _ \<Rightarrow> None),
     gv_parents = (\<lambda>g i. case object_at g i of Some (OCommit t ps) \<Rightarrow> Some ps | _ \<Rightarrow> None),
     gv_tips = (\<lambda>g r. snd ` set (filter (\<lambda>e. fst e = r) (st_refs g)))\<rparr>"

lemma object_at_grows:
  "object_at g i = Some ob \<Longrightarrow> object_at (g\<lparr>st_objects := st_objects g @ [ob']\<rparr>) i = Some ob"
  by (auto simp: object_at_def nth_append split: if_splits)

lemma store_grows: "grows store_view g (g\<lparr>st_objects := st_objects g @ [ob]\<rparr>)" "grows store_view g (g\<lparr>st_refs := (r, c) # st_refs g\<rparr>)"
proof -
  have "object_at (g\<lparr>st_refs := R\<rparr>) i = object_at g i" for R i by (simp add: object_at_def)
  then show "grows store_view g (g\<lparr>st_refs := (r, c) # st_refs g\<rparr>)" by (auto simp: grows_def store_view_def)
  show "grows store_view g (g\<lparr>st_objects := st_objects g @ [ob]\<rparr>)"
    by (auto simp: grows_def store_view_def map_le_def object_at_grows split: option.splits git_object.splits)
qed

lemma put_object_at: "put_object ob g = (r, g') \<Longrightarrow> grows store_view g g' \<and> (\<exists>i. r = Inr i \<and> object_at g' i = Some ob)"
  by (auto simp: put_object_def object_at_def store_grows(1))

lemma blobs_tree_entries: "blobs_of (tree_entries m) = map_of m"
proof
  fix p
  have "blobs_of (tree_entries m) p = map_of (map (\<lambda>p. (p, the (map_of m p))) (remdups (map fst m))) p"
    by (simp add: blobs_of_def tree_entries_def filter_map comp_def)
  also have "\<dots> = map_of m p"
  proof (cases "map_of m p")
    case None
    then have "p \<notin> fst ` set m" by (simp add: map_of_eq_None_iff)
    then show ?thesis using None by (simp add: map_of_map_restrict)
  next
    case (Some b)
    then have "p \<in> fst ` set m" by (force dest: map_of_SomeD)
    then show ?thesis using Some by (simp add: map_of_map_restrict)
  qed
  finally show "blobs_of (tree_entries m) p = map_of m p" .
qed

lemma distinct_tree_entries: "distinct (map te_Path (filter (\<lambda>en. te_Type en = ''blob'') (tree_entries m)))"
  by (simp add: tree_entries_def filter_map comp_def)

lemma store_laws: "git_laws store_api store_view"
proof -
  note d = ensures_def store_api_def store_view_def not_there_def
  have "ensures store_view always (GetRef store_api r) (\<lambda>sha g. sha \<in> gv_tips store_view g r)" for r
    by (auto simp: d split: option.split dest!: map_of_SomeD intro!: image_eqI)
  moreover have "ensures store_view always (GetCommit store_api c) (\<lambda>t g. gv_commit store_view g c = Some t)" for c
    by (auto simp: d split: option.split git_object.split)
  moreover have "ensures store_view always (CreateBlob store_api (EncodeToString content) ''base64'') (\<lambda>b g. gv_blob store_view g b = Some content)" for content
    by (auto simp: ensures_def store_api_def store_view_def Decode_Encode dest!: put_object_at split: prod.split)
  moreover have "ensures store_view always (CreateTree store_api base entries) (\<lambda>t g. \<exists>m. gv_tree store_view g base = Some m \<and>
        (no_clash (dom m) (te_Path ` set entries) \<longrightarrow> gv_tree store_view g t = Some (overlay m entries)))" for base entries
  proof (unfold ensures_def, intro allI impI)
    fix g
    show "case run_state (CreateTree store_api base entries) g of (r, g') \<Rightarrow> grows store_view g g' \<and> (case r of Inl e \<Rightarrow> True
      | Inr t \<Rightarrow> \<exists>m. gv_tree store_view g' base = Some m \<and>
        (no_clash (dom m) (te_Path ` set entries) \<longrightarrow> gv_tree store_view g' t = Some (overlay m entries)))"
    proof (cases "\<exists>m. object_at g base = Some (OTree m)")
      case True
      then obtain m where m: "object_at g base = Some (OTree m)" by blast
      obtain r g' where p: "put_object (OTree (rev (map (\<lambda>en. (te_Path en, te_SHA en)) entries) @ m)) g = (r, g')" by fastforce
      from put_object_at [OF p] obtain i where i: "grows store_view g g'" "r = Inr i"
        "object_at g' i = Some (OTree (rev (map (\<lambda>en. (te_Path en, te_SHA en)) entries) @ m))" by blast
      have "gv_tree store_view g base = Some (map_of m)" using m by (simp add: store_view_def)
      then have "gv_tree store_view g' base = Some (map_of m)" by (rule growsD(2) [OF i(1)])
      moreover have "gv_tree store_view g' i = Some (overlay (map_of m) entries)" using i(3) by (simp add: store_view_def overlay_def)
      ultimately show ?thesis using i m p by (simp add: store_api_def)
    next
      case False
      then have "run_state (CreateTree store_api base entries) g = (not_there, g)"
        by (auto simp: store_api_def split: option.split git_object.split)
      then show ?thesis by (simp add: not_there_def)
    qed
  qed
  moreover have "ensures store_view always (CreateCommit store_api msg t ps)
      (\<lambda>c g. gv_commit store_view g c = Some t \<and> gv_parents store_view g c = Some ps)" for msg t ps
    by (auto simp: ensures_def store_api_def store_view_def dest!: put_object_at split: prod.split)
  moreover have "ensures store_view always (UpdateRef store_api r c) (\<lambda>_ g. c \<in> gv_tips store_view g r)" for r c
  proof -
    have "c \<in> gv_tips store_view (g\<lparr>st_refs := (r, c) # st_refs g\<rparr>) r" for g by (force simp: store_view_def)
    then show ?thesis using store_grows(2) by (simp add: ensures_def store_api_def)
  qed
  moreover have "ensures store_view always (CreateRef store_api r c) (\<lambda>_ g. True)" for r c
    using store_grows(2) by (simp add: ensures_def store_api_def)
  moreover have "ensures store_view always (GetTree store_api c) (\<lambda>(entries, truncated) g. \<not> truncated \<longrightarrow>
        (\<exists>t. gv_commit store_view g c = Some t \<and> gv_tree store_view g t = Some (blobs_of entries)) \<and>
        distinct (map te_Path (filter (\<lambda>en. te_Type en = ''blob'') entries)))" for c
    by (auto simp: d blobs_tree_entries distinct_tree_entries split: option.split git_object.split)
  moreover have "ensures store_view always (GetBlob store_api b) (\<lambda>(encoding, body) g. \<exists>bytes. gv_blob store_view g b = Some bytes \<and>
        (encoding = ''base64'' \<longrightarrow> filter (\<lambda>c. c \<notin> {CHR 0x0A, CHR 0x0D}) body = EncodeToString bytes) \<and>
        (encoding = ''utf-8'' \<or> encoding = [] \<longrightarrow> body = bytes))" for b
  proof -
    have "filter (\<lambda>c. c \<notin> {CHR 0x0A, CHR 0x0D}) (EncodeToString s) = EncodeToString s" for s
      using encode_one_line [of s] by (auto simp: filter_id_conv)
    then show ?thesis by (auto simp: d split: option.split git_object.split)
  qed
  ultimately show ?thesis unfolding git_laws_def by blast
qed

lemma store_untruncated: "untruncated store_api"
  by (auto simp: untruncated_def store_api_def not_there_def split: option.splits git_object.splits)

theorem discovery_returns_witness:
  "ListOwners store_api \<lparr>st_objects = [], st_refs = []\<rparr> \<noteq> None"
  by (rule conjunct1 [OF discovery_returns [of store_api 2 "''org''" "\<lparr>st_objects = [], st_refs = []\<rparr>" "''User''"]])
    (auto simp: store_api_def split: if_splits)

text \<open>An artifact whose new version has another file: a branch whose tip holds the file o of the old version, a commit
  of the file n, and the reading of that commit.\<close>

definition demo_store :: git_store where
  "demo_store = \<lparr>st_objects = [OBlob ''x'', OTree [(''p/a/o'', []), (''q'', [])], OCommit ''1'' []],
     st_refs = [(''heads/tenant/qa'', ''11'')]\<rparr>"

lemma demo_commit:
  "run_state (Commit store_api (\<lambda>n fs. fs) ''tenant/qa'' ''p/a'' [(''n'', ''y'')] ''m'') demo_store =
     (Inr ''11111'', \<lparr>st_objects = [OBlob ''x'', OTree [(''p/a/o'', []), (''q'', [])], OCommit ''1'' [], OBlob ''y'',
        OTree [(''p/a/n'', ''111''), (''p/a/o'', []), (''q'', [])], OCommit ''1111'' [''11'']],
      st_refs = [(''heads/tenant/qa'', ''11111''), (''heads/tenant/qa'', ''11'')]\<rparr>)"
  by code_simp

definition demo_after :: git_store where
  "demo_after = snd (run_state (Commit store_api (\<lambda>n fs. fs) ''tenant/qa'' ''p/a'' [(''n'', ''y'')] ''m'') demo_store)"

lemma demo_read: "run_state (ReadTree store_api ''11111'' ''p/a'') demo_after = (Inr [(''n'', ''y''), (''o'', ''x'')], demo_after)"
  by code_simp

lemma demo_objects:
  "object_at demo_after ''1'' = Some (OTree [(''p/a/o'', []), (''q'', [])])"
  "object_at demo_after ''11'' = Some (OCommit ''1'' [])"
  "object_at demo_after ''1111'' = Some (OTree [(''p/a/n'', ''111''), (''p/a/o'', []), (''q'', [])])"
  "object_at demo_after ''11111'' = Some (OCommit ''1111'' [''11''])"
  "st_refs demo_after = [(''heads/tenant/qa'', ''11111''), (''heads/tenant/qa'', ''11'')]"
  by code_simp+

lemma demo_tips: "gv_tips store_view demo_after ''heads/tenant/qa'' = {''11111'', ''11''}"
  by (simp add: store_view_def demo_objects del: set_filter)

lemma demo_paths: "paths_at store_view demo_after ''11111'' = {''p/a/n'', ''p/a/o'', ''q''}"
  "paths_at store_view demo_after ''11'' = {''p/a/o'', ''q''}"
  by (simp_all add: paths_at_def store_view_def demo_objects dom_map_of_conv_image_fst)

theorem commit_read_back_witness:
  "\<exists>tip. {tip, ''11111''} \<subseteq> gv_tips store_view demo_after ''heads/tenant/qa'' \<and>
    (''11111'' = tip \<or> gv_parents store_view demo_after ''11111'' = Some [tip]) \<and>
    file_at store_view demo_after tip ''p/a/o'' = Some ''x''"
proof -
  have plain: "plain_path ''p/a''" "plain_path ''n''" by (simp_all add: plain_path_def Split_def)
  have run: "run_state (Commit store_api (\<lambda>n fs. fs) ''tenant/qa'' ''p/a'' [(''n'', ''y'')] ''m'') demo_store = (Inr ''11111'', demo_after)"
    unfolding demo_after_def demo_commit by simp
  have clash: "no_clash (paths_at store_view demo_after c) ((\<lambda>f. ''p/a'' @ ''/'' @ fst f) ` set [(''n'', ''y'')])"
    if "c \<in> gv_tips store_view demo_after (''heads/'' @ ''tenant/qa'')" for c
  proof -
    have "c = ''11111'' \<or> c = ''11''" using that demo_tips by simp
    then show ?thesis by (elim disjE) (simp_all add: demo_paths no_clash_def HasPrefix_def)
  qed
  have "\<exists>n ga tip gb. grows store_view demo_store ga \<and>
    run_state (commitOnce store_api ''tenant/qa'' ''p/a'' ((\<lambda>n fs. fs) (n::nat) [(''n'', ''y'')]) ''m'') ga = (Inr ''11111'', demo_after) \<and>
    run_state (GetRef store_api (''heads/'' @ ''tenant/qa'')) ga = (Inr tip, gb) \<and>
    {tip, ''11111''} \<subseteq> gv_tips store_view demo_after (''heads/'' @ ''tenant/qa'') \<and>
    (''11111'' = tip \<or> gv_parents store_view demo_after ''11111'' = Some [tip]) \<and>
    (\<forall>rel. map_of [(''n'', ''y''), (''o'', ''x'')] rel =
       (case map_of [(''n'', ''y'')] rel of Some content \<Rightarrow> Some content | None \<Rightarrow> file_at store_view demo_after tip (''p/a'' @ ''/'' @ rel)))"
    by (rule commit_read_back [OF store_laws store_untruncated run grows_refl demo_read plain(1) _ _ _ clash]) (simp_all add: plain(2))
  then obtain tip where tip: "{tip, ''11111''} \<subseteq> gv_tips store_view demo_after (''heads/'' @ ''tenant/qa'')"
    "''11111'' = tip \<or> gv_parents store_view demo_after ''11111'' = Some [tip]"
    and same: "\<forall>rel. map_of [(''n'', ''y''), (''o'', ''x'')] rel =
         (case map_of [(''n'', ''y'')] rel of Some content \<Rightarrow> Some content | None \<Rightarrow> file_at store_view demo_after tip (''p/a'' @ ''/'' @ rel))"
    by (elim exE conjE) (rule that)
  have "file_at store_view demo_after tip ''p/a/o'' = Some ''x''" using same [rule_format, of "''o''"] by simp
  moreover have "{tip, ''11111''} \<subseteq> gv_tips store_view demo_after ''heads/tenant/qa''" using tip(1) by simp
  ultimately show ?thesis using tip(2) by (intro exI [of _ tip] conjI)
qed

end
