(* ===== verification/GitApp.thy ===== *)
theory GitApp
  imports GitHub Bootstrap OneTime GitSync
begin

text \<open>
  pkg/github/manifest.go, pkg/github/uninstall.go, handler/git_app_manifest.go and the Git configuration of
  handler/system.go: how the one row of git_repo_configs comes about, by hand for a personal access token or
  by the callbacks of a GitHub App. GitHub's answers, its libraries and the Destination Service are
  parameters; what is changed there is recorded in cf_calls.
\<close>

section \<open>States of the browser round trip\<close>

definition DefaultStateTTL :: time where "DefaultStateTTL = 15 * 60 * 10 ^ 9"

record state_entry =
  st_payload :: string
  st_expires :: time

type_synonym state_store = "string \<rightharpoonup> state_entry"

definition gcLocked :: "time \<Rightarrow> state_store \<Rightarrow> state_store" where
  "gcLocked now S = (\<lambda>k. case S k of None \<Rightarrow> None | Some e \<Rightarrow> if now > st_expires e then None else Some e)"

text \<open>Issue with the token that the generator draws.\<close>

definition Issue :: "string \<Rightarrow> string \<Rightarrow> time \<Rightarrow> state_store \<Rightarrow> state_store" where
  "Issue token payload now S = (gcLocked now S)(token \<mapsto> \<lparr>st_payload = payload, st_expires = now + DefaultStateTTL\<rparr>)"

definition Consume :: "string \<Rightarrow> time \<Rightarrow> state_store \<Rightarrow> string option \<times> state_store" where
  "Consume token now S =
     (if token = [] then (None, S)
      else case S token of
        None \<Rightarrow> (None, S)
      | Some e \<Rightarrow> (if now > st_expires e then None else Some (st_payload e), S(token := None)))"

section \<open>Addresses\<close>

definition ResolveGitHubWebBase :: "gh_library \<Rightarrow> string \<Rightarrow> string" where
  "ResolveGitHubWebBase lib destURL =
     (case resolveGitHubBaseURLs (UrlHost lib) destURL of
        (isGHES, apiBaseURL, u) \<Rightarrow> if isGHES then TrimSuffix apiBaseURL ''/api/v3'' else ''https://github.com'')"

definition NewAppURL :: "gh_library \<Rightarrow> string \<Rightarrow> string \<Rightarrow> string" where
  "NewAppURL lib destURL org =
     ResolveGitHubWebBase lib destURL @
       (if org = [] then ''/settings/apps/new'' else ''/organizations/'' @ PathEscape org @ ''/settings/apps/new'')"

definition InstallURL :: "gh_library \<Rightarrow> string \<Rightarrow> string \<Rightarrow> string \<Rightarrow> string \<Rightarrow> string" where
  "InstallURL lib destURL ownerType owner slug =
     ResolveGitHubWebBase lib destURL @
       (if EqualFold ownerType ''Organization''
        then ''/organizations/'' @ PathEscape owner @ ''/settings/apps/'' @ PathEscape slug @ ''/installations''
        else ''/settings/apps/'' @ PathEscape slug @ ''/installations'')"

definition AppSettingsURL :: "gh_library \<Rightarrow> string \<Rightarrow> string \<Rightarrow> string \<Rightarrow> string \<Rightarrow> string" where
  "AppSettingsURL lib destURL ownerType owner slug =
     ResolveGitHubWebBase lib destURL @
       (if EqualFold ownerType ''Organization''
        then ''/organizations/'' @ PathEscape owner @ ''/settings/apps/'' @ PathEscape slug
        else ''/settings/apps/'' @ PathEscape slug)"

definition AppAdvancedURL :: "gh_library \<Rightarrow> string \<Rightarrow> string \<Rightarrow> string \<Rightarrow> string \<Rightarrow> string" where
  "AppAdvancedURL lib destURL ownerType owner slug =
     ResolveGitHubWebBase lib destURL @
       (if EqualFold ownerType ''Organization''
        then ''/organizations/'' @ PathEscape owner @ ''/settings/apps/'' @ PathEscape slug @ ''/advanced''
        else ''/settings/apps/'' @ PathEscape slug @ ''/advanced'')"

section \<open>The App\<close>

record AppManifest =
  am_Name :: string
  am_Description :: string
  am_URL :: string
  am_RedirectURL :: string
  am_SetupURL :: string
  am_Public :: bool
  am_DefaultPermissions :: "(string \<times> string) list"

definition BuildManifest :: "string \<Rightarrow> string \<Rightarrow> string \<Rightarrow> string \<Rightarrow> string \<Rightarrow> AppManifest" where
  "BuildManifest name description appHomeURL redirectURL setupURL =
    \<lparr>am_Name = name, am_Description = description, am_URL = appHomeURL, am_RedirectURL = redirectURL,
     am_SetupURL = setupURL, am_Public = False, am_DefaultPermissions = [(''contents'', ''write'')]\<rparr>"

definition GenerateAppName :: "string \<Rightarrow> string" where
  "GenerateAppName fresh = ''delivery-orch-'' @ fresh"

definition IsNameTaken :: "gerr \<Rightarrow> bool" where
  "IsNameTaken e \<longleftrightarrow> Contains (ToLower (err_text e)) ''already''"

record AppCredentials =
  ac_AppID :: int
  ac_Slug :: string
  ac_Owner :: string
  ac_OwnerType :: string
  ac_PEM :: string

text \<open>The surroundings of the flow: the deployment, the libraries and the calls of GitHub. Convert exchanges the
  code of a manifest at an enterprise server or the public one; AppsTransport is the transport for an
  App's own token, DeleteInstallation the call made with it.\<close>

record app_env =
  ae_lib :: gh_library
  ae_URIs :: "string list"
  ae_AppName :: string
  ae_SpaceName :: string
  ae_Convert :: "(string \<times> string) option \<Rightarrow> string \<Rightarrow> gerr + AppCredentials"
  ae_AppsTransport :: "int \<Rightarrow> string \<Rightarrow> gerr + unit"
  ae_DeleteInstallation :: "int \<Rightarrow> (string \<times> string) option \<Rightarrow> int \<Rightarrow> gerr + unit"
  ae_DeleteDestination :: "string \<Rightarrow> gerr + unit"

definition enterprise_of :: "gh_library \<Rightarrow> string \<Rightarrow> (string \<times> string) option" where
  "enterprise_of lib destURL =
     (case resolveGitHubBaseURLs (UrlHost lib) destURL of (isGHES, apiBaseURL, uploadURL) \<Rightarrow> if isGHES then Some (apiBaseURL, uploadURL) else None)"

definition newUnauthenticatedClient :: "gh_library \<Rightarrow> string \<Rightarrow> gerr + (string \<times> string) option" where
  "newUnauthenticatedClient lib destURL =
     (let enterprise = enterprise_of lib destURL in
      case NewClient lib None enterprise of
        Inl e \<Rightarrow> err (if enterprise = None then Errw ''create github client: %w'' [] e else Errw ''create github enterprise client: %w'' [] e)
      | Inr _ \<Rightarrow> ok enterprise)"

definition CompleteAppManifest :: "app_env \<Rightarrow> string \<Rightarrow> string \<Rightarrow> gerr + AppCredentials" where
  "CompleteAppManifest ae destURL code =
     (case newUnauthenticatedClient (ae_lib ae) destURL of
        Inl e \<Rightarrow> err e
      | Inr enterprise \<Rightarrow>
          (case ae_Convert ae enterprise code of
             Inl e \<Rightarrow> err (Errw ''complete app manifest: %w'' [] e)
           | Inr cfg \<Rightarrow>
               if ac_AppID cfg = 0 \<or> ac_PEM cfg = [] then err (Errf ''manifest conversion returned incomplete app config (missing id or pem)'' [])
               else ok cfg))"

definition UninstallApp :: "env \<Rightarrow> app_env \<Rightarrow> string \<Rightarrow> int \<Rightarrow> int \<Rightarrow> (gerr + unit) prog" where
  "UninstallApp env ae destName appID installationID =
     (case ProviderGetDestination env destName of
        Inl e \<Rightarrow> failwith (Errw ''github destination %s not found: %w'' [Str destName] e)
      | Inr None \<Rightarrow> failwith (Errf ''github destination %s not found'' [Str destName])
      | Inr (Some dest) \<Rightarrow>
          if de_Password dest = [] then failwith (Errf ''github destination %s has no password (base64 app private key)'' [Str destName])
          else case DecodeString (de_Password dest) of
            None \<Rightarrow> failwith (Errw ''decode github app private key from destination %s: %w'' [Str destName] (ExtErr ''illegal base64 data''))
          | Some keyPEM \<Rightarrow>
              (case ae_AppsTransport ae appID keyPEM of
                 Inl e \<Rightarrow> failwith (Errw ''create github app-jwt transport: %w'' [] e)
               | Inr _ \<Rightarrow>
                   (let enterprise = enterprise_of (ae_lib ae) (de_URL dest) in
                    case NewClient (ae_lib ae) (Some (AppJwt appID keyPEM (map_option fst enterprise))) enterprise of
                      Inl e \<Rightarrow> failwith (Errw ''create github app client: %w'' [] e)
                    | Inr _ \<Rightarrow>
                        (case ae_DeleteInstallation ae appID enterprise installationID of
                           Inl e \<Rightarrow> failwith (Errw ''delete installation %d: %w'' [IntArg installationID] e)
                         | Inr _ \<Rightarrow> do { _ \<leftarrow> cf_call (InstallationDelete appID installationID); done_with () }))))"

section \<open>The manifest flow\<close>

datatype gitAppRedirectReason =
  reasonInvalidState | reasonMissingCode | reasonNameTaken | reasonManifestConversionFailed | reasonDestinationWriteFailed
| reasonConfigWriteFailed | reasonMissingInstallationID | reasonNoConfig

definition gitAppCallbackPath :: string where "gitAppCallbackPath = ''/api/v1/system/gitApp/callback''"
definition gitAppSetupPath :: string where "gitAppSetupPath = ''/api/v1/system/gitApp/setup''"

definition cfAppBaseURL :: "app_env \<Rightarrow> bool \<Rightarrow> string \<Rightarrow> string" where
  "cfAppBaseURL ae tls host =
     (case ae_URIs ae of u # us \<Rightarrow> ''https://'' @ u | [] \<Rightarrow> (if tls then ''https'' else ''http'') @ ''://'' @ host)"

definition buildAppDescription :: "env \<Rightarrow> app_env \<Rightarrow> time \<Rightarrow> string \<Rightarrow> string" where
  "buildAppDescription env ae now baseURL =
     (let appName = (if ae_AppName ae = [] then ''unknown'' else ae_AppName ae); nl = [CHR 0x0A] in
      ''Auto-registered by **'' @ appName @ ''** to sync SAP Cloud Integration artifacts '' @
      ''to GitHub for version control and code comparison.'' @ nl @ nl @ ''| Property | Value |'' @ nl @ ''|----------|-------|'' @ nl @
      ''| Application | '' @ appName @ '' |'' @ nl @ ''| URL | '' @ baseURL @ '' |'' @ nl @
      (if ae_SpaceName ae = [] then [] else ''| Space | '' @ ae_SpaceName ae @ '' |'' @ nl) @
      ''| Registered | '' @ FormatTime env ''2006-01-02 15:04 UTC'' now @ '' |'' @ nl)"

text \<open>The post URL, the manifest and the state; fresh names the App, token is the state drawn.\<close>

definition StartGitAppManifest ::
  "env \<Rightarrow> app_env \<Rightarrow> string \<Rightarrow> string \<Rightarrow> string \<Rightarrow> bool \<Rightarrow> string \<Rightarrow> string \<Rightarrow> string \<Rightarrow> time \<Rightarrow> state_store \<Rightarrow>
     (http + string \<times> AppManifest \<times> string) \<times> state_store" where
  "StartGitAppManifest env ae githubURL accountType orgName tls host fresh token now S =
     (if accountType = ''org'' \<and> orgName = [] then (Inl (400, Errf ''org is required when accountType=org'' []), S)
      else
        (let org = (if accountType = ''org'' then orgName else []); base = cfAppBaseURL ae tls host;
             manifest = BuildManifest (GenerateAppName fresh) (buildAppDescription env ae now base) base
               (base @ gitAppCallbackPath) (base @ gitAppSetupPath) in
         (Inr (NewAppURL (ae_lib ae) githubURL org @ ''?state='' @ QueryEscape token, manifest, token), Issue token githubURL now S)))"

definition zero_gitcfg :: GitRepoConfig where
  "zero_gitcfg = \<lparr>gc_ID = 0, gc_AuthMethod = [], gc_Provider = [], gc_Repo = [], gc_Enabled = False, gc_DestinationName = [],
     gc_Owner = [], gc_GithubAppID = 0, gc_GithubInstallationID = 0, gc_GithubOwnerType = [], gc_GithubAppSlug = []\<rparr>"

definition create_gitcfg :: "GitRepoConfig \<Rightarrow> (gerr + GitRepoConfig list) prog" where
  "create_gitcfg c = db_create GitCfgs db_gitcfg db_gitcfg_update gc_ID (\<lambda>n r. r\<lparr>gc_ID := n\<rparr>) [c]"

definition save_gitcfg :: "GitRepoConfig \<Rightarrow> (gerr + GitRepoConfig) prog" where
  "save_gitcfg c = db_save GitCfgs db_gitcfg db_gitcfg_update gc_ID (\<lambda>n r. r\<lparr>gc_ID := n\<rparr>) c"

definition app_destination :: "string \<Rightarrow> AppCredentials \<Rightarrow> Destination" where
  "app_destination githubURL creds =
    \<lparr>de_Name = ''github-app-'' @ ac_Slug creds,
     de_Description = Errf ''DO NOT MODIFY. GitHub App private key for CPI Delivery git sync. Auto-created by manifest flow.'' [],
     de_Type = ''HTTP'', de_URL = (if githubURL = [] then ''https://github.com'' else githubURL),
     de_Authentication = ''BasicAuthentication'', de_ProxyType = ''Internet'', de_TokenServiceURL = [],
     de_TokenServiceURLType = [], de_ClientId = [], de_ClientSecret = [],
     de_User = ''github-app:'' @ show_int (ac_AppID creds), de_Password = EncodeToString (ac_PEM creds), de_Port = [], de_SourceSystemId = []\<rparr>"

definition app_config :: "AppCredentials \<Rightarrow> GitRepoConfig \<Rightarrow> GitRepoConfig" where
  "app_config creds c =
     c\<lparr>gc_Provider := ''github'', gc_AuthMethod := AuthMethodGitHubApp, gc_DestinationName := ''github-app-'' @ ac_Slug creds,
       gc_GithubAppID := ac_AppID creds, gc_Owner := ac_Owner creds, gc_GithubOwnerType := ac_OwnerType creds,
       gc_GithubAppSlug := ac_Slug creds\<rparr>"

text \<open>The row is created when First returns any error.\<close>

definition save_app_config :: "AppCredentials \<Rightarrow> (gitAppRedirectReason + unit) prog" where
  "save_app_config creds = do {
     r \<leftarrow> db_first db_gitcfg (\<lambda>_. True);
     case r of
       Inl e \<Rightarrow> onerr (create_gitcfg (app_config creds zero_gitcfg)) (\<lambda>e. reasonConfigWriteFailed) (\<lambda>_. done_with ())
     | Inr existing \<Rightarrow> onerr (save_gitcfg (app_config creds existing)) (\<lambda>e. reasonConfigWriteFailed) (\<lambda>_. done_with ())
   }"

definition complete_app :: "env \<Rightarrow> app_env \<Rightarrow> string \<Rightarrow> string \<Rightarrow> (gitAppRedirectReason + string) prog" where
  "complete_app env ae githubURL code =
     (if code = [] then failwith reasonMissingCode
      else case CompleteAppManifest ae githubURL code of
        Inl e \<Rightarrow> failwith (if IsNameTaken e then reasonNameTaken else reasonManifestConversionFailed)
      | Inr creds \<Rightarrow>
          (case ProviderUpsertDestination env (app_destination githubURL creds) of
             Inl e \<Rightarrow> failwith reasonDestinationWriteFailed
           | Inr _ \<Rightarrow> do {
               _ \<leftarrow> cf_call (ProviderUpsert (app_destination githubURL creds));
               onerr (save_app_config creds) id
                 (\<lambda>_. done_with (InstallURL (ae_lib ae) githubURL (ac_OwnerType creds) (ac_Owner creds) (ac_Slug creds)))
             }))"

definition GitAppManifestCallback ::
  "env \<Rightarrow> app_env \<Rightarrow> string \<Rightarrow> string \<Rightarrow> state_store \<Rightarrow> ((gitAppRedirectReason + string) \<times> state_store) prog" where
  "GitAppManifestCallback env ae code state S = do {
     now \<leftarrow> gets clock;
     case Consume state now S of
       (None, S1) \<Rightarrow> State_Monad.return (Inl reasonInvalidState, S1)
     | (Some githubURL, S1) \<Rightarrow> do {
         r \<leftarrow> complete_app env ae githubURL code;
         State_Monad.return (r, S1)
       }
   }"

definition GitAppSetupCallback :: "string \<Rightarrow> (gitAppRedirectReason + unit) prog" where
  "GitAppSetupCallback installation_id =
     (case Atoi installation_id of
        None \<Rightarrow> failwith reasonMissingInstallationID
      | Some instID \<Rightarrow>
          if instID = 0 then failwith reasonMissingInstallationID
          else onerr (db_first db_gitcfg (\<lambda>_. True)) (\<lambda>e. reasonNoConfig) (\<lambda>cfg.
               onerr (save_gitcfg (cfg\<lparr>gc_GithubInstallationID := instID\<rparr>)) (\<lambda>e. reasonConfigWriteFailed) (\<lambda>_. done_with ())))"

text \<open>The URL of the destination, the public GitHub where it cannot be read.\<close>

definition dest_url :: "env \<Rightarrow> string \<Rightarrow> string" where
  "dest_url env destName =
     (case ProviderGetDestination env destName of
        Inr (Some dest) \<Rightarrow> if de_URL dest \<noteq> [] then de_URL dest else ''https://github.com''
      | _ \<Rightarrow> ''https://github.com'')"

definition GetGitAppInstallURL :: "env \<Rightarrow> app_env \<Rightarrow> (http + string) prog" where
  "GetGitAppInstallURL env ae =
     onerr (db_first db_gitcfg (\<lambda>_. True)) (\<lambda>e. (404, Errf ''no GitRepoConfig found'' [])) (\<lambda>config.
     if gc_AuthMethod config \<noteq> AuthMethodGitHubApp then failwith (400, Errf ''install URL is only valid in github_app mode'' [])
     else if gc_GithubAppID config = 0 then failwith (409, Errf ''GitHub App not registered yet'' [])
     else if gc_GithubInstallationID config \<noteq> 0 then failwith (400, Errf ''GitHub App already installed'' [])
     else done_with (InstallURL (ae_lib ae) (dest_url env (gc_DestinationName config))
            (gc_GithubOwnerType config) (gc_Owner config) (gc_GithubAppSlug config)))"

text \<open>Unscoped Delete removes the row for good.\<close>

definition db_remove_gitcfg :: "nat \<Rightarrow> (gerr + unit) prog" where
  "db_remove_gitcfg i = stmt (\<lambda>w. (Inr (), db_gitcfg_update (filter (\<lambda>c. gc_ID c \<noteq> i)) w))"

definition GitAppDisconnect :: "env \<Rightarrow> app_env \<Rightarrow> (http + string) prog" where
  "GitAppDisconnect env ae =
     onerr (db_first db_gitcfg (\<lambda>_. True)) (\<lambda>e. (404, Errf ''no GitRepoConfig found'' [])) (\<lambda>config.
     if gc_AuthMethod config \<noteq> AuthMethodGitHubApp then failwith (400, Errf ''git repo config is not in github_app mode'' [])
     else do {
       _ \<leftarrow> (if gc_GithubInstallationID config \<noteq> 0
             then UninstallApp env ae (gc_DestinationName config) (gc_GithubAppID config) (gc_GithubInstallationID config)
             else done_with ());
       _ \<leftarrow> (case ae_DeleteDestination ae (gc_DestinationName config) of
               Inl e \<Rightarrow> State_Monad.return ()
             | Inr _ \<Rightarrow> cf_call (ProviderDelete (gc_DestinationName config)));
       onerr (db_remove_gitcfg (gc_ID config)) (\<lambda>e. (500, Errf ''failed to remove git repo config'' []))
         (\<lambda>_. done_with (AppAdvancedURL (ae_lib ae) (dest_url env (gc_DestinationName config))
                 (gc_GithubOwnerType config) (gc_Owner config) (gc_GithubAppSlug config)))
     })"

section \<open>The configuration by hand\<close>

definition SupportedProviders :: "string list" where "SupportedProviders = [''github'']"

text \<open>The number of snapshots that refer to the old target, when there are any; the error of Count is not looked at.\<close>

definition snapshotImpactWarning :: "bool \<Rightarrow> message option prog" where
  "snapshotImpactWarning changed =
     (if \<not> changed then State_Monad.return None
      else do {
        r \<leftarrow> db_query (\<lambda>w. length (filter (\<lambda>s. gs_Status s = ''completed'') (db_snaps w)));
        let count = (case r of Inl e \<Rightarrow> 0 | Inr n \<Rightarrow> n);
        State_Monad.return (if count = 0 then None
          else Some (Errf (''Repository target changed. %d existing snapshot(s) reference the old repository '' @ [CHR 0xE2, CHR 0x80, CHR 0x94] @
            '' their Code Compare may become unavailable.'') [Num count]))
      })"

definition updateGitAppTarget :: "GitRepoConfig \<Rightarrow> (http + GitRepoConfig \<times> message option) prog" where
  "updateGitAppTarget req =
     (if gc_Repo req = [] then failwith (400, Errf ''repo is required'' [])
      else onerr (db_first db_gitcfg (\<lambda>_. True))
        (\<lambda>e. (409, Errf ''GitHub App not registered yet; complete the App registration flow first'' [])) (\<lambda>existing.
      if gc_AuthMethod existing \<noteq> AuthMethodGitHubApp then failwith (409, Errf ''existing git repo config is not in github_app mode'' [])
      else if gc_GithubAppID existing = 0 \<or> gc_GithubInstallationID existing = 0 then
        failwith (409, Errf ''GitHub App not fully installed yet (missing app or installation id)'' [])
      else do {
        warning \<leftarrow> snapshotImpactWarning (gc_Repo existing \<noteq> gc_Repo req);
        onerr (save_gitcfg (existing\<lparr>gc_Repo := gc_Repo req, gc_Enabled := gc_Enabled req\<rparr>))
          (\<lambda>e. (500, Errf ''failed to update git repo config: %s'' [Verb e])) (\<lambda>c. done_with (c, warning))
      }))"

definition pat_config :: "GitRepoConfig \<Rightarrow> GitRepoConfig \<Rightarrow> GitRepoConfig" where
  "pat_config req existing =
     existing\<lparr>gc_Provider := gc_Provider req, gc_DestinationName := gc_DestinationName req, gc_Owner := gc_Owner req,
       gc_Repo := gc_Repo req, gc_Enabled := gc_Enabled req, gc_AuthMethod := AuthMethodPAT, gc_GithubAppID := 0,
       gc_GithubInstallationID := 0, gc_GithubOwnerType := [], gc_GithubAppSlug := []\<rparr>"

definition UpsertGitRepoConfig :: "GitRepoConfig \<Rightarrow> (http + GitRepoConfig \<times> message option) prog" where
  "UpsertGitRepoConfig req =
     (if gc_AuthMethod req = AuthMethodGitHubApp then updateGitAppTarget req
      else if gc_Provider req = [] \<or> gc_DestinationName req = [] \<or> gc_Repo req = [] then
        failwith (400, Errf ''provider, destinationName, and repo are required'' [])
      else if gc_Owner req = [] then failwith (400, Errf ''owner is required for Personal Access Token(PAT) mode'' [])
      else do {
        r \<leftarrow> db_first db_gitcfg (\<lambda>_. True);
        case r of
          Inl e \<Rightarrow>
            onerr (create_gitcfg (req\<lparr>gc_AuthMethod := AuthMethodPAT\<rparr>))
              (\<lambda>e. (500, Errf ''failed to create git repo config: %s'' [Verb e])) (\<lambda>cs. done_with (hd cs, None))
        | Inr existing \<Rightarrow> do {
            warning \<leftarrow> snapshotImpactWarning (gc_Owner existing \<noteq> gc_Owner req \<or> gc_Repo existing \<noteq> gc_Repo req \<or>
              gc_DestinationName existing \<noteq> gc_DestinationName req);
            onerr (save_gitcfg (pat_config req existing)) (\<lambda>e. (500, Errf ''failed to update git repo config: %s'' [Verb e]))
              (\<lambda>c. done_with (c, warning))
          }
      })"

definition gitHubAppModeConfigured :: "bool prog" where
  "gitHubAppModeConfigured = do {
     r \<leftarrow> db_first db_gitcfg (\<lambda>_. True);
     State_Monad.return (case r of Inl e \<Rightarrow> False | Inr config \<Rightarrow> gc_AuthMethod config = AuthMethodGitHubApp)
   }"

text \<open>The stored configuration, with the page of the App's settings.\<close>

definition GetGitRepoConfig :: "env \<Rightarrow> app_env \<Rightarrow> (GitRepoConfig \<times> string) prog" where
  "GetGitRepoConfig env ae = do {
     r \<leftarrow> db_first db_gitcfg (\<lambda>_. True);
     State_Monad.return (case r of
       Inl e \<Rightarrow> (zero_gitcfg, [])
     | Inr config \<Rightarrow> (config,
         if gc_AuthMethod config = AuthMethodGitHubApp \<and> gc_GithubAppSlug config \<noteq> []
         then AppSettingsURL (ae_lib ae) (dest_url env (gc_DestinationName config)) (gc_GithubOwnerType config) (gc_Owner config) (gc_GithubAppSlug config)
         else []))
   }"



section \<open>The states\<close>

interpretation app_states: one_time "\<lambda>S k. S k \<noteq> None" Issue Consume
proof
  show "S k \<noteq> None" if "Consume k t S = (Some p, S')" for k t S p S'
    using that by (auto simp: Consume_def split: if_splits option.splits)
  show "\<not> S' k \<noteq> None" if "Consume k t S = (Some p, S')" for k t S p S'
    using that by (auto simp: Consume_def split: if_splits option.splits)
  show "S j \<noteq> None" if "Consume k t S = (r, S')" "S' j \<noteq> None" for k t S r S' j
    using that by (auto simp: Consume_def split: if_splits option.splits)
  show "j = k \<or> S j \<noteq> None" if "Issue k p t S j \<noteq> None" for k p t S j
    using that by (auto simp: Issue_def gcLocked_def split: if_splits option.splits)
qed

lemma Consume_valid:
  "Consume k t S = (Some p, S') \<Longrightarrow> S' k = None \<and> (\<exists>e. S k = Some e \<and> t \<le> st_expires e)"
  by (auto simp: Consume_def split: if_splits option.splits)

text \<open>C38: only a round trip that the service started ends in a new GitHub App: the callback changes the configuration
  or a destination only for a state that was issued, has not expired and is used up by it, and over any
  sequence of operations of the store a state is accepted at most as often as it was issued.\<close>

theorem app_state_guards:
  "(\<forall>w r S' w'. run_state (GitAppManifestCallback env ae code state S) w = ((r, S'), w') \<longrightarrow>
      (db_gitcfg w' = db_gitcfg w \<and> cf_calls w' = cf_calls w) \<or>
      (S' state = None \<and> (\<exists>e. S state = Some e \<and> clock w \<le> st_expires e))) \<and>
   accepted Issue Consume ops Map.empty state \<le> issued ops state"
proof (intro conjI allI impI)
  fix w r S' w'
  assume run: "run_state (GitAppManifestCallback env ae code state S) w = ((r, S'), w')"
  obtain p S1 where c: "Consume state (clock w) S = (p, S1)" by fastforce
  show "(db_gitcfg w' = db_gitcfg w \<and> cf_calls w' = cf_calls w) \<or>
      (S' state = None \<and> (\<exists>e. S state = Some e \<and> clock w \<le> st_expires e))"
  proof (cases p)
    case None
    then have "w' = w" using run c by (simp add: GitAppManifestCallback_def run_state_bind gets_def State_Monad.return_def)
    then show ?thesis by simp
  next
    case (Some githubURL)
    then have "S' = S1" using run c
      by (auto simp: GitAppManifestCallback_def run_state_bind gets_def State_Monad.return_def split: prod.splits)
    then show ?thesis using Consume_valid [OF c [unfolded Some]] by simp
  qed
next
  show "accepted Issue Consume ops Map.empty state \<le> issued ops state"
    using app_states.accepted_at_most_issued [of ops Map.empty state] by simp
qed

section \<open>Registering again\<close>

lemma app_config_save:
  assumes "faults w = []" "db_gitcfg w = [c]" "gc_ID c \<noteq> 0"
  shows "run_state (save_app_config creds) w = (Inr (), w\<lparr>db_gitcfg := [app_config creds c]\<rparr>)"
  unfolding run_wp save_app_config_def wp_bind db_first_def wp_stmt_ok [OF assms(1)]
  using assms by (simp add: wp_simps save_gitcfg_def db_save_def wp_stmt_ok upd_where_def app_config_def)

text \<open>C39: registering a new App over an old one keeps the installation of the old one: whatever the row held, the
  callback stores the new App beside the previous installation, and when there was one the link to
  install the new App is refused as if it were installed.\<close>

theorem reregister_keeps_installation:
  assumes "faults w = []" "db_gitcfg w = [c]" "gc_ID c \<noteq> 0"
    and run: "run_state (GitAppManifestCallback env ae code state S) w = ((Inr url, S'), w')"
  shows "\<exists>creds. db_gitcfg w' = [app_config creds c] \<and> ac_AppID creds \<noteq> 0 \<and>
    gc_GithubAppID (app_config creds c) = ac_AppID creds \<and>
    gc_GithubInstallationID (app_config creds c) = gc_GithubInstallationID c \<and>
    (gc_GithubInstallationID c \<noteq> 0 \<longrightarrow>
      fst (run_state (GetGitAppInstallURL env ae) w') = Inl (400, Errf ''GitHub App already installed'' []))"
proof -
  obtain p S1 where c: "Consume state (clock w) S = (p, S1)" by fastforce
  with run obtain githubURL where p: "p = Some githubURL"
    by (cases p) (auto simp: GitAppManifestCallback_def run_state_bind gets_def State_Monad.return_def)
  then have body: "run_state (complete_app env ae githubURL code) w = (Inr url, w')" using run c
    by (auto simp: GitAppManifestCallback_def run_state_bind gets_def State_Monad.return_def split: prod.splits)
  then obtain creds where creds: "CompleteAppManifest ae githubURL code = Inr creds"
    by (auto simp: complete_app_def State_Monad.return_def split: sum.splits if_splits)
  let ?w1 = "w\<lparr>cf_calls := cf_calls w @ [ProviderUpsert (app_destination githubURL creds)]\<rparr>"
  have save: "run_state (save_app_config creds) ?w1 = (Inr (), ?w1\<lparr>db_gitcfg := [app_config creds c]\<rparr>)"
    using app_config_save [of ?w1 c creds] assms(1-3) by simp
  have "code \<noteq> []" using body by (auto simp: complete_app_def State_Monad.return_def)
  moreover obtain u where "ProviderUpsertDestination env (app_destination githubURL creds) = Inr u"
    using body creds \<open>code \<noteq> []\<close>
    by (cases "ProviderUpsertDestination env (app_destination githubURL creds)") (simp_all add: complete_app_def State_Monad.return_def)
  ultimately have w': "w' = ?w1\<lparr>db_gitcfg := [app_config creds c]\<rparr>"
    using body creds save by (simp add: complete_app_def run_state_bind cf_call_def modify_def onerr_def State_Monad.return_def)
  have "ac_AppID creds \<noteq> 0" using creds by (auto simp: CompleteAppManifest_def split: sum.splits if_splits)
  moreover have "fst (run_state (GetGitAppInstallURL env ae) w') = Inl (400, Errf ''GitHub App already installed'' [])"
    if "gc_GithubInstallationID c \<noteq> 0"
  proof -
    have "run_state (GetGitAppInstallURL env ae) w' = (Inl (400, Errf ''GitHub App already installed'' []), w')"
      unfolding run_wp GetGitAppInstallURL_def wp_onerr db_first_def
      by (subst wp_stmt_ok) (use w' assms(1) that calculation in \<open>simp_all add: wp_simps app_config_def\<close>)
    then show ?thesis by simp
  qed
  ultimately show ?thesis using w' by (intro exI [of _ creds]) (simp add: app_config_def)
qed

section \<open>Who writes what\<close>

definition identity_of :: "GitRepoConfig \<Rightarrow> GitRepoConfig" where
  "identity_of c = c\<lparr>gc_Repo := [], gc_Enabled := False\<rparr>"

lemma save_target:
  assumes "distinct (map gc_ID cs)" "existing \<in> set cs"
  shows "map identity_of (upd_where (\<lambda>r. gc_ID r = gc_ID existing) (\<lambda>_. existing\<lparr>gc_Repo := p, gc_Enabled := b\<rparr>) cs) = map identity_of cs"
proof -
  have "identity_of (if gc_ID r = gc_ID existing then existing\<lparr>gc_Repo := p, gc_Enabled := b\<rparr> else r) = identity_of r" if "r \<in> set cs" for r
    using that assms by (auto simp: identity_of_def distinct_map dest: inj_onD)
  then show ?thesis unfolding upd_where_def by (simp add: comp_def)
qed

lemma warning_wp: "(\<And>x fs. Q x (w\<lparr>faults := fs\<rparr>)) \<Longrightarrow> wp (snapshotImpactWarning b) Q w"
proof -
  assume Q: "\<And>x fs. Q x (w\<lparr>faults := fs\<rparr>)"
  then have "Q x w" for x using Q [of x "faults w"] by simp
  then show ?thesis unfolding snapshotImpactWarning_def by (auto simp: wp_simps Let_def intro!: wp_query Q)
qed

lemma save_target_wp:
  assumes "distinct (map gc_ID (db_gitcfg w))" "0 \<notin> gc_ID ` set (db_gitcfg w)" and ex: "existing \<in> set (db_gitcfg w)"
  shows "wp (save_gitcfg (existing\<lparr>gc_Repo := p, gc_Enabled := b\<rparr>))
    (\<lambda>_ w'. map identity_of (db_gitcfg w') = map identity_of (db_gitcfg w)) (w\<lparr>faults := fs\<rparr>)"
proof -
  have "gc_ID existing \<noteq> 0" using ex assms(2) by force
  then show ?thesis using ex save_target [OF assms(1) ex]
    by (simp add: save_gitcfg_def db_save_def) (intro wp_stmt, auto)
qed

text \<open>C40: in the mode of a GitHub App the client chooses the repository and whether it is used, nothing else: a request
  of that mode leaves the provider, the destination, the owner, the App and its installation of every
  row as they are, whatever its body says and whichever statements fail.\<close>

theorem app_identity_kept:
  assumes "gc_AuthMethod req = AuthMethodGitHubApp" "distinct (map gc_ID (db_gitcfg w))" "0 \<notin> gc_ID ` set (db_gitcfg w)"
    and "run_state (UpsertGitRepoConfig req) w = (r, w')"
  shows "map identity_of (db_gitcfg w') = map identity_of (db_gitcfg w)"
proof -
  let ?Q = "\<lambda>_ w'. map identity_of (db_gitcfg w') = map identity_of (db_gitcfg w)"
  have "wp (updateGitAppTarget req) ?Q w"
  proof (cases "gc_Repo req = []")
    case True
    then show ?thesis by (simp add: updateGitAppTarget_def wp_simps)
  next
    case False
    have "wp (snapshotImpactWarning x \<bind> (\<lambda>warning. onerr (save_gitcfg (existing\<lparr>gc_Repo := gc_Repo req, gc_Enabled := gc_Enabled req\<rparr>))
          (\<lambda>e. (500 :: nat, Errf ''failed to update git repo config: %s'' [Verb e])) (\<lambda>c. done_with (c, warning)))) ?Q (w\<lparr>faults := fs\<rparr>)"
      if "existing \<in> set (db_gitcfg w)" for existing x fs
      unfolding wp_bind
    proof (rule warning_wp)
      fix y gs
      show "wp (onerr (save_gitcfg (existing\<lparr>gc_Repo := gc_Repo req, gc_Enabled := gc_Enabled req\<rparr>))
          (\<lambda>e. (500 :: nat, Errf ''failed to update git repo config: %s'' [Verb e])) (\<lambda>c. done_with (c, y))) ?Q (w\<lparr>faults := fs, faults := gs\<rparr>)"
        using save_target_wp [OF assms(2,3) that, where p = "gc_Repo req" and b = "gc_Enabled req" and fs = gs]
        by (simp add: wp_onerr wp_return) (erule wp_mono, simp add: wp_return split: sum.split)
    qed
    then show ?thesis using False
      by (simp add: updateGitAppTarget_def wp_onerr) (rule gitcfg_table.wp_first, auto simp: wp_return)
  qed
  then show ?thesis using wp_run [OF _ assms(4)] assms(1) by (simp add: UpsertGitRepoConfig_def)
qed

section \<open>Concrete runs\<close>

definition demo_lib :: gh_library where
  "demo_lib = \<lparr>UrlHost = (\<lambda>u. ''github.com''), AppKey = (\<lambda>i k. Inr ()), NewClient = (\<lambda>a e. Inr ())\<rparr>"

definition demo_creds :: AppCredentials where
  "demo_creds = \<lparr>ac_AppID = 9, ac_Slug = ''new'', ac_Owner = ''org'', ac_OwnerType = ''Organization'', ac_PEM = ''pem''\<rparr>"

definition demo_app_env :: app_env where
  "demo_app_env = \<lparr>ae_lib = demo_lib, ae_URIs = [''app.test''], ae_AppName = [], ae_SpaceName = [], ae_Convert = (\<lambda>e c. Inr demo_creds),
     ae_AppsTransport = (\<lambda>i k. Inr ()), ae_DeleteInstallation = (\<lambda>a e i. Inr ()), ae_DeleteDestination = (\<lambda>d. Inr ())\<rparr>"

definition demo_config :: GitRepoConfig where
  "demo_config = \<lparr>gc_ID = 1, gc_AuthMethod = AuthMethodGitHubApp, gc_Provider = ''github'', gc_Repo = ''artifacts'', gc_Enabled = True,
     gc_DestinationName = ''github-app-old'', gc_Owner = ''org'', gc_GithubAppID = 4, gc_GithubInstallationID = 44,
     gc_GithubOwnerType = ''Organization'', gc_GithubAppSlug = ''old''\<rparr>"

definition demo_app_world :: world where
  "demo_app_world = empty_world\<lparr>db_gitcfg := [demo_config]\<rparr>"

definition demo_states :: state_store where
  "demo_states = Map.empty(''st'' \<mapsto> \<lparr>st_payload = [], st_expires = 5\<rparr>)"

theorem reregister_keeps_installation_witness:
  "\<exists>w'. map gc_GithubInstallationID (db_gitcfg w') = [44] \<and>
     snd (run_state (GitAppManifestCallback quiet_env demo_app_env ''code'' ''st'' demo_states) demo_app_world) = w' \<and>
     fst (run_state (GetGitAppInstallURL quiet_env demo_app_env) w') = Inl (400, Errf ''GitHub App already installed'' [])"
proof -
  let ?run = "run_state (GitAppManifestCallback quiet_env demo_app_env ''code'' ''st'' demo_states) demo_app_world"
  have w: "faults demo_app_world = []" "db_gitcfg demo_app_world = [demo_config]" "gc_ID demo_config \<noteq> 0"
    by (simp_all add: demo_app_world_def empty_world_def demo_config_def)
  have "Consume ''st'' (clock demo_app_world) demo_states = (Some [], demo_states(''st'' := None))"
    by (simp add: Consume_def demo_states_def demo_app_world_def empty_world_def)
  moreover have "CompleteAppManifest demo_app_env [] ''code'' = Inr demo_creds"
    by (simp add: CompleteAppManifest_def newUnauthenticatedClient_def demo_app_env_def demo_lib_def demo_creds_def Let_def)
  moreover have "ProviderUpsertDestination quiet_env d = Inr ()" for d by (simp add: quiet_env_def)
  ultimately have "\<exists>url S'. fst ?run = (Inr url, S')"
    using app_config_save [of "demo_app_world\<lparr>cf_calls := cf_calls demo_app_world @ [ProviderUpsert (app_destination [] demo_creds)]\<rparr>" demo_config demo_creds] w
    by (simp add: GitAppManifestCallback_def complete_app_def run_state_bind gets_def cf_call_def modify_def onerr_def State_Monad.return_def)
  then obtain url S' where "?run = ((Inr url, S'), snd ?run)" by (metis prod.collapse)
  from reregister_keeps_installation [OF w this] show ?thesis
    by (auto simp: demo_config_def app_config_def)
qed

theorem app_identity_kept_witness:
  "map identity_of (db_gitcfg (snd (run_state (UpsertGitRepoConfig (demo_config\<lparr>gc_Repo := ''other'', gc_Owner := ''evil''\<rparr>)) demo_app_world))) =
     [identity_of demo_config]"
proof -
  have "db_gitcfg demo_app_world = [demo_config]" by (simp add: demo_app_world_def)
  then show ?thesis
    using app_identity_kept [of "demo_config\<lparr>gc_Repo := ''other'', gc_Owner := ''evil''\<rparr>" demo_app_world, OF _ _ _ prod.collapse [symmetric]]
    by (simp add: demo_config_def)
qed

theorem app_state_guards_witness:
  "accepted Issue Consume [IssueToken ''st'' [] 0, TakeToken ''st'' 1, TakeToken ''st'' 2] Map.empty ''st'' = 1"
proof -
  have "accepted Issue Consume [IssueToken ''st'' [] 0, TakeToken ''st'' 1, TakeToken ''st'' 2] Map.empty ''st'' \<le> 1"
    using app_state_guards [of quiet_env demo_app_env "[]" "''st''" Map.empty "[IssueToken ''st'' [] 0, TakeToken ''st'' 1, TakeToken ''st'' 2]"] by simp
  moreover have "accepted Issue Consume [IssueToken ''st'' [] 0, TakeToken ''st'' 1, TakeToken ''st'' 2] Map.empty ''st'' \<noteq> 0"
    by (simp add: Consume_def Issue_def gcLocked_def DefaultStateTTL_def)
  ultimately show ?thesis by simp
qed

text \<open>The row is looked up with First, and any error of it counts as there is none: when this one statement fails the
  configuration is inserted beside the old one, and the old one stays the one that is used.\<close>

theorem config_duplicated:
  assumes "faults w = [True]" "db_gitcfg w = [c]" "gc_ID c < next_id w" "(GitCfgs, next_id w) \<notin> set (dead w)"
    and "gc_AuthMethod req \<noteq> AuthMethodGitHubApp" "gc_Provider req \<noteq> []" "gc_DestinationName req \<noteq> []" "gc_Repo req \<noteq> []"
      "gc_Owner req \<noteq> []" "gc_ID req = 0"
  shows "db_gitcfg (snd (run_state (UpsertGitRepoConfig req) w)) = [c, req\<lparr>gc_ID := next_id w, gc_AuthMethod := AuthMethodPAT\<rparr>]"
  using assms
  by (simp add: UpsertGitRepoConfig_def run_state_bind db_first_def create_gitcfg_def db_create_def stmt_def onerr_def Let_def State_Monad.return_def)

end
