(* ===== verification/Spec2Isabelle.thy ===== *)
theory Spec2Isabelle
  imports TenantRuns CompareRuns Auth RemoteCall History GitApp Hub Routes
begin

text \<open>
  Verification of the delivery orchestrator for SAP Cloud Integration: a Go service that moves integration
  artifacts between tenants. A user describes a delivery request; the service checks versions and rules,
  has it approved, generates transport requests (CAS), imports them through the Transport Management
  Service (TMS), deploys the artifacts (CPI), follows the progress in background goroutines, compares
  versions between tenants, pushes artifacts to a Git repository and sets up new tenants in Cloud
  Foundry. The theories translate the Go source; each definition carries the name of the function it
  models, and PROJECT.json maps it to its lines.

  The parts and their theories:

  Foundations. Prelude holds the collections of facts and the lemmas on association lists and
  searches. GoStd is the part of Go's standard library the code computes with, GoErr its error
  values: an error keeps its format and its arguments, so equal errors come from equal statements,
  and its text can be rendered where the code searches it. Entities holds the GORM models of db/ as
  records, Env the interfaces of service/service.go to the outside as one record of functions.
  World is the state of the process: the tables, the locks, the goroutines started and not yet run,
  and the schedule of database failures. A handler is a program, that is a State_Monad over worlds
  whose result is a sum of an error and a value; a GORM call is one statement, which fails when the schedule
  says so. World also holds the calculus of weakest preconditions (wp) that the component proofs use.

  Values. Lifecycle: the states of pkg/lifecycle and consts with DeriveImport and
  DeriveAggregateStatus. Versions and Checks: service/checks.go, the version order and the checks
  of rules, transport requests and downgrades. Routes: the two breadth-first searches of service/dr.go.

  Delivery requests. Requests: service/dr.go and handler/delivery_request.go. Approval, Delivery,
  Cancel: service/approve.go, service/deliver.go, service/cancel.go with their handlers. Status and
  Sync: service/sync_status.go and service/sync_tracker.go, the roll-up of a request and its
  synchronisation with TMS and CPI. TrGen: service/tr_resolver.go. Tracker: the two try-locks. Hub:
  service/ws_hub.go.

  Git. GitSync: service/git_sync.go, the snapshots and their file views; GitClaim: the claim of a snapshot
  by concurrent processes, statement by statement. GitHub: pkg/github/github_client.go, the client that
  GitSync sees through its interface, over an abstract state of the remote repository that others change
  too; a commit is followed down to its tree and its parents. GitApp: pkg/github/manifest.go, pkg/github/uninstall.go, handler/git_app_manifest.go and the Git
  configuration of handler/system.go. GoBytes: encoding/base64 and path.Join, which both use.

  Comparisons. VersionCompare: service/version_compare.go with its handlers; CompareRuns: their runs.

  Tenants and settings. Lifecycles: service/tenant_lifecycle.go, service/tenant_cf_identity.go and
  the tenant handlers. Bootstrap and BootstrapRuns: service/tenant_inspector.go,
  service/tenant_bootstrapper.go, the destinations they build and what a bootstrap guarantees. The calls
  to Cloud Foundry that create and delete temporary keys are recorded with the success of each deletion.
  Settings: the registration of TMS nodes, the central TMS context and the delivery rules.

  The process. Machine: requests of users and administrators, goroutines, passing time, failing
  statements and restarts as one inductive step relation over worlds; it starts every goroutine the
  handlers spawn. CompareRuns and TenantRuns prove what holds over all its runs for comparisons and tenants.

  The edge. Auth: pkg/auth, RequireScope of main.go and the browser handlers, as runs of the login
  and session stores; OneTime is the contract of a store of one-time tokens, which its login states and
  the states of GitApp share. RemoteCall: pkg/env/remotecall.go and service/system_config.go. History:
  service/operations_history.go, whose database may find the rows in another order for each page.

  What the lemmas show. Every component has the outcome of its operations on every path, error paths and
  failing statements included (named outcome, effect, success, rows, exact). State invariants are
  relations between the worlds before and after: the locale kept_relation turns a reflexive and
  transitive relation that holds for single statements into one that every program keeps, ops_frame,
  svc_frame, compare_frame, admin_frame and full_frame extend it to the groups of handlers, and
  step_relation to the runs of Machine; each is interpreted on the relations the properties need. The
  contract of a lock (try_lock) is interpreted on the tracker and on the request locks, the contract of
  one-time tokens on both stores of states, the contract of a table on every table, the contract of a three-way comparison on the comparisons of versions. A
  refinement relates GitClaim to the handler of GitSync and the tenant transitions to the documented diagram.

  Bounds. An operation of CAS is polled every 3 seconds for at most 180: the loop of TrGen is a
  partial function, and exportOneTR_returns proves that it ends when time passes. Times are nanoseconds
  as natural numbers: a pending snapshot can be taken over after snapshotPendingTimeout, an ad-hoc
  comparison after its cool-down, a login state lives stateTTL (5 minutes). A remote call sends at most 4
  requests, fetches at most 2 tokens and waits at most 3 seconds. The order on versions is stated for
  up to four numbers below 2 to the 63, the range of Go's int. The offset of a page is a 64-bit word.
  Identifiers are natural numbers; where the code parses one it is bounded by 64 bits. The searches of
  Routes terminate by a measure, with no fuel. A commit is tried three times (commitMaxRetries, the
  argument of the loop); the loop over pages of a list is a partial function, which discovery_returns
  proves to end when every answer names a later page or none.

  Not modelled, and why. Third-party code and services are parameters: CPI, TMS, CAS, Cloud Foundry, GitHub,
  the Destination Service, XSUAA, the JWT library, HMAC, glob patterns, YAML and ZIP, ILIKE and collation of
  the database. Their answers are functions fixed for one handler run and arbitrary across runs. The HTTP
  clients that only build URLs and decode JSON for them (pkg/cas, pkg/cf, pkg/cpi, pkg/tms, pkg/xsuaa),
  the notification channels, tracing, metrics, logging, JSON binding, the list handlers of
  the user interface and the wiring of main are glue around the modelled operations and left out. GORM saves the associations
  of a saved record too (a rule with tenants that are not in the table would insert them): left out, as
  are the browser links of GetGitSnapshots, DestinationServiceEntitled, the cache of the TMS client
  factory and the additional properties of a destination. Also left out: redirects that http.Client follows
  by itself and a request that cannot be built from a malformed URL (Do), an overflow of the lifetime of a
  token (fetchToken), the mutex per branch within one process (gitSync; GitClaim has the claims of snapshots),
  and a failure of the transaction around the reading of a tenant (acquireTenantForTR). Case mapping is ASCII; a quoted argument of an error is not escaped;
  panics inside an export are not modelled. In Machine a handler or one round of a goroutine is one step,
  except the claim of a snapshot (GitClaim) and the deferred release of the sync tracker: finer
  interleavings of two handlers are not covered by its invariants.
\<close>

end
